(* ===== verification/Broker_Prelude.thy ===== *)
theory Broker_Prelude
  imports Main "HOL-Library.Word"
begin

text \<open>
  Shared vocabulary of the development: the machine integers of the Rust sources, Rust's
  \<open>Result\<close> with the \<open>?\<close> operator, byte buffers with their big-endian integers, Rust strings
  as their UTF-8 bytes, and the locale \<open>field_codec\<close>, the contract every encoder/parser
  pair of the wire format satisfies.
\<close>

unbundle bit_operations_syntax

section \<open>Machine integers\<close>

type_synonym u8 = "8 word"
type_synonym u16 = "16 word"
type_synonym u32 = "32 word"
type_synonym u64 = "64 word"

text \<open>A byte buffer (\<open>&[u8]\<close>, \<open>Bytes\<close>, \<open>BytesMut\<close>).\<close>

type_synonym bytes = "u8 list"

text \<open>\<open>u64::saturating_add\<close> and \<open>u64::saturating_sub\<close>.\<close>

definition saturating_add :: "u64 \<Rightarrow> u64 \<Rightarrow> u64" where
  "saturating_add a b = (if unat a + unat b < 2 ^ 64 then a + b else - 1)"

definition saturating_sub :: "u64 \<Rightarrow> u64 \<Rightarrow> u64" where
  "saturating_sub a b = (if b \<le> a then a - b else 0)"

lemma unat_max_u64: "unat (- 1 :: u64) = 2 ^ 64 - 1"
  by (simp add: unsigned_minus_1_eq_mask mask_eq_exp_minus_1)

lemma unat_saturating_add:
  "unat (saturating_add a b) = min (unat a + unat b) (2 ^ 64 - 1)"
proof (cases "unat a + unat b < 2 ^ 64")
  case True
  then have "unat (a + b) = unat a + unat b"
    by (simp add: unat_word_ariths)
  with True show ?thesis
    by (simp add: saturating_add_def)
next
  case False
  then show ?thesis
    using unat_max_u64 by (simp add: saturating_add_def)
qed

lemma unat_saturating_sub: "unat (saturating_sub a b) = unat a - unat b"
  by (auto simp: saturating_sub_def unat_sub word_le_nat_alt)

lemma le_saturating_add: "a \<le> saturating_add a b"
proof -
  have "unat a < 2 ^ 64"
    using unsigned_less [of a] by simp
  then show ?thesis
    by (simp add: word_le_nat_alt unat_saturating_add)
qed

section \<open>Result\<close>

text \<open>Rust's \<open>Result\<close>, and the \<open>?\<close> operator as \<open>and_then\<close>.\<close>

datatype ('a, 'e) result = Ok 'a | Err 'e

fun and_then :: "('a, 'e) result \<Rightarrow> ('a \<Rightarrow> ('b, 'e) result) \<Rightarrow> ('b, 'e) result" where
  "and_then (Ok x) f = f x"
| "and_then (Err e) f = Err e"

fun map_err :: "('e \<Rightarrow> 'f) \<Rightarrow> ('a, 'e) result \<Rightarrow> ('a, 'f) result" where
  "map_err g (Ok x) = Ok x"
| "map_err g (Err e) = Err (g e)"

lemma and_then_cong [fundef_cong]:
  assumes "r = r'" and "\<And>x. r' = Ok x \<Longrightarrow> f x = g x"
  shows "and_then r f = and_then r' g"
  using assms by (cases r') auto

lemma and_then_eq_Ok: "and_then r f = Ok y \<longleftrightarrow> (\<exists>x. r = Ok x \<and> f x = Ok y)"
  by (cases r) auto

lemma and_then_eq_Err:
  "and_then r f = Err e \<longleftrightarrow> r = Err e \<or> (\<exists>x. r = Ok x \<and> f x = Err e)"
  by (cases r) auto

lemma and_then_OkE:
  assumes "and_then r f = Ok y"
  obtains x where "r = Ok x" and "f x = Ok y"
  using assms by (auto simp: and_then_eq_Ok)

lemma and_then_assoc:
  "and_then (and_then r f) g = and_then r (\<lambda>x. and_then (f x) g)"
  by (cases r) auto

text \<open>A fallible map over a list that stops at the first error (\<open>collect::<Result<Vec<_>>>\<close>).\<close>

fun map_result :: "('a \<Rightarrow> ('b, 'e) result) \<Rightarrow> 'a list \<Rightarrow> ('b list, 'e) result" where
  "map_result f [] = Ok []"
| "map_result f (x # xs) = and_then (f x) (\<lambda>y. and_then (map_result f xs) (\<lambda>ys. Ok (y # ys)))"

lemma map_result_Ok_iff:
  "map_result f xs = Ok ys \<longleftrightarrow> list_all2 (\<lambda>x y. f x = Ok y) xs ys"
  by (induction xs arbitrary: ys) (auto simp: and_then_eq_Ok list_all2_Cons1)

section \<open>Big-endian integers\<close>

text \<open>\<open>BufMut::put_u16\<close>, \<open>put_u32\<close> and \<open>u64::to_be_bytes\<close>, with their \<open>from_be_bytes\<close>.\<close>

definition be16 :: "u16 \<Rightarrow> bytes" where
  "be16 w = [word_of_nat (unat w div 256), word_of_nat (unat w)]"

definition from_be16 :: "u8 \<Rightarrow> u8 \<Rightarrow> u16" where
  "from_be16 a b = word_of_nat (unat a * 256 + unat b)"

definition be32 :: "u32 \<Rightarrow> bytes" where
  "be32 w = [word_of_nat (unat w div 16777216), word_of_nat (unat w div 65536),
             word_of_nat (unat w div 256), word_of_nat (unat w)]"

definition from_be32 :: "u8 \<Rightarrow> u8 \<Rightarrow> u8 \<Rightarrow> u8 \<Rightarrow> u32" where
  "from_be32 a b c d =
     word_of_nat (unat a * 16777216 + unat b * 65536 + unat c * 256 + unat d)"

lemma unat_u8_of_nat: "unat (word_of_nat n :: u8) = n mod 256"
  by (simp add: unat_of_nat)

lemma unat_u8_less: "unat (b :: u8) < 256"
  using unsigned_less [of b] by simp

lemma word_of_nat_unat_same: "word_of_nat (unat w) = (w :: 'a::len word)"
  by simp

lemma split_be16: "n < 65536 \<Longrightarrow> n div 256 mod 256 * 256 + n mod 256 = (n :: nat)"
  by (simp add: less_mult_imp_div_less)

lemma split_be32:
  assumes "n < 4294967296"
  shows "n div 16777216 mod 256 * 16777216 + n div 65536 mod 256 * 65536
    + n div 256 mod 256 * 256 + n mod 256 = (n :: nat)"
proof -
  have "n div 16777216 < 256"
    using assms by (simp add: less_mult_imp_div_less)
  then have a: "n div 16777216 mod 256 = n div 65536 div 256"
    by (simp flip: div_mult2_eq)
  have b: "n div 65536 = n div 256 div 256"
    by (simp flip: div_mult2_eq)
  show ?thesis
    using div_mult_mod_eq [of "n div 65536" 256] div_mult_mod_eq [of "n div 256" 256]
      div_mult_mod_eq [of n 256] unfolding a b by linarith
qed

lemma from_be16_be16: "from_be16 (word_of_nat (unat w div 256)) (word_of_nat (unat w)) = w"
proof -
  have "unat w < 65536"
    using unsigned_less [of w] by simp
  then show ?thesis
    by (simp only: from_be16_def unat_u8_of_nat split_be16 word_of_nat_unat_same)
qed

lemma from_be32_be32:
  "from_be32 (word_of_nat (unat w div 16777216)) (word_of_nat (unat w div 65536))
     (word_of_nat (unat w div 256)) (word_of_nat (unat w)) = w"
proof -
  have "unat w < 4294967296"
    using unsigned_less [of w] by simp
  then show ?thesis
    by (simp only: from_be32_def unat_u8_of_nat split_be32 word_of_nat_unat_same)
qed

lemma length_be16 [simp]: "length (be16 w) = 2"
  by (simp add: be16_def)

lemma length_be32 [simp]: "length (be32 w) = 4"
  by (simp add: be32_def)

section \<open>Strings\<close>

text \<open>
  A Rust \<open>String\<close> is modelled by its UTF-8 bytes as a HOL \<open>string\<close>: a \<open>char\<close> of HOL is a
  byte, so \<open>length\<close> is Rust's \<open>len()\<close>. Every Rust string satisfies \<open>valid_str\<close>;
  \<open>from_utf8\<close> is \<open>std::str::from_utf8\<close>, whose acceptance table is that of the standard library.
\<close>

definition byte_of_char :: "char \<Rightarrow> u8" where
  "byte_of_char c = word_of_nat (of_char c)"

definition char_of_byte :: "u8 \<Rightarrow> char" where
  "char_of_byte b = char_of (unat b)"

definition as_bytes :: "string \<Rightarrow> bytes" where
  "as_bytes s = map byte_of_char s"

definition utf8_cont :: "u8 \<Rightarrow> bool" where
  "utf8_cont b \<longleftrightarrow> 0x80 \<le> b \<and> b \<le> 0xBF"

text \<open>The lead byte with the range of the byte that follows it (three and four byte forms).\<close>

definition utf8_second3 :: "u8 \<Rightarrow> u8 \<Rightarrow> bool" where
  "utf8_second3 b c \<longleftrightarrow>
     (b = 0xE0 \<and> 0xA0 \<le> c \<and> c \<le> 0xBF) \<or>
     (0xE1 \<le> b \<and> b \<le> 0xEC \<and> utf8_cont c) \<or>
     (b = 0xED \<and> 0x80 \<le> c \<and> c \<le> 0x9F) \<or>
     (0xEE \<le> b \<and> b \<le> 0xEF \<and> utf8_cont c)"

definition utf8_second4 :: "u8 \<Rightarrow> u8 \<Rightarrow> bool" where
  "utf8_second4 b c \<longleftrightarrow>
     (b = 0xF0 \<and> 0x90 \<le> c \<and> c \<le> 0xBF) \<or>
     (0xF1 \<le> b \<and> b \<le> 0xF3 \<and> utf8_cont c) \<or>
     (b = 0xF4 \<and> 0x80 \<le> c \<and> c \<le> 0x8F)"

fun utf8_valid :: "bytes \<Rightarrow> bool" where
  "utf8_valid [] = True"
| "utf8_valid (b # bs) =
     (if b < 0x80 then utf8_valid bs
      else if 0xC2 \<le> b \<and> b \<le> 0xDF
        then (case bs of c # r \<Rightarrow> utf8_cont c \<and> utf8_valid r | _ \<Rightarrow> False)
      else if 0xE0 \<le> b \<and> b \<le> 0xEF
        then (case bs of c # d # r \<Rightarrow> utf8_second3 b c \<and> utf8_cont d \<and> utf8_valid r | _ \<Rightarrow> False)
      else (case bs of c # d # e # r \<Rightarrow>
              utf8_second4 b c \<and> utf8_cont d \<and> utf8_cont e \<and> utf8_valid r | _ \<Rightarrow> False))"

definition valid_str :: "string \<Rightarrow> bool" where
  "valid_str s \<longleftrightarrow> utf8_valid (as_bytes s)"

definition from_utf8 :: "bytes \<Rightarrow> string option" where
  "from_utf8 bs = (if utf8_valid bs then Some (map char_of_byte bs) else None)"

lemma char_of_byte_of_char [simp]: "char_of_byte (byte_of_char c) = c"
proof -
  have "(of_char c :: nat) < 256"
    by simp
  then show ?thesis
    by (simp add: char_of_byte_def byte_of_char_def unat_u8_of_nat)
qed

lemma byte_of_char_of_byte [simp]: "byte_of_char (char_of_byte b) = b"
  using unat_u8_less [of b] by (simp add: char_of_byte_def byte_of_char_def of_char_mod_256)

lemma length_as_bytes [simp]: "length (as_bytes s) = length s"
  by (simp add: as_bytes_def)

lemma as_bytes_map_char_of_byte [simp]: "as_bytes (map char_of_byte bs) = bs"
  by (simp add: as_bytes_def o_def)

lemma map_char_of_byte_as_bytes [simp]: "map char_of_byte (as_bytes s) = s"
  by (simp add: as_bytes_def o_def)

lemma as_bytes_eq_Nil [simp]: "as_bytes s = [] \<longleftrightarrow> s = []"
  by (simp add: as_bytes_def)

lemma from_utf8_as_bytes: "valid_str s \<Longrightarrow> from_utf8 (as_bytes s) = Some s"
  by (simp add: valid_str_def from_utf8_def)

lemma from_utf8_Some: "from_utf8 bs = Some s \<longleftrightarrow> valid_str s \<and> as_bytes s = bs"
  by (auto simp: valid_str_def from_utf8_def)

section \<open>Stream parsers and field codecs\<close>

text \<open>
  The contract of a parser over a byte stream: a successful parse consumes a nonempty prefix
  and does not look behind it, so that more input changes nothing but the rest.
\<close>

locale stream_parser =
  fixes dec :: "bytes \<Rightarrow> (bytes \<times> 'a, 'e) result"
  assumes dec_consumes: "dec i = Ok (r, v) \<Longrightarrow> \<exists>c. c \<noteq> [] \<and> i = c @ r"
    and dec_extend: "dec i = Ok (r, v) \<Longrightarrow> dec (i @ m) = Ok (r @ m, v)"
begin

lemma dec_shorter: "dec i = Ok (r, v) \<Longrightarrow> length r < length i"
  using dec_consumes by fastforce

lemma dec_local: "dec i = Ok (r, v) \<Longrightarrow> \<exists>c. i = c @ r \<and> length c = length i - length r"
  using dec_consumes by fastforce

end

text \<open>Sequencing keeps both laws: a parser followed by a continuation that has them.\<close>

lemma and_then_consumes:
  assumes "and_then (d i) (\<lambda>(j, v). f j v) = Ok (r, q)"
    and "\<And>r v. d i = Ok (r, v) \<Longrightarrow> \<exists>c. c \<noteq> [] \<and> i = c @ r"
    and "\<And>j v. f j v = Ok (r, q) \<Longrightarrow> \<exists>c. j = c @ r"
  shows "\<exists>c. c \<noteq> [] \<and> i = c @ r"
proof -
  from assms(1) obtain j v where "d i = Ok (j, v)" and "f j v = Ok (r, q)"
    by (auto simp: and_then_eq_Ok)
  with assms(2,3) obtain a b where "a \<noteq> []" "i = a @ j" "j = b @ r"
    by meson
  then show ?thesis
    by (intro exI [of _ "a @ b"]) simp
qed

lemma consumes_weaken: "\<exists>c. c \<noteq> [] \<and> i = c @ r \<Longrightarrow> \<exists>c. i = c @ r"
  by blast

lemma and_then_extend:
  assumes "and_then (d i) (\<lambda>(j, v). f j v) = Ok (r, q)"
    and "\<And>r v. d i = Ok (r, v) \<Longrightarrow> d (i @ m) = Ok (r @ m, v)"
    and "\<And>j v. f j v = Ok (r, q) \<Longrightarrow> f (j @ m) v = Ok (r @ m, q)"
  shows "and_then (d (i @ m)) (\<lambda>(j, v). f j v) = Ok (r @ m, q)"
  using assms by (cases "d i") auto

text \<open>
  The contract of an encoder with its parser: on well-formed values a successful encoding
  appends bytes that the parser reads back, whatever follows them.
\<close>

locale field_codec = stream_parser dec
  for dec :: "bytes \<Rightarrow> (bytes \<times> 'a, 'e) result" +
  fixes enc :: "'a \<Rightarrow> bytes \<Rightarrow> (bytes, 'e) result"
    and wf :: "'a \<Rightarrow> bool"
  assumes enc_dec: "wf v \<Longrightarrow> enc v buf = Ok buf' \<Longrightarrow>
    \<exists>bs. buf' = buf @ bs \<and> (\<forall>rest. dec (bs @ rest) = Ok (rest, v))"
begin

lemma enc_injective:
  assumes "wf v" and "wf w" and "enc v buf = Ok b" and "enc w buf = Ok b"
  shows "v = w"
proof -
  obtain bs cs where "b = buf @ bs" "\<forall>rest. dec (bs @ rest) = Ok (rest, v)"
    and "b = buf @ cs" "\<forall>rest. dec (cs @ rest) = Ok (rest, w)"
    using enc_dec assms by meson
  then show ?thesis by (metis Pair_inject result.inject(1) same_append_eq)
qed

lemma enc_nonempty:
  assumes "wf v" and "enc v buf = Ok b"
  shows "length buf < length b"
proof -
  obtain bs where "b = buf @ bs" "dec (bs @ []) = Ok ([], v)"
    using enc_dec assms by meson
  then show ?thesis using dec_shorter by fastforce
qed

end

end
