(* ===== verification/Mqtt_Packet.thy ===== *)
theory Mqtt_Packet
  imports Broker_Prelude
begin

text \<open>
  The protocol-neutral packets of \<open>mqtt/src/packet.rs\<close>: the structs as records, the enums as
  datatypes, and the accessors of \<open>impl Packet\<close>. A field name that several structs share
  carries a prefix for its struct.
\<close>

section \<open>Enumerations\<close>

datatype protocol_version = V3_1_1 | V5_0

datatype reason_code =
    RC_Success
  | RC_GrantedQos0
  | RC_GrantedQos1
  | RC_GrantedQos2
  | RC_NormalDisconnection
  | RC_NoMatchingSubscribers
  | RC_NoSubscriptionExisted
  | RC_ContinueAuthentication
  | RC_ReAuthenticate
  | RC_UnspecifiedError
  | RC_MalformedPacket
  | RC_ProtocolError
  | RC_ImplementationSpecificError
  | RC_UnsupportedProtocolVersion
  | RC_ClientIdentifierNotValid
  | RC_BadUserNameOrPassword
  | RC_NotAuthorized
  | RC_ServerUnavailable
  | RC_TopicFilterInvalid
  | RC_TopicNameInvalid
  | RC_PacketIdentifierInUse
  | RC_PacketIdentifierNotFound
  | RC_PacketTooLarge
  | RC_QuotaExceeded
  | RC_PayloadFormatInvalid
  | RC_RetainNotSupported
  | RC_QosNotSupported
  | RC_BadAuthenticationMethod
  | RC_SharedSubscriptionsNotSupported
  | RC_SubscriptionIdentifiersNotSupported
  | RC_WildcardSubscriptionsNotSupported

fun reason_code_as_u8 :: "reason_code \<Rightarrow> u8" where
  "reason_code_as_u8 RC_Success = 0x00"
| "reason_code_as_u8 RC_GrantedQos0 = 0x00"
| "reason_code_as_u8 RC_NormalDisconnection = 0x00"
| "reason_code_as_u8 RC_GrantedQos1 = 0x01"
| "reason_code_as_u8 RC_GrantedQos2 = 0x02"
| "reason_code_as_u8 RC_NoMatchingSubscribers = 0x10"
| "reason_code_as_u8 RC_NoSubscriptionExisted = 0x11"
| "reason_code_as_u8 RC_ContinueAuthentication = 0x18"
| "reason_code_as_u8 RC_ReAuthenticate = 0x19"
| "reason_code_as_u8 RC_UnspecifiedError = 0x80"
| "reason_code_as_u8 RC_MalformedPacket = 0x81"
| "reason_code_as_u8 RC_ProtocolError = 0x82"
| "reason_code_as_u8 RC_ImplementationSpecificError = 0x83"
| "reason_code_as_u8 RC_UnsupportedProtocolVersion = 0x84"
| "reason_code_as_u8 RC_ClientIdentifierNotValid = 0x85"
| "reason_code_as_u8 RC_BadUserNameOrPassword = 0x86"
| "reason_code_as_u8 RC_NotAuthorized = 0x87"
| "reason_code_as_u8 RC_ServerUnavailable = 0x88"
| "reason_code_as_u8 RC_TopicFilterInvalid = 0x8F"
| "reason_code_as_u8 RC_TopicNameInvalid = 0x90"
| "reason_code_as_u8 RC_PacketIdentifierInUse = 0x91"
| "reason_code_as_u8 RC_PacketIdentifierNotFound = 0x92"
| "reason_code_as_u8 RC_PacketTooLarge = 0x95"
| "reason_code_as_u8 RC_QuotaExceeded = 0x97"
| "reason_code_as_u8 RC_PayloadFormatInvalid = 0x99"
| "reason_code_as_u8 RC_RetainNotSupported = 0x9A"
| "reason_code_as_u8 RC_QosNotSupported = 0x9B"
| "reason_code_as_u8 RC_BadAuthenticationMethod = 0x8C"
| "reason_code_as_u8 RC_SharedSubscriptionsNotSupported = 0x9E"
| "reason_code_as_u8 RC_SubscriptionIdentifiersNotSupported = 0xA1"
| "reason_code_as_u8 RC_WildcardSubscriptionsNotSupported = 0xA2"

datatype retain_handling = SendAtSubscribe | SendAtSubscribeIfNew | DoNotSend

section \<open>Structs\<close>

record properties =
  payload_format_indicator :: "u8 option"
  message_expiry_interval :: "u32 option"
  content_type :: "string option"
  response_topic :: "string option"
  correlation_data :: "bytes option"
  subscription_identifiers :: "u32 list"
  session_expiry_interval :: "u32 option"
  assigned_client_identifier :: "string option"
  server_keep_alive :: "u16 option"
  authentication_method :: "string option"
  authentication_data :: "bytes option"
  request_problem_information :: "bool option"
  will_delay_interval :: "u32 option"
  request_response_information :: "bool option"
  response_information :: "string option"
  server_reference :: "string option"
  reason_string :: "string option"
  receive_maximum :: "u16 option"
  topic_alias_maximum :: "u16 option"
  topic_alias :: "u16 option"
  maximum_qos :: "u8 option"
  retain_available :: "bool option"
  user_properties :: "(string \<times> string) list"
  maximum_packet_size :: "u32 option"
  wildcard_subscription_available :: "bool option"
  subscription_identifier_available :: "bool option"
  shared_subscription_available :: "bool option"

text \<open>\<open>Properties::default()\<close>.\<close>

definition default_properties :: properties where
  "default_properties = \<lparr>
     payload_format_indicator = None, message_expiry_interval = None, content_type = None,
     response_topic = None, correlation_data = None, subscription_identifiers = [],
     session_expiry_interval = None, assigned_client_identifier = None,
     server_keep_alive = None, authentication_method = None, authentication_data = None,
     request_problem_information = None, will_delay_interval = None,
     request_response_information = None, response_information = None,
     server_reference = None, reason_string = None, receive_maximum = None,
     topic_alias_maximum = None, topic_alias = None, maximum_qos = None,
     retain_available = None, user_properties = [], maximum_packet_size = None,
     wildcard_subscription_available = None, subscription_identifier_available = None,
     shared_subscription_available = None\<rparr>"

record will =
  will_topic :: string
  will_payload :: bytes
  will_qos :: u8
  will_retain :: bool
  will_properties :: properties

record connect =
  connect_protocol_version :: protocol_version
  client_id :: string
  username :: "string option"
  password :: "string option"
  keep_alive :: u16
  clean_start :: bool
  connect_session_expiry_interval :: "u32 option"
  connect_will :: "will option"
  connect_properties :: properties

record connack =
  connack_protocol_version :: protocol_version
  session_present :: bool
  connack_reason_code :: reason_code
  connack_properties :: properties

record publish =
  publish_protocol_version :: protocol_version
  topic_name :: string
  payload :: bytes
  publish_qos :: u8
  retain :: bool
  dup :: bool
  publish_packet_identifier :: "u16 option"
  publish_properties :: properties
  expires_at_unix_secs :: "u64 option"

record ack =
  ack_protocol_version :: protocol_version
  ack_packet_identifier :: u16
  ack_reason_code :: reason_code
  ack_properties :: properties

record subscribe_topic =
  topic_filter :: string
  topic_qos :: u8
  no_local :: bool
  retain_as_published :: bool
  retain_handling :: retain_handling

record subscribe =
  subscribe_protocol_version :: protocol_version
  subscribe_packet_identifier :: u16
  subscribe_topics :: "subscribe_topic list"
  subscribe_properties :: properties

record suback =
  suback_protocol_version :: protocol_version
  suback_packet_identifier :: u16
  suback_reason_codes :: "reason_code list"
  suback_properties :: properties

record unsubscribe =
  unsubscribe_protocol_version :: protocol_version
  unsubscribe_packet_identifier :: u16
  unsubscribe_topics :: "string list"
  unsubscribe_properties :: properties

record unsuback =
  unsuback_protocol_version :: protocol_version
  unsuback_packet_identifier :: u16
  unsuback_reason_codes :: "reason_code list"
  unsuback_properties :: properties

record disconnect =
  disconnect_protocol_version :: protocol_version
  disconnect_reason_code :: reason_code
  disconnect_session_expiry_interval :: "u32 option"
  disconnect_properties :: properties

record auth =
  auth_reason_code :: reason_code
  auth_properties :: properties

datatype packet =
    Connect connect
  | Connack connack
  | Publish publish
  | Puback ack
  | Pubrec ack
  | Pubrel ack
  | Pubcomp ack
  | Subscribe subscribe
  | Suback suback
  | Unsubscribe unsubscribe
  | Unsuback unsuback
  | Pingreq
  | Pingresp
  | Disconnect disconnect
  | Auth auth

section \<open>Accessors\<close>

fun packet_protocol_version :: "packet \<Rightarrow> protocol_version option" where
  "packet_protocol_version (Connect p) = Some (connect_protocol_version p)"
| "packet_protocol_version (Connack p) = Some (connack_protocol_version p)"
| "packet_protocol_version (Publish p) = Some (publish_protocol_version p)"
| "packet_protocol_version (Puback p) = Some (ack_protocol_version p)"
| "packet_protocol_version (Pubrec p) = Some (ack_protocol_version p)"
| "packet_protocol_version (Pubrel p) = Some (ack_protocol_version p)"
| "packet_protocol_version (Pubcomp p) = Some (ack_protocol_version p)"
| "packet_protocol_version (Subscribe p) = Some (subscribe_protocol_version p)"
| "packet_protocol_version (Suback p) = Some (suback_protocol_version p)"
| "packet_protocol_version (Unsubscribe p) = Some (unsubscribe_protocol_version p)"
| "packet_protocol_version (Unsuback p) = Some (unsuback_protocol_version p)"
| "packet_protocol_version (Disconnect p) = Some (disconnect_protocol_version p)"
| "packet_protocol_version Pingreq = None"
| "packet_protocol_version Pingresp = None"
| "packet_protocol_version (Auth p) = None"

fun set_dup :: "int \<Rightarrow> packet \<Rightarrow> packet" where
  "set_dup d (Publish p) = Publish (p\<lparr>dup := (d \<noteq> 0)\<rparr>)"
| "set_dup d p = p"

fun packet_publish :: "packet \<Rightarrow> publish option" where
  "packet_publish (Publish p) = Some p"
| "packet_publish _ = None"

fun set_protocol_version :: "protocol_version \<Rightarrow> packet \<Rightarrow> packet" where
  "set_protocol_version v (Connect p) = Connect (p\<lparr>connect_protocol_version := v\<rparr>)"
| "set_protocol_version v (Connack p) = Connack (p\<lparr>connack_protocol_version := v\<rparr>)"
| "set_protocol_version v (Publish p) = Publish (p\<lparr>publish_protocol_version := v\<rparr>)"
| "set_protocol_version v (Puback p) = Puback (p\<lparr>ack_protocol_version := v\<rparr>)"
| "set_protocol_version v (Pubrec p) = Pubrec (p\<lparr>ack_protocol_version := v\<rparr>)"
| "set_protocol_version v (Pubrel p) = Pubrel (p\<lparr>ack_protocol_version := v\<rparr>)"
| "set_protocol_version v (Pubcomp p) = Pubcomp (p\<lparr>ack_protocol_version := v\<rparr>)"
| "set_protocol_version v (Subscribe p) = Subscribe (p\<lparr>subscribe_protocol_version := v\<rparr>)"
| "set_protocol_version v (Suback p) = Suback (p\<lparr>suback_protocol_version := v\<rparr>)"
| "set_protocol_version v (Unsubscribe p) = Unsubscribe (p\<lparr>unsubscribe_protocol_version := v\<rparr>)"
| "set_protocol_version v (Unsuback p) = Unsuback (p\<lparr>unsuback_protocol_version := v\<rparr>)"
| "set_protocol_version v (Disconnect p) = Disconnect (p\<lparr>disconnect_protocol_version := v\<rparr>)"
| "set_protocol_version v Pingreq = Pingreq"
| "set_protocol_version v Pingresp = Pingresp"
| "set_protocol_version v (Auth p) = Auth p"

lemma set_protocol_version_reads_back:
  "packet_protocol_version (set_protocol_version v p) =
     (if packet_protocol_version p = None then None else Some v)"
  by (cases p) simp_all

lemma set_dup_keeps_version [simp]:
  "packet_protocol_version (set_dup d p) = packet_protocol_version p"
  by (cases p) simp_all

section \<open>Values Rust's types guarantee\<close>

text \<open>Every string field of a packet holds valid UTF-8.\<close>

fun valid_opt_str :: "string option \<Rightarrow> bool" where
  "valid_opt_str None = True"
| "valid_opt_str (Some s) = valid_str s"

definition utf8_properties :: "properties \<Rightarrow> bool" where
  "utf8_properties p \<longleftrightarrow>
     valid_opt_str (content_type p) \<and> valid_opt_str (response_topic p) \<and>
     valid_opt_str (assigned_client_identifier p) \<and> valid_opt_str (authentication_method p) \<and>
     valid_opt_str (response_information p) \<and> valid_opt_str (server_reference p) \<and>
     valid_opt_str (reason_string p) \<and>
     list_all (\<lambda>(k, v). valid_str k \<and> valid_str v) (user_properties p)"

fun utf8_packet :: "packet \<Rightarrow> bool" where
  "utf8_packet (Connect p) \<longleftrightarrow>
     valid_str (client_id p) \<and> valid_opt_str (username p) \<and> valid_opt_str (password p) \<and>
     utf8_properties (connect_properties p) \<and>
     (case connect_will p of None \<Rightarrow> True
      | Some w \<Rightarrow> valid_str (will_topic w) \<and> utf8_properties (will_properties w))"
| "utf8_packet (Connack p) \<longleftrightarrow> utf8_properties (connack_properties p)"
| "utf8_packet (Publish p) \<longleftrightarrow> valid_str (topic_name p) \<and> utf8_properties (publish_properties p)"
| "utf8_packet (Puback p) \<longleftrightarrow> utf8_properties (ack_properties p)"
| "utf8_packet (Pubrec p) \<longleftrightarrow> utf8_properties (ack_properties p)"
| "utf8_packet (Pubrel p) \<longleftrightarrow> utf8_properties (ack_properties p)"
| "utf8_packet (Pubcomp p) \<longleftrightarrow> utf8_properties (ack_properties p)"
| "utf8_packet (Subscribe p) \<longleftrightarrow>
     list_all (\<lambda>t. valid_str (topic_filter t)) (subscribe_topics p) \<and>
     utf8_properties (subscribe_properties p)"
| "utf8_packet (Suback p) \<longleftrightarrow> utf8_properties (suback_properties p)"
| "utf8_packet (Unsubscribe p) \<longleftrightarrow>
     list_all valid_str (unsubscribe_topics p) \<and> utf8_properties (unsubscribe_properties p)"
| "utf8_packet (Unsuback p) \<longleftrightarrow> utf8_properties (unsuback_properties p)"
| "utf8_packet Pingreq \<longleftrightarrow> True"
| "utf8_packet Pingresp \<longleftrightarrow> True"
| "utf8_packet (Disconnect p) \<longleftrightarrow> utf8_properties (disconnect_properties p)"
| "utf8_packet (Auth p) \<longleftrightarrow> utf8_properties (auth_properties p)"

lemma default_properties_sel [simp]:
  "payload_format_indicator default_properties = None"
  "message_expiry_interval default_properties = None"
  "content_type default_properties = None"
  "response_topic default_properties = None"
  "correlation_data default_properties = None"
  "subscription_identifiers default_properties = []"
  "session_expiry_interval default_properties = None"
  "assigned_client_identifier default_properties = None"
  "server_keep_alive default_properties = None"
  "authentication_method default_properties = None"
  "authentication_data default_properties = None"
  "request_problem_information default_properties = None"
  "will_delay_interval default_properties = None"
  "request_response_information default_properties = None"
  "response_information default_properties = None"
  "server_reference default_properties = None"
  "reason_string default_properties = None"
  "receive_maximum default_properties = None"
  "topic_alias_maximum default_properties = None"
  "topic_alias default_properties = None"
  "maximum_qos default_properties = None"
  "retain_available default_properties = None"
  "user_properties default_properties = []"
  "maximum_packet_size default_properties = None"
  "wildcard_subscription_available default_properties = None"
  "subscription_identifier_available default_properties = None"
  "shared_subscription_available default_properties = None"
  by (simp_all add: default_properties_def)

lemma utf8_default_properties [simp]: "utf8_properties default_properties"
  by (simp add: utf8_properties_def)

end
