(* ===== verification/V5_Common.thy ===== *)
theory V5_Common
  imports Mqtt_Packet
begin

text \<open>
  The primitive encoders and parsers of \<open>mqtt/src/v5/common.rs\<close>: variable byte integers,
  big-endian integers, length-prefixed binary data and UTF-8 strings, with the error type of
  the whole version 5 codec. An encoder takes the buffer it appends to and returns the longer
  buffer; a parser takes the input and returns what is left of it with the value. Each pair is
  an instance of \<open>field_codec\<close>.
\<close>

section \<open>Errors\<close>

datatype mqtt5_parse_error =
    Incomplete string
  | MalformedVariableByteInteger
  | VariableByteIntegerTooLarge u32
  | StringTooLong nat
  | BinaryTooLong nat
  | InvalidUtf8
  | MalformedPacket string
  | UnsupportedPacketType u8
  | InvalidFixedHeaderFlags u8 u8
  | RemainingLengthExceeded u32 u32
  | UnknownProperty u32
  | DuplicateProperty string
  | PropertyNotAllowed string string
  | InvalidPropertyValue string
  | UnknownReasonCode u8
  | ReasonCodeNotAllowed u8 string

type_synonym 'a parsed = "(bytes \<times> 'a, mqtt5_parse_error) result"
type_synonym encoded = "(bytes, mqtt5_parse_error) result"

subsection \<open>Display\<close>

text \<open>The integer formats \<open>{}\<close>, \<open>{:#x}\<close> and \<open>{:#06b}\<close>.\<close>

fun fmt_radix :: "nat \<Rightarrow> nat \<Rightarrow> string" where
  "fmt_radix b n =
     (if n < b \<or> b < 2 then [''0123456789abcdef'' ! (n mod 16)]
      else fmt_radix b (n div b) @ [''0123456789abcdef'' ! (n mod b mod 16)])"

declare fmt_radix.simps [simp del]

definition fmt_dec :: "nat \<Rightarrow> string" where
  "fmt_dec n = fmt_radix 10 n"

definition fmt_hex :: "nat \<Rightarrow> string" where
  "fmt_hex n = ''0x'' @ fmt_radix 16 n"

definition fmt_bin06 :: "nat \<Rightarrow> string" where
  "fmt_bin06 n = (let ds = fmt_radix 2 n in ''0b'' @ replicate (4 - length ds) (CHR ''0'') @ ds)"

fun display_error :: "mqtt5_parse_error \<Rightarrow> string" where
  "display_error (Incomplete ctx) = ''incomplete MQTT 5 '' @ ctx"
| "display_error MalformedVariableByteInteger = ''malformed MQTT 5 variable byte integer''"
| "display_error (VariableByteIntegerTooLarge v) =
     ''MQTT 5 variable byte integer too large: '' @ fmt_dec (unat v)"
| "display_error (StringTooLong n) = ''MQTT 5 UTF-8 string too long: '' @ fmt_dec n"
| "display_error (BinaryTooLong n) = ''MQTT 5 binary data too long: '' @ fmt_dec n"
| "display_error InvalidUtf8 = ''invalid MQTT 5 UTF-8 string''"
| "display_error (MalformedPacket reason) = ''malformed MQTT 5 packet: '' @ reason"
| "display_error (UnsupportedPacketType t) =
     ''unsupported MQTT 5 packet type: '' @ fmt_dec (unat t)"
| "display_error (InvalidFixedHeaderFlags t f) =
     ''invalid MQTT 5 fixed header flags '' @ fmt_bin06 (unat f) @ '' for packet type ''
       @ fmt_dec (unat t)"
| "display_error (RemainingLengthExceeded r m) =
     ''MQTT 5 remaining length '' @ fmt_dec (unat r) @ '' exceeds max message size ''
       @ fmt_dec (unat m)"
| "display_error (UnknownProperty i) =
     ''unknown MQTT 5 property identifier: '' @ fmt_hex (unat i)"
| "display_error (DuplicateProperty p) = ''duplicate MQTT 5 property: '' @ p"
| "display_error (PropertyNotAllowed p s) =
     ''MQTT 5 property '' @ p @ '' is not allowed on '' @ s"
| "display_error (InvalidPropertyValue p) = ''invalid MQTT 5 property value: '' @ p"
| "display_error (UnknownReasonCode c) = ''unknown MQTT 5 reason code: '' @ fmt_hex (unat c)"
| "display_error (ReasonCodeNotAllowed c t) =
     ''MQTT 5 reason code '' @ fmt_hex (unat c) @ '' is not allowed on '' @ t"

section \<open>Variable byte integers\<close>

definition MAX_VARIABLE_BYTE_INTEGER :: u32 where
  "MAX_VARIABLE_BYTE_INTEGER = 268435455"

text \<open>The loop over \<open>index in 0..4\<close>; the first argument counts the iterations left.\<close>

fun parse_variable_byte_integer_loop :: "nat \<Rightarrow> u32 \<Rightarrow> u32 \<Rightarrow> bytes \<Rightarrow> u32 parsed" where
  "parse_variable_byte_integer_loop 0 val multiplier input = Err MalformedVariableByteInteger"
| "parse_variable_byte_integer_loop (Suc n) val multiplier [] =
     Err (Incomplete ''variable byte integer'')"
| "parse_variable_byte_integer_loop (Suc n) val multiplier (b # rest) =
     (let val = val + ucast (b AND 0x7F) * multiplier
      in if b AND 0x80 = 0 then Ok (rest, val)
         else parse_variable_byte_integer_loop n val (multiplier * 128) rest)"

definition parse_variable_byte_integer :: "bytes \<Rightarrow> u32 parsed" where
  "parse_variable_byte_integer input = parse_variable_byte_integer_loop 4 0 1 input"

lemma div_128_less:
  assumes "v div 128 \<noteq> 0"
  shows "unat (v div 128) < unat (v :: u32)"
proof -
  have "unat (v div 128) = unat v div 128"
    by (simp add: unat_div)
  moreover from assms have "unat v \<noteq> 0"
    by (auto simp: unat_eq_zero)
  ultimately show ?thesis by simp
qed

function encode_variable_byte_integer_loop :: "u32 \<Rightarrow> bytes \<Rightarrow> bytes" where
  "encode_variable_byte_integer_loop v buffer =
     (let encoded_byte = ucast (v mod 128); v' = v div 128;
          encoded_byte = (if v' > 0 then encoded_byte OR 0x80 else encoded_byte);
          buffer = buffer @ [encoded_byte]
      in if v' = 0 then buffer else encode_variable_byte_integer_loop v' buffer)"
  by pat_completeness auto
termination
  by (relation "measure (\<lambda>(v, b). unat v)") (auto simp: div_128_less)

declare encode_variable_byte_integer_loop.simps [simp del]

definition encode_variable_byte_integer :: "u32 \<Rightarrow> bytes \<Rightarrow> encoded" where
  "encode_variable_byte_integer v buffer =
     (if v > MAX_VARIABLE_BYTE_INTEGER then Err (VariableByteIntegerTooLarge v)
      else Ok (encode_variable_byte_integer_loop v buffer))"

function variable_byte_integer_len_loop :: "u32 \<Rightarrow> nat \<Rightarrow> nat" where
  "variable_byte_integer_len_loop v n =
     (if v \<ge> 128 then variable_byte_integer_len_loop (v div 128) (n + 1) else n)"
  by pat_completeness auto
termination
  by (relation "measure (\<lambda>(v, n). unat v)") (auto simp: unat_div word_le_nat_alt)

declare variable_byte_integer_len_loop.simps [simp del]

definition variable_byte_integer_len :: "u32 \<Rightarrow> (nat, mqtt5_parse_error) result" where
  "variable_byte_integer_len v =
     (if v > MAX_VARIABLE_BYTE_INTEGER then Err (VariableByteIntegerTooLarge v)
      else Ok (variable_byte_integer_len_loop v 1))"

section \<open>Fixed-size integers\<close>

fun parse_u8 :: "bytes \<Rightarrow> string \<Rightarrow> u8 parsed" where
  "parse_u8 [] ctx = Err (Incomplete ctx)"
| "parse_u8 (b # rest) ctx = Ok (rest, b)"

fun parse_u16 :: "bytes \<Rightarrow> string \<Rightarrow> u16 parsed" where
  "parse_u16 (a # b # rest) ctx = Ok (rest, from_be16 a b)"
| "parse_u16 _ ctx = Err (Incomplete ctx)"

fun parse_u32 :: "bytes \<Rightarrow> string \<Rightarrow> u32 parsed" where
  "parse_u32 (a # b # c # d # rest) ctx = Ok (rest, from_be32 a b c d)"
| "parse_u32 _ ctx = Err (Incomplete ctx)"

section \<open>Binary data and strings\<close>

definition parse_binary :: "bytes \<Rightarrow> bytes parsed" where
  "parse_binary input =
     and_then (parse_u16 input ''binary data length'') (\<lambda>(input, n).
       let n = unat n in
       if length input < n then Err (Incomplete ''binary data'')
       else Ok (drop n input, take n input))"

definition parse_utf8_string :: "bytes \<Rightarrow> string parsed" where
  "parse_utf8_string input =
     and_then (parse_binary input) (\<lambda>(input, data).
       case from_utf8 data of
         None \<Rightarrow> Err InvalidUtf8
       | Some s \<Rightarrow> Ok (input, s))"

definition parse_boolean :: "bytes \<Rightarrow> string \<Rightarrow> bool parsed" where
  "parse_boolean input property =
     and_then (parse_u8 input property) (\<lambda>(input, v).
       if v = 0 then Ok (input, False)
       else if v = 1 then Ok (input, True)
       else Err (InvalidPropertyValue property))"

definition encode_utf8_string :: "string \<Rightarrow> bytes \<Rightarrow> encoded" where
  "encode_utf8_string s buffer =
     (if length s > 65535 then Err (StringTooLong (length s))
      else Ok (buffer @ be16 (word_of_nat (length s)) @ as_bytes s))"

definition encode_binary :: "bytes \<Rightarrow> bytes \<Rightarrow> encoded" where
  "encode_binary v buffer =
     (if length v > 65535 then Err (BinaryTooLong (length v))
      else Ok (buffer @ be16 (word_of_nat (length v)) @ v))"

section \<open>Laws of the variable byte integers\<close>

lemma and_7f: "(b :: u8) AND 0x7F = b mod 128"
proof -
  have "(0x7F :: u8) = mask 7"
    by (simp add: mask_eq_exp_minus_1)
  then have "b AND 0x7F = take_bit 7 b"
    by (simp add: take_bit_eq_mask)
  then show ?thesis
    by (simp add: take_bit_eq_mod)
qed

lemma low_byte_facts:
  assumes "(b :: u8) < 128"
  shows "(b OR 0x80) AND 0x7F = b" and "b AND 0x7F = b"
    and "(b OR 0x80) AND 0x80 \<noteq> 0" and "b AND 0x80 = 0"
proof -
  show b: "b AND 0x7F = b"
    using assms by (simp add: and_7f mod_word_less)
  show "(b OR 0x80) AND 0x7F = b"
    using b by (simp add: word_ao_dist)
  have "(b AND 0x7F) AND 0x80 = 0"
    by (simp add: and.assoc)
  then show z: "b AND 0x80 = 0"
    using b by simp
  then show "(b OR 0x80) AND 0x80 \<noteq> 0"
    by (simp add: word_ao_dist)
qed

lemma vbi_loop_roundtrip:
  assumes "unat v < 128 ^ n" and "0 < n"
  shows "\<exists>bs. bs \<noteq> [] \<and> encode_variable_byte_integer_loop v buffer = buffer @ bs \<and>
    (\<forall>rest acc m. parse_variable_byte_integer_loop n acc m (bs @ rest) = Ok (rest, acc + v * m))"
  using assms
proof (induction n arbitrary: v buffer)
  case 0
  then show ?case by simp
next
  case (Suc n)
  define b :: u8 where "b = ucast (v mod 128)"
  have v: "v = (v div 128) * 128 + v mod 128"
    by (simp add: word_mod_div_equality)
  have small: "v mod 128 < 128"
    by (simp add: word_mod_less_divisor)
  have "unat b = unat (v mod 128)"
    using small unfolding b_def by (simp add: unsigned_ucast_eq take_bit_eq_mod word_less_nat_alt)
  then have b128: "b < 128" and ub: "ucast b = v mod 128"
    using small by (simp add: word_less_nat_alt) (metis \<open>unat b = unat (v mod 128)\<close> of_nat_unat ucast_id)
  show ?case
  proof (cases "v div 128 = 0")
    case True
    then have "encode_variable_byte_integer_loop v buffer = buffer @ [b]"
      by (simp add: encode_variable_byte_integer_loop.simps b_def)
    moreover have "parse_variable_byte_integer_loop (Suc n) acc m ([b] @ rest) = Ok (rest, acc + v * m)"
      for rest acc m
      using v True b128 ub by (simp add: low_byte_facts)
    ultimately show ?thesis by blast
  next
    case False
    have q: "unat (v div 128) < 128 ^ n"
      using Suc.prems by (simp add: unat_div less_mult_imp_div_less mult.commute)
    with False have "0 < n"
      by (cases n) (auto simp: unat_eq_zero)
    with q Suc.IH obtain cs where cs:
      "encode_variable_byte_integer_loop (v div 128) (buffer @ [b OR 0x80]) = (buffer @ [b OR 0x80]) @ cs"
      "\<forall>rest acc m. parse_variable_byte_integer_loop n acc m (cs @ rest) = Ok (rest, acc + (v div 128) * m)"
      by blast
    have "v div 128 > 0"
      using False by (simp add: word_neq_0_conv)
    then have "encode_variable_byte_integer_loop v buffer = buffer @ (b OR 0x80) # cs"
      using False cs(1) by (subst encode_variable_byte_integer_loop.simps)
        (simp add: b_def Let_def)
    moreover have "parse_variable_byte_integer_loop (Suc n) acc m (((b OR 0x80) # cs) @ rest)
        = Ok (rest, acc + v * m)" for rest acc m
    proof -
      have "(v mod 128) * m + (v div 128) * (m * 128) = v * m"
        by (subst (3) v) (simp add: algebra_simps)
      then show ?thesis
        using cs(2) b128 ub by (simp add: low_byte_facts add.assoc)
    qed
    ultimately show ?thesis by blast
  qed
qed

lemma vbi_loop_consumes:
  "parse_variable_byte_integer_loop n acc m i = Ok (r, v) \<Longrightarrow> \<exists>c. c \<noteq> [] \<and> i = c @ r"
  by (induction n acc m i rule: parse_variable_byte_integer_loop.induct)
    (fastforce simp: Let_def split: if_splits)+

interpretation vbi: field_codec parse_variable_byte_integer encode_variable_byte_integer "\<lambda>_. True"
proof unfold_locales
  have ext: "parse_variable_byte_integer_loop n acc k i = Ok (r, v) \<Longrightarrow>
      parse_variable_byte_integer_loop n acc k (i @ m) = Ok (r @ m, v)" for n acc k i r v m
    by (induction n acc k i rule: parse_variable_byte_integer_loop.induct)
      (auto simp: Let_def split: if_splits)
  show "\<exists>c. c \<noteq> [] \<and> i = c @ r" if "parse_variable_byte_integer i = Ok (r, v)" for i r v
    using that unfolding parse_variable_byte_integer_def by (rule vbi_loop_consumes)
  show "parse_variable_byte_integer (i @ m) = Ok (r @ m, v)"
    if "parse_variable_byte_integer i = Ok (r, v)" for i r v m
    using that unfolding parse_variable_byte_integer_def by (rule ext)
  show "\<exists>bs. buf' = buf @ bs \<and> (\<forall>rest. parse_variable_byte_integer (bs @ rest) = Ok (rest, v))"
    if "encode_variable_byte_integer v buf = Ok buf'" for v buf buf'
  proof -
    from that have "v \<le> MAX_VARIABLE_BYTE_INTEGER" and e: "encode_variable_byte_integer_loop v buf = buf'"
      by (simp_all add: encode_variable_byte_integer_def split: if_splits)
    then have "unat v < 128 ^ 4"
      by (simp add: MAX_VARIABLE_BYTE_INTEGER_def word_le_nat_alt)
    with e show ?thesis
      using vbi_loop_roundtrip [of v 4 buf] by (auto simp: parse_variable_byte_integer_def)
  qed
qed

lemma vbi_loop_bound:
  assumes "parse_variable_byte_integer_loop n acc m i = Ok (r, v)"
    and "unat m * 128 ^ n \<le> 2 ^ 28" and "unat acc < unat m"
  shows "unat v < unat m * 128 ^ n"
  using assms
proof (induction n acc m i rule: parse_variable_byte_integer_loop.induct)
  case (3 n acc m b rest)
  define x where "x = unat (b AND 0x7F)"
  have x: "x < 128" and ux: "unat (ucast (b AND 0x7F) :: u32) = x"
  proof -
    show "x < 128" by (simp add: x_def and_7f unat_mod)
    then show "unat (ucast (b AND 0x7F) :: u32) = x"
      by (simp add: unsigned_ucast_eq x_def take_bit_nat_eq_self_iff)
  qed
  have "unat m * 128 \<le> unat m * 128 ^ Suc n"
    by simp
  with "3.prems"(2) have m: "unat m * 128 \<le> 2 ^ 28"
    by linarith
  have "x * unat m \<le> 127 * unat m"
    using x by simp
  with "3.prems"(3) have s: "unat acc + x * unat m < unat m * 128"
    by linarith
  with m have big: "unat acc + x * unat m < 2 ^ 32"
    by simp
  then have "x * unat m < 2 ^ 32" by linarith
  with big have acc': "unat (acc + ucast (b AND 0x7F) * m) = unat acc + x * unat m"
    by (simp add: unat_word_ariths ux)
  have m': "unat (m * 128) = unat m * 128"
    using m by (simp add: unat_word_ariths)
  show ?case
  proof (cases "b AND 0x80 = 0")
    case True
    then have "unat v = unat acc + x * unat m"
      using "3.prems"(1) acc' by (simp add: Let_def)
    also have "\<dots> < unat m * 128"
      by (rule s)
    also have "\<dots> \<le> unat m * 128 ^ Suc n"
      by simp
    finally show ?thesis .
  next
    case False
    with "3.IH" "3.prems" s acc' m' show ?thesis
      by (simp add: Let_def mult.assoc)
  qed
qed simp_all

lemma parse_variable_byte_integer_bound:
  assumes "parse_variable_byte_integer i = Ok (r, v)"
  shows "v \<le> MAX_VARIABLE_BYTE_INTEGER"
proof -
  have "unat v < 1 * 128 ^ 4"
    using vbi_loop_bound [OF assms [unfolded parse_variable_byte_integer_def]] by simp
  then show ?thesis
    by (simp add: MAX_VARIABLE_BYTE_INTEGER_def word_le_nat_alt)
qed

lemma variable_byte_integer_len_loop_Suc:
  "variable_byte_integer_len_loop v (Suc n) = Suc (variable_byte_integer_len_loop v n)"
proof (induction v n rule: variable_byte_integer_len_loop.induct)
  case (1 v n)
  then show ?case
    by (cases "v \<ge> 128") (simp_all add: variable_byte_integer_len_loop.simps [of v])
qed

lemma div_128_eq_0: "v div 128 = 0 \<longleftrightarrow> \<not> 128 \<le> (v :: u32)"
proof -
  have "v div 128 = 0 \<longleftrightarrow> unat v div 128 = 0"
    by (simp add: unat_div flip: unat_eq_zero)
  then show ?thesis
    by (simp add: word_le_nat_alt div_eq_0_iff not_le)
qed

lemma encode_variable_byte_integer_loop_length:
  "length (encode_variable_byte_integer_loop v buffer) = length buffer + variable_byte_integer_len_loop v 1"
proof (induction v buffer rule: encode_variable_byte_integer_loop.induct)
  case (1 v buffer)
  show ?case
  proof (cases "v div 128 = 0")
    case True
    then show ?thesis
      by (simp add: encode_variable_byte_integer_loop.simps [of v] Let_def variable_byte_integer_len_loop.simps [of v]
        div_128_eq_0)
  next
    case False
    then show ?thesis
      using "1" by (simp add: encode_variable_byte_integer_loop.simps [of v] Let_def
        variable_byte_integer_len_loop.simps [of v] div_128_eq_0 variable_byte_integer_len_loop_Suc)
  qed
qed

section \<open>Laws of the other fields\<close>

interpretation byte_field: field_codec "\<lambda>i. parse_u8 i ctx" "\<lambda>v buf. Ok (buf @ [v])" "\<lambda>_. True"
  for ctx
proof unfold_locales
  fix i r v m
  assume "parse_u8 i ctx = Ok (r, v)"
  then show "\<exists>c. c \<noteq> [] \<and> i = c @ r" and "parse_u8 (i @ m) ctx = Ok (r @ m, v)"
    by (cases i; simp)+
qed simp

interpretation u16_field: field_codec "\<lambda>i. parse_u16 i ctx" "\<lambda>v buf. Ok (buf @ be16 v)" "\<lambda>_. True"
  for ctx
proof unfold_locales
  fix i r v m
  assume a: "parse_u16 i ctx = Ok (r, v)"
  show "\<exists>c. c \<noteq> [] \<and> i = c @ r"
    using a by (cases "(i, ctx)" rule: parse_u16.cases) (auto intro: exI [of _ "[_, _]"])
  show "parse_u16 (i @ m) ctx = Ok (r @ m, v)"
    using a by (cases "(i, ctx)" rule: parse_u16.cases) auto
next
  fix v buf buf'
  assume "Ok (buf @ be16 v) = Ok buf'"
  then show "\<exists>bs. buf' = buf @ bs \<and> (\<forall>rest. parse_u16 (bs @ rest) ctx = Ok (rest, v))"
    by (auto simp: be16_def from_be16_be16 intro!: exI [of _ "be16 v"] simp del: of_nat_unat)
qed

interpretation u32_field: field_codec "\<lambda>i. parse_u32 i ctx" "\<lambda>v buf. Ok (buf @ be32 v)" "\<lambda>_. True"
  for ctx
proof unfold_locales
  fix i r v m
  assume a: "parse_u32 i ctx = Ok (r, v)"
  show "\<exists>c. c \<noteq> [] \<and> i = c @ r"
    using a by (cases "(i, ctx)" rule: parse_u32.cases) (auto intro: exI [of _ "[_, _, _, _]"])
  show "parse_u32 (i @ m) ctx = Ok (r @ m, v)"
    using a by (cases "(i, ctx)" rule: parse_u32.cases) auto
next
  fix v buf buf'
  assume "Ok (buf @ be32 v) = Ok buf'"
  then show "\<exists>bs. buf' = buf @ bs \<and> (\<forall>rest. parse_u32 (bs @ rest) ctx = Ok (rest, v))"
    by (auto simp: be32_def from_be32_be32 intro!: exI [of _ "be32 v"] simp del: of_nat_unat)
qed

interpretation binary: field_codec parse_binary encode_binary "\<lambda>_. True"
proof unfold_locales
  fix i r v m
  assume "parse_binary i = Ok (r, v)"
  then obtain j n where j: "parse_u16 i ''binary data length'' = Ok (j, n)"
    and n: "unat n \<le> length j" "r = drop (unat n) j" "v = take (unat n) j"
    by (auto simp: parse_binary_def and_then_eq_Ok Let_def split: if_splits)
  from u16_field.dec_consumes [OF j] n show "\<exists>c. c \<noteq> [] \<and> i = c @ r"
    by (metis append_assoc append_is_Nil_conv append_take_drop_id)
  from u16_field.dec_extend [OF j] n show "parse_binary (i @ m) = Ok (r @ m, v)"
    by (simp add: parse_binary_def Let_def)
next
  fix v buf buf'
  assume "encode_binary v buf = Ok buf'"
  then have l: "length v \<le> 65535" and b: "buf' = buf @ be16 (word_of_nat (length v)) @ v"
    by (simp_all add: encode_binary_def split: if_splits)
  from l have u: "unat (word_of_nat (length v) :: u16) = length v"
    by (simp add: unat_of_nat)
  have "parse_u16 (be16 w @ rest) c = Ok (rest, w)" for w rest c
    using u16_field.enc_dec [where v = w and buf = "[]"] by simp
  then have "parse_binary ((be16 (word_of_nat (length v)) @ v) @ rest) = Ok (rest, v)" for rest
    using u by (simp add: parse_binary_def)
  with b show "\<exists>bs. buf' = buf @ bs \<and> (\<forall>rest. parse_binary (bs @ rest) = Ok (rest, v))"
    by blast
qed

interpretation utf8_field: field_codec parse_utf8_string encode_utf8_string valid_str
proof unfold_locales
  fix i r v m
  assume "parse_utf8_string i = Ok (r, v)"
  then obtain d where d: "parse_binary i = Ok (r, d)" "from_utf8 d = Some v"
    by (auto simp: parse_utf8_string_def and_then_eq_Ok split: option.splits)
  from binary.dec_consumes [OF d(1)] show "\<exists>c. c \<noteq> [] \<and> i = c @ r" .
  from binary.dec_extend [OF d(1)] d(2) show "parse_utf8_string (i @ m) = Ok (r @ m, v)"
    by (simp add: parse_utf8_string_def)
next
  fix v buf buf'
  assume v: "valid_str v" and "encode_utf8_string v buf = Ok buf'"
  then have "encode_binary (as_bytes v) buf = Ok buf'"
    by (simp add: encode_utf8_string_def encode_binary_def split: if_splits)
  then obtain bs where "buf' = buf @ bs" "\<forall>rest. parse_binary (bs @ rest) = Ok (rest, as_bytes v)"
    using binary.enc_dec by blast
  with v show "\<exists>bs. buf' = buf @ bs \<and> (\<forall>rest. parse_utf8_string (bs @ rest) = Ok (rest, v))"
    by (auto simp: parse_utf8_string_def from_utf8_as_bytes)
qed

interpretation bool_field: field_codec "\<lambda>i. parse_boolean i pname"
  "\<lambda>v buf. Ok (buf @ [if v then 1 else 0])" "\<lambda>_. True" for pname
proof unfold_locales
  fix i r v m
  assume a: "parse_boolean i pname = Ok (r, v)"
  show "\<exists>c. c \<noteq> [] \<and> i = c @ r"
    using a by (cases i) (auto simp: parse_boolean_def split: if_splits)
  show "parse_boolean (i @ m) pname = Ok (r @ m, v)"
    using a by (cases i) (auto simp: parse_boolean_def split: if_splits)
qed (auto simp: parse_boolean_def)


lemma parse_u16_be16 [simp]: "parse_u16 (be16 w @ rest) ctx = Ok (rest, w)"
  using u16_field.enc_dec [where v = w and buf = "[]"] by simp

lemma parse_u32_be32 [simp]: "parse_u32 (be32 w @ rest) ctx = Ok (rest, w)"
  using u32_field.enc_dec [where v = w and buf = "[]"] by simp

text \<open>Reading a one-byte variable byte integer, the form of every property identifier.\<close>

lemma parse_variable_byte_integer_small:
  assumes "b < 128"
  shows "parse_variable_byte_integer (b # rest) = Ok (rest, ucast b)"
proof -
  have "parse_variable_byte_integer_loop (Suc n) 0 1 (b # rest) = Ok (rest, ucast b)" for n
    using low_byte_facts [OF assms] by simp
  from this [of 3] show ?thesis
    by (simp add: parse_variable_byte_integer_def)
qed

section \<open>Incremental parsing\<close>

text \<open>
  A parser that is fed a stream piecewise: it needs no bytes but those it consumes, and reports a
  strict prefix of them as \<open>Incomplete\<close>, never as an error of the sender.
\<close>

locale incremental_parser = stream_parser dec
  for dec :: "bytes \<Rightarrow> 'a parsed" +
  assumes dec_exact: "dec (c @ r) = Ok (r, v) \<Longrightarrow> dec c = Ok ([], v)"
    and dec_prefix: "dec (xs @ ys) = Ok ([], v) \<Longrightarrow> ys \<noteq> [] \<Longrightarrow> \<exists>s. dec xs = Err (Incomplete s)"
begin

lemma dec_front:
  assumes "dec (c @ r) = Ok (r, v)"
  shows "dec (c @ r') = Ok (r', v)"
  using dec_extend [OF dec_exact [OF assms], of r'] by simp

lemma dec_splits:
  assumes "dec i = Ok (r, v)" and "i = xs @ ys"
  shows "(\<exists>zs. dec xs = Ok (zs, v) \<and> zs @ ys = r) \<or> (\<exists>s. dec xs = Err (Incomplete s))"
proof -
  from dec_consumes [OF assms(1)] obtain c where c: "i = c @ r" by blast
  from assms(1) have e: "dec c = Ok ([], v)"
    unfolding c by (rule dec_exact)
  from c assms(2) have "c @ r = xs @ ys" by simp
  then obtain us where us: "c = xs @ us \<and> us @ r = ys \<or> c @ us = xs \<and> r = us @ ys"
    unfolding append_eq_append_conv2 by blast
  show ?thesis
  proof (cases "c = xs @ us \<and> us \<noteq> []")
    case True
    with e dec_prefix show ?thesis by blast
  next
    case False
    with us have "\<exists>zs. xs = c @ zs \<and> zs @ ys = r"
      by auto
    with dec_extend [OF e] show ?thesis by fastforce
  qed
qed

end

lemma vbi_loop_exact:
  "parse_variable_byte_integer_loop n acc m i = Ok (r, v) \<Longrightarrow> i = c @ r \<Longrightarrow>
   parse_variable_byte_integer_loop n acc m c = Ok ([], v)"
proof (induction n acc m i arbitrary: c rule: parse_variable_byte_integer_loop.induct)
  case (3 n acc m b rest)
  then show ?case
  proof (cases "b AND 0x80 = 0")
    case True
    with "3.prems" show ?thesis
      by (cases c) (auto simp: Let_def)
  next
    case False
    with "3.prems"(1) have l: "parse_variable_byte_integer_loop n (acc + ucast (b AND 0x7F) * m) (m * 128) rest = Ok (r, v)"
      by (simp add: Let_def)
    from vbi_loop_consumes [OF l] "3.prems"(2) obtain c' where "c = b # c'" "rest = c' @ r"
      by (cases c) auto
    with "3.IH" [OF refl False l] False show ?thesis
      by (simp add: Let_def)
  qed
qed simp_all

lemma vbi_loop_prefix:
  "parse_variable_byte_integer_loop n acc m i = Ok ([], v) \<Longrightarrow> i = xs @ ys \<Longrightarrow> ys \<noteq> [] \<Longrightarrow>
   \<exists>s. parse_variable_byte_integer_loop n acc m xs = Err (Incomplete s)"
proof (induction n acc m i arbitrary: xs rule: parse_variable_byte_integer_loop.induct)
  case (3 n acc m b rest)
  then show ?case
    by (cases xs) (auto simp: Let_def split: if_splits)
qed simp_all

interpretation vbi_inc: incremental_parser parse_variable_byte_integer
proof unfold_locales
  show "parse_variable_byte_integer c = Ok ([], v)"
    if "parse_variable_byte_integer (c @ r) = Ok (r, v)" for c r v
    using that vbi_loop_exact unfolding parse_variable_byte_integer_def by blast
  show "\<exists>s. parse_variable_byte_integer xs = Err (Incomplete s)"
    if "parse_variable_byte_integer (xs @ ys) = Ok ([], v)" "ys \<noteq> []" for xs ys v
    using that vbi_loop_prefix unfolding parse_variable_byte_integer_def by blast
qed

end
