(* ===== verification/V5_Properties.thy ===== *)
theory V5_Properties
  imports V5_Common Mqtt_Packet
begin

text \<open>
  The property block of \<open>mqtt/src/v5/properties.rs\<close>: property identifiers with the packets that
  may carry them, the parser of a property block and its encoder.
\<close>

section \<open>Identifiers and scopes\<close>

datatype property_scope =
    Scope_Connect
  | Scope_Connack
  | Scope_Publish
  | Scope_Will
  | Scope_Puback
  | Scope_Pubrec
  | Scope_Pubrel
  | Scope_Pubcomp
  | Scope_Subscribe
  | Scope_Suback
  | Scope_Unsubscribe
  | Scope_Unsuback
  | Scope_Disconnect
  | Scope_Auth

fun property_scope_name :: "property_scope \<Rightarrow> string" where
  "property_scope_name Scope_Connect = ''CONNECT''"
| "property_scope_name Scope_Connack = ''CONNACK''"
| "property_scope_name Scope_Publish = ''PUBLISH''"
| "property_scope_name Scope_Will = ''Will Properties''"
| "property_scope_name Scope_Puback = ''PUBACK''"
| "property_scope_name Scope_Pubrec = ''PUBREC''"
| "property_scope_name Scope_Pubrel = ''PUBREL''"
| "property_scope_name Scope_Pubcomp = ''PUBCOMP''"
| "property_scope_name Scope_Subscribe = ''SUBSCRIBE''"
| "property_scope_name Scope_Suback = ''SUBACK''"
| "property_scope_name Scope_Unsubscribe = ''UNSUBSCRIBE''"
| "property_scope_name Scope_Unsuback = ''UNSUBACK''"
| "property_scope_name Scope_Disconnect = ''DISCONNECT''"
| "property_scope_name Scope_Auth = ''AUTH''"

datatype property_identifier =
    PI_PayloadFormatIndicator
  | PI_MessageExpiryInterval
  | PI_ContentType
  | PI_ResponseTopic
  | PI_CorrelationData
  | PI_SubscriptionIdentifier
  | PI_SessionExpiryInterval
  | PI_AssignedClientIdentifier
  | PI_ServerKeepAlive
  | PI_AuthenticationMethod
  | PI_AuthenticationData
  | PI_RequestProblemInformation
  | PI_WillDelayInterval
  | PI_RequestResponseInformation
  | PI_ResponseInformation
  | PI_ServerReference
  | PI_ReasonString
  | PI_ReceiveMaximum
  | PI_TopicAliasMaximum
  | PI_TopicAlias
  | PI_MaximumQos
  | PI_RetainAvailable
  | PI_UserProperty
  | PI_MaximumPacketSize
  | PI_WildcardSubscriptionAvailable
  | PI_SubscriptionIdentifierAvailable
  | PI_SharedSubscriptionAvailable

definition property_identifier_from_u32 ::
  "u32 \<Rightarrow> (property_identifier, mqtt5_parse_error) result" where
  "property_identifier_from_u32 v =
     (if v = 0x01 then Ok PI_PayloadFormatIndicator
      else if v = 0x02 then Ok PI_MessageExpiryInterval
      else if v = 0x03 then Ok PI_ContentType
      else if v = 0x08 then Ok PI_ResponseTopic
      else if v = 0x09 then Ok PI_CorrelationData
      else if v = 0x0B then Ok PI_SubscriptionIdentifier
      else if v = 0x11 then Ok PI_SessionExpiryInterval
      else if v = 0x12 then Ok PI_AssignedClientIdentifier
      else if v = 0x13 then Ok PI_ServerKeepAlive
      else if v = 0x15 then Ok PI_AuthenticationMethod
      else if v = 0x16 then Ok PI_AuthenticationData
      else if v = 0x17 then Ok PI_RequestProblemInformation
      else if v = 0x18 then Ok PI_WillDelayInterval
      else if v = 0x19 then Ok PI_RequestResponseInformation
      else if v = 0x1A then Ok PI_ResponseInformation
      else if v = 0x1C then Ok PI_ServerReference
      else if v = 0x1F then Ok PI_ReasonString
      else if v = 0x21 then Ok PI_ReceiveMaximum
      else if v = 0x22 then Ok PI_TopicAliasMaximum
      else if v = 0x23 then Ok PI_TopicAlias
      else if v = 0x24 then Ok PI_MaximumQos
      else if v = 0x25 then Ok PI_RetainAvailable
      else if v = 0x26 then Ok PI_UserProperty
      else if v = 0x27 then Ok PI_MaximumPacketSize
      else if v = 0x28 then Ok PI_WildcardSubscriptionAvailable
      else if v = 0x29 then Ok PI_SubscriptionIdentifierAvailable
      else if v = 0x2A then Ok PI_SharedSubscriptionAvailable
      else Err (UnknownProperty v))"

fun property_identifier_as_u32 :: "property_identifier \<Rightarrow> u32" where
  "property_identifier_as_u32 PI_PayloadFormatIndicator = 0x01"
| "property_identifier_as_u32 PI_MessageExpiryInterval = 0x02"
| "property_identifier_as_u32 PI_ContentType = 0x03"
| "property_identifier_as_u32 PI_ResponseTopic = 0x08"
| "property_identifier_as_u32 PI_CorrelationData = 0x09"
| "property_identifier_as_u32 PI_SubscriptionIdentifier = 0x0B"
| "property_identifier_as_u32 PI_SessionExpiryInterval = 0x11"
| "property_identifier_as_u32 PI_AssignedClientIdentifier = 0x12"
| "property_identifier_as_u32 PI_ServerKeepAlive = 0x13"
| "property_identifier_as_u32 PI_AuthenticationMethod = 0x15"
| "property_identifier_as_u32 PI_AuthenticationData = 0x16"
| "property_identifier_as_u32 PI_RequestProblemInformation = 0x17"
| "property_identifier_as_u32 PI_WillDelayInterval = 0x18"
| "property_identifier_as_u32 PI_RequestResponseInformation = 0x19"
| "property_identifier_as_u32 PI_ResponseInformation = 0x1A"
| "property_identifier_as_u32 PI_ServerReference = 0x1C"
| "property_identifier_as_u32 PI_ReasonString = 0x1F"
| "property_identifier_as_u32 PI_ReceiveMaximum = 0x21"
| "property_identifier_as_u32 PI_TopicAliasMaximum = 0x22"
| "property_identifier_as_u32 PI_TopicAlias = 0x23"
| "property_identifier_as_u32 PI_MaximumQos = 0x24"
| "property_identifier_as_u32 PI_RetainAvailable = 0x25"
| "property_identifier_as_u32 PI_UserProperty = 0x26"
| "property_identifier_as_u32 PI_MaximumPacketSize = 0x27"
| "property_identifier_as_u32 PI_WildcardSubscriptionAvailable = 0x28"
| "property_identifier_as_u32 PI_SubscriptionIdentifierAvailable = 0x29"
| "property_identifier_as_u32 PI_SharedSubscriptionAvailable = 0x2A"

fun property_identifier_name :: "property_identifier \<Rightarrow> string" where
  "property_identifier_name PI_PayloadFormatIndicator = ''payload_format_indicator''"
| "property_identifier_name PI_MessageExpiryInterval = ''message_expiry_interval''"
| "property_identifier_name PI_ContentType = ''content_type''"
| "property_identifier_name PI_ResponseTopic = ''response_topic''"
| "property_identifier_name PI_CorrelationData = ''correlation_data''"
| "property_identifier_name PI_SubscriptionIdentifier = ''subscription_identifier''"
| "property_identifier_name PI_SessionExpiryInterval = ''session_expiry_interval''"
| "property_identifier_name PI_AssignedClientIdentifier = ''assigned_client_identifier''"
| "property_identifier_name PI_ServerKeepAlive = ''server_keep_alive''"
| "property_identifier_name PI_AuthenticationMethod = ''authentication_method''"
| "property_identifier_name PI_AuthenticationData = ''authentication_data''"
| "property_identifier_name PI_RequestProblemInformation = ''request_problem_information''"
| "property_identifier_name PI_WillDelayInterval = ''will_delay_interval''"
| "property_identifier_name PI_RequestResponseInformation = ''request_response_information''"
| "property_identifier_name PI_ResponseInformation = ''response_information''"
| "property_identifier_name PI_ServerReference = ''server_reference''"
| "property_identifier_name PI_ReasonString = ''reason_string''"
| "property_identifier_name PI_ReceiveMaximum = ''receive_maximum''"
| "property_identifier_name PI_TopicAliasMaximum = ''topic_alias_maximum''"
| "property_identifier_name PI_TopicAlias = ''topic_alias''"
| "property_identifier_name PI_MaximumQos = ''maximum_qos''"
| "property_identifier_name PI_RetainAvailable = ''retain_available''"
| "property_identifier_name PI_UserProperty = ''user_property''"
| "property_identifier_name PI_MaximumPacketSize = ''maximum_packet_size''"
| "property_identifier_name PI_WildcardSubscriptionAvailable = ''wildcard_subscription_available''"
| "property_identifier_name PI_SubscriptionIdentifierAvailable = ''subscription_identifier_available''"
| "property_identifier_name PI_SharedSubscriptionAvailable = ''shared_subscription_available''"

fun allowed_on :: "property_identifier \<Rightarrow> property_scope \<Rightarrow> bool" where
  "allowed_on i Scope_Connect = (i \<in> {
      PI_SessionExpiryInterval, PI_ReceiveMaximum, PI_MaximumPacketSize,
      PI_TopicAliasMaximum, PI_RequestResponseInformation,
      PI_RequestProblemInformation, PI_UserProperty, PI_AuthenticationMethod,
      PI_AuthenticationData})"
| "allowed_on i Scope_Connack = (i \<in> {
      PI_SessionExpiryInterval, PI_AssignedClientIdentifier, PI_ServerKeepAlive,
      PI_AuthenticationMethod, PI_AuthenticationData, PI_ResponseInformation,
      PI_ServerReference, PI_ReasonString, PI_ReceiveMaximum, PI_TopicAliasMaximum,
      PI_MaximumQos, PI_RetainAvailable, PI_UserProperty, PI_MaximumPacketSize,
      PI_WildcardSubscriptionAvailable, PI_SubscriptionIdentifierAvailable,
      PI_SharedSubscriptionAvailable})"
| "allowed_on i Scope_Publish = (i \<in> {
      PI_PayloadFormatIndicator, PI_MessageExpiryInterval, PI_ContentType,
      PI_ResponseTopic, PI_CorrelationData, PI_SubscriptionIdentifier, PI_TopicAlias,
      PI_UserProperty})"
| "allowed_on i Scope_Will = (i \<in> {
      PI_PayloadFormatIndicator, PI_MessageExpiryInterval, PI_ContentType,
      PI_ResponseTopic, PI_CorrelationData, PI_WillDelayInterval, PI_UserProperty})"
| "allowed_on i Scope_Puback = (i \<in> {
      PI_ReasonString, PI_UserProperty})"
| "allowed_on i Scope_Pubrec = (i \<in> {
      PI_ReasonString, PI_UserProperty})"
| "allowed_on i Scope_Pubrel = (i \<in> {
      PI_ReasonString, PI_UserProperty})"
| "allowed_on i Scope_Pubcomp = (i \<in> {
      PI_ReasonString, PI_UserProperty})"
| "allowed_on i Scope_Subscribe = (i \<in> {
      PI_SubscriptionIdentifier, PI_UserProperty})"
| "allowed_on i Scope_Suback = (i \<in> {
      PI_ReasonString, PI_UserProperty})"
| "allowed_on i Scope_Unsubscribe = (i \<in> {
      PI_UserProperty})"
| "allowed_on i Scope_Unsuback = (i \<in> {
      PI_ReasonString, PI_UserProperty})"
| "allowed_on i Scope_Disconnect = (i \<in> {
      PI_SessionExpiryInterval, PI_ReasonString, PI_UserProperty, PI_ServerReference})"
| "allowed_on i Scope_Auth = (i \<in> {
      PI_AuthenticationMethod, PI_AuthenticationData, PI_ReasonString, PI_UserProperty})"

section \<open>Parsing\<close>

text \<open>\<open>set_once\<close> returns the new value of the field it is given.\<close>

definition set_once :: "'a option \<Rightarrow> 'a \<Rightarrow> string \<Rightarrow> ('a option, mqtt5_parse_error) result" where
  "set_once field v pname =
     (if field \<noteq> None then Err (DuplicateProperty pname) else Ok (Some v))"

definition ensure_allowed ::
  "property_identifier \<Rightarrow> property_scope \<Rightarrow> (unit, mqtt5_parse_error) result" where
  "ensure_allowed i scope =
     (if allowed_on i scope then Ok ()
      else Err (PropertyNotAllowed (property_identifier_name i) (property_scope_name scope)))"

text \<open>The \<open>match identifier\<close> of the parser's loop: the value is read and stored.\<close>

fun parse_property :: "property_identifier \<Rightarrow> bytes \<Rightarrow> properties \<Rightarrow> properties parsed" where
  "parse_property PI_PayloadFormatIndicator i p =
     and_then (parse_u8 i ''payload_format_indicator'') (\<lambda>(i, v).
       if v > 1 then Err (InvalidPropertyValue ''payload_format_indicator'')
       else and_then (set_once (payload_format_indicator p) v ''payload_format_indicator'') (\<lambda>x.
       Ok (i, p\<lparr>payload_format_indicator := x\<rparr>)))"
| "parse_property PI_MessageExpiryInterval i p =
     and_then (parse_u32 i ''message_expiry_interval'') (\<lambda>(i, v).
       and_then (set_once (message_expiry_interval p) v ''message_expiry_interval'') (\<lambda>x.
       Ok (i, p\<lparr>message_expiry_interval := x\<rparr>)))"
| "parse_property PI_ContentType i p =
     and_then (parse_utf8_string i) (\<lambda>(i, v).
       and_then (set_once (content_type p) v ''content_type'') (\<lambda>x.
       Ok (i, p\<lparr>content_type := x\<rparr>)))"
| "parse_property PI_ResponseTopic i p =
     and_then (parse_utf8_string i) (\<lambda>(i, v).
       and_then (set_once (response_topic p) v ''response_topic'') (\<lambda>x.
       Ok (i, p\<lparr>response_topic := x\<rparr>)))"
| "parse_property PI_CorrelationData i p =
     and_then (parse_binary i) (\<lambda>(i, v).
       and_then (set_once (correlation_data p) v ''correlation_data'') (\<lambda>x.
       Ok (i, p\<lparr>correlation_data := x\<rparr>)))"
| "parse_property PI_SubscriptionIdentifier i p =
     and_then (parse_variable_byte_integer i) (\<lambda>(i, v).
       if v = 0 then Err (InvalidPropertyValue ''subscription_identifier'')
       else Ok (i, p\<lparr>subscription_identifiers := subscription_identifiers p @ [v]\<rparr>))"
| "parse_property PI_SessionExpiryInterval i p =
     and_then (parse_u32 i ''session_expiry_interval'') (\<lambda>(i, v).
       and_then (set_once (session_expiry_interval p) v ''session_expiry_interval'') (\<lambda>x.
       Ok (i, p\<lparr>session_expiry_interval := x\<rparr>)))"
| "parse_property PI_AssignedClientIdentifier i p =
     and_then (parse_utf8_string i) (\<lambda>(i, v).
       and_then (set_once (assigned_client_identifier p) v ''assigned_client_identifier'') (\<lambda>x.
       Ok (i, p\<lparr>assigned_client_identifier := x\<rparr>)))"
| "parse_property PI_ServerKeepAlive i p =
     and_then (parse_u16 i ''server_keep_alive'') (\<lambda>(i, v).
       and_then (set_once (server_keep_alive p) v ''server_keep_alive'') (\<lambda>x.
       Ok (i, p\<lparr>server_keep_alive := x\<rparr>)))"
| "parse_property PI_AuthenticationMethod i p =
     and_then (parse_utf8_string i) (\<lambda>(i, v).
       and_then (set_once (authentication_method p) v ''authentication_method'') (\<lambda>x.
       Ok (i, p\<lparr>authentication_method := x\<rparr>)))"
| "parse_property PI_AuthenticationData i p =
     and_then (parse_binary i) (\<lambda>(i, v).
       and_then (set_once (authentication_data p) v ''authentication_data'') (\<lambda>x.
       Ok (i, p\<lparr>authentication_data := x\<rparr>)))"
| "parse_property PI_RequestProblemInformation i p =
     and_then (parse_boolean i ''request_problem_information'') (\<lambda>(i, v).
       and_then (set_once (request_problem_information p) v ''request_problem_information'') (\<lambda>x.
       Ok (i, p\<lparr>request_problem_information := x\<rparr>)))"
| "parse_property PI_WillDelayInterval i p =
     and_then (parse_u32 i ''will_delay_interval'') (\<lambda>(i, v).
       and_then (set_once (will_delay_interval p) v ''will_delay_interval'') (\<lambda>x.
       Ok (i, p\<lparr>will_delay_interval := x\<rparr>)))"
| "parse_property PI_RequestResponseInformation i p =
     and_then (parse_boolean i ''request_response_information'') (\<lambda>(i, v).
       and_then (set_once (request_response_information p) v ''request_response_information'') (\<lambda>x.
       Ok (i, p\<lparr>request_response_information := x\<rparr>)))"
| "parse_property PI_ResponseInformation i p =
     and_then (parse_utf8_string i) (\<lambda>(i, v).
       and_then (set_once (response_information p) v ''response_information'') (\<lambda>x.
       Ok (i, p\<lparr>response_information := x\<rparr>)))"
| "parse_property PI_ServerReference i p =
     and_then (parse_utf8_string i) (\<lambda>(i, v).
       and_then (set_once (server_reference p) v ''server_reference'') (\<lambda>x.
       Ok (i, p\<lparr>server_reference := x\<rparr>)))"
| "parse_property PI_ReasonString i p =
     and_then (parse_utf8_string i) (\<lambda>(i, v).
       and_then (set_once (reason_string p) v ''reason_string'') (\<lambda>x.
       Ok (i, p\<lparr>reason_string := x\<rparr>)))"
| "parse_property PI_ReceiveMaximum i p =
     and_then (parse_u16 i ''receive_maximum'') (\<lambda>(i, v).
       if v = 0 then Err (InvalidPropertyValue ''receive_maximum'')
       else and_then (set_once (receive_maximum p) v ''receive_maximum'') (\<lambda>x.
       Ok (i, p\<lparr>receive_maximum := x\<rparr>)))"
| "parse_property PI_TopicAliasMaximum i p =
     and_then (parse_u16 i ''topic_alias_maximum'') (\<lambda>(i, v).
       and_then (set_once (topic_alias_maximum p) v ''topic_alias_maximum'') (\<lambda>x.
       Ok (i, p\<lparr>topic_alias_maximum := x\<rparr>)))"
| "parse_property PI_TopicAlias i p =
     and_then (parse_u16 i ''topic_alias'') (\<lambda>(i, v).
       if v = 0 then Err (InvalidPropertyValue ''topic_alias'')
       else and_then (set_once (topic_alias p) v ''topic_alias'') (\<lambda>x.
       Ok (i, p\<lparr>topic_alias := x\<rparr>)))"
| "parse_property PI_MaximumQos i p =
     and_then (parse_u8 i ''maximum_qos'') (\<lambda>(i, v).
       if v > 1 then Err (InvalidPropertyValue ''maximum_qos'')
       else and_then (set_once (maximum_qos p) v ''maximum_qos'') (\<lambda>x.
       Ok (i, p\<lparr>maximum_qos := x\<rparr>)))"
| "parse_property PI_RetainAvailable i p =
     and_then (parse_boolean i ''retain_available'') (\<lambda>(i, v).
       and_then (set_once (retain_available p) v ''retain_available'') (\<lambda>x.
       Ok (i, p\<lparr>retain_available := x\<rparr>)))"
| "parse_property PI_UserProperty i p =
     and_then (parse_utf8_string i) (\<lambda>(i, k).
     and_then (parse_utf8_string i) (\<lambda>(i, v).
       Ok (i, p\<lparr>user_properties := user_properties p @ [(k, v)]\<rparr>)))"
| "parse_property PI_MaximumPacketSize i p =
     and_then (parse_u32 i ''maximum_packet_size'') (\<lambda>(i, v).
       if v = 0 then Err (InvalidPropertyValue ''maximum_packet_size'')
       else and_then (set_once (maximum_packet_size p) v ''maximum_packet_size'') (\<lambda>x.
       Ok (i, p\<lparr>maximum_packet_size := x\<rparr>)))"
| "parse_property PI_WildcardSubscriptionAvailable i p =
     and_then (parse_boolean i ''wildcard_subscription_available'') (\<lambda>(i, v).
       and_then (set_once (wildcard_subscription_available p) v ''wildcard_subscription_available'') (\<lambda>x.
       Ok (i, p\<lparr>wildcard_subscription_available := x\<rparr>)))"
| "parse_property PI_SubscriptionIdentifierAvailable i p =
     and_then (parse_boolean i ''subscription_identifier_available'') (\<lambda>(i, v).
       and_then (set_once (subscription_identifier_available p) v ''subscription_identifier_available'') (\<lambda>x.
       Ok (i, p\<lparr>subscription_identifier_available := x\<rparr>)))"
| "parse_property PI_SharedSubscriptionAvailable i p =
     and_then (parse_boolean i ''shared_subscription_available'') (\<lambda>(i, v).
       and_then (set_once (shared_subscription_available p) v ''shared_subscription_available'') (\<lambda>x.
       Ok (i, p\<lparr>shared_subscription_available := x\<rparr>)))"

lemmas field_consumes =
  vbi.dec_consumes byte_field.dec_consumes u16_field.dec_consumes u32_field.dec_consumes
  binary.dec_consumes utf8_field.dec_consumes bool_field.dec_consumes

lemmas field_extend =
  vbi.dec_extend byte_field.dec_extend u16_field.dec_extend u32_field.dec_extend
  binary.dec_extend utf8_field.dec_extend bool_field.dec_extend

lemma parse_property_consumes:
  "parse_property k i p = Ok (r, q) \<Longrightarrow> \<exists>c. c \<noteq> [] \<and> i = c @ r"
  by (cases k; simp only: parse_property.simps; erule and_then_consumes;
      (erule field_consumes
       | (rule consumes_weaken, erule and_then_consumes, erule utf8_field.dec_consumes, simp)
       | (auto simp: set_once_def split: if_splits)))

lemma parse_property_extend:
  "parse_property k i p = Ok (r, q) \<Longrightarrow> parse_property k (i @ m) p = Ok (r @ m, q)"
  by (cases k; simp only: parse_property.simps; erule and_then_extend;
      (erule field_extend
       | (erule and_then_extend, erule utf8_field.dec_extend, simp)
       | (auto simp: set_once_def split: if_splits)))

interpretation property: stream_parser "\<lambda>i. parse_property k i p" for k p
  by unfold_locales (erule parse_property_consumes, erule parse_property_extend)

text \<open>The \<open>while\<close> loop over the block's bytes.\<close>

function properties_parse_loop ::
  "property_scope \<Rightarrow> bytes \<Rightarrow> properties \<Rightarrow> (properties, mqtt5_parse_error) result" where
  "properties_parse_loop scope property_input p =
     (if property_input = [] then Ok p
      else
        and_then (parse_variable_byte_integer property_input) (\<lambda>(property_input, identifier).
        and_then (property_identifier_from_u32 identifier) (\<lambda>identifier.
        and_then (ensure_allowed identifier scope) (\<lambda>_.
        and_then (parse_property identifier property_input p) (\<lambda>(property_input, p).
        properties_parse_loop scope property_input p)))))"
  by pat_completeness auto
termination
  by (relation "measure (\<lambda>(s, i, p). length i)")
    (auto dest!: vbi.dec_shorter property.dec_shorter)

declare properties_parse_loop.simps [simp del]

definition properties_parse :: "bytes \<Rightarrow> property_scope \<Rightarrow> properties parsed" where
  "properties_parse input scope =
     and_then (parse_variable_byte_integer input) (\<lambda>(input, property_length).
       let n = unat property_length in
       if length input < n then Err (Incomplete ''properties'')
       else and_then (properties_parse_loop scope (take n input) default_properties) (\<lambda>p.
              Ok (drop n input, p)))"

section \<open>Encoding\<close>

definition write_property_id :: "bytes \<Rightarrow> property_scope \<Rightarrow> property_identifier \<Rightarrow> encoded" where
  "write_property_id body scope i =
     and_then (ensure_allowed i scope) (\<lambda>_.
       encode_variable_byte_integer (property_identifier_as_u32 i) body)"

fun encode_optional_u8 ::
  "bytes \<Rightarrow> property_scope \<Rightarrow> property_identifier \<Rightarrow> u8 option \<Rightarrow> encoded" where
  "encode_optional_u8 body scope i None = Ok body"
| "encode_optional_u8 body scope i (Some v) =
     and_then (write_property_id body scope i) (\<lambda>body. Ok (body @ [v]))"

fun encode_optional_u16 ::
  "bytes \<Rightarrow> property_scope \<Rightarrow> property_identifier \<Rightarrow> u16 option \<Rightarrow> encoded" where
  "encode_optional_u16 body scope i None = Ok body"
| "encode_optional_u16 body scope i (Some v) =
     and_then (write_property_id body scope i) (\<lambda>body. Ok (body @ be16 v))"

definition encode_optional_nonzero_u16 ::
  "bytes \<Rightarrow> property_scope \<Rightarrow> property_identifier \<Rightarrow> u16 option \<Rightarrow> encoded" where
  "encode_optional_nonzero_u16 body scope i v =
     (if v = Some 0 then Err (InvalidPropertyValue (property_identifier_name i))
      else encode_optional_u16 body scope i v)"

fun encode_optional_u32 ::
  "bytes \<Rightarrow> property_scope \<Rightarrow> property_identifier \<Rightarrow> u32 option \<Rightarrow> encoded" where
  "encode_optional_u32 body scope i None = Ok body"
| "encode_optional_u32 body scope i (Some v) =
     and_then (write_property_id body scope i) (\<lambda>body. Ok (body @ be32 v))"

definition encode_optional_nonzero_u32 ::
  "bytes \<Rightarrow> property_scope \<Rightarrow> property_identifier \<Rightarrow> u32 option \<Rightarrow> encoded" where
  "encode_optional_nonzero_u32 body scope i v =
     (if v = Some 0 then Err (InvalidPropertyValue (property_identifier_name i))
      else encode_optional_u32 body scope i v)"

fun encode_optional_bool ::
  "bytes \<Rightarrow> property_scope \<Rightarrow> property_identifier \<Rightarrow> bool option \<Rightarrow> encoded" where
  "encode_optional_bool body scope i None = Ok body"
| "encode_optional_bool body scope i (Some v) =
     and_then (write_property_id body scope i) (\<lambda>body. Ok (body @ [if v then 1 else 0]))"

fun encode_optional_string ::
  "bytes \<Rightarrow> property_scope \<Rightarrow> property_identifier \<Rightarrow> string option \<Rightarrow> encoded" where
  "encode_optional_string body scope i None = Ok body"
| "encode_optional_string body scope i (Some v) =
     and_then (write_property_id body scope i) (\<lambda>body. encode_utf8_string v body)"

fun encode_optional_binary ::
  "bytes \<Rightarrow> property_scope \<Rightarrow> property_identifier \<Rightarrow> bytes option \<Rightarrow> encoded" where
  "encode_optional_binary body scope i None = Ok body"
| "encode_optional_binary body scope i (Some v) =
     and_then (write_property_id body scope i) (\<lambda>body. encode_binary v body)"

text \<open>The two \<open>for\<close> loops and the guarded \<open>maximum_qos\<close> of the encoder.\<close>

fun encode_subscription_identifiers :: "bytes \<Rightarrow> property_scope \<Rightarrow> u32 list \<Rightarrow> encoded" where
  "encode_subscription_identifiers body scope [] = Ok body"
| "encode_subscription_identifiers body scope (v # vs) =
     (if v = 0
      then Err (InvalidPropertyValue (property_identifier_name PI_SubscriptionIdentifier))
      else
        and_then (write_property_id body scope PI_SubscriptionIdentifier) (\<lambda>body.
        and_then (encode_variable_byte_integer v body) (\<lambda>body.
        encode_subscription_identifiers body scope vs)))"

fun encode_maximum_qos :: "bytes \<Rightarrow> property_scope \<Rightarrow> u8 option \<Rightarrow> encoded" where
  "encode_maximum_qos body scope None = Ok body"
| "encode_maximum_qos body scope (Some v) =
     (if v > 1 then Err (InvalidPropertyValue (property_identifier_name PI_MaximumQos))
      else encode_optional_u8 body scope PI_MaximumQos (Some v))"

fun encode_user_properties :: "bytes \<Rightarrow> property_scope \<Rightarrow> (string \<times> string) list \<Rightarrow> encoded" where
  "encode_user_properties body scope [] = Ok body"
| "encode_user_properties body scope ((k, v) # kvs) =
     and_then (write_property_id body scope PI_UserProperty) (\<lambda>body.
     and_then (encode_utf8_string k body) (\<lambda>body.
     and_then (encode_utf8_string v body) (\<lambda>body.
     encode_user_properties body scope kvs)))"

text \<open>The calls of the encoder in the order of the source, in two runs.\<close>

definition encode_properties_head :: "properties \<Rightarrow> property_scope \<Rightarrow> bytes \<Rightarrow> encoded" where
  "encode_properties_head p scope body =
     and_then (encode_optional_u8 body scope PI_PayloadFormatIndicator (payload_format_indicator p)) (\<lambda>body.
     and_then (encode_optional_u32 body scope PI_MessageExpiryInterval (message_expiry_interval p)) (\<lambda>body.
     and_then (encode_optional_string body scope PI_ContentType (content_type p)) (\<lambda>body.
     and_then (encode_optional_string body scope PI_ResponseTopic (response_topic p)) (\<lambda>body.
     and_then (encode_optional_binary body scope PI_CorrelationData (correlation_data p)) (\<lambda>body.
     and_then (encode_subscription_identifiers body scope (subscription_identifiers p)) (\<lambda>body.
     and_then (encode_optional_u32 body scope PI_SessionExpiryInterval (session_expiry_interval p)) (\<lambda>body.
     and_then (encode_optional_string body scope PI_AssignedClientIdentifier (assigned_client_identifier p)) (\<lambda>body.
     and_then (encode_optional_u16 body scope PI_ServerKeepAlive (server_keep_alive p)) (\<lambda>body.
     and_then (encode_optional_string body scope PI_AuthenticationMethod (authentication_method p)) (\<lambda>body.
     and_then (encode_optional_binary body scope PI_AuthenticationData (authentication_data p)) (\<lambda>body.
     and_then (encode_optional_bool body scope PI_RequestProblemInformation (request_problem_information p)) (\<lambda>body.
     and_then (encode_optional_u32 body scope PI_WillDelayInterval (will_delay_interval p)) (\<lambda>body.
     and_then (encode_optional_bool body scope PI_RequestResponseInformation (request_response_information p)) (\<lambda>body.
     and_then (encode_optional_string body scope PI_ResponseInformation (response_information p)) (\<lambda>body.
     and_then (encode_optional_string body scope PI_ServerReference (server_reference p)) (\<lambda>body.
     encode_optional_string body scope PI_ReasonString (reason_string p)))))))))))))))))"

definition encode_properties_tail :: "properties \<Rightarrow> property_scope \<Rightarrow> bytes \<Rightarrow> encoded" where
  "encode_properties_tail p scope body =
     and_then (encode_optional_nonzero_u16 body scope PI_ReceiveMaximum (receive_maximum p)) (\<lambda>body.
     and_then (encode_optional_u16 body scope PI_TopicAliasMaximum (topic_alias_maximum p)) (\<lambda>body.
     and_then (encode_optional_nonzero_u16 body scope PI_TopicAlias (topic_alias p)) (\<lambda>body.
     and_then (encode_maximum_qos body scope (maximum_qos p)) (\<lambda>body.
     and_then (encode_optional_bool body scope PI_RetainAvailable (retain_available p)) (\<lambda>body.
     and_then (encode_user_properties body scope (user_properties p)) (\<lambda>body.
     and_then (encode_optional_nonzero_u32 body scope PI_MaximumPacketSize (maximum_packet_size p)) (\<lambda>body.
     and_then (encode_optional_bool body scope PI_WildcardSubscriptionAvailable (wildcard_subscription_available p)) (\<lambda>body.
     and_then (encode_optional_bool body scope PI_SubscriptionIdentifierAvailable (subscription_identifier_available p)) (\<lambda>body.
     encode_optional_bool body scope PI_SharedSubscriptionAvailable (shared_subscription_available p))))))))))"

definition properties_encode :: "properties \<Rightarrow> property_scope \<Rightarrow> bytes \<Rightarrow> encoded" where
  "properties_encode p scope buffer =
     and_then (encode_properties_head p scope []) (\<lambda>body.
     and_then (encode_properties_tail p scope body) (\<lambda>body.
     and_then (encode_variable_byte_integer (word_of_nat (length body)) buffer) (\<lambda>buffer.
     Ok (buffer @ body))))"

section \<open>Laws of the property block\<close>

text \<open>
  An encoding step \<open>E\<close> emits a change of the property record from \<open>acc\<close> to \<open>acc'\<close> when the
  bytes it appends drive the parser's loop from \<open>acc\<close> to \<open>acc'\<close>, whatever follows them.
\<close>

definition emits ::
  "property_scope \<Rightarrow> (bytes \<Rightarrow> encoded) \<Rightarrow> properties \<Rightarrow> properties \<Rightarrow> bool" where
  "emits scope E acc acc' \<longleftrightarrow> (\<forall>body body'. E body = Ok body' \<longrightarrow>
     (\<exists>bs. body' = body @ bs \<and> (\<forall>rest.
        properties_parse_loop scope (bs @ rest) acc = properties_parse_loop scope rest acc')))"

lemma emits_bind:
  assumes "emits scope E acc acc'" and "emits scope F acc' acc''"
  shows "emits scope (\<lambda>b. and_then (E b) (\<lambda>b. F b)) acc acc''"
  unfolding emits_def
proof (intro allI impI)
  fix body body'
  assume "and_then (E body) (\<lambda>b. F b) = Ok body'"
  then obtain b1 where "E body = Ok b1" and "F b1 = Ok body'"
    by (auto simp: and_then_eq_Ok)
  with assms obtain bs cs where "b1 = body @ bs" "body' = b1 @ cs"
    and "\<forall>rest. properties_parse_loop scope (bs @ rest) acc = properties_parse_loop scope rest acc'"
    and "\<forall>rest. properties_parse_loop scope (cs @ rest) acc' = properties_parse_loop scope rest acc''"
    unfolding emits_def by meson
  then show "\<exists>bs. body' = body @ bs \<and> (\<forall>rest.
      properties_parse_loop scope (bs @ rest) acc = properties_parse_loop scope rest acc'')"
    by (intro exI [of _ "bs @ cs"]) simp
qed

lemma emits_nothing: "emits scope Ok acc acc"
  by (simp add: emits_def)

lemma from_u32_as_u32 [simp]:
  "property_identifier_from_u32 (property_identifier_as_u32 k) = Ok k"
  by (cases k) (simp_all add: property_identifier_from_u32_def)

text \<open>Every identifier is written as one byte, and the loop dispatches on it.\<close>

definition identifier_byte :: "property_identifier \<Rightarrow> u8" where
  "identifier_byte k = ucast (property_identifier_as_u32 k)"

lemma parse_identifier_byte:
  "parse_variable_byte_integer (identifier_byte k # rest) = Ok (rest, property_identifier_as_u32 k)"
  by (cases k) (simp_all add: parse_variable_byte_integer_small identifier_byte_def)

lemma write_property_id_Ok:
  "write_property_id body scope k = Ok b \<longleftrightarrow> allowed_on k scope \<and> b = body @ [identifier_byte k]"
proof -
  have "encode_variable_byte_integer (property_identifier_as_u32 k) body
      = Ok (body @ [identifier_byte k])"
    by (cases k) (simp_all add: encode_variable_byte_integer_def MAX_VARIABLE_BYTE_INTEGER_def
        encode_variable_byte_integer_loop.simps identifier_byte_def)
  then show ?thesis
    by (auto simp: write_property_id_def ensure_allowed_def and_then_eq_Ok)
qed

lemma loop_step:
  assumes "allowed_on k scope" and "parse_property k (bs @ rest) acc = Ok (rest, acc')"
  shows "properties_parse_loop scope ((identifier_byte k # bs) @ rest) acc
    = properties_parse_loop scope rest acc'"
  using assms
  by (simp add: properties_parse_loop.simps [of scope "identifier_byte k # bs @ rest"]
      parse_identifier_byte ensure_allowed_def)

lemma emits_property:
  assumes "\<And>body body'. enc body = Ok body' \<Longrightarrow>
      \<exists>bs. body' = body @ bs \<and> (\<forall>rest. parse_property k (bs @ rest) acc = Ok (rest, acc'))"
  shows "emits scope (\<lambda>b. and_then (write_property_id b scope k) (\<lambda>b. enc b)) acc acc'"
  unfolding emits_def
proof (intro allI impI)
  fix body body'
  assume "and_then (write_property_id body scope k) (\<lambda>b. enc b) = Ok body'"
  then have a: "allowed_on k scope" and e: "enc (body @ [identifier_byte k]) = Ok body'"
    by (auto simp: and_then_eq_Ok write_property_id_Ok)
  from assms [OF e] obtain bs where "body' = body @ identifier_byte k # bs"
    and "\<forall>rest. parse_property k (bs @ rest) acc = Ok (rest, acc')"
    by auto
  with loop_step [OF a] show "\<exists>bs. body' = body @ bs \<and> (\<forall>rest.
      properties_parse_loop scope (bs @ rest) acc = properties_parse_loop scope rest acc')"
    by (intro exI [of _ "identifier_byte k # bs"]) simp
qed

subsection \<open>One law per kind of optional value\<close>

lemma emits_optional:
  assumes "\<And>body. opt body None = Ok body"
    and "\<And>body x. opt body (Some x) = and_then (write_property_id body scope k) (\<lambda>b. enc x b)"
    and "v = None \<Longrightarrow> acc' = acc"
    and "\<And>x body body'. v = Some x \<Longrightarrow> enc x body = Ok body' \<Longrightarrow>
      \<exists>bs. body' = body @ bs \<and> (\<forall>rest. parse_property k (bs @ rest) acc = Ok (rest, acc'))"
  shows "emits scope (\<lambda>b. opt b v) acc acc'"
proof (cases v)
  case None
  with assms(1,3) show ?thesis by (simp add: emits_def)
next
  case (Some x)
  with assms(2) emits_property [OF assms(4) [OF Some]] show ?thesis by simp
qed

lemma emits_optional_u8:
  assumes "v = None \<Longrightarrow> acc' = acc"
    and "\<And>x rest. v = Some x \<Longrightarrow> parse_property k (x # rest) acc = Ok (rest, acc')"
  shows "emits scope (\<lambda>b. encode_optional_u8 b scope k v) acc acc'"
  using assms by (intro emits_optional [where opt = "\<lambda>b. encode_optional_u8 b scope k"]) auto

lemma emits_optional_u16:
  assumes "v = None \<Longrightarrow> acc' = acc"
    and "\<And>x rest. v = Some x \<Longrightarrow> parse_property k (be16 x @ rest) acc = Ok (rest, acc')"
  shows "emits scope (\<lambda>b. encode_optional_u16 b scope k v) acc acc'"
  using assms by (intro emits_optional [where opt = "\<lambda>b. encode_optional_u16 b scope k"]) auto

lemma emits_optional_u32:
  assumes "v = None \<Longrightarrow> acc' = acc"
    and "\<And>x rest. v = Some x \<Longrightarrow> parse_property k (be32 x @ rest) acc = Ok (rest, acc')"
  shows "emits scope (\<lambda>b. encode_optional_u32 b scope k v) acc acc'"
  using assms by (intro emits_optional [where opt = "\<lambda>b. encode_optional_u32 b scope k"]) auto

lemma emits_optional_bool:
  assumes "v = None \<Longrightarrow> acc' = acc"
    and "\<And>x rest. v = Some x \<Longrightarrow> parse_property k ((if x then 1 else 0) # rest) acc = Ok (rest, acc')"
  shows "emits scope (\<lambda>b. encode_optional_bool b scope k v) acc acc'"
  using assms by (intro emits_optional [where opt = "\<lambda>b. encode_optional_bool b scope k"]) auto

lemma emits_optional_string:
  assumes "v = None \<Longrightarrow> acc' = acc" and "valid_opt_str v"
    and "\<And>x i r. v = Some x \<Longrightarrow> parse_utf8_string i = Ok (r, x) \<Longrightarrow>
      parse_property k i acc = Ok (r, acc')"
  shows "emits scope (\<lambda>b. encode_optional_string b scope k v) acc acc'"
  using assms
  by (intro emits_optional [where opt = "\<lambda>b. encode_optional_string b scope k"])
    (auto dest!: utf8_field.enc_dec [rotated])

lemma emits_optional_binary:
  assumes "v = None \<Longrightarrow> acc' = acc"
    and "\<And>x i r. v = Some x \<Longrightarrow> parse_binary i = Ok (r, x) \<Longrightarrow>
      parse_property k i acc = Ok (r, acc')"
  shows "emits scope (\<lambda>b. encode_optional_binary b scope k v) acc acc'"
  using assms
  by (intro emits_optional [where opt = "\<lambda>b. encode_optional_binary b scope k"])
    (auto dest!: binary.enc_dec [OF TrueI])

lemma emits_guard:
  assumes "\<not> c \<Longrightarrow> emits scope E acc acc'"
  shows "emits scope (\<lambda>b. if c then Err e else E b) acc acc'"
  using assms by (cases c) (simp_all add: emits_def)

subsection \<open>One law per property\<close>

lemma emits_subscription_identifiers_append:
  "emits scope (\<lambda>b. encode_subscription_identifiers b scope vs) acc
     (acc\<lparr>subscription_identifiers := subscription_identifiers acc @ vs\<rparr>)"
proof (induction vs arbitrary: acc)
  case Nil
  then show ?case by (simp add: emits_def)
next
  case (Cons v vs)
  let ?acc = "acc\<lparr>subscription_identifiers := subscription_identifiers acc @ [v]\<rparr>"
  have "emits scope (\<lambda>b. and_then (write_property_id b scope PI_SubscriptionIdentifier)
      (\<lambda>b. encode_variable_byte_integer v b)) acc ?acc" if "v \<noteq> 0"
    using that by (intro emits_property) (auto dest!: vbi.enc_dec [OF TrueI])
  from emits_guard [OF emits_bind [OF this Cons.IH], of "v = 0"] show ?case
    by (simp add: and_then_assoc cong: if_cong)
qed

lemma emits_subscription_identifiers:
  "subscription_identifiers acc = [] \<Longrightarrow>
   emits scope (\<lambda>b. encode_subscription_identifiers b scope vs) acc
     (acc\<lparr>subscription_identifiers := vs\<rparr>)"
  using emits_subscription_identifiers_append [of scope vs acc] by simp

lemma emits_user_properties_append:
  assumes "list_all (\<lambda>(k, v). valid_str k \<and> valid_str v) kvs"
  shows "emits scope (\<lambda>b. encode_user_properties b scope kvs) acc
     (acc\<lparr>user_properties := user_properties acc @ kvs\<rparr>)"
  using assms
proof (induction kvs arbitrary: acc)
  case Nil
  then show ?case by (simp add: emits_def)
next
  case (Cons kv kvs)
  obtain k v where kv: "kv = (k, v)" by fastforce
  with Cons.prems have k: "valid_str k" and v: "valid_str v" by auto
  let ?acc = "acc\<lparr>user_properties := user_properties acc @ [kv]\<rparr>"
  have "emits scope (\<lambda>b. and_then (write_property_id b scope PI_UserProperty)
      (\<lambda>b. and_then (encode_utf8_string k b) (\<lambda>b. encode_utf8_string v b))) acc ?acc"
  proof (rule emits_property)
    fix body body'
    assume "and_then (encode_utf8_string k body) (\<lambda>b. encode_utf8_string v b) = Ok body'"
    then obtain b where "encode_utf8_string k body = Ok b" "encode_utf8_string v b = Ok body'"
      by (auto simp: and_then_eq_Ok)
    with utf8_field.enc_dec [OF k] utf8_field.enc_dec [OF v] obtain bs cs where
      "b = body @ bs" "body' = b @ cs" "\<forall>rest. parse_utf8_string (bs @ rest) = Ok (rest, k)"
      "\<forall>rest. parse_utf8_string (cs @ rest) = Ok (rest, v)"
      by meson
    then show "\<exists>bs. body' = body @ bs \<and>
        (\<forall>rest. parse_property PI_UserProperty (bs @ rest) acc = Ok (rest, ?acc))"
      by (intro exI [of _ "bs @ cs"]) (simp add: kv)
  qed
  from emits_bind [OF this Cons.IH] Cons.prems show ?case
    by (simp add: kv and_then_assoc)
qed

lemma emits_user_properties:
  "user_properties acc = [] \<Longrightarrow> list_all (\<lambda>(k, v). valid_str k \<and> valid_str v) kvs \<Longrightarrow>
   emits scope (\<lambda>b. encode_user_properties b scope kvs) acc (acc\<lparr>user_properties := kvs\<rparr>)"
  using emits_user_properties_append [of kvs scope acc] by simp

lemma emits_payload_format_indicator:
  "payload_format_indicator acc = None \<Longrightarrow>
   \<forall>x. v = Some x \<longrightarrow> x \<le> 1 \<Longrightarrow>
   emits scope (\<lambda>b. encode_optional_u8 b scope PI_PayloadFormatIndicator v) acc
     (acc\<lparr>payload_format_indicator := v\<rparr>)"
  by (rule emits_optional_u8; cases acc; auto simp: set_once_def)

lemma emits_message_expiry_interval:
  "message_expiry_interval acc = None \<Longrightarrow>
   emits scope (\<lambda>b. encode_optional_u32 b scope PI_MessageExpiryInterval v) acc
     (acc\<lparr>message_expiry_interval := v\<rparr>)"
  by (rule emits_optional_u32; cases acc; auto simp: set_once_def)

lemma emits_content_type:
  "content_type acc = None \<Longrightarrow>
   valid_opt_str v \<Longrightarrow>
   emits scope (\<lambda>b. encode_optional_string b scope PI_ContentType v) acc
     (acc\<lparr>content_type := v\<rparr>)"
  by (rule emits_optional_string; cases acc; auto simp: set_once_def)

lemma emits_response_topic:
  "response_topic acc = None \<Longrightarrow>
   valid_opt_str v \<Longrightarrow>
   emits scope (\<lambda>b. encode_optional_string b scope PI_ResponseTopic v) acc
     (acc\<lparr>response_topic := v\<rparr>)"
  by (rule emits_optional_string; cases acc; auto simp: set_once_def)

lemma emits_correlation_data:
  "correlation_data acc = None \<Longrightarrow>
   emits scope (\<lambda>b. encode_optional_binary b scope PI_CorrelationData v) acc
     (acc\<lparr>correlation_data := v\<rparr>)"
  by (rule emits_optional_binary; cases acc; auto simp: set_once_def)

lemma emits_session_expiry_interval:
  "session_expiry_interval acc = None \<Longrightarrow>
   emits scope (\<lambda>b. encode_optional_u32 b scope PI_SessionExpiryInterval v) acc
     (acc\<lparr>session_expiry_interval := v\<rparr>)"
  by (rule emits_optional_u32; cases acc; auto simp: set_once_def)

lemma emits_assigned_client_identifier:
  "assigned_client_identifier acc = None \<Longrightarrow>
   valid_opt_str v \<Longrightarrow>
   emits scope (\<lambda>b. encode_optional_string b scope PI_AssignedClientIdentifier v) acc
     (acc\<lparr>assigned_client_identifier := v\<rparr>)"
  by (rule emits_optional_string; cases acc; auto simp: set_once_def)

lemma emits_server_keep_alive:
  "server_keep_alive acc = None \<Longrightarrow>
   emits scope (\<lambda>b. encode_optional_u16 b scope PI_ServerKeepAlive v) acc
     (acc\<lparr>server_keep_alive := v\<rparr>)"
  by (rule emits_optional_u16; cases acc; auto simp: set_once_def)

lemma emits_authentication_method:
  "authentication_method acc = None \<Longrightarrow>
   valid_opt_str v \<Longrightarrow>
   emits scope (\<lambda>b. encode_optional_string b scope PI_AuthenticationMethod v) acc
     (acc\<lparr>authentication_method := v\<rparr>)"
  by (rule emits_optional_string; cases acc; auto simp: set_once_def)

lemma emits_authentication_data:
  "authentication_data acc = None \<Longrightarrow>
   emits scope (\<lambda>b. encode_optional_binary b scope PI_AuthenticationData v) acc
     (acc\<lparr>authentication_data := v\<rparr>)"
  by (rule emits_optional_binary; cases acc; auto simp: set_once_def)

lemma emits_request_problem_information:
  "request_problem_information acc = None \<Longrightarrow>
   emits scope (\<lambda>b. encode_optional_bool b scope PI_RequestProblemInformation v) acc
     (acc\<lparr>request_problem_information := v\<rparr>)"
  by (rule emits_optional_bool; cases acc; auto simp: set_once_def parse_boolean_def)

lemma emits_will_delay_interval:
  "will_delay_interval acc = None \<Longrightarrow>
   emits scope (\<lambda>b. encode_optional_u32 b scope PI_WillDelayInterval v) acc
     (acc\<lparr>will_delay_interval := v\<rparr>)"
  by (rule emits_optional_u32; cases acc; auto simp: set_once_def)

lemma emits_request_response_information:
  "request_response_information acc = None \<Longrightarrow>
   emits scope (\<lambda>b. encode_optional_bool b scope PI_RequestResponseInformation v) acc
     (acc\<lparr>request_response_information := v\<rparr>)"
  by (rule emits_optional_bool; cases acc; auto simp: set_once_def parse_boolean_def)

lemma emits_response_information:
  "response_information acc = None \<Longrightarrow>
   valid_opt_str v \<Longrightarrow>
   emits scope (\<lambda>b. encode_optional_string b scope PI_ResponseInformation v) acc
     (acc\<lparr>response_information := v\<rparr>)"
  by (rule emits_optional_string; cases acc; auto simp: set_once_def)

lemma emits_server_reference:
  "server_reference acc = None \<Longrightarrow>
   valid_opt_str v \<Longrightarrow>
   emits scope (\<lambda>b. encode_optional_string b scope PI_ServerReference v) acc
     (acc\<lparr>server_reference := v\<rparr>)"
  by (rule emits_optional_string; cases acc; auto simp: set_once_def)

lemma emits_reason_string:
  "reason_string acc = None \<Longrightarrow>
   valid_opt_str v \<Longrightarrow>
   emits scope (\<lambda>b. encode_optional_string b scope PI_ReasonString v) acc
     (acc\<lparr>reason_string := v\<rparr>)"
  by (rule emits_optional_string; cases acc; auto simp: set_once_def)

lemma emits_receive_maximum:
  "receive_maximum acc = None \<Longrightarrow>
   emits scope (\<lambda>b. encode_optional_nonzero_u16 b scope PI_ReceiveMaximum v) acc
     (acc\<lparr>receive_maximum := v\<rparr>)"
  unfolding encode_optional_nonzero_u16_def
  by (rule emits_guard, rule emits_optional_u16; cases acc; auto simp: set_once_def)

lemma emits_topic_alias_maximum:
  "topic_alias_maximum acc = None \<Longrightarrow>
   emits scope (\<lambda>b. encode_optional_u16 b scope PI_TopicAliasMaximum v) acc
     (acc\<lparr>topic_alias_maximum := v\<rparr>)"
  by (rule emits_optional_u16; cases acc; auto simp: set_once_def)

lemma emits_topic_alias:
  "topic_alias acc = None \<Longrightarrow>
   emits scope (\<lambda>b. encode_optional_nonzero_u16 b scope PI_TopicAlias v) acc
     (acc\<lparr>topic_alias := v\<rparr>)"
  unfolding encode_optional_nonzero_u16_def
  by (rule emits_guard, rule emits_optional_u16; cases acc; auto simp: set_once_def)

lemma emits_maximum_qos:
  "maximum_qos acc = None \<Longrightarrow>
   emits scope (\<lambda>b. encode_maximum_qos b scope v) acc
     (acc\<lparr>maximum_qos := v\<rparr>)"
proof (cases v)
  case None
  moreover assume "maximum_qos acc = None"
  ultimately show ?thesis
    by (cases acc) (simp add: emits_def)
next
  case (Some x)
  moreover assume "maximum_qos acc = None"
  ultimately show ?thesis
    unfolding Some encode_maximum_qos.simps
    by (intro emits_guard emits_optional_u8) (auto simp: set_once_def)
qed

lemma emits_retain_available:
  "retain_available acc = None \<Longrightarrow>
   emits scope (\<lambda>b. encode_optional_bool b scope PI_RetainAvailable v) acc
     (acc\<lparr>retain_available := v\<rparr>)"
  by (rule emits_optional_bool; cases acc; auto simp: set_once_def parse_boolean_def)

lemma emits_maximum_packet_size:
  "maximum_packet_size acc = None \<Longrightarrow>
   emits scope (\<lambda>b. encode_optional_nonzero_u32 b scope PI_MaximumPacketSize v) acc
     (acc\<lparr>maximum_packet_size := v\<rparr>)"
  unfolding encode_optional_nonzero_u32_def
  by (rule emits_guard, rule emits_optional_u32; cases acc; auto simp: set_once_def)

lemma emits_wildcard_subscription_available:
  "wildcard_subscription_available acc = None \<Longrightarrow>
   emits scope (\<lambda>b. encode_optional_bool b scope PI_WildcardSubscriptionAvailable v) acc
     (acc\<lparr>wildcard_subscription_available := v\<rparr>)"
  by (rule emits_optional_bool; cases acc; auto simp: set_once_def parse_boolean_def)

lemma emits_subscription_identifier_available:
  "subscription_identifier_available acc = None \<Longrightarrow>
   emits scope (\<lambda>b. encode_optional_bool b scope PI_SubscriptionIdentifierAvailable v) acc
     (acc\<lparr>subscription_identifier_available := v\<rparr>)"
  by (rule emits_optional_bool; cases acc; auto simp: set_once_def parse_boolean_def)

lemma emits_shared_subscription_available:
  "shared_subscription_available acc = None \<Longrightarrow>
   emits scope (\<lambda>b. encode_optional_bool b scope PI_SharedSubscriptionAvailable v) acc
     (acc\<lparr>shared_subscription_available := v\<rparr>)"
  by (rule emits_optional_bool; cases acc; auto simp: set_once_def parse_boolean_def)

subsection \<open>The whole block\<close>

text \<open>
  The record after the first run of the encoder: the fields it has written are those of \<open>p\<close>,
  the others still have their default.
\<close>

definition properties_head :: "properties \<Rightarrow> properties" where
  "properties_head p = default_properties\<lparr>
       payload_format_indicator := payload_format_indicator p,
       message_expiry_interval := message_expiry_interval p,
       content_type := content_type p,
       response_topic := response_topic p,
       correlation_data := correlation_data p,
       subscription_identifiers := subscription_identifiers p,
       session_expiry_interval := session_expiry_interval p,
       assigned_client_identifier := assigned_client_identifier p,
       server_keep_alive := server_keep_alive p,
       authentication_method := authentication_method p,
       authentication_data := authentication_data p,
       request_problem_information := request_problem_information p,
       will_delay_interval := will_delay_interval p,
       request_response_information := request_response_information p,
       response_information := response_information p,
       server_reference := server_reference p,
       reason_string := reason_string p\<rparr>"

text \<open>
  What the parser demands of a value and the encoder does not check: \<open>payload_format_indicator\<close>
  is 0 or 1.
\<close>

definition payload_format_ok :: "properties \<Rightarrow> bool" where
  "payload_format_ok p \<longleftrightarrow> (case payload_format_indicator p of None \<Rightarrow> True | Some x \<Rightarrow> x \<le> 1)"

definition encodable_properties :: "properties \<Rightarrow> bool" where
  "encodable_properties p \<longleftrightarrow> utf8_properties p \<and> payload_format_ok p"

lemmas emits_steps =
  emits_payload_format_indicator emits_message_expiry_interval emits_content_type
  emits_response_topic emits_correlation_data emits_subscription_identifiers
  emits_session_expiry_interval emits_assigned_client_identifier emits_server_keep_alive
  emits_authentication_method emits_authentication_data emits_request_problem_information
  emits_will_delay_interval emits_request_response_information emits_response_information
  emits_server_reference emits_reason_string emits_receive_maximum emits_topic_alias_maximum
  emits_topic_alias emits_maximum_qos emits_retain_available emits_user_properties
  emits_maximum_packet_size emits_wildcard_subscription_available
  emits_subscription_identifier_available emits_shared_subscription_available

lemma emits_eq: "emits scope E acc acc' \<Longrightarrow> acc' = acc'' \<Longrightarrow> emits scope E acc acc''"
  by simp

lemma emits_head:
  assumes "encodable_properties p"
  shows "emits scope (\<lambda>b. encode_properties_head p scope b) default_properties (properties_head p)"
  unfolding encode_properties_head_def properties_head_def
  apply (insert assms [unfolded encodable_properties_def utf8_properties_def payload_format_ok_def])
  apply (rule emits_bind, (rule emits_steps; simp split: option.splits))+
  apply (rule emits_steps; simp)
  done

lemma emits_tail:
  assumes "encodable_properties p"
  shows "emits scope (\<lambda>b. encode_properties_tail p scope b) (properties_head p) p"
  unfolding encode_properties_tail_def
  apply (insert assms [unfolded encodable_properties_def utf8_properties_def])
  apply (rule emits_eq)
   apply (rule emits_bind, (rule emits_steps; simp add: properties_head_def))+
   apply (rule emits_steps; simp add: properties_head_def)
  apply (cases p; simp add: properties_head_def default_properties_def)
  done

lemma properties_encode_Ok:
  assumes "properties_encode p scope buffer = Ok buffer'" and "encodable_properties p"
  obtains n body where "encode_variable_byte_integer (word_of_nat (length body)) buffer = Ok n"
    and "buffer' = n @ body" and "properties_parse_loop scope body default_properties = Ok p"
proof -
  from assms(1) obtain h body n where h: "encode_properties_head p scope [] = Ok h"
    and t: "encode_properties_tail p scope h = Ok body"
    and n: "encode_variable_byte_integer (word_of_nat (length body)) buffer = Ok n" "buffer' = n @ body"
    by (auto simp: properties_encode_def and_then_eq_Ok)
  from h t have "and_then (encode_properties_head p scope []) (\<lambda>b. encode_properties_tail p scope b) = Ok body"
    by simp
  from emits_bind [OF emits_head [OF assms(2)] emits_tail [OF assms(2)], unfolded emits_def,
      rule_format, OF this]
  obtain bs where "body = [] @ bs" and
    r: "\<forall>rest. properties_parse_loop scope (bs @ rest) default_properties = properties_parse_loop scope rest p"
    by blast
  with r [rule_format, of "[]"]
  have "properties_parse_loop scope body default_properties = properties_parse_loop scope [] p"
    by simp
  with n show thesis
    by (intro that) (simp_all add: properties_parse_loop.simps [of scope "[]"])
qed

text \<open>
  Reading back an encoded block. The source writes the block's length with a truncating cast; the
  premise on the length holds in every packet, since a frame of 4 GiB has no fixed header.
\<close>

lemma properties_roundtrip:
  assumes "properties_encode p scope buffer = Ok buffer'" and "encodable_properties p"
    and "length buffer' < 4294967296"
  shows "\<exists>bs. buffer' = buffer @ bs \<and>
    (\<forall>rest. properties_parse (bs @ rest) scope = Ok (rest, p))"
proof -
  from properties_encode_Ok [OF assms(1,2)] obtain n body where
    n: "encode_variable_byte_integer (word_of_nat (length body)) buffer = Ok n"
    and b: "buffer' = n @ body" and p: "properties_parse_loop scope body default_properties = Ok p" .
  from vbi.enc_dec [OF TrueI n] obtain bs where bs: "n = buffer @ bs"
    and r: "\<forall>rest. parse_variable_byte_integer (bs @ rest) = Ok (rest, word_of_nat (length body))"
    by auto
  from assms(3) b have u: "unat (word_of_nat (length body) :: u32) = length body"
    by (simp add: unat_of_nat)
  show ?thesis
    using b bs r p u by (intro exI [of _ "bs @ body"]) (simp add: properties_parse_def Let_def)
qed

lemma properties_parse_consumes:
  assumes "properties_parse i scope = Ok (r, p)"
  shows "\<exists>c. c \<noteq> [] \<and> i = c @ r"
proof -
  from assms obtain j n where j: "parse_variable_byte_integer i = Ok (j, n)" "r = drop (unat n) j"
    by (auto simp: properties_parse_def and_then_eq_Ok Let_def split: if_splits)
  from vbi.dec_consumes [OF j(1)] j(2) show ?thesis
    by (metis append_assoc append_is_Nil_conv append_take_drop_id)
qed

interpretation properties_block: stream_parser "\<lambda>i. properties_parse i scope" for scope
proof unfold_locales
  fix i r p m
  assume a: "properties_parse i scope = Ok (r, p)"
  then show "\<exists>c. c \<noteq> [] \<and> i = c @ r"
    by (rule properties_parse_consumes)
  from a obtain j n where j: "parse_variable_byte_integer i = Ok (j, n)" and "unat n \<le> length j"
    "properties_parse_loop scope (take (unat n) j) default_properties = Ok p" "r = drop (unat n) j"
    by (auto simp: properties_parse_def and_then_eq_Ok Let_def split: if_splits)
  with vbi.dec_extend [OF j] show "properties_parse (i @ m) scope = Ok (r @ m, p)"
    by (simp add: properties_parse_def Let_def)
qed


section \<open>What the parser guarantees\<close>

fun has_property :: "properties \<Rightarrow> property_identifier \<Rightarrow> bool" where
  "has_property p PI_PayloadFormatIndicator \<longleftrightarrow> payload_format_indicator p \<noteq> None"
| "has_property p PI_MessageExpiryInterval \<longleftrightarrow> message_expiry_interval p \<noteq> None"
| "has_property p PI_ContentType \<longleftrightarrow> content_type p \<noteq> None"
| "has_property p PI_ResponseTopic \<longleftrightarrow> response_topic p \<noteq> None"
| "has_property p PI_CorrelationData \<longleftrightarrow> correlation_data p \<noteq> None"
| "has_property p PI_SubscriptionIdentifier \<longleftrightarrow> subscription_identifiers p \<noteq> []"
| "has_property p PI_SessionExpiryInterval \<longleftrightarrow> session_expiry_interval p \<noteq> None"
| "has_property p PI_AssignedClientIdentifier \<longleftrightarrow> assigned_client_identifier p \<noteq> None"
| "has_property p PI_ServerKeepAlive \<longleftrightarrow> server_keep_alive p \<noteq> None"
| "has_property p PI_AuthenticationMethod \<longleftrightarrow> authentication_method p \<noteq> None"
| "has_property p PI_AuthenticationData \<longleftrightarrow> authentication_data p \<noteq> None"
| "has_property p PI_RequestProblemInformation \<longleftrightarrow> request_problem_information p \<noteq> None"
| "has_property p PI_WillDelayInterval \<longleftrightarrow> will_delay_interval p \<noteq> None"
| "has_property p PI_RequestResponseInformation \<longleftrightarrow> request_response_information p \<noteq> None"
| "has_property p PI_ResponseInformation \<longleftrightarrow> response_information p \<noteq> None"
| "has_property p PI_ServerReference \<longleftrightarrow> server_reference p \<noteq> None"
| "has_property p PI_ReasonString \<longleftrightarrow> reason_string p \<noteq> None"
| "has_property p PI_ReceiveMaximum \<longleftrightarrow> receive_maximum p \<noteq> None"
| "has_property p PI_TopicAliasMaximum \<longleftrightarrow> topic_alias_maximum p \<noteq> None"
| "has_property p PI_TopicAlias \<longleftrightarrow> topic_alias p \<noteq> None"
| "has_property p PI_MaximumQos \<longleftrightarrow> maximum_qos p \<noteq> None"
| "has_property p PI_RetainAvailable \<longleftrightarrow> retain_available p \<noteq> None"
| "has_property p PI_UserProperty \<longleftrightarrow> user_properties p \<noteq> []"
| "has_property p PI_MaximumPacketSize \<longleftrightarrow> maximum_packet_size p \<noteq> None"
| "has_property p PI_WildcardSubscriptionAvailable \<longleftrightarrow> wildcard_subscription_available p \<noteq> None"
| "has_property p PI_SubscriptionIdentifierAvailable \<longleftrightarrow> subscription_identifier_available p \<noteq> None"
| "has_property p PI_SharedSubscriptionAvailable \<longleftrightarrow> shared_subscription_available p \<noteq> None"

definition values_ok :: "properties \<Rightarrow> bool" where
  "values_ok p \<longleftrightarrow>
     payload_format_ok p \<and> receive_maximum p \<noteq> Some 0 \<and> topic_alias p \<noteq> Some 0 \<and>
     maximum_packet_size p \<noteq> Some 0 \<and> 0 \<notin> set (subscription_identifiers p) \<and>
     (case maximum_qos p of None \<Rightarrow> True | Some q \<Rightarrow> q \<le> 1)"

text \<open>Well-formedness of a property record in a scope.\<close>

definition valid_properties :: "property_scope \<Rightarrow> properties \<Rightarrow> bool" where
  "valid_properties scope p \<longleftrightarrow>
     (\<forall>k. has_property p k \<longrightarrow> allowed_on k scope) \<and> values_ok p \<and> utf8_properties p"

lemma parse_utf8_string_valid: "parse_utf8_string i = Ok (r, s) \<Longrightarrow> valid_str s"
  by (auto simp: parse_utf8_string_def and_then_eq_Ok from_utf8_Some split: option.splits)

lemma parse_property_has:
  assumes "parse_property k i p = Ok (r, q)" and "has_property q k'"
  shows "k' = k \<or> has_property p k'"
  using assms
  by (cases k; auto simp: and_then_eq_Ok set_once_def split: if_splits; cases k'; simp)

lemma parse_property_values:
  assumes "parse_property k i p = Ok (r, q)" and "values_ok p"
  shows "values_ok q"
  using assms unfolding values_ok_def payload_format_ok_def
  by (cases k; auto simp: and_then_eq_Ok set_once_def split: if_splits)

lemma parse_property_utf8:
  assumes "parse_property k i p = Ok (r, q)" and "utf8_properties p"
  shows "utf8_properties q"
  using assms unfolding utf8_properties_def
  by (cases k; auto simp: and_then_eq_Ok set_once_def dest: parse_utf8_string_valid split: if_splits)

lemma parse_property_fresh:
  assumes "parse_property k i p = Ok (r, q)" and "k \<notin> {PI_UserProperty, PI_SubscriptionIdentifier}"
  shows "\<not> has_property p k" and "has_property q k"
  using assms by (cases k; auto simp: and_then_eq_Ok set_once_def split: if_splits)+

lemma valid_default_properties [simp]: "valid_properties scope default_properties"
proof -
  have "\<not> has_property default_properties k" for k
    by (cases k) simp_all
  then show ?thesis
    by (simp add: valid_properties_def values_ok_def payload_format_ok_def)
qed

lemma valid_properties_encodable: "valid_properties scope p \<Longrightarrow> encodable_properties p"
  by (simp add: valid_properties_def encodable_properties_def values_ok_def)

lemma properties_parse_loop_valid:
  assumes "properties_parse_loop scope i p = Ok q" and "valid_properties scope p"
  shows "valid_properties scope q"
  using assms
proof (induction scope i p rule: properties_parse_loop.induct)
  case (1 scope i p)
  show ?case
  proof (cases "i = []")
    case True
    with "1.prems" show ?thesis by (simp add: properties_parse_loop.simps [of scope "[]"])
  next
    case False
    with "1.prems" obtain j n k r p' where s: "parse_variable_byte_integer i = Ok (j, n)"
      "property_identifier_from_u32 n = Ok k" "ensure_allowed k scope = Ok ()"
      "parse_property k j p = Ok (r, p')" and l: "properties_parse_loop scope r p' = Ok q"
      by (auto simp: properties_parse_loop.simps [of scope i] and_then_eq_Ok)
    from s(3) have "allowed_on k scope"
      by (simp add: ensure_allowed_def split: if_splits)
    with "1.prems"(2) parse_property_has [OF s(4)] parse_property_values [OF s(4)]
      parse_property_utf8 [OF s(4)]
    have "valid_properties scope p'"
      unfolding valid_properties_def by blast
    with "1.IH" [OF False s(1) refl s(2,3,4) refl l] show ?thesis .
  qed
qed

lemma properties_parse_valid:
  assumes "properties_parse i scope = Ok (r, p)"
  shows "valid_properties scope p"
  using assms properties_parse_loop_valid [OF _ valid_default_properties]
  by (auto simp: properties_parse_def and_then_eq_Ok Let_def split: if_splits)


end
