(* ===== verification/V5_Fixed_Header.thy ===== *)
theory V5_Fixed_Header
  imports V5_Common
begin

text \<open>
  The fixed header of \<open>mqtt/src/v5/fixed_header.rs\<close>: packet types with their numbers, the flag
  rules per packet type, and the header's encoder and parser.
\<close>

datatype control_packet_type =
    CPT_Connect | CPT_Connack | CPT_Publish | CPT_Puback | CPT_Pubrec | CPT_Pubrel
  | CPT_Pubcomp | CPT_Subscribe | CPT_Suback | CPT_Unsubscribe | CPT_Unsuback
  | CPT_Pingreq | CPT_Pingresp | CPT_Disconnect | CPT_Auth

fun control_packet_type_as_u8 :: "control_packet_type \<Rightarrow> u8" where
  "control_packet_type_as_u8 CPT_Connect = 1"
| "control_packet_type_as_u8 CPT_Connack = 2"
| "control_packet_type_as_u8 CPT_Publish = 3"
| "control_packet_type_as_u8 CPT_Puback = 4"
| "control_packet_type_as_u8 CPT_Pubrec = 5"
| "control_packet_type_as_u8 CPT_Pubrel = 6"
| "control_packet_type_as_u8 CPT_Pubcomp = 7"
| "control_packet_type_as_u8 CPT_Subscribe = 8"
| "control_packet_type_as_u8 CPT_Suback = 9"
| "control_packet_type_as_u8 CPT_Unsubscribe = 10"
| "control_packet_type_as_u8 CPT_Unsuback = 11"
| "control_packet_type_as_u8 CPT_Pingreq = 12"
| "control_packet_type_as_u8 CPT_Pingresp = 13"
| "control_packet_type_as_u8 CPT_Disconnect = 14"
| "control_packet_type_as_u8 CPT_Auth = 15"

fun control_packet_type_name :: "control_packet_type \<Rightarrow> string" where
  "control_packet_type_name CPT_Connect = ''CONNECT''"
| "control_packet_type_name CPT_Connack = ''CONNACK''"
| "control_packet_type_name CPT_Publish = ''PUBLISH''"
| "control_packet_type_name CPT_Puback = ''PUBACK''"
| "control_packet_type_name CPT_Pubrec = ''PUBREC''"
| "control_packet_type_name CPT_Pubrel = ''PUBREL''"
| "control_packet_type_name CPT_Pubcomp = ''PUBCOMP''"
| "control_packet_type_name CPT_Subscribe = ''SUBSCRIBE''"
| "control_packet_type_name CPT_Suback = ''SUBACK''"
| "control_packet_type_name CPT_Unsubscribe = ''UNSUBSCRIBE''"
| "control_packet_type_name CPT_Unsuback = ''UNSUBACK''"
| "control_packet_type_name CPT_Pingreq = ''PINGREQ''"
| "control_packet_type_name CPT_Pingresp = ''PINGRESP''"
| "control_packet_type_name CPT_Disconnect = ''DISCONNECT''"
| "control_packet_type_name CPT_Auth = ''AUTH''"

definition control_packet_type_try_from ::
  "u8 \<Rightarrow> (control_packet_type, mqtt5_parse_error) result" where
  "control_packet_type_try_from v =
     (if v = 1 then Ok CPT_Connect
      else if v = 2 then Ok CPT_Connack
      else if v = 3 then Ok CPT_Publish
      else if v = 4 then Ok CPT_Puback
      else if v = 5 then Ok CPT_Pubrec
      else if v = 6 then Ok CPT_Pubrel
      else if v = 7 then Ok CPT_Pubcomp
      else if v = 8 then Ok CPT_Subscribe
      else if v = 9 then Ok CPT_Suback
      else if v = 10 then Ok CPT_Unsubscribe
      else if v = 11 then Ok CPT_Unsuback
      else if v = 12 then Ok CPT_Pingreq
      else if v = 13 then Ok CPT_Pingresp
      else if v = 14 then Ok CPT_Disconnect
      else if v = 15 then Ok CPT_Auth
      else Err (UnsupportedPacketType v))"

record fixed_header =
  packet_type :: control_packet_type
  flags :: u8
  header_dup :: bool
  header_qos :: u8
  header_retain :: bool
  remaining_length :: u32

definition flags_valid :: "control_packet_type \<Rightarrow> u8 \<Rightarrow> bool" where
  "flags_valid t f =
     (case t of
        CPT_Publish \<Rightarrow> drop_bit 1 (f AND 0b0110) \<noteq> 0b11
      | CPT_Pubrel \<Rightarrow> f = 0b0010
      | CPT_Subscribe \<Rightarrow> f = 0b0010
      | CPT_Unsubscribe \<Rightarrow> f = 0b0010
      | _ \<Rightarrow> f = 0)"

definition validate_flags :: "control_packet_type \<Rightarrow> u8 \<Rightarrow> (unit, mqtt5_parse_error) result" where
  "validate_flags t f =
     (if flags_valid t f then Ok ()
      else Err (InvalidFixedHeaderFlags (control_packet_type_as_u8 t) f))"

text \<open>The struct literal that \<open>FixedHeader::new\<close> and \<open>parse\<close> share.\<close>

definition make_fixed_header :: "control_packet_type \<Rightarrow> u8 \<Rightarrow> u32 \<Rightarrow> fixed_header" where
  "make_fixed_header t f n =
     \<lparr>packet_type = t, flags = f, header_dup = (f AND 0b1000 \<noteq> 0),
      header_qos = drop_bit 1 (f AND 0b0110), header_retain = (f AND 0b0001 \<noteq> 0),
      remaining_length = n\<rparr>"

definition fixed_header_new ::
  "control_packet_type \<Rightarrow> u8 \<Rightarrow> u32 \<Rightarrow> (fixed_header, mqtt5_parse_error) result" where
  "fixed_header_new t f n =
     and_then (validate_flags t f) (\<lambda>_. Ok (make_fixed_header t f n))"

definition fixed_header_encode :: "fixed_header \<Rightarrow> bytes \<Rightarrow> encoded" where
  "fixed_header_encode h buffer =
     and_then (validate_flags (packet_type h) (flags h)) (\<lambda>_.
       encode_variable_byte_integer (remaining_length h)
         (buffer @ [push_bit 4 (control_packet_type_as_u8 (packet_type h)) OR (flags h AND 0x0F)]))"

definition fixed_header_parse :: "bytes \<Rightarrow> u32 \<Rightarrow> fixed_header parsed" where
  "fixed_header_parse input max_message_size =
     (case input of
        [] \<Rightarrow> Err (Incomplete ''fixed header'')
      | first_byte # tail \<Rightarrow>
          and_then (control_packet_type_try_from (drop_bit 4 first_byte)) (\<lambda>t.
          let f = first_byte AND 0x0F in
          and_then (validate_flags t f) (\<lambda>_.
          and_then (parse_variable_byte_integer tail) (\<lambda>(input, n).
          if n > max_message_size then Err (RemainingLengthExceeded n max_message_size)
          else Ok (input, make_fixed_header t f n)))))"

text \<open>
  The tail shared by every packet encoder: \<open>FixedHeader::new\<close> with the body's length converted
  by \<open>try_into\<close>, \<open>encode\<close> into the buffer, then the body.
\<close>

definition encode_frame :: "control_packet_type \<Rightarrow> u8 \<Rightarrow> bytes \<Rightarrow> bytes \<Rightarrow> encoded" where
  "encode_frame t f body buffer =
     (if length body > 4294967295
      then Err (VariableByteIntegerTooLarge (word_of_nat (length body)))
      else and_then (fixed_header_new t f (word_of_nat (length body))) (\<lambda>h.
           and_then (fixed_header_encode h buffer) (\<lambda>buffer. Ok (buffer @ body))))"

text \<open>
  The frame every packet parser opens with: the fixed header, the check of the packet type, a
  check of the header particular to the packet, the wait for the whole body, then the body's
  parser on exactly the body's bytes (\<open>split_at\<close>), whose own rest is dropped.
\<close>

definition parse_frame ::
  "control_packet_type \<Rightarrow> string \<Rightarrow> (fixed_header \<Rightarrow> (unit, mqtt5_parse_error) result) \<Rightarrow> string \<Rightarrow>
   (fixed_header \<Rightarrow> bytes \<Rightarrow> 'a parsed) \<Rightarrow> ('a \<Rightarrow> 'b) \<Rightarrow> bytes \<Rightarrow> u32 \<Rightarrow> 'b parsed" where
  "parse_frame t unexpected header_check incomplete parse_body builder input max_message_size =
     and_then (fixed_header_parse input max_message_size) (\<lambda>(input, h).
     if packet_type h \<noteq> t then Err (MalformedPacket unexpected)
     else and_then (header_check h) (\<lambda>_.
     let n = unat (remaining_length h) in
     if length input < n then Err (Incomplete incomplete)
     else and_then (parse_body h (take n input)) (\<lambda>(_, x). Ok (drop n input, builder x))))"

section \<open>Laws\<close>

lemma try_from_as_u8 [simp]:
  "control_packet_type_try_from (control_packet_type_as_u8 t) = Ok t"
  by (cases t) (simp_all add: control_packet_type_try_from_def)

lemma try_from_Ok: "control_packet_type_try_from v = Ok t \<Longrightarrow> v = control_packet_type_as_u8 t"
  by (auto simp: control_packet_type_try_from_def split: if_splits)

lemma flags_valid_small:
  assumes "flags_valid t f" and "t \<noteq> CPT_Publish"
  shows "f AND 0x0F = f"
  using assms by (cases t) (auto simp: flags_valid_def)

lemma first_byte_split:
  assumes "f AND 0x0F = (f :: u8)"
  shows "drop_bit 4 (push_bit 4 (control_packet_type_as_u8 t) OR (f AND 0x0F))
      = control_packet_type_as_u8 t"
    and "(push_bit 4 (control_packet_type_as_u8 t) OR (f AND 0x0F)) AND 0x0F = f"
proof -
  have z: "drop_bit 4 ((f AND 0x0F) :: u8) = 0"
    by (simp add: drop_bit_and)
  show "drop_bit 4 (push_bit 4 (control_packet_type_as_u8 t) OR (f AND 0x0F))
      = control_packet_type_as_u8 t"
    unfolding drop_bit_or z by (cases t) simp_all
  have "push_bit 4 (control_packet_type_as_u8 t) AND 0x0F = 0"
    by (cases t) simp_all
  then show "(push_bit 4 (control_packet_type_as_u8 t) OR (f AND 0x0F)) AND 0x0F = f"
    using assms by (simp add: word_ao_dist and.assoc)
qed

text \<open>
  A header whose flags fit in the low nibble and pass \<open>validate_flags\<close> is read back, provided
  the length is within the reader's limit.
\<close>

lemma fixed_header_roundtrip:
  assumes "fixed_header_encode (make_fixed_header t f n) buffer = Ok buffer'"
    and "f AND 0x0F = f" and "n \<le> m"
  shows "\<exists>bs. buffer' = buffer @ bs \<and>
    (\<forall>rest. fixed_header_parse (bs @ rest) m = Ok (rest, make_fixed_header t f n))"
proof -
  let ?b = "push_bit 4 (control_packet_type_as_u8 t) OR (f AND 0x0F)"
  from assms(1) have v: "validate_flags t f = Ok ()"
    and e: "encode_variable_byte_integer n (buffer @ [?b]) = Ok buffer'"
    by (auto simp: fixed_header_encode_def make_fixed_header_def and_then_eq_Ok)
  from vbi.enc_dec [OF TrueI e] obtain bs where "buffer' = buffer @ [?b] @ bs"
    and p: "\<forall>rest. parse_variable_byte_integer (bs @ rest) = Ok (rest, n)"
    by auto
  moreover have "fixed_header_parse ((?b # bs) @ rest) m = Ok (rest, make_fixed_header t f n)" for rest
    using p v assms(3) unfolding fixed_header_parse_def Let_def
    by (simp add: first_byte_split [OF assms(2), simplified] Let_def)
  ultimately show ?thesis
    by (intro exI [of _ "?b # bs"]) simp
qed

interpretation fixed_header: stream_parser "\<lambda>i. fixed_header_parse i m" for m
proof unfold_locales
  fix i r h k
  assume "fixed_header_parse i m = Ok (r, h)"
  then obtain b j t where i: "i = b # j" and t: "control_packet_type_try_from (drop_bit 4 b) = Ok t"
    and v: "validate_flags t (b AND 0x0F) = Ok ()"
    and p: "parse_variable_byte_integer j = Ok (r, remaining_length h)"
    and h: "h = make_fixed_header t (b AND 0x0F) (remaining_length h)" "remaining_length h \<le> m"
    by (auto simp: fixed_header_parse_def and_then_eq_Ok Let_def make_fixed_header_def
        split: list.splits if_splits)
  from vbi.dec_consumes [OF p] i show "\<exists>c. c \<noteq> [] \<and> i = c @ r"
    by (metis append_Cons list.discI)
  from vbi.dec_extend [OF p] i t v h show "fixed_header_parse (i @ k) m = Ok (r @ k, h)"
    by (auto simp: fixed_header_parse_def Let_def)
qed

lemma fixed_header_parse_length_le:
  "fixed_header_parse i m = Ok (r, h) \<Longrightarrow> remaining_length h \<le> m"
  by (auto simp: fixed_header_parse_def and_then_eq_Ok Let_def make_fixed_header_def
      split: list.splits if_splits)

lemma fixed_header_parse_flags:
  "fixed_header_parse i m = Ok (r, h) \<Longrightarrow> flags_valid (packet_type h) (flags h)"
  by (auto simp: fixed_header_parse_def and_then_eq_Ok Let_def make_fixed_header_def
      validate_flags_def split: list.splits if_splits)

text \<open>Reading back a whole frame: the header, then exactly the body's bytes.\<close>

lemma encode_frame_roundtrip:
  assumes "encode_frame t f body buffer = Ok buffer'"
    and "f AND 0x0F = f" and "length body \<le> unat m"
  shows "\<exists>hs. buffer' = buffer @ hs @ body \<and> length body \<le> 268435455 \<and>
    (\<forall>rest. fixed_header_parse (hs @ rest) m
       = Ok (rest, make_fixed_header t f (word_of_nat (length body))))"
proof -
  from assms(1) have l: "length body \<le> 4294967295" and v: "validate_flags t f = Ok ()"
    by (auto simp: encode_frame_def fixed_header_new_def and_then_eq_Ok split: if_splits)
  from l have u: "unat (word_of_nat (length body) :: u32) = length body"
    by (simp add: unat_of_nat)
  from assms(1) l v obtain b where
    e: "fixed_header_encode (make_fixed_header t f (word_of_nat (length body))) buffer = Ok b"
    and b: "buffer' = b @ body"
    by (auto simp: encode_frame_def fixed_header_new_def and_then_eq_Ok split: if_splits)
  from assms(3) u have "word_of_nat (length body) \<le> m"
    by (simp add: word_le_nat_alt)
  from fixed_header_roundtrip [OF e assms(2) this] b obtain hs where
    "buffer' = buffer @ hs @ body"
    "\<forall>rest. fixed_header_parse (hs @ rest) m = Ok (rest, make_fixed_header t f (word_of_nat (length body)))"
    by auto
  moreover have "length body \<le> 268435455"
  proof -
    from e have "(word_of_nat (length body) :: u32) \<le> MAX_VARIABLE_BYTE_INTEGER"
      by (auto simp: fixed_header_encode_def make_fixed_header_def and_then_eq_Ok
          encode_variable_byte_integer_def split: if_splits)
    then show ?thesis
      by (simp add: word_le_nat_alt u MAX_VARIABLE_BYTE_INTEGER_def)
  qed
  ultimately show ?thesis by blast
qed


lemma encode_frame_bound:
  "encode_frame t f body buffer = Ok buffer' \<Longrightarrow> length body < 4294967296"
  by (auto simp: encode_frame_def and_then_eq_Ok split: if_splits)

lemma encode_frame_length:
  assumes "encode_frame t f body buffer = Ok buffer'"
  shows "length buffer + length body \<le> length buffer'"
proof -
  from assms obtain h b where h: "fixed_header_encode h buffer = Ok b" and b: "buffer' = b @ body"
    by (auto simp: encode_frame_def and_then_eq_Ok split: if_splits)
  from h obtain x n where "encode_variable_byte_integer n (buffer @ [x]) = Ok b"
    by (auto simp: fixed_header_encode_def and_then_eq_Ok)
  from vbi.enc_nonempty [OF TrueI this] b show ?thesis
    by simp
qed

lemma parse_frame_roundtrip:
  assumes "encode_frame t f body buffer = Ok buffer'" and "f AND 0x0F = f"
    and "length body \<le> unat m"
    and "header_check (make_fixed_header t f (word_of_nat (length body))) = Ok ()"
    and "parse_body (make_fixed_header t f (word_of_nat (length body))) body = Ok (r, x)"
  shows "\<exists>bs. buffer' = buffer @ bs \<and> (\<forall>rest.
    parse_frame t unexpected header_check incomplete parse_body builder (bs @ rest) m
      = Ok (rest, builder x))"
proof -
  from encode_frame_roundtrip [OF assms(1-3)] obtain hs where
    b: "buffer' = buffer @ hs @ body" and l: "length body \<le> 268435455"
    and h: "\<forall>rest. fixed_header_parse (hs @ rest) m
       = Ok (rest, make_fixed_header t f (word_of_nat (length body)))"
    by blast
  from l have u: "unat (word_of_nat (length body) :: u32) = length body"
    by (simp add: unat_of_nat)
  have "packet_type (make_fixed_header t f n) = t" "remaining_length (make_fixed_header t f n) = n" for n
    by (simp_all add: make_fixed_header_def)
  with b h u assms(4,5) show ?thesis
    by (intro exI [of _ "hs @ body"]) (simp add: parse_frame_def Let_def)
qed

lemma parse_frame_Ok:
  assumes "parse_frame t unexpected header_check incomplete parse_body builder i m = Ok (r, y)"
  obtains j h s x where "fixed_header_parse i m = Ok (j, h)" and "packet_type h = t"
    and "header_check h = Ok ()" and "unat (remaining_length h) \<le> length j"
    and "parse_body h (take (unat (remaining_length h)) j) = Ok (s, x)"
    and "r = drop (unat (remaining_length h)) j" and "y = builder x"
  using assms
  by (auto simp: parse_frame_def and_then_eq_Ok Let_def split: if_splits)

interpretation frame: stream_parser
  "\<lambda>i. parse_frame t unexpected header_check incomplete parse_body builder i m"
  for t unexpected header_check incomplete parse_body builder m
proof unfold_locales
  fix i r y k
  assume "parse_frame t unexpected header_check incomplete parse_body builder i m = Ok (r, y)"
  then obtain j h s x where p: "fixed_header_parse i m = Ok (j, h)" "packet_type h = t"
    "header_check h = Ok ()" "unat (remaining_length h) \<le> length j"
    "parse_body h (take (unat (remaining_length h)) j) = Ok (s, x)"
    "r = drop (unat (remaining_length h)) j" "y = builder x"
    by (rule parse_frame_Ok)
  from fixed_header.dec_consumes [OF p(1)] p(6) show "\<exists>c. c \<noteq> [] \<and> i = c @ r"
    by (metis append_assoc append_is_Nil_conv append_take_drop_id)
  from fixed_header.dec_extend [OF p(1)] p
  show "parse_frame t unexpected header_check incomplete parse_body builder (i @ k) m = Ok (r @ k, y)"
    by (simp add: parse_frame_def Let_def)
qed

interpretation fixed_header_inc: incremental_parser "\<lambda>i. fixed_header_parse i m" for m
proof unfold_locales
  fix c r h
  assume a: "fixed_header_parse (c @ r) m = Ok (r, h)"
  with fixed_header.dec_consumes [OF a] obtain b c' where c: "c = b # c'"
    by (cases c) auto
  with a obtain t n where *: "control_packet_type_try_from (drop_bit 4 b) = Ok t"
    "validate_flags t (b AND 0x0F) = Ok ()" and n: "parse_variable_byte_integer (c' @ r) = Ok (r, n)"
    and **: "n \<le> m" "h = make_fixed_header t (b AND 0x0F) n"
    by (auto simp: fixed_header_parse_def and_then_eq_Ok Let_def split: if_splits)
  from vbi_inc.dec_exact [OF n] * ** c show "fixed_header_parse c m = Ok ([], h)"
    by (simp add: fixed_header_parse_def Let_def)
next
  fix xs ys h
  assume a: "fixed_header_parse (xs @ ys) m = Ok ([], h)" and "ys \<noteq> []"
  show "\<exists>s. fixed_header_parse xs m = Err (Incomplete s)"
  proof (cases xs)
    case Nil
    then show ?thesis by (simp add: fixed_header_parse_def)
  next
    case (Cons b c)
    with a obtain t n where *: "control_packet_type_try_from (drop_bit 4 b) = Ok t"
      "validate_flags t (b AND 0x0F) = Ok ()" and n: "parse_variable_byte_integer (c @ ys) = Ok ([], n)"
      by (auto simp: fixed_header_parse_def and_then_eq_Ok Let_def split: if_splits)
    from vbi_inc.dec_prefix [OF n \<open>ys \<noteq> []\<close>] * Cons show ?thesis
      by (auto simp: fixed_header_parse_def Let_def)
  qed
qed

interpretation frame_inc: incremental_parser
  "\<lambda>i. parse_frame t unexpected header_check incomplete parse_body builder i m"
  for t unexpected header_check incomplete parse_body builder m
proof unfold_locales
  let ?p = "\<lambda>i. parse_frame t unexpected header_check incomplete parse_body builder i m"
  have key: "(\<exists>j h s x. fixed_header_parse c m = Ok (j, h) \<and> packet_type h = t \<and>
      header_check h = Ok () \<and> length j = unat (remaining_length h) \<and>
      parse_body h j = Ok (s, x) \<and> y = builder x)"
    if a: "?p (c @ r) = Ok (r, y)" for c r y
  proof -
    from a obtain j h s x where p: "fixed_header_parse (c @ r) m = Ok (j, h)" "packet_type h = t"
      "header_check h = Ok ()" "unat (remaining_length h) \<le> length j"
      "parse_body h (take (unat (remaining_length h)) j) = Ok (s, x)"
      "r = drop (unat (remaining_length h)) j" "y = builder x"
      by (rule parse_frame_Ok)
    from fixed_header.dec_consumes [OF p(1)] obtain hs where hs: "c @ r = hs @ j" by blast
    let ?b = "take (unat (remaining_length h)) j"
    have "c @ r = hs @ ?b @ r"
      using hs p(6) by simp
    then have c: "c = hs @ ?b"
      by simp
    from fixed_header_inc.dec_front [where c = hs and r = j and r' = ?b] p(1) hs c
    have "fixed_header_parse c m = Ok (?b, h)"
      by simp
    then show ?thesis
      using p(2,3,5,7) min_absorb2 [OF p(4)] by (metis length_take)
  qed
  show "?p c = Ok ([], y)" if "?p (c @ r) = Ok (r, y)" for c r y
    using key [OF that] by (auto simp: parse_frame_def Let_def)
  show "\<exists>s. ?p xs = Err (Incomplete s)" if a: "?p (xs @ ys) = Ok ([], y)" "ys \<noteq> []" for xs ys y
  proof -
    from key [of "xs @ ys" "[]"] a obtain j h where j: "fixed_header_parse (xs @ ys) m = Ok (j, h)"
      "packet_type h = t" "header_check h = Ok ()" "length j = unat (remaining_length h)"
      by auto
    from fixed_header_inc.dec_splits [OF j(1) refl] show ?thesis
      using j a(2) by (cases ys) (auto simp: parse_frame_def Let_def)
  qed
qed

section \<open>The contract of a packet codec\<close>

text \<open>
  What each packet module promises to its callers: its parser is incremental and accepts only
  its own packet type, and what its encoder writes is read back as \<open>read_back a\<close>, whatever
  follows, when the reader's limit admits the packet.
\<close>

locale packet_codec =
  fixes ptype :: control_packet_type
    and parse :: "bytes \<Rightarrow> u32 \<Rightarrow> 'p parsed"
    and enc :: "'a \<Rightarrow> bytes \<Rightarrow> encoded"
    and ok :: "'a \<Rightarrow> bool"
    and read_back :: "'a \<Rightarrow> 'p"
  assumes parse_consumes: "parse i m = Ok (r, p) \<Longrightarrow> \<exists>c. c \<noteq> [] \<and> i = c @ r"
    and parse_extend: "parse i m = Ok (r, p) \<Longrightarrow> parse (i @ k) m = Ok (r @ k, p)"
    and parse_exact: "parse (c @ r) m = Ok (r, p) \<Longrightarrow> parse c m = Ok ([], p)"
    and parse_prefix: "parse (xs @ ys) m = Ok ([], p) \<Longrightarrow> ys \<noteq> [] \<Longrightarrow>
      \<exists>s. parse xs m = Err (Incomplete s)"
    and parse_type: "parse i m = Ok (r, p) \<Longrightarrow>
      \<exists>j h. fixed_header_parse i m = Ok (j, h) \<and> packet_type h = ptype"
    and parse_enc: "ok a \<Longrightarrow> enc a buf = Ok buf' \<Longrightarrow> length buf' - length buf \<le> unat m \<Longrightarrow>
      \<exists>bs. buf' = buf @ bs \<and> (\<forall>rest. parse (bs @ rest) m = Ok (rest, read_back a))"
begin

lemma enc_determines:
  assumes "ok a" and "ok b" and "enc a [] = Ok bs" and "enc b [] = Ok bs"
    and "length bs \<le> unat (m :: u32)"
  shows "read_back a = read_back b"
proof -
  have a: "\<forall>rest. parse (bs @ rest) m = Ok (rest, read_back a)"
    using parse_enc [of a "[]" bs m] assms by auto
  have b: "\<forall>rest. parse (bs @ rest) m = Ok (rest, read_back b)"
    using parse_enc [of b "[]" bs m] assms by auto
  from a [rule_format, of "[]"] b [rule_format, of "[]"] show ?thesis by simp
qed

end

sublocale packet_codec \<subseteq> incremental_parser "\<lambda>i. parse i m" for m
  by unfold_locales (auto intro: parse_consumes parse_extend parse_exact parse_prefix)

lemma packet_codec_frame:
  assumes p: "\<And>i m. parse i m = parse_frame t unexpected header_check incomplete parse_body builder i m"
    and e: "\<And>a buf buf'. ok a \<Longrightarrow> enc a buf = Ok buf' \<Longrightarrow>
      \<exists>f body r x. encode_frame t f body buf = Ok buf' \<and> f AND 0x0F = f \<and>
        header_check (make_fixed_header t f (word_of_nat (length body))) = Ok () \<and>
        parse_body (make_fixed_header t f (word_of_nat (length body))) body = Ok (r, x) \<and>
        builder x = read_back a"
  shows "packet_codec t parse enc ok read_back"
proof unfold_locales
  show "\<exists>c. c \<noteq> [] \<and> i = c @ r" if "parse i m = Ok (r, p)" for i m r p
    using that unfolding p by (rule frame.dec_consumes)
  show "parse (i @ k) m = Ok (r @ k, p)" if "parse i m = Ok (r, p)" for i m r p k
    using that unfolding p by (rule frame.dec_extend)
  show "parse c m = Ok ([], p)" if "parse (c @ r) m = Ok (r, p)" for c r m p
    using that unfolding p by (rule frame_inc.dec_exact)
  show "\<exists>s. parse xs m = Err (Incomplete s)" if "parse (xs @ ys) m = Ok ([], p)" "ys \<noteq> []" for xs ys m p
    using that unfolding p by (rule frame_inc.dec_prefix)
  show "\<exists>j h. fixed_header_parse i m = Ok (j, h) \<and> packet_type h = t" if "parse i m = Ok (r, p)" for i m r p
    using that unfolding p by (meson parse_frame_Ok)
  show "\<exists>bs. buf' = buf @ bs \<and> (\<forall>rest. parse (bs @ rest) m = Ok (rest, read_back a))"
    if a: "ok a" "enc a buf = Ok buf'" "length buf' - length buf \<le> unat m" for a buf buf' m
  proof -
    from e [OF a(1,2)] obtain f body r x where f: "encode_frame t f body buf = Ok buf'" "f AND 0x0F = f"
      "header_check (make_fixed_header t f (word_of_nat (length body))) = Ok ()"
      "parse_body (make_fixed_header t f (word_of_nat (length body))) body = Ok (r, x)"
      and x: "builder x = read_back a"
      by blast
    have "length buf + length body \<le> length buf'"
      using f(1) by (rule encode_frame_length)
    with a(3) have "length body \<le> unat m"
      by linarith
    with parse_frame_roundtrip [where header_check = header_check and parse_body = parse_body
        and builder = builder] f x show ?thesis
      unfolding p by fastforce
  qed
qed

end
