(* ===== verification/V5_Reason_Code.thy ===== *)
theory V5_Reason_Code
  imports V5_Fixed_Header Mqtt_Packet
begin

text \<open>
  Reason codes on the wire, \<open>mqtt/src/v5/reason_code.rs\<close>: decoding, and the codes each packet
  type may carry.
\<close>

definition reason_code_decode :: "u8 \<Rightarrow> (reason_code, mqtt5_parse_error) result" where
  "reason_code_decode v =
     (if v = 0x00 then Ok RC_Success
      else if v = 0x01 then Ok RC_GrantedQos1
      else if v = 0x02 then Ok RC_GrantedQos2
      else if v = 0x10 then Ok RC_NoMatchingSubscribers
      else if v = 0x11 then Ok RC_NoSubscriptionExisted
      else if v = 0x18 then Ok RC_ContinueAuthentication
      else if v = 0x19 then Ok RC_ReAuthenticate
      else if v = 0x80 then Ok RC_UnspecifiedError
      else if v = 0x81 then Ok RC_MalformedPacket
      else if v = 0x82 then Ok RC_ProtocolError
      else if v = 0x83 then Ok RC_ImplementationSpecificError
      else if v = 0x84 then Ok RC_UnsupportedProtocolVersion
      else if v = 0x85 then Ok RC_ClientIdentifierNotValid
      else if v = 0x86 then Ok RC_BadUserNameOrPassword
      else if v = 0x87 then Ok RC_NotAuthorized
      else if v = 0x88 then Ok RC_ServerUnavailable
      else if v = 0x8C then Ok RC_BadAuthenticationMethod
      else if v = 0x8F then Ok RC_TopicFilterInvalid
      else if v = 0x90 then Ok RC_TopicNameInvalid
      else if v = 0x91 then Ok RC_PacketIdentifierInUse
      else if v = 0x92 then Ok RC_PacketIdentifierNotFound
      else if v = 0x95 then Ok RC_PacketTooLarge
      else if v = 0x97 then Ok RC_QuotaExceeded
      else if v = 0x99 then Ok RC_PayloadFormatInvalid
      else if v = 0x9A then Ok RC_RetainNotSupported
      else if v = 0x9B then Ok RC_QosNotSupported
      else if v = 0x9E then Ok RC_SharedSubscriptionsNotSupported
      else if v = 0xA1 then Ok RC_SubscriptionIdentifiersNotSupported
      else if v = 0xA2 then Ok RC_WildcardSubscriptionsNotSupported
      else Err (UnknownReasonCode v))"

definition reason_code_allowed :: "u8 \<Rightarrow> control_packet_type \<Rightarrow> bool" where
  "reason_code_allowed v t =
     (case t of
        CPT_Connack \<Rightarrow> v = 0x00 \<or> (0x80 \<le> v \<and> v \<le> 0x88) \<or> v \<in> {0x8C, 0x90, 0x95, 0x97} \<or>
          (0x99 \<le> v \<and> v \<le> 0x9B)
      | CPT_Puback \<Rightarrow> v \<in> {0x00, 0x10, 0x80, 0x83, 0x87, 0x90, 0x91, 0x97, 0x99}
      | CPT_Pubrec \<Rightarrow> v \<in> {0x00, 0x10, 0x80, 0x83, 0x87, 0x90, 0x91, 0x97, 0x99}
      | CPT_Pubrel \<Rightarrow> v \<in> {0x00, 0x92}
      | CPT_Pubcomp \<Rightarrow> v \<in> {0x00, 0x92}
      | CPT_Suback \<Rightarrow> v \<le> 0x02 \<or> v \<in> {0x80, 0x83, 0x87, 0x8F, 0x91, 0x97, 0x9E, 0xA1, 0xA2}
      | CPT_Unsuback \<Rightarrow> v \<in> {0x00, 0x11, 0x80, 0x83, 0x87, 0x8F, 0x91}
      | CPT_Disconnect \<Rightarrow> v = 0x00 \<or> (0x80 \<le> v \<and> v \<le> 0x83) \<or>
          v \<in> {0x87, 0x8C, 0x8F, 0x90, 0x95, 0x97} \<or> (0x99 \<le> v \<and> v \<le> 0x9B) \<or>
          v \<in> {0x9E, 0xA1, 0xA2}
      | CPT_Auth \<Rightarrow> v \<in> {0x00, 0x18, 0x19}
      | _ \<Rightarrow> True)"

definition validate_for_packet ::
  "reason_code \<Rightarrow> control_packet_type \<Rightarrow> (unit, mqtt5_parse_error) result" where
  "validate_for_packet c t =
     (if reason_code_allowed (reason_code_as_u8 c) t then Ok ()
      else Err (ReasonCodeNotAllowed (reason_code_as_u8 c) (control_packet_type_name t)))"

definition decode_for_packet ::
  "u8 \<Rightarrow> control_packet_type \<Rightarrow> (reason_code, mqtt5_parse_error) result" where
  "decode_for_packet v t =
     and_then (reason_code_decode v) (\<lambda>c.
     and_then (validate_for_packet c t) (\<lambda>_. Ok c))"

definition reason_code_encode :: "reason_code \<Rightarrow> u8" where
  "reason_code_encode c = reason_code_as_u8 c"

section \<open>Laws\<close>

text \<open>
  Three codes share the byte 0: \<open>Success\<close>, \<open>GrantedQos0\<close> and \<open>NormalDisconnection\<close>. Reading back
  a code gives the one the packet's decoder chooses for 0.
\<close>

definition canonical_code :: "reason_code \<Rightarrow> reason_code \<Rightarrow> reason_code" where
  "canonical_code zero c = (if reason_code_as_u8 c = 0 then zero else c)"

lemma decode_as_u8 [simp]: "reason_code_decode (reason_code_as_u8 c) = Ok (canonical_code RC_Success c)"
  by (cases c) (simp_all add: reason_code_decode_def canonical_code_def)

lemma as_u8_decode: "reason_code_decode v = Ok c \<Longrightarrow> reason_code_as_u8 c = v"
  by (auto simp: reason_code_decode_def split: if_splits)

lemma as_u8_canonical_code [simp]:
  "reason_code_as_u8 z = 0 \<Longrightarrow> reason_code_as_u8 (canonical_code z c) = reason_code_as_u8 c"
  by (simp add: canonical_code_def)

lemma validate_for_packet_Ok:
  "validate_for_packet c t = Ok () \<longleftrightarrow> reason_code_allowed (reason_code_as_u8 c) t"
  by (simp add: validate_for_packet_def)

lemma decode_for_packet_encode:
  "validate_for_packet c t = Ok () \<Longrightarrow>
   decode_for_packet (reason_code_encode c) t = Ok (canonical_code RC_Success c)"
  by (simp add: decode_for_packet_def reason_code_encode_def validate_for_packet_def split: if_splits)

lemma decode_for_packet_Ok:
  "decode_for_packet v t = Ok c \<longleftrightarrow> reason_code_decode v = Ok c \<and> reason_code_allowed v t"
  by (auto simp: decode_for_packet_def and_then_eq_Ok validate_for_packet_Ok dest: as_u8_decode)

end
