(* ===== verification/V5_Replies.thy ===== *)
theory V5_Replies
  imports V5_Properties V5_Reason_Code
begin

text \<open>
  The packets a peer answers with: the publish acknowledgements (\<open>v5/ack.rs\<close> with
  \<open>puback.rs\<close>, \<open>pubrec.rs\<close>, \<open>pubrel.rs\<close>, \<open>pubcomp.rs\<close>), CONNACK, SUBACK, UNSUBACK, DISCONNECT,
  AUTH and the two pings, each with its parser, its encoder and the round trip between them.
\<close>

section \<open>Publish acknowledgements\<close>

definition ack_parse_body ::
  "control_packet_type \<Rightarrow> property_scope \<Rightarrow> bytes \<Rightarrow> ack parsed" where
  "ack_parse_body t scope input =
     and_then (parse_u16 input ''publish acknowledgement packet identifier'') (\<lambda>(input, i).
     if i = 0
     then Err (MalformedPacket ''publish acknowledgement packet identifier must not be zero'')
     else if input = []
     then Ok (input, \<lparr>ack_protocol_version = V5_0, ack_packet_identifier = i,
                      ack_reason_code = RC_Success, ack_properties = default_properties\<rparr>)
     else
       and_then (parse_u8 input ''publish acknowledgement reason code'') (\<lambda>(input, c).
       and_then (decode_for_packet c t) (\<lambda>c.
       and_then (if input = [] then Ok (input, default_properties)
                 else properties_parse input scope) (\<lambda>(input, p).
       if input \<noteq> []
       then Err (MalformedPacket ''publish acknowledgement payload has trailing bytes'')
       else Ok (input, \<lparr>ack_protocol_version = V5_0, ack_packet_identifier = i,
                        ack_reason_code = c, ack_properties = p\<rparr>)))))"

definition ack_parse ::
  "bytes \<Rightarrow> u32 \<Rightarrow> control_packet_type \<Rightarrow> property_scope \<Rightarrow> (ack \<Rightarrow> packet) \<Rightarrow> packet parsed" where
  "ack_parse input max_message_size t scope packet_builder =
     parse_frame t ''unexpected publish acknowledgement packet type''
       (\<lambda>h. if unat (remaining_length h) < 2
             then Err (MalformedPacket
               ''publish acknowledgement remaining length must be at least 2'')
             else Ok ())
       ''publish acknowledgement body'' (\<lambda>_. ack_parse_body t scope) packet_builder
       input max_message_size"

definition fixed_header_flags :: "control_packet_type \<Rightarrow> u8" where
  "fixed_header_flags t = (case t of CPT_Pubrel \<Rightarrow> 0b0010 | _ \<Rightarrow> 0)"

definition ack_encode_body ::
  "ack \<Rightarrow> property_scope \<Rightarrow> encoded" where
  "ack_encode_body a scope =
     (let body = be16 (ack_packet_identifier a) in
      if ack_reason_code a \<noteq> RC_Success \<or> ack_properties a \<noteq> default_properties
      then let body = body @ [reason_code_encode (ack_reason_code a)] in
           if ack_properties a \<noteq> default_properties
           then properties_encode (ack_properties a) scope body
           else Ok body
      else Ok body)"

definition ack_encode ::
  "ack \<Rightarrow> control_packet_type \<Rightarrow> property_scope \<Rightarrow> bytes \<Rightarrow> encoded" where
  "ack_encode a t scope buffer =
     (if ack_protocol_version a \<noteq> V5_0
      then Err (MalformedPacket ''publish acknowledgement packet is not MQTT 5.0'')
      else if ack_packet_identifier a = 0
      then Err (MalformedPacket ''publish acknowledgement packet identifier must not be zero'')
      else
        and_then (validate_for_packet (ack_reason_code a) t) (\<lambda>_.
        and_then (ack_encode_body a scope) (\<lambda>body.
        encode_frame t (fixed_header_flags t) body buffer)))"

definition puback_parse :: "bytes \<Rightarrow> u32 \<Rightarrow> packet parsed" where
  "puback_parse input m = ack_parse input m CPT_Puback Scope_Puback Puback"

definition puback_encode :: "ack \<Rightarrow> bytes \<Rightarrow> encoded" where
  "puback_encode a buffer = ack_encode a CPT_Puback Scope_Puback buffer"

definition pubrec_parse :: "bytes \<Rightarrow> u32 \<Rightarrow> packet parsed" where
  "pubrec_parse input m = ack_parse input m CPT_Pubrec Scope_Pubrec Pubrec"

definition pubrec_encode :: "ack \<Rightarrow> bytes \<Rightarrow> encoded" where
  "pubrec_encode a buffer = ack_encode a CPT_Pubrec Scope_Pubrec buffer"

definition pubrel_parse :: "bytes \<Rightarrow> u32 \<Rightarrow> packet parsed" where
  "pubrel_parse input m = ack_parse input m CPT_Pubrel Scope_Pubrel Pubrel"

definition pubrel_encode :: "ack \<Rightarrow> bytes \<Rightarrow> encoded" where
  "pubrel_encode a buffer = ack_encode a CPT_Pubrel Scope_Pubrel buffer"

definition pubcomp_parse :: "bytes \<Rightarrow> u32 \<Rightarrow> packet parsed" where
  "pubcomp_parse input m = ack_parse input m CPT_Pubcomp Scope_Pubcomp Pubcomp"

definition pubcomp_encode :: "ack \<Rightarrow> bytes \<Rightarrow> encoded" where
  "pubcomp_encode a buffer = ack_encode a CPT_Pubcomp Scope_Pubcomp buffer"

section \<open>CONNACK\<close>

definition connack_parse_body :: "bytes \<Rightarrow> connack parsed" where
  "connack_parse_body input =
     and_then (parse_u8 input ''CONNACK acknowledge flags'') (\<lambda>(input, f).
     if f AND 0xFE \<noteq> 0
     then Err (MalformedPacket ''CONNACK acknowledge flags reserved bits must be zero'')
     else
       let present = (f AND 0x01 \<noteq> 0) in
       and_then (parse_u8 input ''CONNACK reason code'') (\<lambda>(input, c).
       and_then (decode_for_packet c CPT_Connack) (\<lambda>c.
       if c \<noteq> RC_Success \<and> present
       then Err (MalformedPacket ''CONNACK session present requires success reason code'')
       else
         and_then (properties_parse input Scope_Connack) (\<lambda>(input, p).
         if input \<noteq> [] then Err (MalformedPacket ''CONNACK payload has trailing bytes'')
         else Ok (input, \<lparr>connack_protocol_version = V5_0, session_present = present,
                          connack_reason_code = c, connack_properties = p\<rparr>)))))"

definition connack_parse :: "bytes \<Rightarrow> u32 \<Rightarrow> packet parsed" where
  "connack_parse input m =
     parse_frame CPT_Connack ''expected CONNACK packet'' (\<lambda>_. Ok ()) ''CONNACK body''
       (\<lambda>_. connack_parse_body) Connack input m"

definition connack_encode :: "connack \<Rightarrow> bytes \<Rightarrow> encoded" where
  "connack_encode a buffer =
     (if connack_protocol_version a \<noteq> V5_0
      then Err (MalformedPacket ''CONNACK packet is not MQTT 5.0'')
      else if connack_reason_code a \<noteq> RC_Success \<and> session_present a
      then Err (MalformedPacket ''CONNACK session present requires success reason code'')
      else
        and_then (validate_for_packet (connack_reason_code a) CPT_Connack) (\<lambda>_.
        and_then (properties_encode (connack_properties a) Scope_Connack
          [if session_present a then 1 else 0, reason_code_encode (connack_reason_code a)])
        (\<lambda>body. encode_frame CPT_Connack 0 body buffer)))"

section \<open>SUBACK and UNSUBACK\<close>

definition decode_suback_reason_code :: "u8 \<Rightarrow> (reason_code, mqtt5_parse_error) result" where
  "decode_suback_reason_code v =
     and_then
       (if v = 0x00 then Ok RC_GrantedQos0
        else if v = 0x01 then Ok RC_GrantedQos1
        else if v = 0x02 then Ok RC_GrantedQos2
        else reason_code_decode v) (\<lambda>c.
     and_then (validate_for_packet c CPT_Suback) (\<lambda>_. Ok c))"

definition suback_parse_body :: "bytes \<Rightarrow> suback parsed" where
  "suback_parse_body input =
     and_then (parse_u16 input ''SUBACK packet identifier'') (\<lambda>(input, i).
     if i = 0 then Err (MalformedPacket ''SUBACK packet identifier must not be zero'')
     else
       and_then (properties_parse input Scope_Suback) (\<lambda>(input, p).
       if input = [] then Err (MalformedPacket ''SUBACK must contain at least one reason code'')
       else
         and_then (map_result decode_suback_reason_code input) (\<lambda>cs.
         Ok ([], \<lparr>suback_protocol_version = V5_0, suback_packet_identifier = i,
                  suback_reason_codes = cs, suback_properties = p\<rparr>))))"

definition suback_parse :: "bytes \<Rightarrow> u32 \<Rightarrow> packet parsed" where
  "suback_parse input m =
     parse_frame CPT_Suback ''expected SUBACK packet'' (\<lambda>_. Ok ()) ''SUBACK body''
       (\<lambda>_. suback_parse_body) Suback input m"

definition suback_encode :: "suback \<Rightarrow> bytes \<Rightarrow> encoded" where
  "suback_encode a buffer =
     (if suback_protocol_version a \<noteq> V5_0
      then Err (MalformedPacket ''SUBACK packet is not MQTT 5.0'')
      else if suback_packet_identifier a = 0
      then Err (MalformedPacket ''SUBACK packet identifier must not be zero'')
      else if suback_reason_codes a = []
      then Err (MalformedPacket ''SUBACK must contain at least one reason code'')
      else
        and_then (map_result (\<lambda>c. validate_for_packet c CPT_Suback) (suback_reason_codes a)) (\<lambda>_.
        and_then (properties_encode (suback_properties a) Scope_Suback
          (be16 (suback_packet_identifier a))) (\<lambda>body.
        encode_frame CPT_Suback 0 (body @ map reason_code_encode (suback_reason_codes a)) buffer)))"

definition unsuback_parse_body :: "bytes \<Rightarrow> unsuback parsed" where
  "unsuback_parse_body input =
     and_then (parse_u16 input ''UNSUBACK packet identifier'') (\<lambda>(input, i).
     if i = 0 then Err (MalformedPacket ''UNSUBACK packet identifier must not be zero'')
     else
       and_then (properties_parse input Scope_Unsuback) (\<lambda>(input, p).
       if input = [] then Err (MalformedPacket ''UNSUBACK must contain at least one reason code'')
       else
         and_then (map_result (\<lambda>v. decode_for_packet v CPT_Unsuback) input) (\<lambda>cs.
         Ok ([], \<lparr>unsuback_protocol_version = V5_0, unsuback_packet_identifier = i,
                  unsuback_reason_codes = cs, unsuback_properties = p\<rparr>))))"

definition unsuback_parse :: "bytes \<Rightarrow> u32 \<Rightarrow> packet parsed" where
  "unsuback_parse input m =
     parse_frame CPT_Unsuback ''expected UNSUBACK packet'' (\<lambda>_. Ok ()) ''UNSUBACK body''
       (\<lambda>_. unsuback_parse_body) Unsuback input m"

definition unsuback_encode :: "unsuback \<Rightarrow> bytes \<Rightarrow> encoded" where
  "unsuback_encode a buffer =
     (if unsuback_protocol_version a \<noteq> V5_0
      then Err (MalformedPacket ''UNSUBACK packet is not MQTT 5.0'')
      else if unsuback_packet_identifier a = 0
      then Err (MalformedPacket ''UNSUBACK packet identifier must not be zero'')
      else if unsuback_reason_codes a = []
      then Err (MalformedPacket ''UNSUBACK must contain at least one reason code'')
      else
        and_then (map_result (\<lambda>c. validate_for_packet c CPT_Unsuback) (unsuback_reason_codes a)) (\<lambda>_.
        and_then (properties_encode (unsuback_properties a) Scope_Unsuback
          (be16 (unsuback_packet_identifier a))) (\<lambda>body.
        encode_frame CPT_Unsuback 0 (body @ map reason_code_encode (unsuback_reason_codes a)) buffer)))"

section \<open>DISCONNECT\<close>

definition decode_disconnect_reason_code :: "u8 \<Rightarrow> (reason_code, mqtt5_parse_error) result" where
  "decode_disconnect_reason_code v =
     and_then (if v = 0 then Ok RC_NormalDisconnection else reason_code_decode v) (\<lambda>c.
     and_then (validate_for_packet c CPT_Disconnect) (\<lambda>_. Ok c))"

definition disconnect_parse_body :: "bytes \<Rightarrow> disconnect parsed" where
  "disconnect_parse_body input =
     and_then
       (if input = [] then Ok (RC_NormalDisconnection, default_properties)
        else
          and_then (parse_u8 input ''DISCONNECT reason code'') (\<lambda>(input, c).
          and_then (decode_disconnect_reason_code c) (\<lambda>c.
          if input = [] then Ok (c, default_properties)
          else
            and_then (properties_parse input Scope_Disconnect) (\<lambda>(input, p).
            if input \<noteq> [] then Err (MalformedPacket ''DISCONNECT payload has trailing bytes'')
            else Ok (c, p))))) (\<lambda>(c, p).
     Ok ([], \<lparr>disconnect_protocol_version = V5_0, disconnect_reason_code = c,
              disconnect_session_expiry_interval = session_expiry_interval p,
              disconnect_properties = p\<rparr>))"

definition disconnect_parse :: "bytes \<Rightarrow> u32 \<Rightarrow> packet parsed" where
  "disconnect_parse input m =
     parse_frame CPT_Disconnect ''expected DISCONNECT packet'' (\<lambda>_. Ok ()) ''DISCONNECT body''
       (\<lambda>_. disconnect_parse_body) Disconnect input m"

definition normalized_disconnect_properties ::
  "disconnect \<Rightarrow> (properties, mqtt5_parse_error) result" where
  "normalized_disconnect_properties d =
     (let p = disconnect_properties d in
      case (disconnect_session_expiry_interval d, session_expiry_interval p) of
        (Some a, Some b) \<Rightarrow>
          if a \<noteq> b
          then Err (MalformedPacket ''DISCONNECT session expiry interval disagrees with properties'')
          else Ok p
      | (Some a, None) \<Rightarrow> Ok (p\<lparr>session_expiry_interval := Some a\<rparr>)
      | _ \<Rightarrow> Ok p)"

definition disconnect_encode_body :: "reason_code \<Rightarrow> properties \<Rightarrow> encoded" where
  "disconnect_encode_body c p =
     (if c \<noteq> RC_NormalDisconnection \<or> p \<noteq> default_properties
      then if p \<noteq> default_properties
           then properties_encode p Scope_Disconnect [reason_code_encode c]
           else Ok [reason_code_encode c]
      else Ok [])"

definition disconnect_encode :: "disconnect \<Rightarrow> bytes \<Rightarrow> encoded" where
  "disconnect_encode d buffer =
     (if disconnect_protocol_version d \<noteq> V5_0
      then Err (MalformedPacket ''DISCONNECT packet is not MQTT 5.0'')
      else
        and_then (validate_for_packet (disconnect_reason_code d) CPT_Disconnect) (\<lambda>_.
        and_then (normalized_disconnect_properties d) (\<lambda>p.
        and_then (disconnect_encode_body (disconnect_reason_code d) p) (\<lambda>body.
        encode_frame CPT_Disconnect 0 body buffer))))"

section \<open>AUTH\<close>

definition auth_parse_body :: "bytes \<Rightarrow> auth parsed" where
  "auth_parse_body input =
     and_then
       (if input = [] then Ok (RC_Success, default_properties)
        else
          and_then (parse_u8 input ''AUTH reason code'') (\<lambda>(input, c).
          and_then (decode_for_packet c CPT_Auth) (\<lambda>c.
          if input = [] then Ok (c, default_properties)
          else
            and_then (properties_parse input Scope_Auth) (\<lambda>(input, p).
            if input \<noteq> [] then Err (MalformedPacket ''AUTH payload has trailing bytes'')
            else Ok (c, p))))) (\<lambda>(c, p).
     Ok ([], \<lparr>auth_reason_code = c, auth_properties = p\<rparr>))"

definition auth_parse :: "bytes \<Rightarrow> u32 \<Rightarrow> packet parsed" where
  "auth_parse input m =
     parse_frame CPT_Auth ''expected AUTH packet'' (\<lambda>_. Ok ()) ''AUTH body''
       (\<lambda>_. auth_parse_body) Auth input m"

definition auth_encode_body :: "auth \<Rightarrow> encoded" where
  "auth_encode_body a =
     (if auth_reason_code a \<noteq> RC_Success \<or> auth_properties a \<noteq> default_properties
      then if auth_properties a \<noteq> default_properties
           then properties_encode (auth_properties a) Scope_Auth
                  [reason_code_encode (auth_reason_code a)]
           else Ok [reason_code_encode (auth_reason_code a)]
      else Ok [])"

definition auth_encode :: "auth \<Rightarrow> bytes \<Rightarrow> encoded" where
  "auth_encode a buffer =
     and_then (validate_for_packet (auth_reason_code a) CPT_Auth) (\<lambda>_.
     and_then (auth_encode_body a) (\<lambda>body. encode_frame CPT_Auth 0 body buffer))"

section \<open>PINGREQ and PINGRESP\<close>

definition ping_parse :: "control_packet_type \<Rightarrow> string \<Rightarrow> string \<Rightarrow> packet \<Rightarrow> bytes \<Rightarrow> u32 \<Rightarrow> packet parsed"
  where
  "ping_parse t unexpected nonzero p input m =
     and_then (fixed_header_parse input m) (\<lambda>(input, h).
     if packet_type h \<noteq> t then Err (MalformedPacket unexpected)
     else if remaining_length h \<noteq> 0 then Err (MalformedPacket nonzero)
     else Ok (input, p))"

definition pingreq_parse :: "bytes \<Rightarrow> u32 \<Rightarrow> packet parsed" where
  "pingreq_parse input m =
     ping_parse CPT_Pingreq ''expected PINGREQ packet'' ''PINGREQ remaining length must be zero''
       Pingreq input m"

definition pingreq_encode :: "bytes \<Rightarrow> encoded" where
  "pingreq_encode buffer =
     and_then (fixed_header_new CPT_Pingreq 0 0) (\<lambda>h. fixed_header_encode h buffer)"

definition pingresp_parse :: "bytes \<Rightarrow> u32 \<Rightarrow> packet parsed" where
  "pingresp_parse input m =
     ping_parse CPT_Pingresp ''expected PINGRESP packet'' ''PINGRESP remaining length must be zero''
       Pingresp input m"

definition pingresp_encode :: "bytes \<Rightarrow> encoded" where
  "pingresp_encode buffer =
     and_then (fixed_header_new CPT_Pingresp 0 0) (\<lambda>h. fixed_header_encode h buffer)"

section \<open>Round trips\<close>

lemma encoded_properties:
  assumes "properties_encode p scope pre = Ok body" and "encodable_properties p"
    and "length body < 4294967296"
  obtains ps where "body = pre @ ps" and "ps \<noteq> []"
    and "\<And>rest. properties_parse (ps @ rest) scope = Ok (rest, p)"
    and "properties_parse ps scope = Ok ([], p)"
proof -
  from properties_roundtrip [OF assms] obtain ps where b: "body = pre @ ps"
    and r: "\<And>rest. properties_parse (ps @ rest) scope = Ok (rest, p)"
    by blast
  from r [of "[]"] have n: "properties_parse ps scope = Ok ([], p)"
    by simp
  then have "ps \<noteq> []"
    using properties_block.dec_consumes by fastforce
  with b r n show thesis by (intro that)
qed

text \<open>The check of a header that leaves it to the body: true of every header.\<close>

lemma zero_flags: "(0 :: u8) AND 0x0F = 0"
  by simp

subsection \<open>Publish acknowledgements\<close>

definition ack_read_back :: "ack \<Rightarrow> ack" where
  "ack_read_back a = a\<lparr>ack_reason_code := canonical_code RC_Success (ack_reason_code a)\<rparr>"

lemma ack_body_roundtrip:
  assumes "ack_encode_body a scope = Ok body" and "encodable_properties (ack_properties a)"
    and "length body < 4294967296" and "ack_packet_identifier a \<noteq> 0"
    and "ack_protocol_version a = V5_0" and "validate_for_packet (ack_reason_code a) t = Ok ()"
  shows "ack_parse_body t scope body = Ok ([], ack_read_back a) \<and> 2 \<le> length body"
proof (cases "ack_properties a = default_properties")
  case True
  then have "body = be16 (ack_packet_identifier a) @
      (if ack_reason_code a = RC_Success then [] else [reason_code_encode (ack_reason_code a)])"
    using assms(1) by (auto simp: ack_encode_body_def Let_def split: if_splits)
  moreover from True have "a = \<lparr>ack_protocol_version = V5_0,
      ack_packet_identifier = ack_packet_identifier a, ack_reason_code = ack_reason_code a,
      ack_properties = default_properties\<rparr>"
    using assms(5) by (cases a) simp
  ultimately show ?thesis
    using assms(4) decode_for_packet_encode [OF assms(6)]
    by (cases a) (auto simp: ack_parse_body_def ack_read_back_def canonical_code_def)
next
  case False
  then have "properties_encode (ack_properties a) scope
      (be16 (ack_packet_identifier a) @ [reason_code_encode (ack_reason_code a)]) = Ok body"
    using assms(1) by (simp add: ack_encode_body_def Let_def)
  from encoded_properties [OF this assms(2,3)] obtain ps where
    "body = be16 (ack_packet_identifier a) @ reason_code_encode (ack_reason_code a) # ps"
    "ps \<noteq> []" "properties_parse ps scope = Ok ([], ack_properties a)"
    by auto
  then show ?thesis
    using assms(4,5) decode_for_packet_encode [OF assms(6)]
    by (cases a) (simp add: ack_parse_body_def ack_read_back_def)
qed

lemma ack_codec:
  assumes "\<And>i m. parse i m = ack_parse i m t scope builder"
    and "\<And>a buf. enc a buf = ack_encode a t scope buf"
  shows "packet_codec t parse enc (\<lambda>a. encodable_properties (ack_properties a))
    (\<lambda>a. builder (ack_read_back a))"
proof (rule packet_codec_frame [where builder = builder, OF assms(1) [unfolded ack_parse_def]])
  fix a buf buf'
  assume wf: "encodable_properties (ack_properties a)" and "enc a buf = Ok buf'"
  then obtain body where v: "ack_protocol_version a = V5_0" "ack_packet_identifier a \<noteq> 0"
    "validate_for_packet (ack_reason_code a) t = Ok ()"
    and b: "ack_encode_body a scope = Ok body"
    and f: "encode_frame t (fixed_header_flags t) body buf = Ok buf'"
    by (auto simp: assms(2) ack_encode_def and_then_eq_Ok split: if_splits)
  have l: "length body < 4294967296"
    using f by (rule encode_frame_bound)
  from ack_body_roundtrip [OF b wf l v(2,1,3)]
  have r: "ack_parse_body t scope body = Ok ([], ack_read_back a)" and "2 \<le> length body"
    by simp_all
  then have "\<not> unat (remaining_length (make_fixed_header t (fixed_header_flags t)
      (word_of_nat (length body)))) < 2"
    using l by (simp add: make_fixed_header_def unat_of_nat)
  moreover have "fixed_header_flags t AND 0x0F = fixed_header_flags t"
    by (cases t) (simp_all add: fixed_header_flags_def)
  ultimately show "\<exists>f body r x. encode_frame t f body buf = Ok buf' \<and> f AND 0x0F = f \<and>
      (if unat (remaining_length (make_fixed_header t f (word_of_nat (length body)))) < 2
       then Err (MalformedPacket ''publish acknowledgement remaining length must be at least 2'')
       else Ok ()) = Ok () \<and>
      ack_parse_body t scope body = Ok (r, x) \<and> builder x = builder (ack_read_back a)"
    using f r by auto
qed

interpretation puback_codec: packet_codec CPT_Puback puback_parse puback_encode
  "\<lambda>a. encodable_properties (ack_properties a)" "\<lambda>a. Puback (ack_read_back a)"
  by (rule ack_codec [OF puback_parse_def puback_encode_def])

interpretation pubrec_codec: packet_codec CPT_Pubrec pubrec_parse pubrec_encode
  "\<lambda>a. encodable_properties (ack_properties a)" "\<lambda>a. Pubrec (ack_read_back a)"
  by (rule ack_codec [OF pubrec_parse_def pubrec_encode_def])

interpretation pubrel_codec: packet_codec CPT_Pubrel pubrel_parse pubrel_encode
  "\<lambda>a. encodable_properties (ack_properties a)" "\<lambda>a. Pubrel (ack_read_back a)"
  by (rule ack_codec [OF pubrel_parse_def pubrel_encode_def])

interpretation pubcomp_codec: packet_codec CPT_Pubcomp pubcomp_parse pubcomp_encode
  "\<lambda>a. encodable_properties (ack_properties a)" "\<lambda>a. Pubcomp (ack_read_back a)"
  by (rule ack_codec [OF pubcomp_parse_def pubcomp_encode_def])

subsection \<open>CONNACK\<close>

definition connack_read_back :: "connack \<Rightarrow> connack" where
  "connack_read_back a =
     a\<lparr>connack_reason_code := canonical_code RC_Success (connack_reason_code a)\<rparr>"

interpretation connack_codec: packet_codec CPT_Connack connack_parse connack_encode
  "\<lambda>a. encodable_properties (connack_properties a)" "\<lambda>a. Connack (connack_read_back a)"
proof (rule packet_codec_frame [where builder = Connack, OF connack_parse_def])
  fix a buf buf'
  assume wf: "encodable_properties (connack_properties a)" and "connack_encode a buf = Ok buf'"
  then obtain body where v: "connack_protocol_version a = V5_0"
    "\<not> (connack_reason_code a \<noteq> RC_Success \<and> session_present a)"
    "validate_for_packet (connack_reason_code a) CPT_Connack = Ok ()"
    and b: "properties_encode (connack_properties a) Scope_Connack
      [if session_present a then 1 else 0, reason_code_encode (connack_reason_code a)] = Ok body"
    and f: "encode_frame CPT_Connack 0 body buf = Ok buf'"
    by (auto simp: connack_encode_def and_then_eq_Ok split: if_splits)
  from encoded_properties [OF b wf encode_frame_bound [OF f]] obtain ps where
    "body = [if session_present a then 1 else 0, reason_code_encode (connack_reason_code a)] @ ps"
    "properties_parse ps Scope_Connack = Ok ([], connack_properties a)" .
  then have "connack_parse_body body = Ok ([], connack_read_back a)"
    using v decode_for_packet_encode [OF v(3)]
    by (cases a) (auto simp: connack_parse_body_def connack_read_back_def canonical_code_def)
  with f show "\<exists>f body r x. encode_frame CPT_Connack f body buf = Ok buf' \<and> f AND 0x0F = f \<and>
      Ok () = Ok () \<and> connack_parse_body body = Ok (r, x) \<and> Connack x = Connack (connack_read_back a)"
    using zero_flags by blast
qed

subsection \<open>SUBACK and UNSUBACK\<close>

definition suback_read_back :: "suback \<Rightarrow> suback" where
  "suback_read_back a =
     a\<lparr>suback_reason_codes := map (canonical_code RC_GrantedQos0) (suback_reason_codes a)\<rparr>"

definition unsuback_read_back :: "unsuback \<Rightarrow> unsuback" where
  "unsuback_read_back a =
     a\<lparr>unsuback_reason_codes := map (canonical_code RC_Success) (unsuback_reason_codes a)\<rparr>"

lemma map_result_roundtrip:
  assumes "map_result (\<lambda>c. check c) cs = Ok us" and "\<And>c u. check c = Ok u \<Longrightarrow> dec (enc c) = Ok (f c)"
  shows "map_result dec (map enc cs) = Ok (map f cs)"
  using assms by (induction cs arbitrary: us) (auto simp: and_then_eq_Ok)

lemma decode_suback_encode:
  assumes "validate_for_packet c CPT_Suback = Ok u"
  shows "decode_suback_reason_code (reason_code_encode c) = Ok (canonical_code RC_GrantedQos0 c)"
  using assms by (cases c)
    (simp_all add: decode_suback_reason_code_def reason_code_encode_def validate_for_packet_def
      canonical_code_def reason_code_allowed_def reason_code_decode_def split: if_splits)

interpretation suback_codec: packet_codec CPT_Suback suback_parse suback_encode
  "\<lambda>a. encodable_properties (suback_properties a)" "\<lambda>a. Suback (suback_read_back a)"
proof (rule packet_codec_frame [where builder = Suback, OF suback_parse_def])
  fix a buf buf'
  assume wf: "encodable_properties (suback_properties a)" and "suback_encode a buf = Ok buf'"
  then obtain body us where v: "suback_protocol_version a = V5_0" "suback_packet_identifier a \<noteq> 0"
    "suback_reason_codes a \<noteq> []"
    "map_result (\<lambda>c. validate_for_packet c CPT_Suback) (suback_reason_codes a) = Ok us"
    and b: "properties_encode (suback_properties a) Scope_Suback
      (be16 (suback_packet_identifier a)) = Ok body"
    and f: "encode_frame CPT_Suback 0 (body @ map reason_code_encode (suback_reason_codes a)) buf
      = Ok buf'"
    by (auto simp: suback_encode_def and_then_eq_Ok split: if_splits)
  let ?body = "body @ map reason_code_encode (suback_reason_codes a)"
  from encode_frame_bound [OF f] have "length body < 4294967296"
    by simp
  from encoded_properties [OF b wf this] obtain ps where
    "body = be16 (suback_packet_identifier a) @ ps"
    "\<And>rest. properties_parse (ps @ rest) Scope_Suback = Ok (rest, suback_properties a)"
    by blast
  moreover have "map_result decode_suback_reason_code (map reason_code_encode (suback_reason_codes a))
      = Ok (map (canonical_code RC_GrantedQos0) (suback_reason_codes a))"
    using v(4) decode_suback_encode by (rule map_result_roundtrip)
  ultimately have "suback_parse_body ?body = Ok ([], suback_read_back a)"
    using v by (cases a) (simp add: suback_parse_body_def suback_read_back_def)
  with f show "\<exists>f body r x. encode_frame CPT_Suback f body buf = Ok buf' \<and> f AND 0x0F = f \<and>
      Ok () = Ok () \<and> suback_parse_body body = Ok (r, x) \<and> Suback x = Suback (suback_read_back a)"
    using zero_flags by blast
qed

interpretation unsuback_codec: packet_codec CPT_Unsuback unsuback_parse unsuback_encode
  "\<lambda>a. encodable_properties (unsuback_properties a)" "\<lambda>a. Unsuback (unsuback_read_back a)"
proof (rule packet_codec_frame [where builder = Unsuback, OF unsuback_parse_def])
  fix a buf buf'
  assume wf: "encodable_properties (unsuback_properties a)" and "unsuback_encode a buf = Ok buf'"
  then obtain body us where v: "unsuback_protocol_version a = V5_0"
    "unsuback_packet_identifier a \<noteq> 0" "unsuback_reason_codes a \<noteq> []"
    "map_result (\<lambda>c. validate_for_packet c CPT_Unsuback) (unsuback_reason_codes a) = Ok us"
    and b: "properties_encode (unsuback_properties a) Scope_Unsuback
      (be16 (unsuback_packet_identifier a)) = Ok body"
    and f: "encode_frame CPT_Unsuback 0 (body @ map reason_code_encode (unsuback_reason_codes a)) buf
      = Ok buf'"
    by (auto simp: unsuback_encode_def and_then_eq_Ok split: if_splits)
  let ?body = "body @ map reason_code_encode (unsuback_reason_codes a)"
  from encode_frame_bound [OF f] have "length body < 4294967296"
    by simp
  from encoded_properties [OF b wf this] obtain ps where
    "body = be16 (unsuback_packet_identifier a) @ ps"
    "\<And>rest. properties_parse (ps @ rest) Scope_Unsuback = Ok (rest, unsuback_properties a)"
    by blast
  moreover have "map_result (\<lambda>v. decode_for_packet v CPT_Unsuback)
      (map reason_code_encode (unsuback_reason_codes a))
      = Ok (map (canonical_code RC_Success) (unsuback_reason_codes a))"
    using v(4) by (rule map_result_roundtrip) (simp add: decode_for_packet_encode)
  ultimately have "unsuback_parse_body ?body = Ok ([], unsuback_read_back a)"
    using v by (cases a) (simp add: unsuback_parse_body_def unsuback_read_back_def)
  with f show "\<exists>f body r x. encode_frame CPT_Unsuback f body buf = Ok buf' \<and> f AND 0x0F = f \<and>
      Ok () = Ok () \<and> unsuback_parse_body body = Ok (r, x) \<and>
      Unsuback x = Unsuback (unsuback_read_back a)"
    using zero_flags by blast
qed

subsection \<open>DISCONNECT\<close>

definition disconnect_read_back :: "disconnect \<Rightarrow> disconnect" where
  "disconnect_read_back d =
     (let e = (case session_expiry_interval (disconnect_properties d) of
                 None \<Rightarrow> disconnect_session_expiry_interval d | Some x \<Rightarrow> Some x) in
      d\<lparr>disconnect_reason_code := canonical_code RC_NormalDisconnection (disconnect_reason_code d),
        disconnect_session_expiry_interval := e,
        disconnect_properties := (disconnect_properties d)\<lparr>session_expiry_interval := e\<rparr>\<rparr>)"

lemma encodable_session_expiry [simp]:
  "encodable_properties (p\<lparr>session_expiry_interval := e\<rparr>) = encodable_properties p"
  by (simp add: encodable_properties_def utf8_properties_def payload_format_ok_def)

lemma decode_disconnect_encode:
  assumes "validate_for_packet c CPT_Disconnect = Ok ()"
  shows "decode_disconnect_reason_code (reason_code_encode c)
    = Ok (canonical_code RC_NormalDisconnection c)"
proof -
  have "reason_code_decode (reason_code_as_u8 c) = Ok c" if "reason_code_as_u8 c \<noteq> 0"
    using that by (simp add: canonical_code_def)
  then show ?thesis
    using assms by (auto simp: decode_disconnect_reason_code_def reason_code_encode_def
        canonical_code_def validate_for_packet_def split: if_splits)
qed

lemma session_expiry_same:
  "session_expiry_interval p = e \<Longrightarrow> p\<lparr>session_expiry_interval := e\<rparr> = p"
  by (cases p) simp

lemma normalized_disconnect:
  assumes "normalized_disconnect_properties d = Ok p" and "disconnect_protocol_version d = V5_0"
  shows "disconnect_read_back d = \<lparr>disconnect_protocol_version = V5_0,
      disconnect_reason_code = canonical_code RC_NormalDisconnection (disconnect_reason_code d),
      disconnect_session_expiry_interval = session_expiry_interval p, disconnect_properties = p\<rparr>"
  using assms
  by (cases d; cases "disconnect_session_expiry_interval d";
      cases "session_expiry_interval (disconnect_properties d)")
    (auto simp: normalized_disconnect_properties_def disconnect_read_back_def Let_def
      session_expiry_same split: if_splits)

lemma normalized_disconnect_encodable:
  assumes "normalized_disconnect_properties d = Ok p" and "encodable_properties (disconnect_properties d)"
  shows "encodable_properties p"
  using assms by (auto simp: normalized_disconnect_properties_def Let_def
      split: option.splits if_splits)

lemma disconnect_body_roundtrip:
  assumes "disconnect_encode_body c p = Ok body" and "encodable_properties p"
    and "length body < 4294967296" and "validate_for_packet c CPT_Disconnect = Ok ()"
  shows "disconnect_parse_body body = Ok ([], \<lparr>disconnect_protocol_version = V5_0,
      disconnect_reason_code = canonical_code RC_NormalDisconnection c,
      disconnect_session_expiry_interval = session_expiry_interval p, disconnect_properties = p\<rparr>)"
proof (cases "p = default_properties")
  case True
  then show ?thesis
    using assms(1) decode_disconnect_encode [OF assms(4)]
    by (auto simp: disconnect_encode_body_def disconnect_parse_body_def canonical_code_def
        split: if_splits)
next
  case False
  with assms(1) have "properties_encode p Scope_Disconnect [reason_code_encode c] = Ok body"
    by (simp add: disconnect_encode_body_def)
  from encoded_properties [OF this assms(2,3)] obtain ps where
    "body = reason_code_encode c # ps" "ps \<noteq> []" "properties_parse ps Scope_Disconnect = Ok ([], p)"
    by auto
  then show ?thesis
    using decode_disconnect_encode [OF assms(4)] by (simp add: disconnect_parse_body_def)
qed

interpretation disconnect_codec: packet_codec CPT_Disconnect disconnect_parse disconnect_encode
  "\<lambda>d. encodable_properties (disconnect_properties d)" "\<lambda>d. Disconnect (disconnect_read_back d)"
proof (rule packet_codec_frame [where builder = Disconnect, OF disconnect_parse_def])
  fix d buf buf'
  assume wf: "encodable_properties (disconnect_properties d)" and "disconnect_encode d buf = Ok buf'"
  then obtain p body where v: "disconnect_protocol_version d = V5_0"
    "validate_for_packet (disconnect_reason_code d) CPT_Disconnect = Ok ()"
    and p: "normalized_disconnect_properties d = Ok p"
    and b: "disconnect_encode_body (disconnect_reason_code d) p = Ok body"
    and f: "encode_frame CPT_Disconnect 0 body buf = Ok buf'"
    by (auto simp: disconnect_encode_def and_then_eq_Ok split: if_splits)
  have "disconnect_parse_body body = Ok ([], disconnect_read_back d)"
    using disconnect_body_roundtrip [OF b normalized_disconnect_encodable [OF p wf]
        encode_frame_bound [OF f] v(2)] normalized_disconnect [OF p v(1)] by simp
  with f show "\<exists>f body r x. encode_frame CPT_Disconnect f body buf = Ok buf' \<and> f AND 0x0F = f \<and>
      Ok () = Ok () \<and> disconnect_parse_body body = Ok (r, x) \<and>
      Disconnect x = Disconnect (disconnect_read_back d)"
    using zero_flags by blast
qed

subsection \<open>AUTH and the pings\<close>

definition auth_read_back :: "auth \<Rightarrow> auth" where
  "auth_read_back a = a\<lparr>auth_reason_code := canonical_code RC_Success (auth_reason_code a)\<rparr>"

lemma auth_body_roundtrip:
  assumes "auth_encode_body a = Ok body" and "encodable_properties (auth_properties a)"
    and "length body < 4294967296" and "validate_for_packet (auth_reason_code a) CPT_Auth = Ok ()"
  shows "auth_parse_body body = Ok ([], auth_read_back a)"
proof (cases "auth_properties a = default_properties")
  case True
  then show ?thesis
    using assms(1) decode_for_packet_encode [OF assms(4)]
    by (cases a) (auto simp: auth_encode_body_def auth_parse_body_def auth_read_back_def
        canonical_code_def split: if_splits)
next
  case False
  with assms(1) have "properties_encode (auth_properties a) Scope_Auth
      [reason_code_encode (auth_reason_code a)] = Ok body"
    by (simp add: auth_encode_body_def)
  from encoded_properties [OF this assms(2,3)] obtain ps where
    "body = reason_code_encode (auth_reason_code a) # ps" "ps \<noteq> []"
    "properties_parse ps Scope_Auth = Ok ([], auth_properties a)"
    by auto
  then show ?thesis
    using decode_for_packet_encode [OF assms(4)]
    by (cases a) (simp add: auth_parse_body_def auth_read_back_def)
qed

interpretation auth_codec: packet_codec CPT_Auth auth_parse auth_encode
  "\<lambda>a. encodable_properties (auth_properties a)" "\<lambda>a. Auth (auth_read_back a)"
proof (rule packet_codec_frame [where builder = Auth, OF auth_parse_def])
  fix a buf buf'
  assume wf: "encodable_properties (auth_properties a)" and "auth_encode a buf = Ok buf'"
  then obtain body where v: "validate_for_packet (auth_reason_code a) CPT_Auth = Ok ()"
    and b: "auth_encode_body a = Ok body" and f: "encode_frame CPT_Auth 0 body buf = Ok buf'"
    by (auto simp: auth_encode_def and_then_eq_Ok split: if_splits)
  from auth_body_roundtrip [OF b wf encode_frame_bound [OF f] v] f
  show "\<exists>f body r x. encode_frame CPT_Auth f body buf = Ok buf' \<and> f AND 0x0F = f \<and>
      Ok () = Ok () \<and> auth_parse_body body = Ok (r, x) \<and> Auth x = Auth (auth_read_back a)"
    using zero_flags by blast
qed

lemma ping_parse_Ok:
  "ping_parse t unexpected nonzero p i m = Ok (r, q) \<longleftrightarrow>
     (\<exists>h. fixed_header_parse i m = Ok (r, h) \<and> packet_type h = t \<and> remaining_length h = 0 \<and> q = p)"
  by (auto simp: ping_parse_def and_then_eq_Ok split: if_splits)

lemma ping_codec:
  assumes "\<And>i m. parse i m = ping_parse t unexpected nonzero p i m"
    and "\<And>u buf. enc u buf = and_then (fixed_header_new t 0 0) (\<lambda>h. fixed_header_encode h buf)"
  shows "packet_codec t parse enc (\<lambda>_ :: unit. True) (\<lambda>_. p)"
proof unfold_locales
  fix i m r q k
  assume "parse i m = Ok (r, q)"
  then obtain h where h: "fixed_header_parse i m = Ok (r, h)" "packet_type h = t"
    "remaining_length h = 0" "q = p"
    by (auto simp: assms(1) ping_parse_Ok)
  from fixed_header.dec_consumes [OF h(1)] show "\<exists>c. c \<noteq> [] \<and> i = c @ r" .
  from fixed_header.dec_extend [OF h(1)] h show "parse (i @ k) m = Ok (r @ k, q)"
    by (simp add: assms(1) ping_parse_Ok)
  from h show "\<exists>j h. fixed_header_parse i m = Ok (j, h) \<and> packet_type h = t"
    by blast
next
  fix c r m q
  assume "parse (c @ r) m = Ok (r, q)"
  then show "parse c m = Ok ([], q)"
    using fixed_header_inc.dec_exact by (auto simp: assms(1) ping_parse_Ok)
next
  fix xs ys m q
  assume "parse (xs @ ys) m = Ok ([], q)" and ys: "ys \<noteq> []"
  then obtain h where "fixed_header_parse (xs @ ys) m = Ok ([], h)"
    by (auto simp: assms(1) ping_parse_Ok)
  from fixed_header_inc.dec_prefix [OF this ys]
  show "\<exists>s. parse xs m = Err (Incomplete s)"
    by (auto simp: assms(1) ping_parse_def)
next
  fix a :: unit and buf buf' m
  assume "enc a buf = Ok buf'"
  then have "fixed_header_encode (make_fixed_header t 0 0) buf = Ok buf'"
    by (auto simp: assms(2) fixed_header_new_def and_then_eq_Ok)
  from fixed_header_roundtrip [OF this zero_flags, of m]
  show "\<exists>bs. buf' = buf @ bs \<and> (\<forall>rest. parse (bs @ rest) m = Ok (rest, p))"
    by (auto simp: assms(1) ping_parse_def make_fixed_header_def)
qed

interpretation pingreq_codec: packet_codec CPT_Pingreq pingreq_parse "\<lambda>_ :: unit. pingreq_encode"
  "\<lambda>_. True" "\<lambda>_. Pingreq"
  by (rule ping_codec [OF pingreq_parse_def pingreq_encode_def])

interpretation pingresp_codec: packet_codec CPT_Pingresp pingresp_parse "\<lambda>_ :: unit. pingresp_encode"
  "\<lambda>_. True" "\<lambda>_. Pingresp"
  by (rule ping_codec [OF pingresp_parse_def pingresp_encode_def])

end
