(* ===== verification/V5_Requests.thy ===== *)
theory V5_Requests
  imports V5_Replies
begin

text \<open>
  The packets that carry a request: CONNECT with its flags (\<open>v5/connect.rs\<close>), PUBLISH
  (\<open>v5/publish.rs\<close>), SUBSCRIBE with its options (\<open>v5/subscribe.rs\<close>) and UNSUBSCRIBE
  (\<open>v5/unsubscribe.rs\<close>), each with its parser, its encoder and the round trip between them.
\<close>

section \<open>CONNECT\<close>

record connect_flags =
  flag_username :: bool
  flag_password :: bool
  flag_will_retain :: bool
  flag_will_qos :: u8
  flag_will :: bool
  flag_clean_start :: bool

definition connect_flags_parse :: "u8 \<Rightarrow> (connect_flags, mqtt5_parse_error) result" where
  "connect_flags_parse v =
     (if v AND 0b00000001 \<noteq> 0
      then Err (MalformedPacket ''CONNECT reserved flag bit must be zero'')
      else
        let username = (v AND 0b10000000 \<noteq> 0); password = (v AND 0b01000000 \<noteq> 0) in
        if password \<and> \<not> username
        then Err (MalformedPacket ''CONNECT password flag requires username flag'')
        else
          let will_retain = (v AND 0b00100000 \<noteq> 0);
              will_qos = drop_bit 3 (v AND 0b00011000);
              will = (v AND 0b00000100 \<noteq> 0) in
          if will_qos = 0b11 then Err (MalformedPacket ''CONNECT will QoS must not be 3'')
          else if \<not> will \<and> (will_qos \<noteq> 0 \<or> will_retain)
          then Err (MalformedPacket ''CONNECT will QoS and retain require will flag'')
          else Ok \<lparr>flag_username = username, flag_password = password,
                   flag_will_retain = will_retain, flag_will_qos = will_qos, flag_will = will,
                   flag_clean_start = (v AND 0b00000010 \<noteq> 0)\<rparr>)"

definition connect_flags_encode :: "connect_flags \<Rightarrow> (u8, mqtt5_parse_error) result" where
  "connect_flags_encode f =
     (if flag_will_qos f > 2
      then Err (MalformedPacket ''CONNECT will QoS must not be greater than 2'')
      else
        let v = 0;
            v = (if flag_username f then v OR 0b10000000 else v);
            v = (if flag_password f then v OR 0b01000000 else v);
            v = (if flag_will_retain f then v OR 0b00100000 else v);
            v = v OR push_bit 3 (flag_will_qos f);
            v = (if flag_will f then v OR 0b00000100 else v);
            v = (if flag_clean_start f then v OR 0b00000010 else v) in
        and_then (connect_flags_parse v) (\<lambda>_. Ok v))"

definition reject_enhanced_auth :: "properties \<Rightarrow> (unit, mqtt5_parse_error) result" where
  "reject_enhanced_auth p =
     (if authentication_method p \<noteq> None \<or> authentication_data p \<noteq> None
      then Err (MalformedPacket ''enhanced authentication is not supported'')
      else Ok ())"

definition normalized_connect_properties ::
  "connect \<Rightarrow> (properties, mqtt5_parse_error) result" where
  "normalized_connect_properties c =
     (let p = connect_properties c in
      case (connect_session_expiry_interval c, session_expiry_interval p) of
        (Some a, Some b) \<Rightarrow>
          if a \<noteq> b
          then Err (MalformedPacket ''CONNECT session expiry interval disagrees with properties'')
          else Ok p
      | (Some a, None) \<Rightarrow> Ok (p\<lparr>session_expiry_interval := Some a\<rparr>)
      | _ \<Rightarrow> Ok p)"

text \<open>The optional parts of the payload, in the order of the source.\<close>

definition parse_will :: "connect_flags \<Rightarrow> bytes \<Rightarrow> will option parsed" where
  "parse_will f input =
     (if flag_will f
      then
        and_then (properties_parse input Scope_Will) (\<lambda>(input, p).
        and_then (parse_utf8_string input) (\<lambda>(input, topic).
        and_then (parse_binary input) (\<lambda>(input, payload).
        Ok (input, Some \<lparr>will_topic = topic, will_payload = payload,
                         will_qos = flag_will_qos f, will_retain = flag_will_retain f,
                         will_properties = p\<rparr>))))
      else Ok (input, None))"

definition parse_username :: "connect_flags \<Rightarrow> bytes \<Rightarrow> string option parsed" where
  "parse_username f input =
     (if flag_username f
      then and_then (parse_utf8_string input) (\<lambda>(input, s). Ok (input, Some s))
      else Ok (input, None))"

definition parse_password :: "connect_flags \<Rightarrow> bytes \<Rightarrow> string option parsed" where
  "parse_password f input =
     (if flag_password f
      then
        and_then (parse_binary input) (\<lambda>(input, data).
        case from_utf8 data of
          None \<Rightarrow> Err InvalidUtf8
        | Some s \<Rightarrow> Ok (input, Some s))
      else Ok (input, None))"

definition connect_parse_body :: "bytes \<Rightarrow> connect parsed" where
  "connect_parse_body input =
     and_then (parse_utf8_string input) (\<lambda>(input, protocol_name).
     if protocol_name \<noteq> ''MQTT''
     then Err (MalformedPacket ''CONNECT protocol name must be MQTT'')
     else
       and_then (parse_u8 input ''CONNECT protocol level'') (\<lambda>(input, level).
       if level \<noteq> 5 then Err (MalformedPacket ''CONNECT protocol level must be 5'')
       else
         and_then (parse_u8 input ''CONNECT flags'') (\<lambda>(input, f).
         and_then (connect_flags_parse f) (\<lambda>f.
         and_then (parse_u16 input ''CONNECT keep alive'') (\<lambda>(input, alive).
         and_then (properties_parse input Scope_Connect) (\<lambda>(input, p).
         and_then (reject_enhanced_auth p) (\<lambda>_.
         and_then (parse_utf8_string input) (\<lambda>(input, cid).
         and_then (parse_will f input) (\<lambda>(input, w).
         and_then (parse_username f input) (\<lambda>(input, user).
         and_then (parse_password f input) (\<lambda>(input, pass).
         if input \<noteq> [] then Err (MalformedPacket ''CONNECT payload has trailing bytes'')
         else Ok (input,
           \<lparr>connect_protocol_version = V5_0, client_id = cid, username = user, password = pass,
            keep_alive = alive, clean_start = flag_clean_start f,
            connect_session_expiry_interval = session_expiry_interval p,
            connect_will = w, connect_properties = p\<rparr>))))))))))))"

definition connect_parse :: "bytes \<Rightarrow> u32 \<Rightarrow> packet parsed" where
  "connect_parse input m =
     parse_frame CPT_Connect ''expected CONNECT packet'' (\<lambda>_. Ok ()) ''CONNECT body''
       (\<lambda>_. connect_parse_body) Connect input m"

definition encode_will :: "will option \<Rightarrow> bytes \<Rightarrow> encoded" where
  "encode_will w body =
     (case w of
        None \<Rightarrow> Ok body
      | Some w \<Rightarrow>
          and_then (properties_encode (will_properties w) Scope_Will body) (\<lambda>body.
          and_then (encode_utf8_string (will_topic w) body) (\<lambda>body.
          encode_binary (will_payload w) body)))"

definition encode_username :: "string option \<Rightarrow> bytes \<Rightarrow> encoded" where
  "encode_username u body =
     (case u of None \<Rightarrow> Ok body | Some s \<Rightarrow> encode_utf8_string s body)"

definition encode_password :: "string option \<Rightarrow> bytes \<Rightarrow> encoded" where
  "encode_password p body =
     (case p of None \<Rightarrow> Ok body | Some s \<Rightarrow> encode_binary (as_bytes s) body)"

definition connect_flags_of :: "connect \<Rightarrow> connect_flags" where
  "connect_flags_of c =
     \<lparr>flag_username = (username c \<noteq> None), flag_password = (password c \<noteq> None),
      flag_will_retain = (case connect_will c of None \<Rightarrow> False | Some w \<Rightarrow> will_retain w),
      flag_will_qos = (case connect_will c of None \<Rightarrow> 0 | Some w \<Rightarrow> will_qos w),
      flag_will = (connect_will c \<noteq> None), flag_clean_start = clean_start c\<rparr>"

definition connect_encode_body :: "connect \<Rightarrow> properties \<Rightarrow> encoded" where
  "connect_encode_body c p =
     and_then (encode_utf8_string ''MQTT'' []) (\<lambda>body.
     let body = body @ [0x05] in
     and_then (connect_flags_encode (connect_flags_of c)) (\<lambda>f.
     let body = body @ [f] @ be16 (keep_alive c) in
     and_then (properties_encode p Scope_Connect body) (\<lambda>body.
     and_then (encode_utf8_string (client_id c) body) (\<lambda>body.
     and_then (encode_will (connect_will c) body) (\<lambda>body.
     and_then (encode_username (username c) body) (\<lambda>body.
     encode_password (password c) body))))))"

definition connect_encode :: "connect \<Rightarrow> bytes \<Rightarrow> encoded" where
  "connect_encode c buffer =
     (if connect_protocol_version c \<noteq> V5_0
      then Err (MalformedPacket ''CONNECT packet is not MQTT 5.0'')
      else
        and_then (normalized_connect_properties c) (\<lambda>p.
        and_then (reject_enhanced_auth p) (\<lambda>_.
        and_then (connect_encode_body c p) (\<lambda>body.
        encode_frame CPT_Connect 0 body buffer))))"

section \<open>PUBLISH\<close>

definition publish_parse_body :: "fixed_header \<Rightarrow> bytes \<Rightarrow> publish parsed" where
  "publish_parse_body h input =
     and_then (parse_utf8_string input) (\<lambda>(input, topic).
     if topic = [] then Err (MalformedPacket ''PUBLISH topic name must not be empty'')
     else
       and_then
         (if header_qos h > 0
          then
            and_then (parse_u16 input ''PUBLISH packet identifier'') (\<lambda>(input, i).
            if i = 0 then Err (MalformedPacket ''PUBLISH packet identifier must not be zero'')
            else Ok (input, Some i))
          else Ok (input, None)) (\<lambda>(input, i).
       and_then (properties_parse input Scope_Publish) (\<lambda>(input, p).
       if topic_alias p \<noteq> None
       then Err (MalformedPacket ''PUBLISH topic alias is not supported'')
       else Ok ([],
         \<lparr>publish_protocol_version = V5_0, topic_name = topic, payload = input,
          publish_qos = header_qos h, retain = header_retain h, dup = header_dup h,
          publish_packet_identifier = i, publish_properties = p,
          expires_at_unix_secs = None\<rparr>))))"

definition publish_parse :: "bytes \<Rightarrow> u32 \<Rightarrow> packet parsed" where
  "publish_parse input m =
     parse_frame CPT_Publish ''expected PUBLISH packet'' (\<lambda>_. Ok ()) ''PUBLISH body''
       publish_parse_body Publish input m"

definition publish_identifier_check ::
  "u8 \<Rightarrow> u16 option \<Rightarrow> (unit, mqtt5_parse_error) result" where
  "publish_identifier_check q i =
     (if q = 0 \<and> i \<noteq> None
      then Err (MalformedPacket ''QoS 0 PUBLISH must not include packet identifier'')
      else if (q = 1 \<or> q = 2) \<and> i = Some 0
      then Err (MalformedPacket ''PUBLISH packet identifier must not be zero'')
      else if (q = 1 \<or> q = 2) \<and> i = None
      then Err (MalformedPacket ''QoS 1 or 2 PUBLISH requires packet identifier'')
      else Ok ())"

definition publish_flags :: "publish \<Rightarrow> u8" where
  "publish_flags p =
     (let f = 0;
          f = (if dup p then f OR 0b1000 else f);
          f = f OR push_bit 1 (publish_qos p AND 0b11);
          f = (if retain p then f OR 0b0001 else f) in f)"

definition publish_encode :: "publish \<Rightarrow> bytes \<Rightarrow> encoded" where
  "publish_encode p buffer =
     (if publish_protocol_version p \<noteq> V5_0
      then Err (MalformedPacket ''PUBLISH packet is not MQTT 5.0'')
      else if publish_qos p > 2
      then Err (MalformedPacket ''PUBLISH QoS must be 0, 1, or 2'')
      else if topic_name p = []
      then Err (MalformedPacket ''PUBLISH topic name must not be empty'')
      else if topic_alias (publish_properties p) \<noteq> None
      then Err (MalformedPacket ''PUBLISH topic alias is not supported'')
      else
        and_then (publish_identifier_check (publish_qos p) (publish_packet_identifier p)) (\<lambda>_.
        and_then (encode_utf8_string (topic_name p) []) (\<lambda>body.
        let body = body @ (case publish_packet_identifier p of None \<Rightarrow> [] | Some i \<Rightarrow> be16 i) in
        and_then (properties_encode (publish_properties p) Scope_Publish body) (\<lambda>body.
        encode_frame CPT_Publish (publish_flags p) (body @ payload p) buffer))))"

section \<open>SUBSCRIBE and UNSUBSCRIBE\<close>

definition parse_topic :: "string \<Rightarrow> u8 \<Rightarrow> (subscribe_topic, mqtt5_parse_error) result" where
  "parse_topic tf options =
     (if options AND 0b11000000 \<noteq> 0
      then Err (MalformedPacket ''SUBSCRIBE option reserved bits must be zero'')
      else
        let q = options AND 0b00000011 in
        if q = 3 then Err (MalformedPacket ''SUBSCRIBE requested QoS must not be 3'')
        else
          let rh = drop_bit 4 (options AND 0b00110000) in
          and_then
            (if rh = 0 then Ok SendAtSubscribe
             else if rh = 1 then Ok SendAtSubscribeIfNew
             else if rh = 2 then Ok DoNotSend
             else Err (MalformedPacket ''SUBSCRIBE retain handling must not be 3'')) (\<lambda>rh.
          Ok \<lparr>topic_filter = tf, topic_qos = q, no_local = (options AND 0b00000100 \<noteq> 0),
              retain_as_published = (options AND 0b00001000 \<noteq> 0), retain_handling = rh\<rparr>))"

function parse_subscribe_topics ::
  "bytes \<Rightarrow> subscribe_topic list \<Rightarrow> (subscribe_topic list, mqtt5_parse_error) result" where
  "parse_subscribe_topics input topics =
     (if input = [] then Ok topics
      else
        and_then (parse_utf8_string input) (\<lambda>(remaining, tf).
        if tf = [] then Err (MalformedPacket ''SUBSCRIBE topic filter must not be empty'')
        else
          and_then (parse_u8 remaining ''SUBSCRIBE options'') (\<lambda>(remaining, options).
          and_then (parse_topic tf options) (\<lambda>t.
          parse_subscribe_topics remaining (topics @ [t])))))"
  by pat_completeness auto
termination
  by (relation "measure (\<lambda>(i, t). length i)")
    (auto dest!: utf8_field.dec_shorter byte_field.dec_shorter)

declare parse_subscribe_topics.simps [simp del]

definition subscribe_parse_body :: "bytes \<Rightarrow> subscribe parsed" where
  "subscribe_parse_body input =
     and_then (parse_u16 input ''SUBSCRIBE packet identifier'') (\<lambda>(input, i).
     if i = 0 then Err (MalformedPacket ''SUBSCRIBE packet identifier must not be zero'')
     else
       and_then (properties_parse input Scope_Subscribe) (\<lambda>(input, p).
       and_then (parse_subscribe_topics input []) (\<lambda>topics.
       if topics = []
       then Err (MalformedPacket ''SUBSCRIBE must contain at least one topic filter'')
       else Ok ([], \<lparr>subscribe_protocol_version = V5_0, subscribe_packet_identifier = i,
                     subscribe_topics = topics, subscribe_properties = p\<rparr>))))"

definition subscribe_parse :: "bytes \<Rightarrow> u32 \<Rightarrow> packet parsed" where
  "subscribe_parse input m =
     parse_frame CPT_Subscribe ''expected SUBSCRIBE packet'' (\<lambda>_. Ok ()) ''SUBSCRIBE body''
       (\<lambda>_. subscribe_parse_body) Subscribe input m"

definition encode_options :: "subscribe_topic \<Rightarrow> u8" where
  "encode_options t =
     (let rh = (case retain_handling t of
                  SendAtSubscribe \<Rightarrow> 0 | SendAtSubscribeIfNew \<Rightarrow> 1 | DoNotSend \<Rightarrow> 2);
          options = topic_qos t AND 0b11;
          options = (if no_local t then options OR 0b00000100 else options);
          options = (if retain_as_published t then options OR 0b00001000 else options)
      in options OR push_bit 4 rh)"

fun encode_subscribe_topics :: "subscribe_topic list \<Rightarrow> bytes \<Rightarrow> encoded" where
  "encode_subscribe_topics [] body = Ok body"
| "encode_subscribe_topics (t # ts) body =
     (if topic_filter t = []
      then Err (MalformedPacket ''SUBSCRIBE topic filter must not be empty'')
      else if topic_qos t > 2
      then Err (MalformedPacket ''SUBSCRIBE requested QoS must be 0, 1, or 2'')
      else
        and_then (encode_utf8_string (topic_filter t) body) (\<lambda>body.
        encode_subscribe_topics ts (body @ [encode_options t])))"

definition subscribe_encode :: "subscribe \<Rightarrow> bytes \<Rightarrow> encoded" where
  "subscribe_encode s buffer =
     (if subscribe_protocol_version s \<noteq> V5_0
      then Err (MalformedPacket ''SUBSCRIBE packet is not MQTT 5.0'')
      else if subscribe_packet_identifier s = 0
      then Err (MalformedPacket ''SUBSCRIBE packet identifier must not be zero'')
      else if subscribe_topics s = []
      then Err (MalformedPacket ''SUBSCRIBE must contain at least one topic filter'')
      else
        and_then (properties_encode (subscribe_properties s) Scope_Subscribe
          (be16 (subscribe_packet_identifier s))) (\<lambda>body.
        and_then (encode_subscribe_topics (subscribe_topics s) body) (\<lambda>body.
        encode_frame CPT_Subscribe 0b0010 body buffer)))"

function parse_unsubscribe_topics ::
  "bytes \<Rightarrow> string list \<Rightarrow> (string list, mqtt5_parse_error) result" where
  "parse_unsubscribe_topics input topics =
     (if input = [] then Ok topics
      else
        and_then (parse_utf8_string input) (\<lambda>(remaining, topic).
        if topic = [] then Err (MalformedPacket ''UNSUBSCRIBE topic filter must not be empty'')
        else parse_unsubscribe_topics remaining (topics @ [topic])))"
  by pat_completeness auto
termination
  by (relation "measure (\<lambda>(i, t). length i)") (auto dest!: utf8_field.dec_shorter)

declare parse_unsubscribe_topics.simps [simp del]

definition unsubscribe_parse_body :: "bytes \<Rightarrow> unsubscribe parsed" where
  "unsubscribe_parse_body input =
     and_then (parse_u16 input ''UNSUBSCRIBE packet identifier'') (\<lambda>(input, i).
     if i = 0 then Err (MalformedPacket ''UNSUBSCRIBE packet identifier must not be zero'')
     else
       and_then (properties_parse input Scope_Unsubscribe) (\<lambda>(input, p).
       and_then (parse_unsubscribe_topics input []) (\<lambda>topics.
       if topics = []
       then Err (MalformedPacket ''UNSUBSCRIBE must contain at least one topic filter'')
       else Ok ([], \<lparr>unsubscribe_protocol_version = V5_0, unsubscribe_packet_identifier = i,
                     unsubscribe_topics = topics, unsubscribe_properties = p\<rparr>))))"

definition unsubscribe_parse :: "bytes \<Rightarrow> u32 \<Rightarrow> packet parsed" where
  "unsubscribe_parse input m =
     parse_frame CPT_Unsubscribe ''expected UNSUBSCRIBE packet'' (\<lambda>_. Ok ()) ''UNSUBSCRIBE body''
       (\<lambda>_. unsubscribe_parse_body) Unsubscribe input m"

fun encode_unsubscribe_topics :: "string list \<Rightarrow> bytes \<Rightarrow> encoded" where
  "encode_unsubscribe_topics [] body = Ok body"
| "encode_unsubscribe_topics (t # ts) body =
     (if t = [] then Err (MalformedPacket ''UNSUBSCRIBE topic filter must not be empty'')
      else and_then (encode_utf8_string t body) (\<lambda>body. encode_unsubscribe_topics ts body))"

definition unsubscribe_encode :: "unsubscribe \<Rightarrow> bytes \<Rightarrow> encoded" where
  "unsubscribe_encode u buffer =
     (if unsubscribe_protocol_version u \<noteq> V5_0
      then Err (MalformedPacket ''UNSUBSCRIBE packet is not MQTT 5.0'')
      else if unsubscribe_packet_identifier u = 0
      then Err (MalformedPacket ''UNSUBSCRIBE packet identifier must not be zero'')
      else if unsubscribe_topics u = []
      then Err (MalformedPacket ''UNSUBSCRIBE must contain at least one topic filter'')
      else
        and_then (properties_encode (unsubscribe_properties u) Scope_Unsubscribe
          (be16 (unsubscribe_packet_identifier u))) (\<lambda>body.
        and_then (encode_unsubscribe_topics (unsubscribe_topics u) body) (\<lambda>body.
        encode_frame CPT_Unsubscribe 0b0010 body buffer)))"

section \<open>Round trips\<close>

lemma u8_le_2: "(q :: u8) \<le> 2 \<Longrightarrow> q = 0 \<or> q = 1 \<or> q = 2"
proof -
  assume "q \<le> 2"
  then have "unat q \<le> 2"
    by (simp add: word_le_nat_alt)
  then have "unat q = unat (0 :: u8) \<or> unat q = unat (1 :: u8) \<or> unat q = unat (2 :: u8)"
    by auto
  then show ?thesis
    by (simp only: word_unat_eq_iff)
qed

lemma properties_encode_length:
  "properties_encode p scope b = Ok b' \<Longrightarrow> length b \<le> length b'"
  using vbi.enc_nonempty by (fastforce simp: properties_encode_def and_then_eq_Ok)

lemma encode_utf8_string_length: "encode_utf8_string s b = Ok b' \<Longrightarrow> length b \<le> length b'"
  by (auto simp: encode_utf8_string_def split: if_splits)

lemma encode_binary_length: "encode_binary s b = Ok b' \<Longrightarrow> length b \<le> length b'"
  by (auto simp: encode_binary_def split: if_splits)

subsection \<open>CONNECT\<close>

lemma connect_flags_roundtrip:
  assumes "connect_flags_encode f = Ok v"
  shows "connect_flags_parse v = Ok f"
proof -
  obtain u p r q w c where f: "f = \<lparr>flag_username = u, flag_password = p, flag_will_retain = r,
      flag_will_qos = q, flag_will = w, flag_clean_start = c\<rparr>"
    by (cases f)
  with assms have "q = 0 \<or> q = 1 \<or> q = 2"
    by (intro u8_le_2) (simp add: connect_flags_encode_def split: if_splits)
  with assms f show ?thesis
    by (elim disjE; cases u; cases p; cases r; cases w; cases c;
        simp add: connect_flags_encode_def connect_flags_parse_def Let_def)
qed

definition connect_encodable :: "connect \<Rightarrow> bool" where
  "connect_encodable c \<longleftrightarrow>
     valid_str (client_id c) \<and> valid_opt_str (username c) \<and> valid_opt_str (password c) \<and>
     encodable_properties (connect_properties c) \<and>
     (case connect_will c of None \<Rightarrow> True
      | Some w \<Rightarrow> valid_str (will_topic w) \<and> encodable_properties (will_properties w))"

definition connect_read_back :: "connect \<Rightarrow> connect" where
  "connect_read_back c =
     (let e = (case session_expiry_interval (connect_properties c) of
                 None \<Rightarrow> connect_session_expiry_interval c | Some x \<Rightarrow> Some x) in
      c\<lparr>connect_session_expiry_interval := e,
        connect_properties := (connect_properties c)\<lparr>session_expiry_interval := e\<rparr>\<rparr>)"

lemma normalized_connect:
  assumes "normalized_connect_properties c = Ok p"
  shows "connect_read_back c
    = c\<lparr>connect_session_expiry_interval := session_expiry_interval p, connect_properties := p\<rparr>"
  using assms
  by (cases "connect_session_expiry_interval c";
      cases "session_expiry_interval (connect_properties c)")
    (auto simp: normalized_connect_properties_def connect_read_back_def Let_def
      session_expiry_same split: if_splits)

lemma normalized_connect_encodable:
  assumes "normalized_connect_properties c = Ok p" and "encodable_properties (connect_properties c)"
  shows "encodable_properties p"
  using assms by (auto simp: normalized_connect_properties_def Let_def
      split: option.splits if_splits)

lemma encode_will_length: "encode_will w b = Ok b' \<Longrightarrow> length b \<le> length b'"
  by (auto simp: encode_will_def and_then_eq_Ok split: option.splits
      dest!: properties_encode_length encode_utf8_string_length encode_binary_length)

lemma encode_will_roundtrip:
  assumes "encode_will w body = Ok body'" and "length body' < 4294967296"
    and "case w of None \<Rightarrow> True | Some w \<Rightarrow> valid_str (will_topic w) \<and> encodable_properties (will_properties w)"
    and "flag_will f = (w \<noteq> None)"
    and "\<And>x. w = Some x \<Longrightarrow> flag_will_qos f = will_qos x \<and> flag_will_retain f = will_retain x"
  shows "\<exists>bs. body' = body @ bs \<and> (\<forall>rest. parse_will f (bs @ rest) = Ok (rest, w))"
proof (cases w)
  case None
  with assms(1,4) show ?thesis
    by (simp add: encode_will_def parse_will_def)
next
  case (Some x)
  with assms(1) obtain b1 b2 where e: "properties_encode (will_properties x) Scope_Will body = Ok b1"
    "encode_utf8_string (will_topic x) b1 = Ok b2" "encode_binary (will_payload x) b2 = Ok body'"
    by (auto simp: encode_will_def and_then_eq_Ok)
  from e(2,3) assms(2) have l: "length b1 < 4294967296"
    by (auto dest!: encode_utf8_string_length encode_binary_length)
  from Some assms(3) have x: "valid_str (will_topic x)" "encodable_properties (will_properties x)"
    by simp_all
  from properties_roundtrip [OF e(1) x(2) l] obtain ps where "b1 = body @ ps"
    "\<forall>rest. properties_parse (ps @ rest) Scope_Will = Ok (rest, will_properties x)"
    by blast
  moreover from utf8_field.enc_dec [OF x(1) e(2)] obtain ts where "b2 = b1 @ ts"
    "\<forall>rest. parse_utf8_string (ts @ rest) = Ok (rest, will_topic x)"
    by blast
  moreover from binary.enc_dec [OF TrueI e(3)] obtain ds where "body' = b2 @ ds"
    "\<forall>rest. parse_binary (ds @ rest) = Ok (rest, will_payload x)"
    by blast
  ultimately show ?thesis
    using Some assms(4,5) by (intro exI [of _ "ps @ ts @ ds"]) (simp add: parse_will_def)
qed

lemma encode_username_roundtrip:
  assumes "encode_username u body = Ok body'" and "valid_opt_str u" and "flag_username f = (u \<noteq> None)"
  shows "\<exists>bs. body' = body @ bs \<and> (\<forall>rest. parse_username f (bs @ rest) = Ok (rest, u))"
proof (cases u)
  case None
  with assms show ?thesis
    by (simp add: encode_username_def parse_username_def)
next
  case (Some s)
  with assms utf8_field.enc_dec [of s body body'] show ?thesis
    by (auto simp: encode_username_def parse_username_def)
qed

lemma encode_password_roundtrip:
  assumes "encode_password u body = Ok body'" and "valid_opt_str u" and "flag_password f = (u \<noteq> None)"
  shows "\<exists>bs. body' = body @ bs \<and> (\<forall>rest. parse_password f (bs @ rest) = Ok (rest, u))"
proof (cases u)
  case None
  with assms show ?thesis
    by (simp add: encode_password_def parse_password_def)
next
  case (Some s)
  with assms binary.enc_dec [of "as_bytes s" body body'] show ?thesis
    by (auto simp: encode_password_def parse_password_def from_utf8_as_bytes)
qed

lemma valid_str_MQTT: "valid_str ''MQTT''"
  by (simp add: valid_str_def as_bytes_def byte_of_char_def)

lemma connect_body_roundtrip:
  assumes "connect_encode_body c p = Ok body" and "connect_encodable c" and "encodable_properties p"
    and "length body < 4294967296" and "reject_enhanced_auth p = Ok ()"
    and "connect_protocol_version c = V5_0"
  shows "connect_parse_body body = Ok ([],
    c\<lparr>connect_session_expiry_interval := session_expiry_interval p, connect_properties := p\<rparr>)"
proof -
  let ?f = "connect_flags_of c"
  from assms(1) obtain b0 f b1 b2 b3 b4 where
    e0: "encode_utf8_string ''MQTT'' [] = Ok b0" and ef: "connect_flags_encode ?f = Ok f"
    and e1: "properties_encode p Scope_Connect (b0 @ [5, f] @ be16 (keep_alive c)) = Ok b1"
    and e2: "encode_utf8_string (client_id c) b1 = Ok b2"
    and e3: "encode_will (connect_will c) b2 = Ok b3"
    and e4: "encode_username (username c) b3 = Ok b4"
    and e5: "encode_password (password c) b4 = Ok body"
    by (auto simp: connect_encode_body_def and_then_eq_Ok Let_def)
  from assms(2) have ok: "valid_str (client_id c)" "valid_opt_str (username c)"
    "valid_opt_str (password c)" "case connect_will c of None \<Rightarrow> True
       | Some w \<Rightarrow> valid_str (will_topic w) \<and> encodable_properties (will_properties w)"
    by (simp_all add: connect_encodable_def)
  have fl: "flag_username ?f = (username c \<noteq> None)" "flag_password ?f = (password c \<noteq> None)"
    "flag_will ?f = (connect_will c \<noteq> None)" "flag_clean_start ?f = clean_start c"
    "\<And>x. connect_will c = Some x \<Longrightarrow> flag_will_qos ?f = will_qos x \<and> flag_will_retain ?f = will_retain x"
    by (simp_all add: connect_flags_of_def)
  obtain ws us where t1: "body = b4 @ ws" "b4 = b3 @ us"
    "\<And>rest. parse_username ?f (us @ rest) = Ok (rest, username c)"
    "\<And>rest. parse_password ?f (ws @ rest) = Ok (rest, password c)"
    using encode_password_roundtrip [OF e5 ok(3) fl(2)] encode_username_roundtrip [OF e4 ok(2) fl(1)]
    by blast
  with assms(4) have l3: "length b3 < 4294967296"
    by simp
  with encode_will_length [OF e3] encode_utf8_string_length [OF e2]
  have l1: "length b1 < 4294967296"
    by simp
  from encode_will_roundtrip [OF e3 l3 ok(4) fl(3,5)] utf8_field.enc_dec [OF ok(1) e2]
    properties_roundtrip [OF e1 assms(3) l1] utf8_field.enc_dec [OF valid_str_MQTT e0]
  obtain wl cs ps where t2: "b3 = b2 @ wl" "b2 = b1 @ cs"
    "b1 = (b0 @ [5, f] @ be16 (keep_alive c)) @ ps"
    "\<And>rest. parse_will ?f (wl @ rest) = Ok (rest, connect_will c)"
    "\<And>rest. parse_utf8_string (cs @ rest) = Ok (rest, client_id c)"
    "\<And>rest. properties_parse (ps @ rest) Scope_Connect = Ok (rest, p)"
    "\<And>rest. parse_utf8_string (b0 @ rest) = Ok (rest, ''MQTT'')"
    by (metis append_Nil)
  show ?thesis
    using t1(3,4) t1(4) [of "[]"] t2(4-7) assms(5,6) fl(4) connect_flags_roundtrip [OF ef]
    unfolding t1(1,2) t2(1-3) connect_parse_body_def by (cases c) simp
qed

interpretation connect_codec: packet_codec CPT_Connect connect_parse connect_encode
  connect_encodable "\<lambda>c. Connect (connect_read_back c)"
proof (rule packet_codec_frame [where builder = Connect, OF connect_parse_def])
  fix c buf buf'
  assume wf: "connect_encodable c" and "connect_encode c buf = Ok buf'"
  then obtain p body where v: "connect_protocol_version c = V5_0"
    and p: "normalized_connect_properties c = Ok p" and a: "reject_enhanced_auth p = Ok ()"
    and b: "connect_encode_body c p = Ok body" and f: "encode_frame CPT_Connect 0 body buf = Ok buf'"
    by (auto simp: connect_encode_def and_then_eq_Ok split: if_splits)
  from wf have "encodable_properties (connect_properties c)"
    by (simp add: connect_encodable_def)
  from connect_body_roundtrip [OF b wf normalized_connect_encodable [OF p this]
      encode_frame_bound [OF f] a v] normalized_connect [OF p]
  have "connect_parse_body body = Ok ([], connect_read_back c)"
    by simp
  with f show "\<exists>f body r x. encode_frame CPT_Connect f body buf = Ok buf' \<and> f AND 0x0F = f \<and>
      Ok () = Ok () \<and> connect_parse_body body = Ok (r, x) \<and>
      Connect x = Connect (connect_read_back c)"
    using zero_flags by blast
qed

subsection \<open>PUBLISH\<close>

definition publish_encodable :: "publish \<Rightarrow> bool" where
  "publish_encodable p \<longleftrightarrow> valid_str (topic_name p) \<and> encodable_properties (publish_properties p)"

definition publish_read_back :: "publish \<Rightarrow> publish" where
  "publish_read_back p = p\<lparr>expires_at_unix_secs := None\<rparr>"

lemma publish_flags_roundtrip:
  assumes "publish_qos p \<le> 2"
  shows "publish_flags p AND 0x0F = publish_flags p"
    and "header_dup (make_fixed_header t (publish_flags p) n) = dup p"
    and "header_qos (make_fixed_header t (publish_flags p) n) = publish_qos p"
    and "header_retain (make_fixed_header t (publish_flags p) n) = retain p"
  using u8_le_2 [OF assms]
  by (elim disjE; cases "dup p"; cases "retain p"; simp add: publish_flags_def make_fixed_header_def)+

interpretation publish_codec: packet_codec CPT_Publish publish_parse publish_encode
  publish_encodable "\<lambda>p. Publish (publish_read_back p)"
proof (rule packet_codec_frame [where builder = Publish, OF publish_parse_def])
  fix p buf buf'
  assume wf: "publish_encodable p" and "publish_encode p buf = Ok buf'"
  then obtain b0 b1 where v: "publish_protocol_version p = V5_0" "publish_qos p \<le> 2"
    "topic_name p \<noteq> []" "topic_alias (publish_properties p) = None"
    and i: "publish_identifier_check (publish_qos p) (publish_packet_identifier p) = Ok ()"
    and e0: "encode_utf8_string (topic_name p) [] = Ok b0"
    and e1: "properties_encode (publish_properties p) Scope_Publish
      (b0 @ (case publish_packet_identifier p of None \<Rightarrow> [] | Some i \<Rightarrow> be16 i)) = Ok b1"
    and f: "encode_frame CPT_Publish (publish_flags p) (b1 @ payload p) buf = Ok buf'"
    by (auto simp: publish_encode_def and_then_eq_Ok Let_def not_less split: if_splits)
  let ?h = "make_fixed_header CPT_Publish (publish_flags p) (word_of_nat (length (b1 @ payload p)))"
  from encode_frame_bound [OF f] have l: "length b1 < 4294967296"
    by simp
  from wf have ok: "valid_str (topic_name p)" "encodable_properties (publish_properties p)"
    by (simp_all add: publish_encodable_def)
  from utf8_field.enc_dec [OF ok(1) e0] properties_roundtrip [OF e1 ok(2) l]
  obtain ps where b1: "b1 = (b0 @ (case publish_packet_identifier p of None \<Rightarrow> [] | Some i \<Rightarrow> be16 i)) @ ps"
    and r: "\<And>rest. parse_utf8_string (b0 @ rest) = Ok (rest, topic_name p)"
    "\<And>rest. properties_parse (ps @ rest) Scope_Publish = Ok (rest, publish_properties p)"
    by (metis append_Nil)
  have "publish_parse_body ?h (b1 @ payload p) = Ok ([], publish_read_back p)"
  proof (cases "publish_packet_identifier p")
    case None
    with i v(2) have "publish_qos p = 0"
      using u8_le_2 [OF v(2)] by (auto simp: publish_identifier_check_def)
    with None b1 r v show ?thesis
      using publish_flags_roundtrip [OF v(2)]
      by (cases p) (simp add: publish_parse_body_def publish_read_back_def)
  next
    case (Some n)
    with i have "publish_qos p > 0" "n \<noteq> 0"
      using u8_le_2 [OF v(2)] by (auto simp: publish_identifier_check_def split: if_splits)
    with Some b1 r v show ?thesis
      using publish_flags_roundtrip [OF v(2)]
      by (cases p) (simp add: publish_parse_body_def publish_read_back_def)
  qed
  with f publish_flags_roundtrip(1) [OF v(2)]
  show "\<exists>f body r x. encode_frame CPT_Publish f body buf = Ok buf' \<and> f AND 0x0F = f \<and>
      Ok () = Ok () \<and>
      publish_parse_body (make_fixed_header CPT_Publish f (word_of_nat (length body))) body = Ok (r, x) \<and>
      Publish x = Publish (publish_read_back p)"
    by blast
qed

subsection \<open>SUBSCRIBE and UNSUBSCRIBE\<close>

lemma two_flags: "(2 :: u8) AND 0x0F = 2"
  by simp

definition subscribe_encodable :: "subscribe \<Rightarrow> bool" where
  "subscribe_encodable s \<longleftrightarrow>
     list_all (\<lambda>t. valid_str (topic_filter t)) (subscribe_topics s) \<and>
     encodable_properties (subscribe_properties s)"

definition unsubscribe_encodable :: "unsubscribe \<Rightarrow> bool" where
  "unsubscribe_encodable u \<longleftrightarrow>
     list_all valid_str (unsubscribe_topics u) \<and> encodable_properties (unsubscribe_properties u)"

lemma subscribe_options_roundtrip:
  assumes "topic_qos t \<le> 2"
  shows "parse_topic (topic_filter t) (encode_options t) = Ok t"
proof -
  obtain tf q nl ra rh where t: "t = \<lparr>topic_filter = tf, topic_qos = q, no_local = nl,
      retain_as_published = ra, retain_handling = rh\<rparr>"
    by (cases t)
  with u8_le_2 [OF assms] have "q = 0 \<or> q = 1 \<or> q = 2"
    by simp
  with t show ?thesis
    by (elim disjE; cases nl; cases ra; cases rh; simp add: parse_topic_def encode_options_def)
qed

lemma encode_subscribe_topics_roundtrip:
  assumes "encode_subscribe_topics ts body = Ok body'"
    and "list_all (\<lambda>t. valid_str (topic_filter t)) ts"
  shows "\<exists>bs. body' = body @ bs \<and> (\<forall>acc. parse_subscribe_topics bs acc = Ok (acc @ ts))"
  using assms
proof (induction ts arbitrary: body)
  case Nil
  then show ?case by (simp add: parse_subscribe_topics.simps)
next
  case (Cons t ts)
  then obtain b where v: "topic_filter t \<noteq> []" "topic_qos t \<le> 2"
    and e: "encode_utf8_string (topic_filter t) body = Ok b"
    and r: "encode_subscribe_topics ts (b @ [encode_options t]) = Ok body'"
    by (auto simp: and_then_eq_Ok not_less split: if_splits)
  from Cons.prems(2) Cons.IH [OF r] utf8_field.enc_dec [OF _ e] obtain bs cs where
    "body' = b @ [encode_options t] @ bs" "\<forall>acc. parse_subscribe_topics bs acc = Ok (acc @ ts)"
    "b = body @ cs" "\<forall>rest. parse_utf8_string (cs @ rest) = Ok (rest, topic_filter t)"
    by auto
  moreover from this(4) have "cs \<noteq> []"
    using utf8_field.dec_consumes by fastforce
  ultimately show ?case
    using v subscribe_options_roundtrip [OF v(2)]
    by (intro exI [of _ "cs @ [encode_options t] @ bs"])
      (simp add: parse_subscribe_topics.simps [of "cs @ encode_options t # bs"])
qed

interpretation subscribe_codec: packet_codec CPT_Subscribe subscribe_parse subscribe_encode
  subscribe_encodable Subscribe
proof (rule packet_codec_frame [where builder = Subscribe, OF subscribe_parse_def])
  fix s buf buf'
  assume wf: "subscribe_encodable s" and "subscribe_encode s buf = Ok buf'"
  then obtain b0 body where v: "subscribe_protocol_version s = V5_0"
    "subscribe_packet_identifier s \<noteq> 0" "subscribe_topics s \<noteq> []"
    and e0: "properties_encode (subscribe_properties s) Scope_Subscribe
      (be16 (subscribe_packet_identifier s)) = Ok b0"
    and e1: "encode_subscribe_topics (subscribe_topics s) b0 = Ok body"
    and f: "encode_frame CPT_Subscribe 0b0010 body buf = Ok buf'"
    by (auto simp: subscribe_encode_def and_then_eq_Ok split: if_splits)
  from wf have ok: "list_all (\<lambda>t. valid_str (topic_filter t)) (subscribe_topics s)"
    "encodable_properties (subscribe_properties s)"
    by (simp_all add: subscribe_encodable_def)
  from encode_subscribe_topics_roundtrip [OF e1 ok(1)] obtain ts where ts: "body = b0 @ ts"
    "\<forall>acc. parse_subscribe_topics ts acc = Ok (acc @ subscribe_topics s)"
    by blast
  from encode_frame_bound [OF f] ts(1) have "length b0 < 4294967296"
    by simp
  from properties_roundtrip [OF e0 ok(2) this] ts v
  have "subscribe_parse_body body = Ok ([], s)"
    by (cases s) (auto simp: subscribe_parse_body_def)
  with f show "\<exists>f body r x. encode_frame CPT_Subscribe f body buf = Ok buf' \<and> f AND 0x0F = f \<and>
      Ok () = Ok () \<and> subscribe_parse_body body = Ok (r, x) \<and> Subscribe x = Subscribe s"
    using two_flags by blast
qed

lemma encode_unsubscribe_topics_roundtrip:
  assumes "encode_unsubscribe_topics ts body = Ok body'" and "list_all valid_str ts"
  shows "\<exists>bs. body' = body @ bs \<and> (\<forall>acc. parse_unsubscribe_topics bs acc = Ok (acc @ ts))"
  using assms
proof (induction ts arbitrary: body)
  case Nil
  then show ?case by (simp add: parse_unsubscribe_topics.simps)
next
  case (Cons t ts)
  then obtain b where v: "t \<noteq> []" and e: "encode_utf8_string t body = Ok b"
    and r: "encode_unsubscribe_topics ts b = Ok body'"
    by (auto simp: and_then_eq_Ok split: if_splits)
  from Cons.prems(2) Cons.IH [OF r] utf8_field.enc_dec [OF _ e] obtain bs cs where
    "body' = b @ bs" "\<forall>acc. parse_unsubscribe_topics bs acc = Ok (acc @ ts)"
    "b = body @ cs" "\<forall>rest. parse_utf8_string (cs @ rest) = Ok (rest, t)"
    by auto
  moreover from this(4) have "cs \<noteq> []"
    using utf8_field.dec_consumes by fastforce
  ultimately show ?case
    using v by (intro exI [of _ "cs @ bs"])
      (simp add: parse_unsubscribe_topics.simps [of "cs @ bs"])
qed

interpretation unsubscribe_codec: packet_codec CPT_Unsubscribe unsubscribe_parse unsubscribe_encode
  unsubscribe_encodable Unsubscribe
proof (rule packet_codec_frame [where builder = Unsubscribe, OF unsubscribe_parse_def])
  fix u buf buf'
  assume wf: "unsubscribe_encodable u" and "unsubscribe_encode u buf = Ok buf'"
  then obtain b0 body where v: "unsubscribe_protocol_version u = V5_0"
    "unsubscribe_packet_identifier u \<noteq> 0" "unsubscribe_topics u \<noteq> []"
    and e0: "properties_encode (unsubscribe_properties u) Scope_Unsubscribe
      (be16 (unsubscribe_packet_identifier u)) = Ok b0"
    and e1: "encode_unsubscribe_topics (unsubscribe_topics u) b0 = Ok body"
    and f: "encode_frame CPT_Unsubscribe 0b0010 body buf = Ok buf'"
    by (auto simp: unsubscribe_encode_def and_then_eq_Ok split: if_splits)
  from wf have ok: "list_all valid_str (unsubscribe_topics u)"
    "encodable_properties (unsubscribe_properties u)"
    by (simp_all add: unsubscribe_encodable_def)
  from encode_unsubscribe_topics_roundtrip [OF e1 ok(1)] obtain ts where ts: "body = b0 @ ts"
    "\<forall>acc. parse_unsubscribe_topics ts acc = Ok (acc @ unsubscribe_topics u)"
    by blast
  from encode_frame_bound [OF f] ts(1) have "length b0 < 4294967296"
    by simp
  from properties_roundtrip [OF e0 ok(2) this] ts v
  have "unsubscribe_parse_body body = Ok ([], u)"
    by (cases u) (auto simp: unsubscribe_parse_body_def)
  with f show "\<exists>f body r x. encode_frame CPT_Unsubscribe f body buf = Ok buf' \<and> f AND 0x0F = f \<and>
      Ok () = Ok () \<and> unsubscribe_parse_body body = Ok (r, x) \<and> Unsubscribe x = Unsubscribe u"
    using two_flags by blast
qed

end
