(* ===== verification/V5_Codec.thy ===== *)
theory V5_Codec
  imports V5_Requests
begin

text \<open>
  The entry points of the MQTT 5 codec, \<open>mqtt/src/v5/mod.rs\<close>: dispatch over the packet types.
  The laws are those of the packet modules put together: round trip, locality of the parser,
  incompleteness of strict prefixes, and the shape of every packet the parser returns.
\<close>

fun packet_parser :: "control_packet_type \<Rightarrow> bytes \<Rightarrow> u32 \<Rightarrow> packet parsed" where
  "packet_parser CPT_Connect input m = connect_parse input m"
| "packet_parser CPT_Connack input m = connack_parse input m"
| "packet_parser CPT_Publish input m = publish_parse input m"
| "packet_parser CPT_Puback input m = puback_parse input m"
| "packet_parser CPT_Pubrec input m = pubrec_parse input m"
| "packet_parser CPT_Pubrel input m = pubrel_parse input m"
| "packet_parser CPT_Pubcomp input m = pubcomp_parse input m"
| "packet_parser CPT_Subscribe input m = subscribe_parse input m"
| "packet_parser CPT_Suback input m = suback_parse input m"
| "packet_parser CPT_Unsubscribe input m = unsubscribe_parse input m"
| "packet_parser CPT_Unsuback input m = unsuback_parse input m"
| "packet_parser CPT_Pingreq input m = pingreq_parse input m"
| "packet_parser CPT_Pingresp input m = pingresp_parse input m"
| "packet_parser CPT_Disconnect input m = disconnect_parse input m"
| "packet_parser CPT_Auth input m = auth_parse input m"

definition v5_parse :: "bytes \<Rightarrow> u32 \<Rightarrow> packet parsed" where
  "v5_parse input m =
     and_then (fixed_header_parse input m) (\<lambda>(_, h). packet_parser (packet_type h) input m)"

fun v5_encode :: "packet \<Rightarrow> bytes \<Rightarrow> encoded" where
  "v5_encode (Connect p) buffer = connect_encode p buffer"
| "v5_encode (Connack p) buffer = connack_encode p buffer"
| "v5_encode (Publish p) buffer = publish_encode p buffer"
| "v5_encode (Puback p) buffer = puback_encode p buffer"
| "v5_encode (Pubrec p) buffer = pubrec_encode p buffer"
| "v5_encode (Pubrel p) buffer = pubrel_encode p buffer"
| "v5_encode (Pubcomp p) buffer = pubcomp_encode p buffer"
| "v5_encode (Subscribe p) buffer = subscribe_encode p buffer"
| "v5_encode (Suback p) buffer = suback_encode p buffer"
| "v5_encode (Unsubscribe p) buffer = unsubscribe_encode p buffer"
| "v5_encode (Unsuback p) buffer = unsuback_encode p buffer"
| "v5_encode Pingreq buffer = pingreq_encode buffer"
| "v5_encode Pingresp buffer = pingresp_encode buffer"
| "v5_encode (Disconnect p) buffer = disconnect_encode p buffer"
| "v5_encode (Auth p) buffer = auth_encode p buffer"

definition v5_to_bytes :: "packet \<Rightarrow> encoded" where
  "v5_to_bytes p = v5_encode p []"

text \<open>
  The packets the round trip is about: their strings are UTF-8, as Rust's types guarantee, and
  \<open>payload_format_indicator\<close> is 0 or 1. And the packet the reader gets: the three reason codes
  that share the byte 0 are identified, a session expiry interval held outside the properties is
  moved into them, and the local expiry time of a PUBLISH is not transmitted.
\<close>

fun encodable_packet :: "packet \<Rightarrow> bool" where
  "encodable_packet (Connect p) = connect_encodable p"
| "encodable_packet (Connack p) = encodable_properties (connack_properties p)"
| "encodable_packet (Publish p) = publish_encodable p"
| "encodable_packet (Puback p) = encodable_properties (ack_properties p)"
| "encodable_packet (Pubrec p) = encodable_properties (ack_properties p)"
| "encodable_packet (Pubrel p) = encodable_properties (ack_properties p)"
| "encodable_packet (Pubcomp p) = encodable_properties (ack_properties p)"
| "encodable_packet (Subscribe p) = subscribe_encodable p"
| "encodable_packet (Suback p) = encodable_properties (suback_properties p)"
| "encodable_packet (Unsubscribe p) = unsubscribe_encodable p"
| "encodable_packet (Unsuback p) = encodable_properties (unsuback_properties p)"
| "encodable_packet Pingreq = True"
| "encodable_packet Pingresp = True"
| "encodable_packet (Disconnect p) = encodable_properties (disconnect_properties p)"
| "encodable_packet (Auth p) = encodable_properties (auth_properties p)"

fun v5_read_back :: "packet \<Rightarrow> packet" where
  "v5_read_back (Connect p) = Connect (connect_read_back p)"
| "v5_read_back (Connack p) = Connack (connack_read_back p)"
| "v5_read_back (Publish p) = Publish (publish_read_back p)"
| "v5_read_back (Puback p) = Puback (ack_read_back p)"
| "v5_read_back (Pubrec p) = Pubrec (ack_read_back p)"
| "v5_read_back (Pubrel p) = Pubrel (ack_read_back p)"
| "v5_read_back (Pubcomp p) = Pubcomp (ack_read_back p)"
| "v5_read_back (Subscribe p) = Subscribe p"
| "v5_read_back (Suback p) = Suback (suback_read_back p)"
| "v5_read_back (Unsubscribe p) = Unsubscribe p"
| "v5_read_back (Unsuback p) = Unsuback (unsuback_read_back p)"
| "v5_read_back Pingreq = Pingreq"
| "v5_read_back Pingresp = Pingresp"
| "v5_read_back (Disconnect p) = Disconnect (disconnect_read_back p)"
| "v5_read_back (Auth p) = Auth (auth_read_back p)"

section \<open>Round trip\<close>

text \<open>The dispatcher runs the module whose packet type the header names.\<close>

lemmas packet_parse_types =
  connect_codec.parse_type connack_codec.parse_type publish_codec.parse_type
  puback_codec.parse_type pubrec_codec.parse_type pubrel_codec.parse_type
  pubcomp_codec.parse_type subscribe_codec.parse_type suback_codec.parse_type
  unsubscribe_codec.parse_type unsuback_codec.parse_type pingreq_codec.parse_type
  pingresp_codec.parse_type disconnect_codec.parse_type auth_codec.parse_type

lemmas packet_parse_enc =
  connect_codec.parse_enc connack_codec.parse_enc publish_codec.parse_enc
  puback_codec.parse_enc pubrec_codec.parse_enc pubrel_codec.parse_enc
  pubcomp_codec.parse_enc subscribe_codec.parse_enc suback_codec.parse_enc
  unsubscribe_codec.parse_enc unsuback_codec.parse_enc disconnect_codec.parse_enc
  auth_codec.parse_enc

lemmas ping_parse_enc = pingreq_codec.parse_enc [OF TrueI] pingresp_codec.parse_enc [OF TrueI]

lemma packet_parser_type:
  "packet_parser t i m = Ok (r, p) \<Longrightarrow> \<exists>j h. fixed_header_parse i m = Ok (j, h) \<and> packet_type h = t"
  by (cases t; simp only: packet_parser.simps; erule packet_parse_types)

lemma v5_parse_by_header:
  "fixed_header_parse i m = Ok (j, h) \<Longrightarrow> v5_parse i m = packet_parser (packet_type h) i m"
  by (simp add: v5_parse_def)

lemma v5_parse_packet: "packet_parser t i m = Ok (r, p) \<Longrightarrow> v5_parse i m = Ok (r, p)"
  using packet_parser_type v5_parse_by_header by fastforce

lemma v5_parse_Ok_iff: "v5_parse i m = Ok (r, p) \<longleftrightarrow> (\<exists>t. packet_parser t i m = Ok (r, p))"
proof
  assume "v5_parse i m = Ok (r, p)"
  then show "\<exists>t. packet_parser t i m = Ok (r, p)"
    by (auto simp: v5_parse_def and_then_eq_Ok)
qed (auto intro: v5_parse_packet)

lemmas v5_parse_dispatch =
  v5_parse_packet [of CPT_Connect, simplified] v5_parse_packet [of CPT_Connack, simplified]
  v5_parse_packet [of CPT_Publish, simplified] v5_parse_packet [of CPT_Puback, simplified]
  v5_parse_packet [of CPT_Pubrec, simplified] v5_parse_packet [of CPT_Pubrel, simplified]
  v5_parse_packet [of CPT_Pubcomp, simplified] v5_parse_packet [of CPT_Subscribe, simplified]
  v5_parse_packet [of CPT_Suback, simplified] v5_parse_packet [of CPT_Unsubscribe, simplified]
  v5_parse_packet [of CPT_Unsuback, simplified] v5_parse_packet [of CPT_Pingreq, simplified]
  v5_parse_packet [of CPT_Pingresp, simplified] v5_parse_packet [of CPT_Disconnect, simplified]
  v5_parse_packet [of CPT_Auth, simplified]

lemma v5_encode_parse:
  "encodable_packet p \<Longrightarrow> v5_encode p buf = Ok buf' \<Longrightarrow> length buf' - length buf \<le> unat m \<Longrightarrow>
   \<exists>bs. buf' = buf @ bs \<and> (\<forall>rest. v5_parse (bs @ rest) m = Ok (rest, v5_read_back p))"
  by (cases p; simp only: encodable_packet.simps v5_encode.simps v5_read_back.simps;
      (drule (2) packet_parse_enc | drule (1) ping_parse_enc);
      erule exE; rule exI; erule conjE; rule conjI, assumption; simp add: v5_parse_dispatch)

section \<open>The stream of packets\<close>

lemmas packet_incremental =
  connect_codec.incremental_parser_axioms connack_codec.incremental_parser_axioms
  publish_codec.incremental_parser_axioms puback_codec.incremental_parser_axioms
  pubrec_codec.incremental_parser_axioms pubrel_codec.incremental_parser_axioms
  pubcomp_codec.incremental_parser_axioms subscribe_codec.incremental_parser_axioms
  suback_codec.incremental_parser_axioms unsubscribe_codec.incremental_parser_axioms
  unsuback_codec.incremental_parser_axioms pingreq_codec.incremental_parser_axioms
  pingresp_codec.incremental_parser_axioms disconnect_codec.incremental_parser_axioms
  auth_codec.incremental_parser_axioms

interpretation packet_parser: incremental_parser "\<lambda>i. packet_parser t i m" for t m
  by (cases t; simp only: packet_parser.simps; rule packet_incremental)

interpretation v5_stream: incremental_parser "\<lambda>i. v5_parse i m" for m
proof unfold_locales
  show "\<exists>c. c \<noteq> [] \<and> i = c @ r" if "v5_parse i m = Ok (r, p)" for i r p
    using that packet_parser.dec_consumes by (auto simp: v5_parse_Ok_iff)
  show "v5_parse (i @ k) m = Ok (r @ k, p)" if "v5_parse i m = Ok (r, p)" for i r p k
    using that by (auto simp: v5_parse_Ok_iff intro: packet_parser.dec_extend)
  show "v5_parse c m = Ok ([], p)" if "v5_parse (c @ r) m = Ok (r, p)" for c r p
    using that by (auto simp: v5_parse_Ok_iff intro: packet_parser.dec_exact)
  show "\<exists>s. v5_parse xs m = Err (Incomplete s)"
    if a: "v5_parse (xs @ ys) m = Ok ([], p)" and ys: "ys \<noteq> []" for xs ys p
  proof -
    from a obtain t where t: "packet_parser t (xs @ ys) m = Ok ([], p)"
      by (auto simp: v5_parse_Ok_iff)
    then obtain j h where h: "fixed_header_parse (xs @ ys) m = Ok (j, h)" "packet_type h = t"
      by (auto dest: packet_parser_type)
    from fixed_header_inc.dec_splits [OF h(1) refl] show ?thesis
      using packet_parser.dec_prefix [OF t ys] h(2)
      by (auto simp: v5_parse_by_header) (auto simp: v5_parse_def)
  qed
qed

text \<open>A packet occupies its header and the number of bytes the header announces.\<close>

lemma frame_length:
  assumes "parse_frame t u hc inc pb mk i m = Ok (r, p)"
  shows "\<exists>j h. fixed_header_parse i m = Ok (j, h) \<and> packet_type h = t \<and>
    r = drop (unat (remaining_length h)) j \<and> unat (remaining_length h) \<le> length j"
  using assms by (rule parse_frame_Ok) blast

lemma ping_length:
  assumes "ping_parse t u z q i m = Ok (r, p)"
  shows "\<exists>j h. fixed_header_parse i m = Ok (j, h) \<and> packet_type h = t \<and>
    r = drop (unat (remaining_length h)) j \<and> unat (remaining_length h) \<le> length j"
  using assms by (auto simp: ping_parse_Ok)

lemma packet_parser_length:
  "packet_parser t i m = Ok (r, p) \<Longrightarrow> \<exists>j h. fixed_header_parse i m = Ok (j, h) \<and> packet_type h = t \<and>
    r = drop (unat (remaining_length h)) j \<and> unat (remaining_length h) \<le> length j"
  by (cases t; simp only: packet_parser.simps connect_parse_def connack_parse_def
      publish_parse_def puback_parse_def pubrec_parse_def pubrel_parse_def pubcomp_parse_def
      ack_parse_def subscribe_parse_def suback_parse_def unsubscribe_parse_def
      unsuback_parse_def pingreq_parse_def pingresp_parse_def disconnect_parse_def
      auth_parse_def; (erule frame_length | erule ping_length))

section \<open>What the parser guarantees\<close>

definition wire_ack :: "control_packet_type \<Rightarrow> property_scope \<Rightarrow> ack \<Rightarrow> bool" where
  "wire_ack t scope a \<longleftrightarrow>
     ack_protocol_version a = V5_0 \<and> ack_packet_identifier a \<noteq> 0 \<and>
     reason_code_allowed (reason_code_as_u8 (ack_reason_code a)) t \<and>
     canonical_code RC_Success (ack_reason_code a) = ack_reason_code a \<and>
     valid_properties scope (ack_properties a)"

definition wire_connect :: "connect \<Rightarrow> bool" where
  "wire_connect c \<longleftrightarrow>
     connect_protocol_version c = V5_0 \<and> valid_str (client_id c) \<and>
     valid_opt_str (username c) \<and> valid_opt_str (password c) \<and>
     (password c \<noteq> None \<longrightarrow> username c \<noteq> None) \<and>
     valid_properties Scope_Connect (connect_properties c) \<and>
     authentication_method (connect_properties c) = None \<and>
     authentication_data (connect_properties c) = None \<and>
     connect_session_expiry_interval c = session_expiry_interval (connect_properties c) \<and>
     (case connect_will c of None \<Rightarrow> True
      | Some w \<Rightarrow> will_qos w \<le> 2 \<and> valid_str (will_topic w) \<and>
          valid_properties Scope_Will (will_properties w))"

definition wire_connack :: "connack \<Rightarrow> bool" where
  "wire_connack a \<longleftrightarrow>
     connack_protocol_version a = V5_0 \<and>
     (session_present a \<longrightarrow> connack_reason_code a = RC_Success) \<and>
     reason_code_allowed (reason_code_as_u8 (connack_reason_code a)) CPT_Connack \<and>
     canonical_code RC_Success (connack_reason_code a) = connack_reason_code a \<and>
     valid_properties Scope_Connack (connack_properties a)"

definition wire_publish :: "publish \<Rightarrow> bool" where
  "wire_publish p \<longleftrightarrow>
     publish_protocol_version p = V5_0 \<and> publish_qos p \<le> 2 \<and>
     topic_name p \<noteq> [] \<and> valid_str (topic_name p) \<and>
     (publish_qos p = 0 \<longleftrightarrow> publish_packet_identifier p = None) \<and>
     publish_packet_identifier p \<noteq> Some 0 \<and>
     valid_properties Scope_Publish (publish_properties p) \<and>
     topic_alias (publish_properties p) = None \<and> expires_at_unix_secs p = None"

definition wire_subscribe :: "subscribe \<Rightarrow> bool" where
  "wire_subscribe s \<longleftrightarrow>
     subscribe_protocol_version s = V5_0 \<and> subscribe_packet_identifier s \<noteq> 0 \<and>
     subscribe_topics s \<noteq> [] \<and>
     list_all (\<lambda>t. topic_filter t \<noteq> [] \<and> valid_str (topic_filter t) \<and> topic_qos t \<le> 2)
       (subscribe_topics s) \<and>
     valid_properties Scope_Subscribe (subscribe_properties s)"

definition wire_suback :: "suback \<Rightarrow> bool" where
  "wire_suback a \<longleftrightarrow>
     suback_protocol_version a = V5_0 \<and> suback_packet_identifier a \<noteq> 0 \<and>
     suback_reason_codes a \<noteq> [] \<and>
     list_all (\<lambda>c. reason_code_allowed (reason_code_as_u8 c) CPT_Suback \<and>
       canonical_code RC_GrantedQos0 c = c) (suback_reason_codes a) \<and>
     valid_properties Scope_Suback (suback_properties a)"

definition wire_unsubscribe :: "unsubscribe \<Rightarrow> bool" where
  "wire_unsubscribe u \<longleftrightarrow>
     unsubscribe_protocol_version u = V5_0 \<and> unsubscribe_packet_identifier u \<noteq> 0 \<and>
     unsubscribe_topics u \<noteq> [] \<and>
     list_all (\<lambda>t. t \<noteq> [] \<and> valid_str t) (unsubscribe_topics u) \<and>
     valid_properties Scope_Unsubscribe (unsubscribe_properties u)"

definition wire_unsuback :: "unsuback \<Rightarrow> bool" where
  "wire_unsuback a \<longleftrightarrow>
     unsuback_protocol_version a = V5_0 \<and> unsuback_packet_identifier a \<noteq> 0 \<and>
     unsuback_reason_codes a \<noteq> [] \<and>
     list_all (\<lambda>c. reason_code_allowed (reason_code_as_u8 c) CPT_Unsuback \<and>
       canonical_code RC_Success c = c) (unsuback_reason_codes a) \<and>
     valid_properties Scope_Unsuback (unsuback_properties a)"

definition wire_disconnect :: "disconnect \<Rightarrow> bool" where
  "wire_disconnect d \<longleftrightarrow>
     disconnect_protocol_version d = V5_0 \<and>
     reason_code_allowed (reason_code_as_u8 (disconnect_reason_code d)) CPT_Disconnect \<and>
     canonical_code RC_NormalDisconnection (disconnect_reason_code d) = disconnect_reason_code d \<and>
     valid_properties Scope_Disconnect (disconnect_properties d) \<and>
     disconnect_session_expiry_interval d = session_expiry_interval (disconnect_properties d)"

definition wire_auth :: "auth \<Rightarrow> bool" where
  "wire_auth a \<longleftrightarrow>
     reason_code_allowed (reason_code_as_u8 (auth_reason_code a)) CPT_Auth \<and>
     canonical_code RC_Success (auth_reason_code a) = auth_reason_code a \<and>
     valid_properties Scope_Auth (auth_properties a)"

text \<open>The packets the parser may return.\<close>

fun wire_packet :: "packet \<Rightarrow> bool" where
  "wire_packet (Connect p) = wire_connect p"
| "wire_packet (Connack p) = wire_connack p"
| "wire_packet (Publish p) = wire_publish p"
| "wire_packet (Puback p) = wire_ack CPT_Puback Scope_Puback p"
| "wire_packet (Pubrec p) = wire_ack CPT_Pubrec Scope_Pubrec p"
| "wire_packet (Pubrel p) = wire_ack CPT_Pubrel Scope_Pubrel p"
| "wire_packet (Pubcomp p) = wire_ack CPT_Pubcomp Scope_Pubcomp p"
| "wire_packet (Subscribe p) = wire_subscribe p"
| "wire_packet (Suback p) = wire_suback p"
| "wire_packet (Unsubscribe p) = wire_unsubscribe p"
| "wire_packet (Unsuback p) = wire_unsuback p"
| "wire_packet Pingreq = True"
| "wire_packet Pingresp = True"
| "wire_packet (Disconnect p) = wire_disconnect p"
| "wire_packet (Auth p) = wire_auth p"

lemma decode_canonical: "reason_code_decode v = Ok c \<Longrightarrow> canonical_code RC_Success c = c"
  by (metis as_u8_decode decode_as_u8 result.inject(1))

lemma decode_for_packet_allowed:
  "decode_for_packet v t = Ok c \<Longrightarrow> reason_code_allowed (reason_code_as_u8 c) t"
  by (auto simp: decode_for_packet_Ok dest: as_u8_decode)

lemma decode_for_packet_canonical: "decode_for_packet v t = Ok c \<Longrightarrow> canonical_code RC_Success c = c"
  by (auto simp: decode_for_packet_Ok intro: decode_canonical)

lemma reason_code_allowed_0 [simp]: "reason_code_allowed 0 t"
  by (cases t) (simp_all add: reason_code_allowed_def)

lemma canonical_code_same [simp]: "canonical_code c c = c"
  by (simp add: canonical_code_def)

lemmas body_facts =
  decode_for_packet_allowed decode_for_packet_canonical properties_parse_valid
  parse_utf8_string_valid

lemma connect_flags_wire:
  assumes "connect_flags_parse v = Ok f"
  shows "(flag_password f \<longrightarrow> flag_username f) \<and> flag_will_qos f \<le> 2"
proof -
  have "v AND 0b00011000 \<le> (0b00011000 :: u8)"
    by (rule word_and_le1)
  then have "unat (v AND 0b00011000) \<le> 24"
    by (simp add: word_le_nat_alt)
  moreover have "unat (drop_bit 3 (v AND 0b00011000)) = unat (v AND 0b00011000) div 8"
    by (simp add: drop_bit_eq_div unat_div)
  ultimately have "unat (drop_bit 3 (v AND 0b00011000)) \<le> 3"
    using div_le_mono [of "unat (v AND 0b00011000)" 24 8] by simp
  moreover have "unat q = 3 \<Longrightarrow> q = 3" for q :: u8
    by (simp add: word_unat_eq_iff)
  ultimately have "drop_bit 3 (v AND 0b00011000) = 3 \<or> drop_bit 3 (v AND 0b00011000) \<le> 2"
    by (fastforce simp: word_le_nat_alt)
  then show ?thesis
    using assms by (auto simp: connect_flags_parse_def Let_def split: if_splits)
qed

lemma ack_body_wire: "ack_parse_body t scope i = Ok (r, a) \<Longrightarrow> wire_ack t scope a"
  unfolding ack_parse_body_def wire_ack_def
  by (auto simp: and_then_eq_Ok split: if_splits intro: body_facts)

lemma connack_body_wire: "connack_parse_body i = Ok (r, a) \<Longrightarrow> wire_connack a"
  unfolding connack_parse_body_def wire_connack_def Let_def
  by (auto simp: and_then_eq_Ok split: if_splits intro: body_facts)

lemma parse_will_wire:
  assumes "parse_will f i = Ok (r, w)" and "flag_will_qos f \<le> 2"
  shows "case w of None \<Rightarrow> True
    | Some w \<Rightarrow> will_qos w \<le> 2 \<and> valid_str (will_topic w) \<and> valid_properties Scope_Will (will_properties w)"
  using assms by (auto simp: parse_will_def and_then_eq_Ok split: if_splits intro: body_facts)

lemma parse_username_wire:
  "parse_username f i = Ok (r, u) \<Longrightarrow> valid_opt_str u \<and> (u \<noteq> None \<longleftrightarrow> flag_username f)"
  by (auto simp: parse_username_def and_then_eq_Ok split: if_splits intro: body_facts)

lemma parse_password_wire:
  "parse_password f i = Ok (r, u) \<Longrightarrow> valid_opt_str u \<and> (u \<noteq> None \<longleftrightarrow> flag_password f)"
  by (auto simp: parse_password_def and_then_eq_Ok from_utf8_Some split: if_splits option.splits)

lemma connect_body_wire:
  assumes "connect_parse_body i = Ok (r, c)"
  shows "wire_connect c"
proof -
  from assms obtain v f j1 j2 p j3 j4 cid w j5 u j6 j7 s where
    f: "connect_flags_parse v = Ok f" and p: "properties_parse j1 Scope_Connect = Ok (j2, p)"
    and a: "reject_enhanced_auth p = Ok ()" and i: "parse_utf8_string j2 = Ok (j3, cid)"
    and w: "parse_will f j3 = Ok (j4, w)" and u: "parse_username f j4 = Ok (j5, u)"
    and s: "parse_password f j5 = Ok (j6, s)"
    and c: "connect_protocol_version c = V5_0" "client_id c = cid" "username c = u" "password c = s"
      "connect_session_expiry_interval c = session_expiry_interval p" "connect_will c = w"
      "connect_properties c = p"
    by (auto simp: connect_parse_body_def and_then_eq_Ok split: if_splits)
  from a have "authentication_method p = None" "authentication_data p = None"
    by (auto simp: reject_enhanced_auth_def split: if_splits)
  then show ?thesis
    using connect_flags_wire [OF f] properties_parse_valid [OF p] parse_utf8_string_valid [OF i]
      parse_will_wire [OF w] parse_username_wire [OF u] parse_password_wire [OF s] c
    by (simp add: wire_connect_def)
qed

lemma publish_body_wire:
  assumes "publish_parse_body h i = Ok (r, p)" and "header_qos h \<le> 2"
  shows "wire_publish p"
  using assms unfolding publish_parse_body_def wire_publish_def
  by (auto simp: and_then_eq_Ok word_gt_0 split: if_splits intro: body_facts)

lemma parse_topic_wire:
  assumes "parse_topic tf v = Ok t"
  shows "topic_filter t = tf \<and> topic_qos t \<le> 2"
proof -
  have "v AND 3 \<le> (3 :: u8)"
    by (rule word_and_le1)
  then have "unat (v AND 3) \<le> 3"
    by (simp add: word_le_nat_alt)
  moreover have "unat q = 3 \<Longrightarrow> q = 3" for q :: u8
    by (simp add: word_unat_eq_iff)
  ultimately have "v AND 3 = 3 \<or> v AND 3 \<le> 2"
    by (fastforce simp: word_le_nat_alt)
  then show ?thesis
    using assms by (auto simp: parse_topic_def Let_def and_then_eq_Ok split: if_splits)
qed

lemma parse_subscribe_topics_wire:
  "parse_subscribe_topics i acc = Ok ts \<Longrightarrow>
   list_all (\<lambda>t. topic_filter t \<noteq> [] \<and> valid_str (topic_filter t) \<and> topic_qos t \<le> 2) acc \<Longrightarrow>
   list_all (\<lambda>t. topic_filter t \<noteq> [] \<and> valid_str (topic_filter t) \<and> topic_qos t \<le> 2) ts"
proof (induction i acc rule: parse_subscribe_topics.induct)
  case (1 i acc)
  show ?case
  proof (cases "i = []")
    case True
    with "1.prems" show ?thesis by (simp add: parse_subscribe_topics.simps [of "[]"])
  next
    case False
    with "1.prems"(1) obtain j tf k v t where s: "parse_utf8_string i = Ok (j, tf)" "tf \<noteq> []"
      "parse_u8 j ''SUBSCRIBE options'' = Ok (k, v)" "parse_topic tf v = Ok t"
      and l: "parse_subscribe_topics k (acc @ [t]) = Ok ts"
      by (auto simp: parse_subscribe_topics.simps [of i] and_then_eq_Ok split: if_splits)
    from parse_topic_wire [OF s(4)] parse_utf8_string_valid [OF s(1)] s(2) "1.prems"(2)
    have "list_all (\<lambda>t. topic_filter t \<noteq> [] \<and> valid_str (topic_filter t) \<and> topic_qos t \<le> 2) (acc @ [t])"
      by simp
    with "1.IH" [OF False s(1) refl s(2,3) refl s(4) l] show ?thesis .
  qed
qed

lemma subscribe_body_wire: "subscribe_parse_body i = Ok (r, s) \<Longrightarrow> wire_subscribe s"
  unfolding subscribe_parse_body_def wire_subscribe_def
  by (auto simp: and_then_eq_Ok split: if_splits intro: body_facts
      dest: parse_subscribe_topics_wire [of _ "[]"])

lemma parse_unsubscribe_topics_wire:
  "parse_unsubscribe_topics i acc = Ok ts \<Longrightarrow> list_all (\<lambda>t. t \<noteq> [] \<and> valid_str t) acc \<Longrightarrow>
   list_all (\<lambda>t. t \<noteq> [] \<and> valid_str t) ts"
proof (induction i acc rule: parse_unsubscribe_topics.induct)
  case (1 i acc)
  show ?case
  proof (cases "i = []")
    case True
    with "1.prems" show ?thesis by (simp add: parse_unsubscribe_topics.simps [of "[]"])
  next
    case False
    with "1.prems"(1) obtain j t where s: "parse_utf8_string i = Ok (j, t)" "t \<noteq> []"
      and l: "parse_unsubscribe_topics j (acc @ [t]) = Ok ts"
      by (auto simp: parse_unsubscribe_topics.simps [of i] and_then_eq_Ok split: if_splits)
    with "1.IH" [OF False s(1) refl s(2) l] parse_utf8_string_valid [OF s(1)] "1.prems"(2)
    show ?thesis by simp
  qed
qed

lemma unsubscribe_body_wire: "unsubscribe_parse_body i = Ok (r, u) \<Longrightarrow> wire_unsubscribe u"
  unfolding unsubscribe_parse_body_def wire_unsubscribe_def
  by (auto simp: and_then_eq_Ok split: if_splits intro: body_facts
      dest: parse_unsubscribe_topics_wire [of _ "[]"])

lemma decode_suback_wire:
  assumes "decode_suback_reason_code v = Ok c"
  shows "reason_code_allowed (reason_code_as_u8 c) CPT_Suback \<and> canonical_code RC_GrantedQos0 c = c"
proof -
  have "canonical_code RC_GrantedQos0 c = c" if "reason_code_decode v = Ok c" "v \<noteq> 0"
    using as_u8_decode [OF that(1)] that(2) by (simp add: canonical_code_def)
  with assms show ?thesis
    by (auto simp: decode_suback_reason_code_def and_then_eq_Ok validate_for_packet_Ok
        canonical_code_def split: if_splits)
qed

lemma list_all2_wire: "list_all2 P xs ys \<Longrightarrow> (\<And>x y. P x y \<Longrightarrow> Q y) \<Longrightarrow> list_all Q ys"
  by (induction xs ys rule: list_all2_induct) auto

lemma suback_body_wire: "suback_parse_body i = Ok (r, a) \<Longrightarrow> wire_suback a"
  unfolding suback_parse_body_def wire_suback_def
  by (auto simp: and_then_eq_Ok map_result_Ok_iff split: if_splits
      intro: body_facts dest: list_all2_wire [OF _ decode_suback_wire])

lemma unsuback_body_wire: "unsuback_parse_body i = Ok (r, a) \<Longrightarrow> wire_unsuback a"
  unfolding unsuback_parse_body_def wire_unsuback_def
  by (auto simp: and_then_eq_Ok map_result_Ok_iff split: if_splits
      intro: body_facts list_all2_wire)

lemma decode_disconnect_wire:
  assumes "decode_disconnect_reason_code v = Ok c"
  shows "reason_code_allowed (reason_code_as_u8 c) CPT_Disconnect \<and>
    canonical_code RC_NormalDisconnection c = c"
proof -
  have "canonical_code RC_NormalDisconnection c = c" if "reason_code_decode v = Ok c" "v \<noteq> 0"
    using as_u8_decode [OF that(1)] that(2) by (simp add: canonical_code_def)
  with assms show ?thesis
    by (auto simp: decode_disconnect_reason_code_def and_then_eq_Ok validate_for_packet_Ok
        split: if_splits)
qed

lemma disconnect_body_wire: "disconnect_parse_body i = Ok (r, d) \<Longrightarrow> wire_disconnect d"
  unfolding disconnect_parse_body_def wire_disconnect_def
  by (auto simp: and_then_eq_Ok split: if_splits intro: body_facts dest: decode_disconnect_wire)

lemma auth_body_wire: "auth_parse_body i = Ok (r, a) \<Longrightarrow> wire_auth a"
  unfolding auth_parse_body_def wire_auth_def
  by (auto simp: and_then_eq_Ok split: if_splits intro: body_facts)

lemma header_qos_le:
  assumes "fixed_header_parse i m = Ok (j, h)" and "packet_type h = CPT_Publish"
  shows "header_qos h \<le> 2"
proof -
  from assms(1) obtain t f n where "h = make_fixed_header t f n"
    by (auto simp: fixed_header_parse_def and_then_eq_Ok Let_def split: list.splits if_splits)
  then have f: "header_qos h = drop_bit 1 (f AND 0b0110)" "flags h = f"
    by (simp_all only: make_fixed_header_def fixed_header.simps)
  have "f AND 0b0110 \<le> (0b0110 :: u8)"
    by (rule word_and_le1)
  then have "unat (f AND 0b0110) \<le> 6"
    by (simp add: word_le_nat_alt)
  then have "unat (header_qos h) \<le> 3"
    using div_le_mono [of "unat (f AND 0b0110)" 6 2]
    unfolding f by (simp add: drop_bit_eq_div unat_div)
  moreover have "header_qos h \<noteq> 3"
    using fixed_header_parse_flags [OF assms(1)] assms(2) f by (simp add: flags_valid_def)
  then have "unat (header_qos h) \<noteq> 3"
    by (simp add: word_unat_eq_iff)
  ultimately show ?thesis
    by (simp add: word_le_nat_alt)
qed

lemmas body_wire =
  connect_body_wire connack_body_wire subscribe_body_wire suback_body_wire unsubscribe_body_wire
  unsuback_body_wire disconnect_body_wire auth_body_wire ack_body_wire

lemma packet_parser_wire:
  assumes "packet_parser t i m = Ok (r, p)"
  shows "wire_packet p"
proof (cases "t = CPT_Publish")
  case True
  with assms have "parse_frame CPT_Publish ''expected PUBLISH packet'' (\<lambda>_. Ok ()) ''PUBLISH body''
      publish_parse_body Publish i m = Ok (r, p)"
    by (simp add: publish_parse_def)
  then show ?thesis
    by (rule parse_frame_Ok) (simp add: publish_body_wire [OF _ header_qos_le])
next
  case False
  with assms show ?thesis
    by (cases t; auto simp: connect_parse_def connack_parse_def puback_parse_def pubrec_parse_def
        pubrel_parse_def pubcomp_parse_def ack_parse_def subscribe_parse_def suback_parse_def
        unsubscribe_parse_def unsuback_parse_def pingreq_parse_def pingresp_parse_def ping_parse_Ok
        disconnect_parse_def auth_parse_def elim!: parse_frame_Ok intro: body_wire)
qed

lemma v5_parse_wire: "v5_parse i m = Ok (r, p) \<Longrightarrow> wire_packet p"
  by (auto simp: v5_parse_Ok_iff intro: packet_parser_wire)

lemma wire_packet_encodable: "wire_packet p \<Longrightarrow> encodable_packet p"
  by (cases p) (auto simp: wire_connect_def connect_encodable_def wire_connack_def wire_publish_def
      publish_encodable_def wire_ack_def wire_subscribe_def subscribe_encodable_def wire_suback_def
      wire_unsubscribe_def unsubscribe_encodable_def wire_unsuback_def wire_disconnect_def
      wire_auth_def list_all_iff intro: valid_properties_encodable split: option.splits)

lemma map_id_on: "list_all (\<lambda>c. P c \<and> f c = c) xs \<Longrightarrow> map f xs = xs"
  by (induction xs) auto

lemma wire_packet_read_back: "wire_packet p \<Longrightarrow> v5_read_back p = p"
  by (cases p) (auto simp: wire_connect_def connect_read_back_def wire_connack_def connack_read_back_def
      wire_publish_def publish_read_back_def wire_ack_def ack_read_back_def wire_suback_def
      suback_read_back_def wire_unsuback_def unsuback_read_back_def wire_disconnect_def
      disconnect_read_back_def wire_auth_def auth_read_back_def Let_def session_expiry_same
      map_id_on split: option.splits)

section \<open>Properties\<close>

text \<open>A PUBLISH used below as a concrete packet.\<close>

definition example_publish :: publish where
  "example_publish =
     \<lparr>publish_protocol_version = V5_0, topic_name = ''a/b'', payload = [1, 2], publish_qos = 1,
      retain = True, dup = False, publish_packet_identifier = Some 7,
      publish_properties = default_properties\<lparr>topic_alias := None, content_type := Some ''t''\<rparr>,
      expires_at_unix_secs = Some 99\<rparr>"

text \<open>
  C1: every MQTT 5 packet the encoder accepts is read back by the parser, up to the identifications
  of \<open>v5_read_back\<close>, whatever bytes follow it in the stream and with exactly its own bytes consumed,
  provided the packet is within the reader's size limit.
\<close>

theorem v5_roundtrip:
  assumes "encodable_packet p" and "v5_to_bytes p = Ok bs" and "length bs \<le> unat m"
  shows "v5_parse (bs @ rest) m = Ok (rest, v5_read_back p)"
  using v5_encode_parse [of p "[]" bs m] assms by (auto simp: v5_to_bytes_def)

theorem v5_roundtrip_witness:
  "v5_parse ([0x33, 14, 0, 3, 97, 47, 98, 0, 7, 4, 3, 0, 1, 116, 1, 2] @ [0xC0, 0]) 1024
     = Ok ([0xC0, 0], Publish (example_publish\<lparr>expires_at_unix_secs := None\<rparr>))"
proof -
  have "v5_to_bytes (Publish example_publish)
      = Ok [0x33, 14, 0, 3, 97, 47, 98, 0, 7, 4, 3, 0, 1, 116, 1, 2]"
    by (simp add: v5_to_bytes_def publish_encode_def example_publish_def publish_identifier_check_def
        encode_utf8_string_def as_bytes_def byte_of_char_def be16_def properties_encode_def
        encode_properties_head_def encode_properties_tail_def write_property_id_def ensure_allowed_def
        encode_optional_nonzero_u16_def encode_optional_nonzero_u32_def
        encode_variable_byte_integer_def MAX_VARIABLE_BYTE_INTEGER_def
        encode_variable_byte_integer_loop.simps publish_flags_def encode_frame_def
        fixed_header_new_def fixed_header_encode_def make_fixed_header_def validate_flags_def
        flags_valid_def)
  moreover have "encodable_packet (Publish example_publish)"
    by (simp add: example_publish_def publish_encodable_def encodable_properties_def
        utf8_properties_def payload_format_ok_def valid_str_def as_bytes_def byte_of_char_def)
  ultimately show ?thesis
    using v5_roundtrip [of "Publish example_publish" _ 1024 "[0xC0, 0]"]
    by (simp add: publish_read_back_def)
qed

text \<open>
  The parser never mistakes a packet that is still arriving for a malformed one. Every strict
  prefix of the bytes of a packet is reported as incomplete.
\<close>

theorem v5_prefix_incomplete:
  assumes "v5_parse (xs @ ys) m = Ok ([], p)" and "ys \<noteq> []"
  shows "\<exists>s. v5_parse xs m = Err (Incomplete s)"
  using assms by (rule v5_stream.dec_prefix)

theorem v5_prefix_incomplete_witness: "\<exists>s. v5_parse [0xC0] 16 = Err (Incomplete s)"
proof (rule v5_prefix_incomplete [where ys = "[0]"])
  show "v5_parse ([0xC0] @ [0]) 16 = Ok ([], Pingreq)"
    by (simp add: v5_parse_def fixed_header_parse_def control_packet_type_try_from_def
        validate_flags_def flags_valid_def parse_variable_byte_integer_small make_fixed_header_def
        pingreq_parse_def ping_parse_def)
qed simp

text \<open>
  C18: framing. A parsed packet occupies exactly the fixed header and the announced remaining
  length, which is within the configured limit, and bytes that arrive later change neither the
  packet nor what was consumed.
\<close>

theorem v5_framing:
  assumes "v5_parse i m = Ok (r, p)"
  shows "\<exists>j h. fixed_header_parse i m = Ok (j, h) \<and> remaining_length h \<le> m \<and>
      unat (remaining_length h) \<le> length j \<and> r = drop (unat (remaining_length h)) j \<and>
      length r < length i \<and> (\<forall>k. v5_parse (i @ k) m = Ok (r @ k, p))"
proof -
  from assms obtain t where "packet_parser t i m = Ok (r, p)"
    by (auto simp: v5_parse_Ok_iff)
  from packet_parser_length [OF this] obtain j h where "fixed_header_parse i m = Ok (j, h)"
    "r = drop (unat (remaining_length h)) j" "unat (remaining_length h) \<le> length j"
    by blast
  with fixed_header_parse_length_le v5_stream.dec_shorter [OF assms] v5_stream.dec_extend [OF assms]
  show ?thesis by blast
qed

theorem v5_framing_witness:
  "\<exists>j h. fixed_header_parse [0xD0, 0, 9] 16 = Ok (j, h) \<and> remaining_length h \<le> 16 \<and>
      unat (remaining_length h) \<le> length j \<and> [9] = drop (unat (remaining_length h)) j \<and>
      length [9 :: u8] < length [0xD0 :: u8, 0, 9] \<and>
      (\<forall>k. v5_parse ([0xD0, 0, 9] @ k) 16 = Ok ([9] @ k, Pingresp))"
proof (rule v5_framing)
  show "v5_parse [0xD0, 0, 9] 16 = Ok ([9], Pingresp)"
    by (simp add: v5_parse_def fixed_header_parse_def control_packet_type_try_from_def
        validate_flags_def flags_valid_def parse_variable_byte_integer_small make_fixed_header_def
        pingresp_parse_def ping_parse_def)
qed

text \<open>
  C19: every packet the parser returns is well formed: MQTT 5, packet identifiers nonzero and present
  exactly when the quality of service asks for one, QoS at most 2, topics not empty, strings valid
  UTF-8, reason codes and properties allowed for the packet, no enhanced authentication in CONNECT,
  no topic alias in PUBLISH. Such a packet is in the form the encoder's output is read back in.
\<close>

theorem v5_parse_well_formed:
  assumes "v5_parse i m = Ok (r, p)"
  shows "wire_packet p \<and> encodable_packet p \<and> v5_read_back p = p"
  using v5_parse_wire [OF assms] by (simp add: wire_packet_encodable wire_packet_read_back)

theorem v5_parse_well_formed_witness:
  "wire_packet (Puback \<lparr>ack_protocol_version = V5_0, ack_packet_identifier = 5,
      ack_reason_code = RC_Success, ack_properties = default_properties\<rparr>)"
proof -
  have "v5_parse [0x40, 2, 0, 5] 16 = Ok ([], Puback \<lparr>ack_protocol_version = V5_0,
      ack_packet_identifier = 5, ack_reason_code = RC_Success, ack_properties = default_properties\<rparr>)"
    by (simp add: v5_parse_def fixed_header_parse_def control_packet_type_try_from_def
        validate_flags_def flags_valid_def parse_variable_byte_integer_small make_fixed_header_def
        puback_parse_def ack_parse_def parse_frame_def ack_parse_body_def from_be16_def)
  from v5_parse_well_formed [OF this] show ?thesis by simp
qed

end
