(* ===== verification/Connection.thy ===== *)
theory Connection
  imports V5_Codec
begin

text \<open>
  The read side of a client connection, \<open>broker/src/connection.rs\<close>: finding the protocol version
  in the first packet, cutting packets out of the receive buffer, the read loop over the socket,
  and what is derived from a CONNECT for the session manager.
\<close>

section \<open>Errors\<close>

text \<open>The I/O and plugin errors of other crates are carried as the text they display.\<close>

datatype connection_error =
    UnsupportedProtocolVersion "string list" string
  | ConnectionClosed
  | MaxMessageSizeExceeded string
  | PacketParseError string
  | Io string
  | SessionManagerServiceUnavailable string
  | Unauthenticate string
  | InvalidClientIdentifier string
  | UnsupportedMqtt5Feature string
  | Mqtt5ProtocolError reason_code string
  | PluginError string

section \<open>Cutting packets out of the buffer\<close>

text \<open>The result names the bytes to consume, the packet and the protocol version.\<close>

type_synonym parse_attempt = "((nat \<times> packet \<times> protocol_version) option, connection_error) result"

definition try_parse_v5_packet :: "bytes \<Rightarrow> u32 \<Rightarrow> parse_attempt" where
  "try_parse_v5_packet buffer max_message_size =
     (case v5_parse buffer max_message_size of
        Ok (remaining, packet) \<Rightarrow> Ok (Some (length buffer - length remaining, packet, V5_0))
      | Err (Incomplete _) \<Rightarrow> Ok None
      | Err (RemainingLengthExceeded n m) \<Rightarrow>
          Err (MaxMessageSizeExceeded (''MQTT 5 remaining length '' @ fmt_dec (unat n)
            @ '' exceeds max message size '' @ fmt_dec (unat m)))
      | Err err \<Rightarrow>
          if err = MalformedPacket ''enhanced authentication is not supported''
          then Err (UnsupportedMqtt5Feature ''enhanced authentication'')
          else Err (Mqtt5ProtocolError RC_ProtocolError
            (''Invalid MQTT v5 packet: '' @ display_error err)))"

definition detect_initial_connect_protocol ::
  "bytes \<Rightarrow> u32 \<Rightarrow> (protocol_version option, connection_error) result" where
  "detect_initial_connect_protocol buffer max_message_size =
     (case fixed_header_parse buffer max_message_size of
        Err (Incomplete _) \<Rightarrow> Ok None
      | Err (RemainingLengthExceeded n m) \<Rightarrow>
          Err (MaxMessageSizeExceeded (''MQTT remaining length '' @ fmt_dec (unat n)
            @ '' exceeds max message size '' @ fmt_dec (unat m)))
      | Err err \<Rightarrow> Err (PacketParseError (''Invalid first MQTT packet: '' @ display_error err))
      | Ok (body, h) \<Rightarrow>
          if packet_type h \<noteq> CPT_Connect
          then Err (PacketParseError ''client first packet is not CONNECT'')
          else
            let n = unat (remaining_length h) in
            if length body < n then Ok None
            else
              and_then (map_err (\<lambda>e. PacketParseError (display_error e))
                (parse_utf8_string (take n body))) (\<lambda>(input, protocol_name).
              if protocol_name \<noteq> ''MQTT''
              then Err (PacketParseError ''invalid mqtt protocol name'')
              else
                and_then (map_err (\<lambda>e. PacketParseError (display_error e))
                  (parse_u8 input ''CONNECT protocol level'')) (\<lambda>(_, level).
                if level = 4 then Ok (Some V3_1_1)
                else if level = 5 then Ok (Some V5_0)
                else Err (UnsupportedProtocolVersion [''3.1.1'', ''5.0''] (fmt_dec (unat level))))))"

text \<open>
  The dispatch on the protocol version. The reader of version 3.1.1 packets,
  \<open>try_parse_v3_packet\<close>, is an argument: the laws below hold whatever it does.
\<close>

definition try_parse_packet ::
  "(bytes \<Rightarrow> u32 \<Rightarrow> parse_attempt) \<Rightarrow> bytes \<Rightarrow> u32 \<Rightarrow> protocol_version option \<Rightarrow> parse_attempt" where
  "try_parse_packet try_parse_v3_packet buffer max_message_size version =
     and_then
       (case version of
          Some v \<Rightarrow> Ok (Some v)
        | None \<Rightarrow> detect_initial_connect_protocol buffer max_message_size) (\<lambda>version.
     case version of
       None \<Rightarrow> Ok None
     | Some V3_1_1 \<Rightarrow> try_parse_v3_packet buffer max_message_size
     | Some V5_0 \<Rightarrow> try_parse_v5_packet buffer max_message_size)"

section \<open>The read loop\<close>

text \<open>
  The socket is the list of what successive \<open>read_buf\<close> calls give: bytes, or an I/O error. An
  empty read, or the end of the list, is the end of the stream. A successful read returns the
  packet with the buffer after \<open>advance\<close> and the reads still to come.
\<close>

type_synonym socket = "(bytes, string) result list"

fun read_packet ::
  "(bytes \<Rightarrow> u32 \<Rightarrow> parse_attempt) \<Rightarrow> socket \<Rightarrow> bytes \<Rightarrow> u32 \<Rightarrow> protocol_version option \<Rightarrow>
   ((packet \<times> protocol_version) \<times> bytes \<times> socket, connection_error) result" where
  "read_packet v3 [] buffer m version =
     and_then (try_parse_packet v3 buffer m version) (\<lambda>attempt.
     case attempt of
       Some (n, packet, v) \<Rightarrow> Ok ((packet, v), drop n buffer, [])
     | None \<Rightarrow> Err ConnectionClosed)"
| "read_packet v3 (chunk # socket) buffer m version =
     and_then (try_parse_packet v3 buffer m version) (\<lambda>attempt.
     case attempt of
       Some (n, packet, v) \<Rightarrow> Ok ((packet, v), drop n buffer, chunk # socket)
     | None \<Rightarrow>
         (case chunk of
            Err e \<Rightarrow> Err (Io e)
          | Ok bs \<Rightarrow>
              if bs = [] then Err ConnectionClosed
              else read_packet v3 socket (buffer @ bs) m version))"


section \<open>From CONNECT to the session manager\<close>

definition server_disconnect_packet :: "reason_code \<Rightarrow> packet" where
  "server_disconnect_packet c =
     Disconnect \<lparr>disconnect_protocol_version = V5_0, disconnect_reason_code = c,
                 disconnect_session_expiry_interval = None,
                 disconnect_properties = default_properties\<rparr>"

text \<open>\<open>Uuid::new_v4().to_string()\<close> is the argument \<open>fresh\<close>; the packet is returned updated.\<close>

definition prepare_client_identifier ::
  "string \<Rightarrow> connect \<Rightarrow> (string option \<times> connect, connection_error) result" where
  "prepare_client_identifier fresh c =
     (if connect_protocol_version c \<noteq> V5_0 \<or> client_id c \<noteq> [] then Ok (None, c)
      else if \<not> clean_start c
      then Err (InvalidClientIdentifier
        ''an empty MQTT 5 client identifier requires Clean Start'')
      else Ok (Some fresh, c\<lparr>client_id := fresh\<rparr>))"

definition protocol_version_label :: "protocol_version \<Rightarrow> string" where
  "protocol_version_label v = (case v of V3_1_1 \<Rightarrow> ''3.1.1'' | V5_0 \<Rightarrow> ''5.0'')"

record session_start_options =
  option_clean_session :: bool
  option_clean_start :: bool
  option_protocol_version :: protocol_version
  option_session_expiry_interval :: "u32 option"
  option_receive_maximum :: u16

definition session_options_for_session_manager :: "connect \<Rightarrow> session_start_options" where
  "session_options_for_session_manager c =
     (case connect_protocol_version c of
        V3_1_1 \<Rightarrow>
          \<lparr>option_clean_session = clean_start c, option_clean_start = clean_start c,
           option_protocol_version = V3_1_1, option_session_expiry_interval = None,
           option_receive_maximum = - 1\<rparr>
      | V5_0 \<Rightarrow>
          let e = (case connect_session_expiry_interval c of
                     Some x \<Rightarrow> x
                   | None \<Rightarrow> (case session_expiry_interval (connect_properties c) of
                               Some x \<Rightarrow> x | None \<Rightarrow> 0)) in
          \<lparr>option_clean_session = (clean_start c \<and> e = 0), option_clean_start = clean_start c,
           option_protocol_version = V5_0, option_session_expiry_interval = Some e,
           option_receive_maximum =
             (case receive_maximum (connect_properties c) of Some x \<Rightarrow> x | None \<Rightarrow> - 1)\<rparr>)"

record will_message =
  message_topic :: string
  message_payload :: bytes
  message_qos :: u8
  message_retain :: bool
  message_protocol_version :: protocol_version
  message_properties :: properties

definition will_message_from_connect_will ::
  "protocol_version \<Rightarrow> will \<Rightarrow> (will_message, connection_error) result" where
  "will_message_from_connect_will v w =
     (if v = V5_0 \<and>
        (case will_delay_interval (will_properties w) of None \<Rightarrow> 0 | Some d \<Rightarrow> d) > 0
      then Err (UnsupportedMqtt5Feature ''will delay interval'')
      else Ok \<lparr>message_topic = will_topic w, message_payload = will_payload w,
               message_qos = will_qos w, message_retain = will_retain w,
               message_protocol_version = v,
               message_properties = (will_properties w)\<lparr>will_delay_interval := None\<rparr>\<rparr>)"


section \<open>Reading is independent of how the stream is cut\<close>


text \<open>A socket on which every read delivers something.\<close>

fun clean_socket :: "socket \<Rightarrow> bool" where
  "clean_socket [] \<longleftrightarrow> True"
| "clean_socket (Ok bs # s) \<longleftrightarrow> bs \<noteq> [] \<and> clean_socket s"
| "clean_socket (Err e # s) \<longleftrightarrow> False"




lemma try_parse_packet_v5 [simp]: "try_parse_packet v3 b m (Some V5_0) = try_parse_v5_packet b m"
  by (simp add: try_parse_packet_def)







section \<open>Frames that never finish\<close>

text \<open>
  A frame that has arrived completely but whose body asks for more bytes than the frame has: the
  body's \<open>Incomplete\<close> is passed on as if the frame were still arriving, whatever follows.
\<close>

lemma frame_stalls:
  assumes "parse_frame t u hc inc pb mk i m = Err (Incomplete s)"
    and "fixed_header_parse i m = Ok (j, h)" and "unat (remaining_length h) \<le> length j"
  shows "parse_frame t u hc inc pb mk (i @ k) m = Err (Incomplete s)"
  using assms fixed_header.dec_extend [OF assms(2), of k]
  by (auto simp: parse_frame_def Let_def and_then_eq_Err split: if_splits)

lemma v5_parse_stalls:
  assumes "v5_parse i m = Err (Incomplete s)"
    and "fixed_header_parse i m = Ok (j, h)" and "unat (remaining_length h) \<le> length j"
  shows "v5_parse (i @ k) m = Err (Incomplete s)"
proof -
  have "packet_parser t i m = Err (Incomplete s) \<Longrightarrow> packet_parser t (i @ k) m = Err (Incomplete s)" for t
    using assms(2,3) fixed_header.dec_extend [OF assms(2), of k]
    by (cases t; simp add: connect_parse_def connack_parse_def publish_parse_def puback_parse_def
        pubrec_parse_def pubrel_parse_def pubcomp_parse_def ack_parse_def subscribe_parse_def
        suback_parse_def unsubscribe_parse_def unsuback_parse_def disconnect_parse_def
        auth_parse_def frame_stalls [OF _ assms(2,3)])
      (simp_all add: pingreq_parse_def pingresp_parse_def ping_parse_def split: if_splits)
  with assms(1) show ?thesis
    using v5_parse_by_header [OF assms(2)] v5_parse_by_header [OF fixed_header.dec_extend [OF assms(2)]]
    by simp
qed

lemma read_packet_stalls:
  assumes "\<And>k. try_parse_packet v3 (buffer @ k) m version = Ok None" and "clean_socket s"
  shows "read_packet v3 s buffer m version = Err ConnectionClosed"
  using assms
proof (induction s arbitrary: buffer)
  case Nil
  from Nil.prems(1) [of "[]"] show ?case by simp
next
  case (Cons c s)
  from Cons.prems(2) obtain bs where c: "c = Ok bs" "bs \<noteq> []" "clean_socket s"
    by (cases c) auto
  from Cons.IH [of "buffer @ bs"] Cons.prems(1) Cons.prems(1) [of "[]"] c show ?case
    by simp
qed

section \<open>Properties\<close>

text \<open>A CONNECT used below as a concrete packet.\<close>

definition example_connect :: connect where
  "example_connect =
     \<lparr>connect_protocol_version = V5_0, client_id = ''c'', username = None, password = None,
      keep_alive = 10, clean_start = True, connect_session_expiry_interval = None,
      connect_will = None, connect_properties = default_properties\<rparr>"



text \<open>
  C32: a frame that is complete but whose body announces more data than the frame holds is never
  rejected: the connection waits for bytes until the peer closes, whatever the peer sends.
\<close>

theorem overlong_field_stalls_connection:
  assumes "v5_parse i m = Err (Incomplete e)" and "fixed_header_parse i m = Ok (j, h)"
    and "unat (remaining_length h) \<le> length j" and "clean_socket s"
  shows "read_packet v3 s i m (Some V5_0) = Err ConnectionClosed"
  using assms(4) v5_parse_stalls [OF assms(1-3)]
  by (intro read_packet_stalls) (simp_all add: try_parse_v5_packet_def)

theorem overlong_field_stalls_connection_witness:
  "read_packet (\<lambda>_ _. Ok None) [Ok [0xC0, 0], Ok [0xE0, 0]] [0x30, 2, 0, 5] 1024 (Some V5_0)
     = Err ConnectionClosed"
proof (rule overlong_field_stalls_connection)
  show "fixed_header_parse [0x30, 2, 0, 5] 1024 = Ok ([0, 5], make_fixed_header CPT_Publish 0 2)"
    by (simp add: fixed_header_parse_def control_packet_type_try_from_def validate_flags_def
        flags_valid_def parse_variable_byte_integer_small)
  then show "v5_parse [0x30, 2, 0, 5] 1024 = Err (Incomplete ''binary data'')"
    by (simp add: v5_parse_by_header make_fixed_header_def publish_parse_def parse_frame_def
        publish_parse_body_def parse_utf8_string_def parse_binary_def from_be16_def)
qed (simp_all add: make_fixed_header_def)

text \<open>
  When a CONNECT is accepted, the session has a nonempty client identifier, generated exactly
  when the client left it empty, which MQTT 5 allows only together with Clean Start; a client that
  sends no receive maximum gets the largest one, and one that was parsed is never zero.
\<close>

theorem accepted_connect_options:
  assumes "v5_parse i m = Ok (r, Connect c)" and "prepare_client_identifier fresh c = Ok (a, c')"
    and "fresh \<noteq> []"
  shows "client_id c' \<noteq> [] \<and> (a \<noteq> None \<longleftrightarrow> client_id c = []) \<and> (client_id c = [] \<longrightarrow> clean_start c) \<and>
    option_receive_maximum (session_options_for_session_manager c') \<noteq> 0 \<and>
    (option_clean_session (session_options_for_session_manager c') \<longleftrightarrow>
       clean_start c \<and> session_expiry_interval (connect_properties c) \<in> {None, Some 0})"
proof -
  from v5_parse_wire [OF assms(1)] have w: "connect_protocol_version c = V5_0"
    "receive_maximum (connect_properties c) \<noteq> Some 0"
    "connect_session_expiry_interval c = session_expiry_interval (connect_properties c)"
    by (auto simp: wire_connect_def valid_properties_def values_ok_def)
  with assms(2,3) show ?thesis
    by (auto simp: prepare_client_identifier_def session_options_for_session_manager_def Let_def
        split: if_splits option.splits)
qed

theorem accepted_connect_options_witness:
  "client_id example_connect \<noteq> []"
proof -
  let ?bs = "[0x10, 14, 0, 4, 77, 81, 84, 84, 5, 2, 0, 10, 0, 0, 1, 99]"
  have p: "v5_parse ?bs 1024 = Ok ([], Connect example_connect)"
    by (simp add: v5_parse_def fixed_header_parse_def control_packet_type_try_from_def
        validate_flags_def flags_valid_def parse_variable_byte_integer_small make_fixed_header_def
        connect_parse_def parse_frame_def connect_parse_body_def parse_utf8_string_def
        parse_binary_def from_be16_def from_utf8_def char_of_byte_def connect_flags_parse_def
        properties_parse_def properties_parse_loop.simps [of _ "[]"] reject_enhanced_auth_def
        parse_will_def parse_username_def parse_password_def example_connect_def char_of_eq_iff)
  have "prepare_client_identifier ''x'' example_connect = Ok (None, example_connect)"
    by (simp add: prepare_client_identifier_def example_connect_def)
  from accepted_connect_options [OF p this] show ?thesis by simp
qed

end
