(* ===== verification/Topic_Filter.thy ===== *)
theory Topic_Filter
  imports Broker_Prelude
begin

text \<open>
  Topic filters: the validity test of \<open>broker/src/topic/topic_storage.rs\<close> and the parser of
  shared subscriptions, \<open>broker/src/topic/shared_subscription.rs\<close>.
\<close>

section \<open>String operations of the standard library\<close>

text \<open>\<open>str::split\<close> with a one-character separator; \<open>str::strip_prefix\<close>; \<open>str::find\<close>.\<close>

fun split_on :: "char \<Rightarrow> string \<Rightarrow> string list" where
  "split_on c [] = [[]]"
| "split_on c (x # xs) =
     (if x = c then [] # split_on c xs
      else (case split_on c xs of [] \<Rightarrow> [[x]] | w # ws \<Rightarrow> (x # w) # ws))"

definition strip_prefix :: "string \<Rightarrow> string \<Rightarrow> string option" where
  "strip_prefix p s = (if take (length p) s = p then Some (drop (length p) s) else None)"

fun find_char :: "char \<Rightarrow> string \<Rightarrow> nat option" where
  "find_char c [] = None"
| "find_char c (x # xs) = (if x = c then Some 0 else map_option Suc (find_char c xs))"

section \<open>Validity of a topic filter\<close>

text \<open>The levels still to visit, after \<open>index\<close> of \<open>len\<close> levels.\<close>

fun test_topic_levels :: "nat \<Rightarrow> nat \<Rightarrow> string list \<Rightarrow> bool" where
  "test_topic_levels index len [] = True"
| "test_topic_levels index len (s # rest) =
     (let index = index + 1 in
      if length s > 1 then
        (if CHR ''#'' \<in> set s \<or> CHR ''+'' \<in> set s then False
         else test_topic_levels index len rest)
      else if CHR ''#'' \<in> set s \<and> index \<noteq> len then False
      else test_topic_levels index len rest)"

definition test_topic :: "string \<Rightarrow> bool" where
  "test_topic topic =
     (let i = split_on (CHR ''/'') topic in test_topic_levels 0 (length i) i)"

section \<open>Shared subscriptions\<close>

record shared_subscription_filter =
  share_name :: string
  shared_topic_filter :: string

datatype shared_subscription_filter_error =
    EmptyShareName
  | EmptyTopicFilter
  | InvalidShareName
  | InvalidSharedTopicFilter string

fun display_shared_error :: "shared_subscription_filter_error \<Rightarrow> string" where
  "display_shared_error EmptyShareName = ''shared subscription share name is empty''"
| "display_shared_error EmptyTopicFilter = ''shared subscription topic filter is empty''"
| "display_shared_error InvalidShareName =
     ''shared subscription share name contains invalid wildcard or separator''"
| "display_shared_error (InvalidSharedTopicFilter f) =
     ''shared subscription topic filter is invalid: '' @ f"

definition is_valid_share_name :: "string \<Rightarrow> bool" where
  "is_valid_share_name name =
     (if name = [] then False
      else CHR ''/'' \<notin> set name \<and> CHR ''+'' \<notin> set name \<and> CHR ''#'' \<notin> set name)"

definition parse_shared_subscription_filter ::
  "string \<Rightarrow> (shared_subscription_filter option, shared_subscription_filter_error) result" where
  "parse_shared_subscription_filter raw =
     (case strip_prefix ''$share/'' raw of
        None \<Rightarrow> Ok None
      | Some rest \<Rightarrow>
          (case find_char (CHR ''/'') rest of
             None \<Rightarrow> Err EmptyTopicFilter
           | Some slash_pos \<Rightarrow>
               let name = take slash_pos rest;
                   filter = drop (slash_pos + 1) rest in
               if \<not> is_valid_share_name name then
                 (if name = [] then Err EmptyShareName else Err InvalidShareName)
               else if filter = [] then Err EmptyTopicFilter
               else if \<not> test_topic filter then Err (InvalidSharedTopicFilter filter)
               else Ok (Some \<lparr>share_name = name, shared_topic_filter = filter\<rparr>)))"

section \<open>Levels\<close>

fun join_on :: "char \<Rightarrow> string list \<Rightarrow> string" where
  "join_on c [] = []"
| "join_on c [w] = w"
| "join_on c (w # ws) = w @ c # join_on c ws"

lemma split_on_nonempty [simp]: "split_on c s \<noteq> []"
  by (induction s) (auto split: list.splits)

lemma join_split [simp]: "join_on c (split_on c s) = s"
proof (induction s)
  case (Cons x xs)
  obtain w ws where w: "split_on c xs = w # ws"
    using split_on_nonempty by (meson neq_Nil_conv)
  with Cons show ?case
    by (cases ws) auto
qed simp

lemma split_on_inj: "split_on c s = split_on c t \<longleftrightarrow> s = t"
  by (metis join_split)

lemma split_no_sep: "w \<in> set (split_on c s) \<Longrightarrow> c \<notin> set w"
proof (induction s arbitrary: w)
  case (Cons x xs)
  then show ?case
    by (cases "split_on c xs") (auto split: if_splits)
qed simp

lemma split_on_word: "c \<notin> set s \<Longrightarrow> split_on c s = [s]"
  by (induction s) auto

lemma split_on_append: "c \<notin> set w \<Longrightarrow> split_on c (w @ c # s) = w # split_on c s"
  by (induction w) auto

lemma split_join:
  "ws \<noteq> [] \<Longrightarrow> (\<forall>w\<in>set ws. c \<notin> set w) \<Longrightarrow> split_on c (join_on c ws) = ws"
  by (induction c ws rule: join_on.induct) (auto simp: split_on_word split_on_append)

lemma find_char_Some: "find_char c s = Some i \<longleftrightarrow> (i < length s \<and> s ! i = c \<and> c \<notin> set (take i s))"
proof (induction s arbitrary: i)
  case (Cons x xs)
  then show ?case
    by (cases i) auto
qed simp

lemma find_char_None: "find_char c s = None \<longleftrightarrow> c \<notin> set s"
  by (induction s) auto

lemma find_char_append: "c \<notin> set w \<Longrightarrow> find_char c (w @ c # s) = Some (length w)"
  by (induction w) auto

lemma strip_prefix_Some: "strip_prefix p s = Some r \<longleftrightarrow> s = p @ r"
  by (auto simp: strip_prefix_def) (metis append_take_drop_id)

section \<open>What the tests decide\<close>

text \<open>
  The rule of the protocol: a wildcard stands for a whole level, and the multi-level wildcard only
  in the last one.
\<close>

definition plain_level :: "string \<Rightarrow> bool" where
  "plain_level s \<longleftrightarrow> CHR ''#'' \<notin> set s \<and> CHR ''+'' \<notin> set s"

fun filter_levels_ok :: "string list \<Rightarrow> bool" where
  "filter_levels_ok [] = True"
| "filter_levels_ok (s # rest) =
     ((plain_level s \<or> s = ''+'' \<or> s = ''#'' \<and> rest = []) \<and> filter_levels_ok rest)"

lemma short_level:
  "length s \<le> 1 \<Longrightarrow> CHR ''#'' \<in> set s \<longleftrightarrow> s = ''#''"
  "length s \<le> 1 \<Longrightarrow> plain_level s \<or> s = ''+'' \<or> s = ''#''"
  by (cases s; auto simp: plain_level_def)+

lemma test_topic_levels_ok:
  "len = index + length ls \<Longrightarrow> test_topic_levels index len ls = filter_levels_ok ls"
proof (induction ls arbitrary: index)
  case (Cons s rest)
  have r: "test_topic_levels (Suc index) len rest = filter_levels_ok rest"
    using Cons by simp
  show ?case
  proof (cases "length s > 1")
    case True
    then have "s \<noteq> ''+'' \<and> s \<noteq> ''#''" by auto
    with True r show ?thesis by (auto simp: plain_level_def)
  next
    case False
    then show ?thesis
      using short_level [of s] Cons.prems r by (auto simp: plain_level_def Let_def)
  qed
qed simp

lemma test_topic_iff: "test_topic s \<longleftrightarrow> filter_levels_ok (split_on (CHR ''/'') s)"
  by (simp add: test_topic_def test_topic_levels_ok)

lemma shared_filter_iff:
  "parse_shared_subscription_filter raw = Ok (Some f) \<longleftrightarrow>
     raw = ''$share/'' @ share_name f @ ''/'' @ shared_topic_filter f \<and>
     is_valid_share_name (share_name f) \<and> shared_topic_filter f \<noteq> [] \<and>
     test_topic (shared_topic_filter f)"
  (is "?l \<longleftrightarrow> ?r")
proof
  assume ?l
  then obtain rest i where r: "raw = ''$share/'' @ rest" and i: "find_char (CHR ''/'') rest = Some i"
    and f: "share_name f = take i rest" "shared_topic_filter f = drop (Suc i) rest"
      "is_valid_share_name (take i rest)" "drop (Suc i) rest \<noteq> []" "test_topic (drop (Suc i) rest)"
    by (auto simp: parse_shared_subscription_filter_def strip_prefix_Some Let_def
        split: option.splits if_splits)
  from i have "i < length rest" and "rest ! i = CHR ''/''"
    by (simp_all add: find_char_Some)
  then have "rest = take i rest @ CHR ''/'' # drop (Suc i) rest"
    using id_take_nth_drop [of i rest] by simp
  with r f show ?r by simp
next
  assume ?r
  moreover from this have "CHR ''/'' \<notin> set (share_name f)"
    by (simp add: is_valid_share_name_def split: if_splits)
  ultimately show ?l
    by (simp add: parse_shared_subscription_filter_def strip_prefix_def find_char_append)
qed

section \<open>Properties\<close>

text \<open>
  The validity test accepts a filter exactly when every level is free of wildcards, is the
  single-level wildcard, or is the multi-level wildcard in last position.
\<close>

theorem test_topic_spec:
  "test_topic s \<longleftrightarrow>
     (\<forall>i < length (split_on (CHR ''/'') s).
        let l = split_on (CHR ''/'') s ! i in
        CHR ''#'' \<notin> set l \<and> CHR ''+'' \<notin> set l \<or> l = ''+'' \<or>
        l = ''#'' \<and> Suc i = length (split_on (CHR ''/'') s))"
proof -
  have "filter_levels_ok ls \<longleftrightarrow> (\<forall>i < length ls. plain_level (ls ! i) \<or> ls ! i = ''+'' \<or>
      ls ! i = ''#'' \<and> Suc i = length ls)" for ls
    by (induction ls) (auto simp: nth_Cons split: nat.splits)
  then show ?thesis
    by (simp add: test_topic_iff plain_level_def Let_def)
qed

theorem test_topic_spec_witness: "test_topic ''a/+/#'' \<and> \<not> test_topic ''a/#/b''"
  by (simp add: test_topic_spec less_Suc_eq numeral_eq_Suc Let_def)

text \<open>
  A raw filter is taken as a shared subscription exactly when it is
  \<open>$share/\<close>, a nonempty share name without separator or wildcard, \<open>/\<close>, and a nonempty valid
  filter; the parts returned put the raw filter together again.
\<close>

theorem shared_filter_spec:
  "parse_shared_subscription_filter raw = Ok (Some f) \<longleftrightarrow>
     raw = ''$share/'' @ share_name f @ ''/'' @ shared_topic_filter f \<and>
     is_valid_share_name (share_name f) \<and> shared_topic_filter f \<noteq> [] \<and>
     test_topic (shared_topic_filter f)"
  by (rule shared_filter_iff)

end
