(* ===== verification/Message_Expiry.thy ===== *)
theory Message_Expiry
  imports Mqtt_Packet
begin

text \<open>
  Expiry of published messages, \<open>broker/src/mqtt_message_expiry.rs\<close>. The clock, read by
  \<open>now_unix_secs\<close>, is the argument \<open>now\<close> of every function here and in the components above.
\<close>

section \<open>Operations\<close>

definition stamp_publish_expiry :: "publish \<Rightarrow> u64 \<Rightarrow> publish" where
  "stamp_publish_expiry p now =
     (if expires_at_unix_secs p = None then
        (case message_expiry_interval (publish_properties p) of
           Some interval \<Rightarrow>
             p\<lparr>expires_at_unix_secs := Some (saturating_add now (ucast interval))\<rparr>
         | None \<Rightarrow> p)
      else p)"

definition is_publish_expired :: "publish \<Rightarrow> u64 \<Rightarrow> bool" where
  "is_publish_expired p now =
     (case expires_at_unix_secs p of Some expires_at \<Rightarrow> expires_at \<le> now | None \<Rightarrow> False)"

definition is_packet_expired :: "packet \<Rightarrow> u64 \<Rightarrow> bool" where
  "is_packet_expired packet now =
     (case packet of Publish p \<Rightarrow> is_publish_expired p now | _ \<Rightarrow> False)"

text \<open>The publish is returned updated, with whether it may still be delivered.\<close>

definition prepare_publish_for_delivery ::
  "publish \<Rightarrow> protocol_version \<Rightarrow> u64 \<Rightarrow> bool \<times> publish" where
  "prepare_publish_for_delivery p version now =
     (case expires_at_unix_secs p of
        None \<Rightarrow> (True, p)
      | Some expires_at \<Rightarrow>
          if expires_at \<le> now then (False, p)
          else if version = V5_0 then
            (True, p\<lparr>publish_properties := (publish_properties p)\<lparr>message_expiry_interval :=
               Some (ucast (min (saturating_sub expires_at now) 0xFFFFFFFF))\<rparr>\<rparr>)
          else (True, p))"

definition prepare_packet_for_delivery ::
  "packet \<Rightarrow> protocol_version \<Rightarrow> u64 \<Rightarrow> bool \<times> packet" where
  "prepare_packet_for_delivery packet version now =
     (case packet of
        Publish p \<Rightarrow>
          (case prepare_publish_for_delivery p version now of (deliver, p') \<Rightarrow> (deliver, Publish p'))
      | _ \<Rightarrow> (True, packet))"

definition route_expiry_at :: "packet \<Rightarrow> u64 \<Rightarrow> u64 \<Rightarrow> u64" where
  "route_expiry_at packet route_ttl_seconds now =
     (let route_expiry = saturating_add now route_ttl_seconds in
      case packet of
        Publish p \<Rightarrow>
          (case expires_at_unix_secs p of
             Some expires_at \<Rightarrow> min expires_at route_expiry
           | None \<Rightarrow> route_expiry)
      | _ \<Rightarrow> route_expiry)"

section \<open>Deadlines\<close>

lemma unat_interval: "unat (ucast (i :: u32) :: u64) = unat i"
proof -
  have "unat i < 2 ^ 32"
    using unsigned_less [of i] by simp
  then show ?thesis
    by (simp add: unsigned_ucast_eq take_bit_nat_eq_self)
qed

lemma stamp_idem: "stamp_publish_expiry (stamp_publish_expiry p now) now' = stamp_publish_expiry p now"
  if "message_expiry_interval (publish_properties p) \<noteq> None \<or> expires_at_unix_secs p \<noteq> None"
  using that by (auto simp: stamp_publish_expiry_def split: option.splits)

lemma prepare_expired:
  "fst (prepare_publish_for_delivery p v now) \<longleftrightarrow> \<not> is_publish_expired p now"
  by (auto simp: prepare_publish_for_delivery_def is_publish_expired_def split: option.splits)

lemma prepare_keeps:
  assumes "prepare_publish_for_delivery p v now = (d, q)"
  shows "topic_name q = topic_name p" and "payload q = payload p" and "publish_qos q = publish_qos p"
    and "retain q = retain p" and "dup q = dup p"
    and "publish_packet_identifier q = publish_packet_identifier p"
    and "expires_at_unix_secs q = expires_at_unix_secs p"
  using assms by (auto simp: prepare_publish_for_delivery_def split: option.splits if_splits)

lemma remaining_interval:
  assumes "now < (e :: u64)" and "unat e - unat now < 2 ^ 32"
  shows "unat (ucast (min (saturating_sub e now) 0xFFFFFFFF) :: u32) = unat e - unat now"
proof -
  have "unat (saturating_sub e now) = unat e - unat now"
    by (rule unat_saturating_sub)
  then have "saturating_sub e now \<le> 0xFFFFFFFF"
    using assms(2) by (simp add: word_le_nat_alt)
  then have "min (saturating_sub e now) 0xFFFFFFFF = saturating_sub e now"
    by (rule min_absorb1)
  then show ?thesis
    using assms(2) by (simp add: unat_saturating_sub unsigned_ucast_eq take_bit_nat_eq_self)
qed

section \<open>Properties\<close>

text \<open>
  A publish that carries an expiry interval and is stamped on arrival is delivered at a later
  time exactly while fewer seconds than the interval have passed, and an MQTT 5 receiver is told
  the interval minus the time it waited, which is never zero.
\<close>

theorem message_expiry_countdown:
  assumes "expires_at_unix_secs p = None"
    and "message_expiry_interval (publish_properties p) = Some i"
    and "t0 \<le> now" and "unat t0 + unat i < 2 ^ 64"
  defines "d \<equiv> prepare_publish_for_delivery (stamp_publish_expiry p t0) V5_0 now"
  shows "(fst d \<longleftrightarrow> unat now - unat t0 < unat i) \<and>
    (fst d \<longrightarrow> (\<exists>r. message_expiry_interval (publish_properties (snd d)) = Some r \<and>
       unat r = unat i - (unat now - unat t0) \<and> r \<noteq> 0))"
proof -
  let ?e = "saturating_add t0 (ucast i)"
  have e: "unat ?e = unat t0 + unat i"
    using assms(4) by (simp add: unat_saturating_add unat_interval)
  have s: "expires_at_unix_secs (stamp_publish_expiry p t0) = Some ?e"
    using assms(1,2) by (simp add: stamp_publish_expiry_def)
  have c: "now < ?e \<longleftrightarrow> unat now - unat t0 < unat i"
    using assms(3) by (simp add: word_less_nat_alt word_le_nat_alt e) linarith
  have "unat i < 2 ^ 32"
    using unsigned_less [of i] by simp
  then have "unat ?e - unat now < 2 ^ 32"
    using assms(3) by (simp add: word_le_nat_alt e)
  with remaining_interval [of now ?e] c assms(3) show ?thesis
    by (auto simp: d_def prepare_publish_for_delivery_def s e word_le_nat_alt not_le
        unat_eq_0 [symmetric])
qed

definition example_expiring_publish :: publish where
  "example_expiring_publish =
     \<lparr>publish_protocol_version = V5_0, topic_name = ''t'', payload = [1], publish_qos = 0,
      retain = False, dup = False, publish_packet_identifier = None,
      publish_properties = default_properties\<lparr>message_expiry_interval := Some 10\<rparr>,
      expires_at_unix_secs = None\<rparr>"

theorem message_expiry_countdown_witness:
  "fst (prepare_publish_for_delivery (stamp_publish_expiry example_expiring_publish 100) V5_0 107)"
  using message_expiry_countdown [of example_expiring_publish 10 100 107]
  by (simp add: example_expiring_publish_def)

end
