(* ===== verification/Hash_Map.thy ===== *)
theory Hash_Map
  imports Broker_Prelude "HOL-Library.AList" "HOL-Library.Multiset"
begin

text \<open>
  Rust's \<open>HashMap\<close> as an association list with distinct keys. The order of iteration, which the
  standard library leaves open, is the order of the list; the properties of the development only
  speak of lookups and of sets or multisets of entries, which do not depend on it. The locale
  \<open>keyed_map\<close> is the contract the components use.
\<close>

section \<open>Operations\<close>

type_synonym ('k, 'v) hash_map = "('k \<times> 'v) list"

abbreviation hm_get :: "('k, 'v) hash_map \<Rightarrow> 'k \<Rightarrow> 'v option" where
  "hm_get \<equiv> map_of"

definition hm_insert :: "'k \<Rightarrow> 'v \<Rightarrow> ('k, 'v) hash_map \<Rightarrow> ('k, 'v) hash_map" where
  "hm_insert = AList.update"

definition hm_remove :: "'k \<Rightarrow> ('k, 'v) hash_map \<Rightarrow> ('k, 'v) hash_map" where
  "hm_remove = AList.delete"

text \<open>\<open>entry(k).or_insert(v)\<close>.\<close>

definition hm_or_insert :: "'k \<Rightarrow> 'v \<Rightarrow> ('k, 'v) hash_map \<Rightarrow> ('k, 'v) hash_map" where
  "hm_or_insert k v m = (if hm_get m k = None then hm_insert k v m else m)"

text \<open>An update through \<open>get_mut(k)\<close>.\<close>

definition hm_modify :: "'k \<Rightarrow> ('v \<Rightarrow> 'v) \<Rightarrow> ('k, 'v) hash_map \<Rightarrow> ('k, 'v) hash_map" where
  "hm_modify k f m = (case hm_get m k of None \<Rightarrow> m | Some v \<Rightarrow> hm_insert k (f v) m)"

text \<open>\<open>collect\<close> inserts the pairs one after the other.\<close>

definition hm_collect :: "('k \<times> 'v) list \<Rightarrow> ('k, 'v) hash_map" where
  "hm_collect es = foldl (\<lambda>m (k, v). hm_insert k v m) [] es"

definition hm_ok :: "('k, 'v) hash_map \<Rightarrow> bool" where
  "hm_ok m \<longleftrightarrow> distinct (map fst m)"

section \<open>The contract of a map\<close>

locale keyed_map =
  fixes get :: "'m \<Rightarrow> 'k \<Rightarrow> 'v option"
    and put :: "'k \<Rightarrow> 'v \<Rightarrow> 'm \<Rightarrow> 'm"
    and del :: "'k \<Rightarrow> 'm \<Rightarrow> 'm"
    and entries :: "'m \<Rightarrow> ('k \<times> 'v) multiset"
    and ok :: "'m \<Rightarrow> bool"
  assumes get_put: "get (put k v m) k' = (if k' = k then Some v else get m k')"
    and get_del: "ok m \<Longrightarrow> get (del k m) k' = (if k' = k then None else get m k')"
    and ok_put: "ok m \<Longrightarrow> ok (put k v m)"
    and ok_del: "ok m \<Longrightarrow> ok (del k m)"
    and entries_get: "ok m \<Longrightarrow> (k, v) \<in># entries m \<longleftrightarrow> get m k = Some v"
    and entries_put: "ok m \<Longrightarrow> entries (put k v m) = add_mset (k, v) (entries (del k m))"
    and entries_del: "ok m \<Longrightarrow> get m k = Some v \<Longrightarrow> entries m = add_mset (k, v) (entries (del k m))"
    and del_absent: "get m k = None \<Longrightarrow> del k m = m"
begin

lemma entries_put_fresh:
  "ok m \<Longrightarrow> get m k = None \<Longrightarrow> entries (put k v m) = add_mset (k, v) (entries m)"
  by (simp add: entries_put del_absent)

lemma entries_put_over:
  "ok m \<Longrightarrow> get m k = Some v' \<Longrightarrow>
   add_mset (k, v') (entries (put k v m)) = add_mset (k, v) (entries m)"
  by (simp add: entries_put entries_del)

text \<open>What a client counts over the entries changes by the entry touched only.\<close>

lemma sum_put_fresh:
  fixes f :: "'k \<times> 'v \<Rightarrow> 'a multiset"
  assumes "ok m" and "get m k = None"
  shows "(\<Sum>e\<in>#entries (put k v m). f e) = f (k, v) + (\<Sum>e\<in>#entries m. f e)"
  using assms by (simp add: entries_put_fresh)

lemma sum_put_over:
  fixes f :: "'k \<times> 'v \<Rightarrow> 'a multiset"
  assumes "ok m" and "get m k = Some v'"
  shows "f (k, v') + (\<Sum>e\<in>#entries (put k v m). f e) = f (k, v) + (\<Sum>e\<in>#entries m. f e)"
proof -
  have "(\<Sum>e\<in>#add_mset (k, v') (entries (put k v m)). f e) = (\<Sum>e\<in>#add_mset (k, v) (entries m). f e)"
    by (simp only: entries_put_over [OF assms])
  then show ?thesis by simp
qed

lemma sum_del:
  fixes f :: "'k \<times> 'v \<Rightarrow> 'a multiset"
  assumes "ok m" and "get m k = Some v"
  shows "(\<Sum>e\<in>#entries m. f e) = f (k, v) + (\<Sum>e\<in>#entries (del k m). f e)"
  by (simp add: entries_del [OF assms])

end

lemma mset_delete_present:
  "distinct (map fst m) \<Longrightarrow> map_of m k = Some v \<Longrightarrow> mset m = add_mset (k, v) (mset (AList.delete k m))"
proof (induction m)
  case (Cons e m)
  then show ?case
    by (cases e) (auto simp: delete_idem split: if_splits)
qed simp

lemma mset_update:
  "distinct (map fst m) \<Longrightarrow> mset (AList.update k v m) = add_mset (k, v) (mset (AList.delete k m))"
proof (induction m)
  case (Cons e m)
  then show ?case
    by (cases e) (auto simp: delete_idem)
qed simp

lemma delete_absent: "map_of m k = None \<Longrightarrow> AList.delete k m = m"
  by (simp add: delete_idem map_of_eq_None_iff)

interpretation hm: keyed_map map_of hm_insert hm_remove mset hm_ok
proof unfold_locales
  fix m :: "('a \<times> 'b) list" and k k' v
  show "map_of (hm_insert k v m) k' = (if k' = k then Some v else map_of m k')"
    by (simp add: hm_insert_def update_conv)
  show "map_of (hm_remove k m) k' = (if k' = k then None else map_of m k')"
    by (simp add: hm_remove_def delete_conv)
  show "hm_ok m \<Longrightarrow> hm_ok (hm_insert k v m)"
    by (simp add: hm_ok_def hm_insert_def distinct_update)
  show "hm_ok m \<Longrightarrow> hm_ok (hm_remove k m)"
    by (simp add: hm_ok_def hm_remove_def distinct_delete)
  show "hm_ok m \<Longrightarrow> (k, v) \<in># mset m \<longleftrightarrow> map_of m k = Some v"
    by (simp add: hm_ok_def)
  show "hm_ok m \<Longrightarrow> mset (hm_insert k v m) = add_mset (k, v) (mset (hm_remove k m))"
    by (simp add: hm_ok_def hm_insert_def hm_remove_def mset_update)
  show "hm_ok m \<Longrightarrow> map_of m k = Some v \<Longrightarrow> mset m = add_mset (k, v) (mset (hm_remove k m))"
    by (simp add: hm_ok_def hm_remove_def mset_delete_present)
  show "map_of m k = None \<Longrightarrow> hm_remove k m = m"
    by (simp add: hm_remove_def delete_absent)
qed

section \<open>Rules for the components\<close>

lemma hm_ok_empty [simp]: "hm_ok []"
  by (simp add: hm_ok_def)

lemma hm_get_insert [simp]: "map_of (hm_insert k v m) k' = (if k' = k then Some v else map_of m k')"
  by (rule hm.get_put)

lemma hm_get_remove [simp]: "map_of (hm_remove k m) k' = (if k' = k then None else map_of m k')"
  by (simp add: hm_remove_def delete_conv)

lemma hm_get_or_insert [simp]:
  "map_of (hm_or_insert k v m) k' =
     (if k' = k then Some (case map_of m k of None \<Rightarrow> v | Some v' \<Rightarrow> v') else map_of m k')"
  by (auto simp: hm_or_insert_def split: option.splits)

lemma hm_get_modify [simp]:
  "map_of (hm_modify k f m) k' = (if k' = k then map_option f (map_of m k) else map_of m k')"
  by (auto simp: hm_modify_def split: option.splits)

lemma hm_ok_ops [simp, intro]:
  "hm_ok m \<Longrightarrow> hm_ok (hm_insert k v m)"
  "hm_ok m \<Longrightarrow> hm_ok (hm_remove k m)"
  "hm_ok m \<Longrightarrow> hm_ok (hm_or_insert k v m)"
  "hm_ok m \<Longrightarrow> hm_ok (hm_modify k f m)"
  by (auto simp: hm_or_insert_def hm_modify_def hm.ok_put hm.ok_del split: option.splits)

lemma hm_insert_present: "hm_ok m \<Longrightarrow> map_of m k = Some v \<Longrightarrow> hm_insert k v m = m"
  by (simp add: hm_insert_def hm_ok_def update_triv)

lemma hm_insert_nil [simp]: "hm_insert k v [] = [(k, v)]"
  by (simp add: hm_insert_def)

lemma hm_insert_cons [simp]:
  "hm_insert k v ((k', v') # m) = (if k' = k then (k, v) # m else (k', v') # hm_insert k v m)"
  by (simp add: hm_insert_def)

lemma hm_remove_nil [simp]: "hm_remove k [] = []"
  by (simp add: hm_remove_def)

lemma hm_remove_cons [simp]:
  "hm_remove k ((k', v') # m) = (if k' = k then hm_remove k m else (k', v') # hm_remove k m)"
  by (simp add: hm_remove_def)

lemma hm_mem_get: "hm_ok m \<Longrightarrow> (k, v) \<in> set m \<longleftrightarrow> map_of m k = Some v"
  by (simp add: hm_ok_def)

lemma hm_set_insert:
  "hm_ok m \<Longrightarrow> set (hm_insert k v m) = insert (k, v) {e \<in> set m. fst e \<noteq> k}"
  by (auto simp: hm_mem_get split: if_splits)

lemma hm_set_remove: "hm_ok m \<Longrightarrow> set (hm_remove k m) = {e \<in> set m. fst e \<noteq> k}"
  by (auto simp: hm_mem_get split: if_splits)

lemma hm_insert_fresh: "map_of m k = None \<Longrightarrow> hm_insert k v m = m @ [(k, v)]"
  by (induction m) (auto split: if_splits)

lemma hm_collect_append:
  "distinct (map fst (m @ es)) \<Longrightarrow> foldl (\<lambda>m (k, v). hm_insert k v m) m es = m @ es"
proof (induction es arbitrary: m)
  case (Cons e es)
  obtain k v where e: "e = (k, v)" by (cases e)
  from Cons.prems have "map_of m k = None"
    by (auto simp: e map_of_eq_None_iff)
  with Cons.IH [of "m @ [(k, v)]"] Cons.prems show ?case
    by (simp add: e hm_insert_fresh)
qed simp

lemma hm_collect_id: "hm_ok es \<Longrightarrow> hm_collect es = es"
  using hm_collect_append [of "[]" es] by (simp add: hm_collect_def hm_ok_def)

section \<open>Mapping the values\<close>

definition hm_map :: "('v \<Rightarrow> 'w) \<Rightarrow> ('k, 'v) hash_map \<Rightarrow> ('k, 'w) hash_map" where
  "hm_map f m = map (\<lambda>(k, v). (k, f v)) m"

lemma hm_map_simps [simp]:
  "hm_map f [] = []"
  "hm_get (hm_map f m) k = map_option f (hm_get m k)"
  "hm_map f (hm_insert k v m) = hm_insert k (f v) (hm_map f m)"
  "hm_map f (hm_remove k m) = hm_remove k (hm_map f m)"
  by (induction m) (auto simp: hm_map_def)

lemma hm_map_or_insert [simp]: "hm_map f (hm_or_insert k v m) = hm_or_insert k (f v) (hm_map f m)"
  by (simp add: hm_or_insert_def split: option.split)

lemma hm_map_modify:
  "(\<And>v. f (g v) = h (f v)) \<Longrightarrow> hm_map f (hm_modify k g m) = hm_modify k h (hm_map f m)"
  by (simp add: hm_modify_def split: option.split)

lemma map_filter_map_pairs:
  "List.map_filter p (map (\<lambda>(k, v). (k, f v)) m) = List.map_filter (\<lambda>(k, v). p (k, f v)) m"
  by (induction m) (auto simp: map_filter_simps split: option.split)

lemma filter_map_pairs:
  "filter p (map (\<lambda>(k, v). (k, f v)) m) = map (\<lambda>(k, v). (k, f v)) (filter (\<lambda>(k, v). p (k, f v)) m)"
  by (induction m) auto

end
