(* ===== verification/Topic_Storage.thy ===== *)
theory Topic_Storage
  imports Topic_Filter Message_Expiry Hash_Map
begin

text \<open>
  The subscription and retained-message store, \<open>broker/src/topic/topic_storage.rs\<close>: per tenant a
  tree with one node per topic level, and two indexes for the management interface. The nodes,
  shared in the source behind locks, are values here: every operation returns the new store. The
  Base64 codec of the \<open>base64\<close> crate is the pair of arguments \<open>b64\<close> and \<open>unb64\<close>, the JSON
  codec of \<open>serde_json\<close> an argument of the snapshot functions.
\<close>

section \<open>Errors and keys\<close>

datatype topic_storage_error =
    TopicNotFound string
  | TenantNotFound string
  | InvalidTopicFilter string
  | InternalError string

definition generate_key :: "(string \<Rightarrow> string) \<Rightarrow> string \<Rightarrow> string \<Rightarrow> string" where
  "generate_key b64 client topic = b64 client @ '':'' @ b64 topic"

text \<open>
  The loop keeps the first two parts of the key, and the empty string for a missing one. A failed
  decoding, which panics, is \<open>None\<close>.
\<close>

fun extract_parts :: "nat \<Rightarrow> string \<times> string \<Rightarrow> string list \<Rightarrow> string \<times> string" where
  "extract_parts index parts [] = parts"
| "extract_parts index (c, t) (s # rest) =
     (let index = index + 1 in
      extract_parts index
        (if index = 1 then (s, t) else if index = 2 then (c, s) else (c, t)) rest)"

definition extract_info_from_key ::
  "(string \<Rightarrow> string option) \<Rightarrow> string \<Rightarrow> (string \<times> string) option" where
  "extract_info_from_key unb64 key =
     (let (c, t) = extract_parts 0 ([], []) (split_on (CHR '':'') key) in
      case unb64 c of
        None \<Rightarrow> None
      | Some c' \<Rightarrow>
          if \<not> valid_str c' then None
          else
            (case unb64 t of
               None \<Rightarrow> None
             | Some t' \<Rightarrow> if \<not> valid_str t' then None else Some (c', t')))"

definition normal_subscription_key :: "(string \<Rightarrow> string) \<Rightarrow> string \<Rightarrow> string" where
  "normal_subscription_key b64 client = ''$normal:'' @ b64 client"

definition legacy_normal_subscription_key :: "string \<Rightarrow> string" where
  "legacy_normal_subscription_key client = client"

definition shared_subscription_key :: "(string \<Rightarrow> string) \<Rightarrow> string \<Rightarrow> string \<Rightarrow> string" where
  "shared_subscription_key b64 client name =
     ''$shared:'' @ b64 client @ '':'' @ b64 name"

section \<open>Subscriptions and nodes\<close>

record subscription =
  client_identifier :: string
  sub_qos :: u8
  sub_no_local :: bool
  sub_retain_as_published :: bool
  shared_group :: "string option"
  sub_topic_filter :: string

definition is_shared :: "subscription \<Rightarrow> bool" where
  "is_shared s \<longleftrightarrow> shared_group s \<noteq> None"

definition node_key :: "(string \<Rightarrow> string) \<Rightarrow> subscription \<Rightarrow> string" where
  "node_key b64 s =
     (case shared_group s of
        Some share \<Rightarrow> shared_subscription_key b64 (client_identifier s) share
      | None \<Rightarrow> normal_subscription_key b64 (client_identifier s))"

datatype topic_storage_node =
  TopicStorageNode
    (topic_parttern: string)
    (subscriptions: "(string, subscription) hash_map")
    (retain_publish_packet: "packet option")
    (leaves: "(string \<times> topic_storage_node) list")

definition node_new :: "string \<Rightarrow> topic_storage_node" where
  "node_new topic_pattern = TopicStorageNode topic_pattern [] None []"

definition add_subscription ::
  "(string \<Rightarrow> string) \<Rightarrow> subscription \<Rightarrow> topic_storage_node \<Rightarrow> topic_storage_node" where
  "add_subscription b64 s node =
     TopicStorageNode (topic_parttern node) (hm_insert (node_key b64 s) s (subscriptions node))
       (retain_publish_packet node) (leaves node)"

definition node_get_subscriptions :: "topic_storage_node \<Rightarrow> subscription list" where
  "node_get_subscriptions node = map snd (subscriptions node)"

definition set_retain_publish_message :: "packet \<Rightarrow> topic_storage_node \<Rightarrow> topic_storage_node" where
  "set_retain_publish_message packet node =
     TopicStorageNode (topic_parttern node) (subscriptions node) (Some packet) (leaves node)"

definition clean_retain_publish_message :: "topic_storage_node \<Rightarrow> topic_storage_node" where
  "clean_retain_publish_message node =
     TopicStorageNode (topic_parttern node) (subscriptions node) None (leaves node)"

fun remove_subscription_keys ::
  "string list \<Rightarrow> string \<Rightarrow> string option \<Rightarrow> (string, subscription) hash_map \<Rightarrow>
   (string, subscription) hash_map" where
  "remove_subscription_keys [] client share subs = subs"
| "remove_subscription_keys (key # keys) client share subs =
     (let should_remove = (case hm_get subs key of
          Some s \<Rightarrow> client_identifier s = client \<and> shared_group s = share | None \<Rightarrow> False) in
      remove_subscription_keys keys client share
        (if should_remove then hm_remove key subs else subs))"

definition remove_subscriptions ::
  "string list \<Rightarrow> string \<Rightarrow> string option \<Rightarrow> topic_storage_node \<Rightarrow> topic_storage_node" where
  "remove_subscriptions keys client share node =
     TopicStorageNode (topic_parttern node)
       (remove_subscription_keys keys client share (subscriptions node))
       (retain_publish_packet node) (leaves node)"

definition get_leaf :: "string \<Rightarrow> topic_storage_node \<Rightarrow> topic_storage_node option" where
  "get_leaf topic_pattern node = hm_get (leaves node) topic_pattern"

text \<open>The leaf returned by \<open>find_or_create_leaf\<close>; \<open>put_leaf\<close> writes it back under its parent.\<close>

definition find_or_create_leaf :: "string \<Rightarrow> topic_storage_node \<Rightarrow> topic_storage_node" where
  "find_or_create_leaf topic_pattern node =
     (case get_leaf topic_pattern node of Some leaf \<Rightarrow> leaf | None \<Rightarrow> node_new topic_pattern)"

definition put_leaf :: "string \<Rightarrow> topic_storage_node \<Rightarrow> topic_storage_node \<Rightarrow> topic_storage_node" where
  "put_leaf topic_pattern leaf node =
     TopicStorageNode (topic_parttern node) (subscriptions node) (retain_publish_packet node)
       (hm_insert topic_pattern leaf (leaves node))"

section \<open>Recursion over the tree\<close>

fun recursion_subscribe ::
  "(string \<Rightarrow> string) \<Rightarrow> topic_storage_node \<Rightarrow> string list \<Rightarrow> subscription \<Rightarrow> topic_storage_node" where
  "recursion_subscribe b64 node [] s = add_subscription b64 s node"
| "recursion_subscribe b64 node (p # ps) s =
     put_leaf p (recursion_subscribe b64 (find_or_create_leaf p node) ps s) node"

fun recursion_unsubscription ::
  "topic_storage_node \<Rightarrow> string list \<Rightarrow> string list \<Rightarrow> string \<Rightarrow> string option \<Rightarrow>
   (topic_storage_node, topic_storage_error) result" where
  "recursion_unsubscription node [] keys client share =
     Ok (remove_subscriptions keys client share node)"
| "recursion_unsubscription node (p # ps) keys client share =
     (case get_leaf p node of
        Some next \<Rightarrow>
          and_then (recursion_unsubscription next ps keys client share) (\<lambda>next'.
          Ok (put_leaf p next' node))
      | None \<Rightarrow> Err (TopicNotFound p))"

fun recursion_get_subscriptions :: "topic_storage_node \<Rightarrow> string list \<Rightarrow> subscription list" where
  "recursion_get_subscriptions node [] = node_get_subscriptions node"
| "recursion_get_subscriptions node (t # ts) =
     (case get_leaf ''#'' node of Some sharp_leaf \<Rightarrow> node_get_subscriptions sharp_leaf | None \<Rightarrow> []) @
     (case get_leaf ''+'' node of Some plus_leaf \<Rightarrow> recursion_get_subscriptions plus_leaf ts | None \<Rightarrow> []) @
     (case get_leaf t node of Some next \<Rightarrow> recursion_get_subscriptions next ts | None \<Rightarrow> [])"

fun recursion_retain_publish_packet ::
  "topic_storage_node \<Rightarrow> string list \<Rightarrow> packet \<Rightarrow> topic_storage_node" where
  "recursion_retain_publish_packet node [] packet = set_retain_publish_message packet node"
| "recursion_retain_publish_packet node (p # ps) packet =
     put_leaf p (recursion_retain_publish_packet (find_or_create_leaf p node) ps packet) node"

fun recursion_clean_retain_publish_packet ::
  "topic_storage_node \<Rightarrow> string list \<Rightarrow> (topic_storage_node, topic_storage_error) result" where
  "recursion_clean_retain_publish_packet node [] = Ok (clean_retain_publish_message node)"
| "recursion_clean_retain_publish_packet node (p # ps) =
     (case get_leaf p node of
        Some next \<Rightarrow>
          and_then (recursion_clean_retain_publish_packet next ps) (\<lambda>next'.
          Ok (put_leaf p next' node))
      | None \<Rightarrow> Err (TopicNotFound p))"

fun collect_retain_subtree :: "topic_storage_node \<Rightarrow> packet list" where
  "collect_retain_subtree (TopicStorageNode tp subs ret ls) =
     (case ret of Some packet \<Rightarrow> [packet] | None \<Rightarrow> []) @
     concat (map (\<lambda>(k, leaf). collect_retain_subtree leaf) ls)"

fun recursion_get_retain_packet :: "topic_storage_node \<Rightarrow> string list \<Rightarrow> packet list" where
  "recursion_get_retain_packet node [] =
     (case retain_publish_packet node of Some packet \<Rightarrow> [packet] | None \<Rightarrow> [])"
| "recursion_get_retain_packet node (p # ps) =
     (if p = ''#'' then collect_retain_subtree node
      else if p = ''+'' then
        concat (map (\<lambda>(k, sub). recursion_get_retain_packet sub ps) (leaves node))
      else
        (case get_leaf p node of
           Some next \<Rightarrow> recursion_get_retain_packet next ps
         | None \<Rightarrow> []))"

section \<open>The store\<close>

record topic_storage =
  retain_message_recorder :: "(string, (string, string \<times> u8) hash_map) hash_map"
  topic_info_recorder :: "(string, (string, u8) hash_map) hash_map"
  topic_tree :: "(string, topic_storage_node) hash_map"

definition create_tenant :: "string \<Rightarrow> topic_storage \<Rightarrow> topic_storage" where
  "create_tenant tenant st =
     \<lparr>retain_message_recorder = hm_or_insert tenant [] (retain_message_recorder st),
      topic_info_recorder = hm_or_insert tenant [] (topic_info_recorder st),
      topic_tree = hm_or_insert tenant (node_new ''/'') (topic_tree st)\<rparr>"

definition topic_storage_new :: topic_storage where
  "topic_storage_new =
     create_tenant ''public''
       \<lparr>retain_message_recorder = [], topic_info_recorder = [], topic_tree = []\<rparr>"

definition subscribe_with_options ::
  "(string \<Rightarrow> string) \<Rightarrow> topic_storage \<Rightarrow> string \<Rightarrow> string \<Rightarrow> string \<Rightarrow> u8 \<Rightarrow> bool \<Rightarrow> bool \<Rightarrow>
   (topic_storage, topic_storage_error) result" where
  "subscribe_with_options b64 st tenant_id client raw_filter qos no_loc retain_as_pub =
     and_then (map_err (\<lambda>e. InvalidTopicFilter (display_shared_error e))
       (parse_shared_subscription_filter raw_filter)) (\<lambda>shared.
     let (store_filter, share) = (case shared of
           Some s \<Rightarrow> (shared_topic_filter s, Some (share_name s)) | None \<Rightarrow> (raw_filter, None)) in
     if \<not> test_topic store_filter then Err (InvalidTopicFilter store_filter)
     else
       (case hm_get (topic_tree st) tenant_id of
          Some root \<Rightarrow>
            Ok (st\<lparr>topic_tree := hm_insert tenant_id
                     (recursion_subscribe b64 root (split_on (CHR ''/'') store_filter)
                       \<lparr>client_identifier = client, sub_qos = qos, sub_no_local = no_loc,
                        sub_retain_as_published = retain_as_pub, shared_group = share,
                        sub_topic_filter = store_filter\<rparr>) (topic_tree st),
                   topic_info_recorder := hm_modify tenant_id
                     (hm_or_insert (generate_key b64 client raw_filter) qos)
                     (topic_info_recorder st)\<rparr>)
        | None \<Rightarrow> Err (TenantNotFound tenant_id)))"

definition storage_subscribe ::
  "(string \<Rightarrow> string) \<Rightarrow> topic_storage \<Rightarrow> string \<Rightarrow> string \<Rightarrow> string \<Rightarrow> u8 \<Rightarrow>
   (topic_storage, topic_storage_error) result" where
  "storage_subscribe b64 st tenant_id client raw_filter qos =
     subscribe_with_options b64 st tenant_id client raw_filter qos False False"

definition storage_unsubscribe ::
  "(string \<Rightarrow> string) \<Rightarrow> topic_storage \<Rightarrow> string \<Rightarrow> string \<Rightarrow> string \<Rightarrow>
   (topic_storage, topic_storage_error) result" where
  "storage_unsubscribe b64 st tenant_id client raw_filter =
     and_then (map_err (\<lambda>e. InvalidTopicFilter (display_shared_error e))
       (parse_shared_subscription_filter raw_filter)) (\<lambda>shared.
     let (store_filter, keys, share) = (case shared of
           Some s \<Rightarrow> (shared_topic_filter s, [shared_subscription_key b64 client (share_name s)],
                       Some (share_name s))
         | None \<Rightarrow> (raw_filter, [normal_subscription_key b64 client,
                              legacy_normal_subscription_key client], None)) in
     (case hm_get (topic_tree st) tenant_id of
        Some root \<Rightarrow>
          and_then (recursion_unsubscription root (split_on (CHR ''/'') store_filter) keys client share)
            (\<lambda>root'.
          Ok (st\<lparr>topic_tree := hm_insert tenant_id root' (topic_tree st),
                 topic_info_recorder := hm_modify tenant_id
                   (hm_remove (generate_key b64 client raw_filter)) (topic_info_recorder st)\<rparr>))
      | None \<Rightarrow> Err (TenantNotFound tenant_id)))"

definition get_subscriptions ::
  "topic_storage \<Rightarrow> string \<Rightarrow> string \<Rightarrow> (subscription list, topic_storage_error) result" where
  "get_subscriptions st tenant_id msg_topic =
     (case hm_get (topic_tree st) tenant_id of
        Some root \<Rightarrow> Ok (recursion_get_subscriptions root (split_on (CHR ''/'') msg_topic))
      | None \<Rightarrow> Err (TenantNotFound tenant_id))"

definition clean_retain_publish_packet ::
  "topic_storage \<Rightarrow> string \<Rightarrow> string \<Rightarrow> (topic_storage, topic_storage_error) result" where
  "clean_retain_publish_packet st tenant_id raw_filter =
     (case hm_get (topic_tree st) tenant_id of
        Some root \<Rightarrow>
          and_then (recursion_clean_retain_publish_packet root (split_on (CHR ''/'') raw_filter)) (\<lambda>root'.
          Ok (st\<lparr>topic_tree := hm_insert tenant_id root' (topic_tree st),
                 retain_message_recorder := hm_modify tenant_id (hm_remove raw_filter)
                   (retain_message_recorder st)\<rparr>))
      | None \<Rightarrow> Err (TenantNotFound tenant_id))"

definition get_retain_publish_packet ::
  "topic_storage \<Rightarrow> string \<Rightarrow> string \<Rightarrow> u64 \<Rightarrow> (packet list, topic_storage_error) result" where
  "get_retain_publish_packet st tenant_id raw_filter now =
     (if \<not> test_topic raw_filter then Err (InvalidTopicFilter raw_filter)
      else
        (case hm_get (topic_tree st) tenant_id of
           Some root \<Rightarrow>
             Ok (filter (\<lambda>packet. \<not> is_packet_expired packet now)
               (recursion_get_retain_packet root (split_on (CHR ''/'') raw_filter)))
         | None \<Rightarrow> Err (TenantNotFound tenant_id)))"

definition register_retain_publish_packet ::
  "topic_storage \<Rightarrow> string \<Rightarrow> string \<Rightarrow> packet \<Rightarrow> (topic_storage, topic_storage_error) result" where
  "register_retain_publish_packet st tenant_id source packet =
     (case packet of
        Publish p \<Rightarrow>
          if \<not> test_topic (topic_name p) then Err (InvalidTopicFilter (topic_name p))
          else
            (case hm_get (topic_tree st) tenant_id of
               Some root \<Rightarrow>
                 Ok (st\<lparr>topic_tree := hm_insert tenant_id
                          (recursion_retain_publish_packet root (split_on (CHR ''/'') (topic_name p))
                            (Publish p)) (topic_tree st),
                        retain_message_recorder := hm_modify tenant_id
                          (hm_insert (topic_name p) (source, publish_qos p))
                          (retain_message_recorder st)\<rparr>)
             | None \<Rightarrow> Err (TenantNotFound tenant_id))
      | _ \<Rightarrow> Ok st)"

definition contains_tenant :: "topic_storage \<Rightarrow> string \<Rightarrow> bool" where
  "contains_tenant st tenant_id \<longleftrightarrow> hm_get (topic_tree st) tenant_id \<noteq> None"

definition get_tenant_names :: "topic_storage \<Rightarrow> string list" where
  "get_tenant_names st = map fst (topic_tree st)"

section \<open>Listing\<close>

definition get_retain_message_list_with_pagination ::
  "topic_storage \<Rightarrow> string \<Rightarrow> u64 \<Rightarrow> u64 \<Rightarrow>
   (u64 \<times> (string \<times> string \<times> u8) list, topic_storage_error) result" where
  "get_retain_message_list_with_pagination st tenant_id offset limit =
     (case hm_get (retain_message_recorder st) tenant_id of
        None \<Rightarrow> Err (TenantNotFound tenant_id)
      | Some items \<Rightarrow>
          Ok (word_of_nat (length items),
              map (\<lambda>(raw_filter, client, qos). (raw_filter, client, qos))
                (take (unat limit) (drop (unat offset) items))))"

text \<open>\<open>None\<close> is the panic of \<open>extract_info_from_key\<close>.\<close>

definition get_topic_list_with_pagination ::
  "(string \<Rightarrow> string option) \<Rightarrow> topic_storage \<Rightarrow> string \<Rightarrow> u64 \<Rightarrow> u64 \<Rightarrow>
   (u64 \<times> (string \<times> string \<times> u8) list, topic_storage_error) result option" where
  "get_topic_list_with_pagination unb64 st tenant_id offset limit =
     (case hm_get (topic_info_recorder st) tenant_id of
        None \<Rightarrow> Some (Err (TenantNotFound tenant_id))
      | Some items \<Rightarrow>
          map_option (\<lambda>rows. Ok (word_of_nat (length items), rows))
            (those (map (\<lambda>(key, qos).
               map_option (\<lambda>(client, topic). (client, topic, qos)) (extract_info_from_key unb64 key))
               (take (unat limit) (drop (unat offset) items)))))"

section \<open>Snapshots\<close>

datatype serializable_topic_storage_node =
  SerializableTopicStorageNode
    (ser_topic_parttern: string)
    (ser_subscriptions: "(string, subscription) hash_map")
    (ser_retain_publish_packet: "packet option")
    (ser_leaves: "(string \<times> serializable_topic_storage_node) list")

record serializable_topic_storage =
  ser_retain_message_recorder :: "(string, (string, string \<times> u8) hash_map) hash_map"
  ser_topic_info_recorder :: "(string, (string, u8) hash_map) hash_map"
  ser_topic_tree :: "(string, serializable_topic_storage_node) hash_map"

fun node_to_serializable :: "topic_storage_node \<Rightarrow> serializable_topic_storage_node" where
  "node_to_serializable (TopicStorageNode tp subs ret ls) =
     SerializableTopicStorageNode tp subs ret (map (\<lambda>(k, v). (k, node_to_serializable v)) ls)"

text \<open>\<open>collect\<close> into a map inserts the pairs in turn; the subscriptions get the key of their content.\<close>

fun node_from_serializable ::
  "(string \<Rightarrow> string) \<Rightarrow> serializable_topic_storage_node \<Rightarrow> topic_storage_node" where
  "node_from_serializable b64 (SerializableTopicStorageNode tp subs ret ls) =
     TopicStorageNode tp (hm_collect (map (\<lambda>(_, v). (node_key b64 v, v)) subs)) ret
       (hm_collect (map (\<lambda>(k, v). (k, node_from_serializable b64 v)) ls))"

definition storage_to_serializable :: "topic_storage \<Rightarrow> serializable_topic_storage" where
  "storage_to_serializable st =
     \<lparr>ser_retain_message_recorder = retain_message_recorder st,
      ser_topic_info_recorder = topic_info_recorder st,
      ser_topic_tree = map (\<lambda>(k, v). (k, node_to_serializable v)) (topic_tree st)\<rparr>"

definition storage_from_serializable ::
  "(string \<Rightarrow> string) \<Rightarrow> serializable_topic_storage \<Rightarrow> topic_storage" where
  "storage_from_serializable b64 d =
     \<lparr>retain_message_recorder = ser_retain_message_recorder d,
      topic_info_recorder = ser_topic_info_recorder d,
      topic_tree = hm_collect (map (\<lambda>(k, v). (k, node_from_serializable b64 v)) (ser_topic_tree d))\<rparr>"

definition storage_to_snapshot ::
  "(serializable_topic_storage \<Rightarrow> (bytes, 'e) result) \<Rightarrow> topic_storage \<Rightarrow> (bytes, 'e) result" where
  "storage_to_snapshot to_vec st = to_vec (storage_to_serializable st)"

definition storage_from_snapshot ::
  "(string \<Rightarrow> string) \<Rightarrow> (bytes \<Rightarrow> (serializable_topic_storage, 'e) result) \<Rightarrow> bytes \<Rightarrow>
   (topic_storage, 'e) result" where
  "storage_from_snapshot b64 from_slice snapshot =
     and_then (from_slice snapshot) (\<lambda>d. Ok (storage_from_serializable b64 d))"

section \<open>Contents of a tree\<close>

text \<open>The subscription under a key and the retained packet, at the node a list of levels leads to.\<close>

fun sub_at :: "topic_storage_node \<Rightarrow> string list \<Rightarrow> string \<Rightarrow> subscription option" where
  "sub_at node [] key = hm_get (subscriptions node) key"
| "sub_at node (p # ps) key =
     (case get_leaf p node of Some next \<Rightarrow> sub_at next ps key | None \<Rightarrow> None)"

fun retained_at :: "topic_storage_node \<Rightarrow> string list \<Rightarrow> packet option" where
  "retained_at node [] = retain_publish_packet node"
| "retained_at node (p # ps) =
     (case get_leaf p node of Some next \<Rightarrow> retained_at next ps | None \<Rightarrow> None)"

fun has_path :: "topic_storage_node \<Rightarrow> string list \<Rightarrow> bool" where
  "has_path node [] = True"
| "has_path node (p # ps) =
     (case get_leaf p node of Some next \<Rightarrow> has_path next ps | None \<Rightarrow> False)"

text \<open>Everything a tree holds, with the levels of its place.\<close>

fun tree_subs :: "topic_storage_node \<Rightarrow> (string list \<times> subscription) list" where
  "tree_subs (TopicStorageNode tp subs ret ls) =
     map (\<lambda>(k, s). ([], s)) subs @
     concat (map (\<lambda>(k, leaf). map (\<lambda>(p, s). (k # p, s)) (tree_subs leaf)) ls)"

fun tree_retained :: "topic_storage_node \<Rightarrow> (string list \<times> packet) list" where
  "tree_retained (TopicStorageNode tp subs ret ls) =
     (case ret of Some packet \<Rightarrow> [([], packet)] | None \<Rightarrow> []) @
     concat (map (\<lambda>(k, leaf). map (\<lambda>(p, s). (k # p, s)) (tree_retained leaf)) ls)"

text \<open>
  The invariant of a tree whose root lies at \<open>path\<close>: keys are distinct, a leaf carries its own
  level, and a subscription is stored under the key and at the levels of its content.
\<close>

fun tree_ok :: "(string \<Rightarrow> string) \<Rightarrow> string list \<Rightarrow> topic_storage_node \<Rightarrow> bool" where
  "tree_ok b64 path (TopicStorageNode tp subs ret ls) \<longleftrightarrow>
     hm_ok subs \<and> hm_ok ls \<and>
     (\<forall>(k, s)\<in>set subs. k = node_key b64 s \<and> split_on (CHR ''/'') (sub_topic_filter s) = path) \<and>
     (\<forall>(k, leaf)\<in>set ls. topic_parttern leaf = k \<and> tree_ok b64 (path @ [k]) leaf)"

lemma tree_ok_get:
  "tree_ok b64 path node \<longleftrightarrow>
     hm_ok (subscriptions node) \<and> hm_ok (leaves node) \<and>
     (\<forall>k s. hm_get (subscriptions node) k = Some s \<longrightarrow>
        k = node_key b64 s \<and> split_on (CHR ''/'') (sub_topic_filter s) = path) \<and>
     (\<forall>k leaf. get_leaf k node = Some leaf \<longrightarrow>
        topic_parttern leaf = k \<and> tree_ok b64 (path @ [k]) leaf)"
  by (cases node) (auto simp: get_leaf_def hm_ok_def dest: map_of_SomeD)

lemma get_leaf_put [simp]:
  "get_leaf k (put_leaf p leaf node) = (if k = p then Some leaf else get_leaf k node)"
  by (simp add: get_leaf_def put_leaf_def)

lemma put_leaf_simps [simp]:
  "subscriptions (put_leaf p leaf node) = subscriptions node"
  "retain_publish_packet (put_leaf p leaf node) = retain_publish_packet node"
  "topic_parttern (put_leaf p leaf node) = topic_parttern node"
  "leaves (put_leaf p leaf node) = hm_insert p leaf (leaves node)"
  by (simp_all add: put_leaf_def)

lemma node_new_simps [simp]:
  "subscriptions (node_new p) = []" "retain_publish_packet (node_new p) = None"
  "topic_parttern (node_new p) = p" "leaves (node_new p) = []" "get_leaf k (node_new p) = None"
  by (simp_all add: node_new_def get_leaf_def)

lemma own_simps [simp]:
  "subscriptions (add_subscription b64 s node) = hm_insert (node_key b64 s) s (subscriptions node)"
  "leaves (add_subscription b64 s node) = leaves node"
  "retain_publish_packet (add_subscription b64 s node) = retain_publish_packet node"
  "topic_parttern (add_subscription b64 s node) = topic_parttern node"
  "leaves (remove_subscriptions keys c g node) = leaves node"
  "retain_publish_packet (remove_subscriptions keys c g node) = retain_publish_packet node"
  "topic_parttern (remove_subscriptions keys c g node) = topic_parttern node"
  "subscriptions (set_retain_publish_message packet node) = subscriptions node"
  "leaves (set_retain_publish_message packet node) = leaves node"
  "retain_publish_packet (set_retain_publish_message packet node) = Some packet"
  "topic_parttern (set_retain_publish_message packet node) = topic_parttern node"
  "subscriptions (clean_retain_publish_message node) = subscriptions node"
  "leaves (clean_retain_publish_message node) = leaves node"
  "retain_publish_packet (clean_retain_publish_message node) = None"
  "topic_parttern (clean_retain_publish_message node) = topic_parttern node"
  by (simp_all add: add_subscription_def remove_subscriptions_def set_retain_publish_message_def
      clean_retain_publish_message_def)

lemma get_leaf_own [simp]:
  "get_leaf k (add_subscription b64 s node) = get_leaf k node"
  "get_leaf k (remove_subscriptions keys c g node) = get_leaf k node"
  "get_leaf k (set_retain_publish_message packet node) = get_leaf k node"
  "get_leaf k (clean_retain_publish_message node) = get_leaf k node"
  by (simp_all add: get_leaf_def)

lemma at_new [simp]: "sub_at (node_new p) ps key = None" "retained_at (node_new p) ps = None"
  by (cases ps; simp)+

lemma tree_ok_new [simp]: "tree_ok b64 path (node_new p)"
  by (simp add: node_new_def)

section \<open>Updates of a tree\<close>

lemma remove_subscription_keys_get:
  "hm_get (remove_subscription_keys keys c g subs) k =
     (case hm_get subs k of
        Some s \<Rightarrow> if k \<in> set keys \<and> client_identifier s = c \<and> shared_group s = g then None else Some s
      | None \<Rightarrow> None)"
  by (induction keys c g subs rule: remove_subscription_keys.induct)
    (auto simp: Let_def split: option.splits if_splits)

lemma remove_subscription_keys_ok [simp]:
  "hm_ok subs \<Longrightarrow> hm_ok (remove_subscription_keys keys c g subs)"
  by (induction keys c g subs rule: remove_subscription_keys.induct) (auto simp: Let_def)

lemma subscriptions_remove [simp]:
  "subscriptions (remove_subscriptions keys c g node) =
     remove_subscription_keys keys c g (subscriptions node)"
  by (simp add: remove_subscriptions_def)

lemma sub_at_subscribe:
  "sub_at (recursion_subscribe b64 node ps s) qs k =
     (if qs = ps \<and> k = node_key b64 s then Some s else sub_at node qs k)"
proof (induction ps arbitrary: node qs)
  case Nil
  then show ?case by (cases qs) auto
next
  case (Cons p ps)
  then show ?case
    by (cases qs) (auto simp: find_or_create_leaf_def split: option.splits)
qed

lemma retained_at_subscribe: "retained_at (recursion_subscribe b64 node ps s) qs = retained_at node qs"
proof (induction ps arbitrary: node qs)
  case Nil
  then show ?case by (cases qs) auto
next
  case (Cons p ps)
  then show ?case
    by (cases qs) (auto simp: find_or_create_leaf_def split: option.splits)
qed

lemma tree_ok_put:
  "tree_ok b64 path node \<Longrightarrow> tree_ok b64 (path @ [p]) leaf \<Longrightarrow> topic_parttern leaf = p \<Longrightarrow>
   tree_ok b64 path (put_leaf p leaf node)"
  by (subst tree_ok_get, simp add: tree_ok_get [of b64 path node])

lemma tree_ok_leaf:
  "tree_ok b64 path node \<Longrightarrow> get_leaf p node = Some leaf \<Longrightarrow>
   topic_parttern leaf = p \<and> tree_ok b64 (path @ [p]) leaf"
  by (simp add: tree_ok_get [of b64 path node])

lemma tree_ok_find_or_create:
  "tree_ok b64 path node \<Longrightarrow>
   topic_parttern (find_or_create_leaf p node) = p \<and> tree_ok b64 (path @ [p]) (find_or_create_leaf p node)"
  by (auto simp: find_or_create_leaf_def tree_ok_leaf split: option.splits)

lemma parttern_subscribe [simp]: "topic_parttern (recursion_subscribe b64 node ps s) = topic_parttern node"
  by (cases ps) auto

lemma tree_ok_subscribe:
  "tree_ok b64 path node \<Longrightarrow> split_on (CHR ''/'') (sub_topic_filter s) = path @ ps \<Longrightarrow>
   tree_ok b64 path (recursion_subscribe b64 node ps s)"
proof (induction ps arbitrary: node path)
  case Nil
  then show ?case
    by (subst tree_ok_get) (simp add: tree_ok_get [of b64 path node])
next
  case (Cons p ps)
  then show ?case
    using tree_ok_find_or_create [OF Cons.prems(1), of p] by (simp add: tree_ok_put)
qed

lemma unsubscription_Ok_iff:
  "(\<exists>node'. recursion_unsubscription node ps keys c g = Ok node') \<longleftrightarrow> has_path node ps"
proof (induction ps arbitrary: node)
  case (Cons p ps)
  then show ?case
    by (auto simp: and_then_eq_Ok split: option.splits)
qed simp

lemma parttern_unsubscription:
  "recursion_unsubscription node ps keys c g = Ok node' \<Longrightarrow> topic_parttern node' = topic_parttern node"
  by (cases ps) (auto simp: and_then_eq_Ok split: option.splits)

lemma sub_at_unsubscription:
  "recursion_unsubscription node ps keys c g = Ok node' \<Longrightarrow>
   sub_at node' qs k =
     (case sub_at node qs k of
        Some s \<Rightarrow> if qs = ps \<and> k \<in> set keys \<and> client_identifier s = c \<and> shared_group s = g
                 then None else Some s
      | None \<Rightarrow> None)"
proof (induction ps arbitrary: node node' qs)
  case Nil
  then show ?case
    by (cases qs) (auto simp: remove_subscription_keys_get split: option.splits)
next
  case (Cons p ps)
  then obtain leaf leaf' where n: "get_leaf p node = Some leaf" "node' = put_leaf p leaf' node"
    "recursion_unsubscription leaf ps keys c g = Ok leaf'"
    by (auto simp: and_then_eq_Ok split: option.splits)
  with Cons.IH [OF n(3)] show ?case
    by (cases qs) (auto split: option.splits)
qed

lemma retained_at_unsubscription:
  "recursion_unsubscription node ps keys c g = Ok node' \<Longrightarrow> retained_at node' qs = retained_at node qs"
proof (induction ps arbitrary: node node' qs)
  case Nil
  then show ?case by (cases qs) auto
next
  case (Cons p ps)
  then obtain leaf leaf' where n: "get_leaf p node = Some leaf" "node' = put_leaf p leaf' node"
    "recursion_unsubscription leaf ps keys c g = Ok leaf'"
    by (auto simp: and_then_eq_Ok split: option.splits)
  with Cons.IH [OF n(3)] show ?case
    by (cases qs) auto
qed

lemma tree_ok_unsubscription:
  "tree_ok b64 path node \<Longrightarrow> recursion_unsubscription node ps keys c g = Ok node' \<Longrightarrow>
   tree_ok b64 path node'"
proof (induction ps arbitrary: node node' path)
  case Nil
  then show ?case
    by (subst tree_ok_get) (auto simp: tree_ok_get [of b64 path node] remove_subscription_keys_get
        split: option.splits if_splits)
next
  case (Cons p ps)
  from Cons.prems(2) obtain leaf leaf' where n: "get_leaf p node = Some leaf"
    "node' = put_leaf p leaf' node" "recursion_unsubscription leaf ps keys c g = Ok leaf'"
    by (auto simp: and_then_eq_Ok split: option.splits)
  from tree_ok_leaf [OF Cons.prems(1) n(1)] Cons.IH [OF _ n(3)] parttern_unsubscription [OF n(3)]
  show ?case
    by (simp add: n(2) tree_ok_put Cons.prems(1))
qed

section \<open>Updates of the retained packets\<close>

lemma retained_at_retain:
  "retained_at (recursion_retain_publish_packet node ps packet) qs =
     (if qs = ps then Some packet else retained_at node qs)"
proof (induction ps arbitrary: node qs)
  case Nil
  then show ?case by (cases qs) auto
next
  case (Cons p ps)
  then show ?case
    by (cases qs) (auto simp: find_or_create_leaf_def split: option.splits)
qed

lemma sub_at_retain: "sub_at (recursion_retain_publish_packet node ps packet) qs k = sub_at node qs k"
proof (induction ps arbitrary: node qs)
  case Nil
  then show ?case by (cases qs) auto
next
  case (Cons p ps)
  then show ?case
    by (cases qs) (auto simp: find_or_create_leaf_def split: option.splits)
qed

lemma parttern_retain [simp]:
  "topic_parttern (recursion_retain_publish_packet node ps packet) = topic_parttern node"
  by (cases ps) auto

lemma tree_ok_retain:
  "tree_ok b64 path node \<Longrightarrow> tree_ok b64 path (recursion_retain_publish_packet node ps packet)"
proof (induction ps arbitrary: node path)
  case Nil
  then show ?case
    by (subst tree_ok_get) (simp add: tree_ok_get [of b64 path node])
next
  case (Cons p ps)
  then show ?case
    using tree_ok_find_or_create [OF Cons.prems(1), of p] by (simp add: tree_ok_put)
qed

lemma clean_retain_Ok_iff:
  "(\<exists>node'. recursion_clean_retain_publish_packet node ps = Ok node') \<longleftrightarrow> has_path node ps"
proof (induction ps arbitrary: node)
  case (Cons p ps)
  then show ?case
    by (auto simp: and_then_eq_Ok split: option.splits)
qed simp

lemma parttern_clean_retain:
  "recursion_clean_retain_publish_packet node ps = Ok node' \<Longrightarrow> topic_parttern node' = topic_parttern node"
  by (cases ps) (auto simp: and_then_eq_Ok split: option.splits)

lemma clean_retain_at:
  "recursion_clean_retain_publish_packet node ps = Ok node' \<Longrightarrow>
   retained_at node' qs = (if qs = ps then None else retained_at node qs) \<and>
   sub_at node' qs k = sub_at node qs k"
proof (induction ps arbitrary: node node' qs)
  case Nil
  then show ?case by (cases qs) auto
next
  case (Cons p ps)
  then obtain leaf leaf' where n: "get_leaf p node = Some leaf" "node' = put_leaf p leaf' node"
    "recursion_clean_retain_publish_packet leaf ps = Ok leaf'"
    by (auto simp: and_then_eq_Ok split: option.splits)
  with Cons.IH [OF n(3)] show ?case
    by (cases qs) auto
qed

lemma tree_ok_clean_retain:
  "tree_ok b64 path node \<Longrightarrow> recursion_clean_retain_publish_packet node ps = Ok node' \<Longrightarrow>
   tree_ok b64 path node'"
proof (induction ps arbitrary: node node' path)
  case Nil
  then show ?case
    by (subst tree_ok_get) (auto simp: tree_ok_get [of b64 path node])
next
  case (Cons p ps)
  from Cons.prems(2) obtain leaf leaf' where n: "get_leaf p node = Some leaf"
    "node' = put_leaf p leaf' node" "recursion_clean_retain_publish_packet leaf ps = Ok leaf'"
    by (auto simp: and_then_eq_Ok split: option.splits)
  from tree_ok_leaf [OF Cons.prems(1) n(1)] Cons.IH [OF _ n(3)] parttern_clean_retain [OF n(3)]
  show ?case
    by (simp add: n(2) tree_ok_put Cons.prems(1))
qed

section \<open>Lookups as a filter over the contents\<close>

text \<open>
  The levels of a topic a stored filter receives messages of, and the rule of the protocol, where
  the multi-level wildcard also stands for its parent level.
\<close>

fun subscription_matches :: "string list \<Rightarrow> string list \<Rightarrow> bool" where
  "subscription_matches [] [] = True"
| "subscription_matches [] (t # ts) = False"
| "subscription_matches (f # fs) [] = False"
| "subscription_matches (f # fs) (t # ts) =
     (f = ''#'' \<and> fs = [] \<or> (f = ''+'' \<or> f = t) \<and> subscription_matches fs ts)"

fun filter_matches :: "string list \<Rightarrow> string list \<Rightarrow> bool" where
  "filter_matches [] ts = (ts = [])"
| "filter_matches (f # fs) [] = (f = ''#'')"
| "filter_matches (f # fs) (t # ts) = (f = ''#'' \<or> (f = ''+'' \<or> f = t) \<and> filter_matches fs ts)"

text \<open>The part of an association list under one key.\<close>

lemma pick_absent: "a \<notin> fst ` set ls \<Longrightarrow> concat (map (\<lambda>(k, n). if k = a then g n else []) ls) = []"
  by (force simp: concat_eq_Nil_conv)

lemma pick_key:
  "distinct (map fst ls) \<Longrightarrow>
   concat (map (\<lambda>(k, n). if k = a then g n else []) ls) =
     (case map_of ls a of None \<Rightarrow> [] | Some n \<Rightarrow> g n)"
proof (induction ls)
  case (Cons e ls)
  obtain k n where e: "e = (k, n)" by (cases e)
  show ?case
  proof (cases "k = a")
    case True
    with Cons.prems e have "a \<notin> fst ` set ls" by simp
    with True show ?thesis
      unfolding e using pick_absent [of a ls g] by simp
  next
    case False
    with Cons e show ?thesis by simp
  qed
qed simp

lemma mset_concat_split:
  "(\<And>e. e \<in> set ls \<Longrightarrow> mset (f e) = mset (g e) + mset (h e)) \<Longrightarrow>
   mset (concat (map f ls)) = mset (concat (map g ls)) + mset (concat (map h ls))"
  by (induction ls) auto

definition matched :: "topic_storage_node \<Rightarrow> string list \<Rightarrow> subscription list" where
  "matched node ts = map snd (filter (\<lambda>(p, s). subscription_matches p ts) (tree_subs node))"

definition leaf_matched :: "string list \<Rightarrow> string \<times> topic_storage_node \<Rightarrow> subscription list" where
  "leaf_matched ts e =
     map snd (filter (\<lambda>(p, s). subscription_matches (fst e # p) ts) (tree_subs (snd e)))"

lemma filter_prefix:
  "map snd (filter (\<lambda>(p, s). P p) (map (\<lambda>(p, s). (k # p, s)) xs)) =
     map snd (filter (\<lambda>(p, s). P (k # p)) xs)"
  by (induction xs) auto

lemma filter_concat_leaves:
  "map snd (filter (\<lambda>(p, s). P p) (concat (map (\<lambda>(k, n). map (\<lambda>(p, s). (k # p, s)) (f n)) ls))) =
   concat (map (\<lambda>(k, n). map snd (filter (\<lambda>(p, s). P (k # p)) (f n))) ls)"
  by (induction ls) (auto simp: filter_prefix)

lemma filter_own_subs:
  "map snd (filter (\<lambda>(p, s). P p) (map (\<lambda>(k, s). ([], s)) xs)) = (if P [] then map snd xs else [])"
  by (induction xs) auto

lemma matched_Nil: "matched node [] = node_get_subscriptions node"
proof -
  obtain tp subs ret ls where n: "node = TopicStorageNode tp subs ret ls" by (cases node)
  have "subscription_matches (k # p) [] = False" for k p by simp
  then show ?thesis
    by (simp add: matched_def n node_get_subscriptions_def filter_own_subs filter_concat_leaves)
qed

lemma matched_Cons: "matched node (t # ts) = concat (map (leaf_matched (t # ts)) (leaves node))"
proof -
  obtain tp subs ret ls where n: "node = TopicStorageNode tp subs ret ls" by (cases node)
  have "leaf_matched (t # ts) =
      (\<lambda>(k, n). map snd (filter (\<lambda>(p, s). subscription_matches (k # p) (t # ts)) (tree_subs n)))"
    by (auto simp: leaf_matched_def)
  then show ?thesis
    by (simp del: subscription_matches.simps(4)
        add: matched_def n filter_own_subs filter_concat_leaves)
qed

lemma own_paths: "map snd (filter (\<lambda>(p, s). p = []) (tree_subs n)) = node_get_subscriptions n"
proof -
  obtain tp subs ret ls where n: "n = TopicStorageNode tp subs ret ls" by (cases n)
  show ?thesis
    by (simp add: n node_get_subscriptions_def filter_own_subs [of "\<lambda>p. p = []"]
        filter_concat_leaves [of "\<lambda>p. p = []"])
qed

lemma leaf_matched_split:
  assumes "t \<noteq> ''#''" and "t \<noteq> ''+''"
  shows "mset (leaf_matched (t # ts) (k, n)) =
    mset (if k = ''#'' then node_get_subscriptions n else []) +
    mset ((if k = ''+'' then matched n ts else []) @ (if k = t then matched n ts else []))"
proof -
  consider "k = ''#''" | "k = ''+''" | "k = t" | "k \<noteq> ''#''" "k \<noteq> ''+''" "k \<noteq> t"
    by blast
  then show ?thesis
    using assms by cases (auto simp: leaf_matched_def matched_def own_paths)
qed

lemma recursion_get_subscriptions_mset:
  "tree_ok b64 path node \<Longrightarrow> ''#'' \<notin> set ts \<Longrightarrow> ''+'' \<notin> set ts \<Longrightarrow>
   mset (recursion_get_subscriptions node ts) = mset (matched node ts)"
proof (induction ts arbitrary: node path)
  case (Cons t ts)
  have d: "distinct (map fst (leaves node))"
    using Cons.prems(1) by (simp add: tree_ok_get [of b64 path node] hm_ok_def)
  have IH: "get_leaf k node = Some n \<Longrightarrow>
      mset (recursion_get_subscriptions n ts) = mset (matched n ts)" for k n
    using Cons.IH tree_ok_leaf [OF Cons.prems(1)] Cons.prems(2,3) by auto
  let ?a = "\<lambda>(k, n). if k = ''#'' then node_get_subscriptions n else []"
  let ?b = "\<lambda>(k, n). if k = ''+'' then matched n ts else []"
  let ?c = "\<lambda>(k, n). if k = t then matched n ts else []"
  have "mset (matched node (t # ts)) =
      mset (concat (map ?a (leaves node))) + mset (concat (map (\<lambda>e. ?b e @ ?c e) (leaves node)))"
    unfolding matched_Cons
    by (rule mset_concat_split) (use Cons.prems leaf_matched_split in auto)
  also have "mset (concat (map (\<lambda>e. ?b e @ ?c e) (leaves node))) =
      mset (concat (map ?b (leaves node))) + mset (concat (map ?c (leaves node)))"
    by (rule mset_concat_split) simp
  finally show ?case
    by (auto simp: pick_key [OF d] get_leaf_def [symmetric] IH split: option.splits)
qed (simp add: matched_Nil)

text \<open>The contents and the lookups agree.\<close>

lemma tree_subs_at:
  "tree_ok b64 path node \<Longrightarrow>
   (p, s) \<in> set (tree_subs node) \<longleftrightarrow> sub_at node p (node_key b64 s) = Some s"
proof (induction node arbitrary: path p)
  case (TopicStorageNode tp subs ret ls)
  have o: "hm_ok subs" "hm_ok ls" "\<forall>(k, s)\<in>set subs. k = node_key b64 s"
    using TopicStorageNode.prems by auto
  show ?case
  proof (cases p)
    case Nil
    then show ?thesis
      using o by (auto simp: hm_mem_get)
  next
    case (Cons l p')
    have "(p, s) \<in> set (tree_subs (TopicStorageNode tp subs ret ls)) \<longleftrightarrow>
        (\<exists>n. (l, n) \<in> set ls \<and> (p', s) \<in> set (tree_subs n))"
      by (force simp: Cons)
    also have "\<dots> \<longleftrightarrow> (\<exists>n. (l, n) \<in> set ls \<and> sub_at n p' (node_key b64 s) = Some s)"
    proof -
      have "(p', s) \<in> set (tree_subs n) \<longleftrightarrow> sub_at n p' (node_key b64 s) = Some s"
        if "(l, n) \<in> set ls" for n
        by (rule TopicStorageNode.IH [of "(l, n)" n "path @ [l]"])
          (use that TopicStorageNode.prems in auto)
      then show ?thesis by blast
    qed
    finally show ?thesis
      using o by (auto simp: Cons get_leaf_def hm_mem_get split: option.splits)
  qed
qed

lemma sub_at_content:
  "tree_ok b64 path node \<Longrightarrow> sub_at node p k = Some s \<Longrightarrow>
   k = node_key b64 s \<and> split_on (CHR ''/'') (sub_topic_filter s) = path @ p"
proof (induction p arbitrary: node path)
  case Nil
  then show ?case by (simp add: tree_ok_get [of b64 path node])
next
  case (Cons l p)
  then obtain leaf where "get_leaf l node = Some leaf" "sub_at leaf p k = Some s"
    by (auto split: option.splits)
  with Cons tree_ok_leaf [of b64 path node l leaf] show ?case by fastforce
qed

lemma distinct_concat_keys:
  "distinct (map fst ls) \<Longrightarrow>
   (\<And>k n. (k, n) \<in> set ls \<Longrightarrow> distinct (f n) \<and> (\<forall>x\<in>set (f n). key x = k)) \<Longrightarrow>
   distinct (concat (map (\<lambda>(k, n). f n) ls))"
proof (induction ls)
  case (Cons e ls)
  obtain k n where e: "e = (k, n)" by (cases e)
  have "distinct (concat (map (\<lambda>(k, n). f n) ls))"
    using Cons by auto
  moreover have "set (f n) \<inter> set (concat (map (\<lambda>(k, n). f n) ls)) = {}"
  proof (rule equals0I)
    fix x assume "x \<in> set (f n) \<inter> set (concat (map (\<lambda>(k, n). f n) ls))"
    then obtain k' n' where x: "x \<in> set (f n)" "(k', n') \<in> set ls" "x \<in> set (f n')" by auto
    with Cons.prems(2) [of k n] Cons.prems(2) [of k' n'] have "k' = k" by (auto simp: e)
    with x(2) Cons.prems(1) show False by (force simp: e)
  qed
  ultimately show ?case
    using Cons.prems(2) [of k n] by (simp add: e)
qed simp

lemma tree_subs_distinct: "tree_ok b64 path node \<Longrightarrow> distinct (map snd (tree_subs node))"
proof (induction node arbitrary: path)
  case (TopicStorageNode tp subs ret ls)
  let ?key = "\<lambda>s. split_on (CHR ''/'') (sub_topic_filter s)"
  have leaf: "tree_ok b64 (path @ [k]) n" if "(k, n) \<in> set ls" for k n
    using that TopicStorageNode.prems by auto
  have sub: "\<exists>p. ?key s = path @ k # p" if "(k, n) \<in> set ls" "s \<in> set (map snd (tree_subs n))" for k n s
  proof -
    from that(2) obtain p where "(p, s) \<in> set (tree_subs n)" by auto
    then have "sub_at n p (node_key b64 s) = Some s"
      by (simp add: tree_subs_at [OF leaf [OF that(1)]])
    from sub_at_content [OF leaf [OF that(1)] this] show ?thesis by simp
  qed
  have own: "k = node_key b64 s" "?key s = path" if "(k, s) \<in> set subs" for k s
    using that TopicStorageNode.prems by auto
  have "map fst subs = map (node_key b64) (map snd subs)"
    using own(1) by auto
  then have "distinct (map snd subs)"
    using TopicStorageNode.prems by (simp only: tree_ok.simps hm_ok_def distinct_map [of "node_key b64"])
  moreover have "distinct (concat (map (\<lambda>(k, n). map snd (tree_subs n)) ls))"
  proof (rule distinct_concat_keys [where key = "\<lambda>s. ?key s ! length path"])
    show "distinct (map fst ls)" using TopicStorageNode.prems by (simp add: hm_ok_def)
    fix k n assume k: "(k, n) \<in> set ls"
    have "distinct (map snd (tree_subs n))"
      by (rule TopicStorageNode.IH [of "(k, n)" n]) (use k leaf in auto)
    moreover have "?key s ! length path = k" if "s \<in> set (map snd (tree_subs n))" for s
      using sub [OF k that] by auto
    ultimately show "distinct (map snd (tree_subs n)) \<and>
        (\<forall>s\<in>set (map snd (tree_subs n)). ?key s ! length path = k)" by blast
  qed
  moreover have "set (map snd subs) \<inter> set (concat (map (\<lambda>(k, n). map snd (tree_subs n)) ls)) = {}"
  proof (rule equals0I)
    fix s assume "s \<in> set (map snd subs) \<inter> set (concat (map (\<lambda>(k, n). map snd (tree_subs n)) ls))"
    then obtain k' k n where "(k', s) \<in> set subs" and "(k, n) \<in> set ls"
      and "s \<in> set (map snd (tree_subs n))" by force
    with own(2) [of k' s] sub [of k n s] obtain p where "path = path @ k # p" by auto
    then show False by simp
  qed
  moreover have "map snd (concat (map (\<lambda>(k, leaf). map (\<lambda>(p, s). (k # p, s)) (tree_subs leaf)) ls)) =
      concat (map (\<lambda>(k, n). map snd (tree_subs n)) ls)"
    by (simp add: map_concat case_prod_unfold comp_def)
  moreover have "map snd (map (\<lambda>(k, s). ([] :: string list, s)) subs) = map snd subs"
    by auto
  ultimately show ?case
    by (simp only: tree_subs.simps map_append distinct_append simp_thms)
qed

text \<open>Retained packets.\<close>

lemma collect_retain_subtree_eq: "collect_retain_subtree node = map snd (tree_retained node)"
proof (induction node)
  case (TopicStorageNode tp subs ret ls)
  have "map (\<lambda>(k, leaf). collect_retain_subtree leaf) ls =
      map (\<lambda>(k, leaf). map snd (tree_retained leaf)) ls"
    using TopicStorageNode.IH by fastforce
  then show ?case
    by (auto simp del: map_eq_conv simp: map_concat comp_def case_prod_unfold split: option.splits)
qed

lemma filter_retained_leaves:
  "map snd (filter (\<lambda>(p, s). P p) (tree_retained node)) =
     (if P [] then (case retain_publish_packet node of Some packet \<Rightarrow> [packet] | None \<Rightarrow> []) else []) @
     concat (map (\<lambda>(k, n). map snd (filter (\<lambda>(p, s). P (k # p)) (tree_retained n))) (leaves node))"
  by (cases node) (auto simp: filter_concat_leaves split: option.splits)

lemma recursion_get_retain_packet_eq:
  "tree_ok b64 path node \<Longrightarrow>
   recursion_get_retain_packet node fs =
     map snd (filter (\<lambda>(p, s). filter_matches fs p) (tree_retained node))"
proof (induction fs arbitrary: node path)
  case Nil
  then show ?case
    by (simp add: filter_retained_leaves [of "\<lambda>p. p = []"])
next
  case (Cons f fs)
  have d: "distinct (map fst (leaves node))"
    using Cons.prems by (simp add: tree_ok_get [of b64 path node] hm_ok_def)
  have IH: "recursion_get_retain_packet n fs =
      map snd (filter (\<lambda>(p, s). filter_matches fs p) (tree_retained n))"
    if "(k, n) \<in> set (leaves node)" for k n
    using that d tree_ok_leaf [OF Cons.prems, of k n] Cons.IH by (auto simp: get_leaf_def)
  consider "f = ''#''" | "f = ''+''" | "f \<noteq> ''#''" "f \<noteq> ''+''" by blast
  then show ?case
  proof cases
    case 1
    have "filter_matches (''#'' # fs) p" for p by (cases p) auto
    with 1 show ?thesis
      by (simp add: collect_retain_subtree_eq case_prod_unfold)
  next
    case 2
    have "map (\<lambda>(k, n). recursion_get_retain_packet n fs) (leaves node) =
        map (\<lambda>(k, n). map snd (filter (\<lambda>(p, s). filter_matches fs p) (tree_retained n))) (leaves node)"
      using IH by auto
    with 2 show ?thesis
      by (simp del: map_eq_conv add: filter_retained_leaves [of "filter_matches (''+'' # fs)"])
  next
    case 3
    have "(\<lambda>(k, n). map snd (filter (\<lambda>(p, s). filter_matches (f # fs) (k # p)) (tree_retained n))) =
        (\<lambda>(k, n). if k = f then map snd (filter (\<lambda>(p, s). filter_matches fs p) (tree_retained n)) else [])"
      using 3 by auto
    then show ?thesis
      using 3 IH
      by (auto simp: filter_retained_leaves [of "filter_matches (f # fs)"] pick_key [OF d]
          get_leaf_def dest: map_of_SomeD split: option.splits)
  qed
qed

lemma tree_retained_at:
  "tree_ok b64 path node \<Longrightarrow> (p, packet) \<in> set (tree_retained node) \<longleftrightarrow> retained_at node p = Some packet"
proof (induction node arbitrary: path p)
  case (TopicStorageNode tp subs ret ls)
  have o: "hm_ok ls" using TopicStorageNode.prems by auto
  show ?case
  proof (cases p)
    case Nil
    then show ?thesis by (auto split: option.splits)
  next
    case (Cons l p')
    have "(p, packet) \<in> set (tree_retained (TopicStorageNode tp subs ret ls)) \<longleftrightarrow>
        (\<exists>n. (l, n) \<in> set ls \<and> (p', packet) \<in> set (tree_retained n))"
      by (force simp: Cons split: option.splits)
    also have "\<dots> \<longleftrightarrow> (\<exists>n. (l, n) \<in> set ls \<and> retained_at n p' = Some packet)"
    proof -
      have "(p', packet) \<in> set (tree_retained n) \<longleftrightarrow> retained_at n p' = Some packet"
        if "(l, n) \<in> set ls" for n
        by (rule TopicStorageNode.IH [of "(l, n)" n "path @ [l]"])
          (use that TopicStorageNode.prems in auto)
      then show ?thesis by blast
    qed
    finally show ?thesis
      using o by (auto simp: Cons get_leaf_def hm_mem_get split: option.splits)
  qed
qed

text \<open>Snapshots of a tree.\<close>

lemma node_serializable_roundtrip:
  "tree_ok b64 path node \<Longrightarrow> node_from_serializable b64 (node_to_serializable node) = node"
proof (induction node arbitrary: path)
  case (TopicStorageNode tp subs ret ls)
  have "map (\<lambda>(_, v). (node_key b64 v, v)) subs = subs"
    using TopicStorageNode.prems by (auto intro!: map_idI)
  moreover have "map (\<lambda>(k, v). (k, node_from_serializable b64 v))
      (map (\<lambda>(k, v). (k, node_to_serializable v)) ls) = ls"
    using TopicStorageNode.prems TopicStorageNode.IH by (auto intro!: map_idI)
  ultimately show ?case
    using TopicStorageNode.prems by (simp add: hm_collect_id)
qed

section \<open>Keys\<close>

text \<open>
  What the store relies on of the Base64 codec: decoding inverts encoding, and the alphabet has no
  colon.
\<close>

definition base64_codec :: "(string \<Rightarrow> string) \<Rightarrow> (string \<Rightarrow> string option) \<Rightarrow> bool" where
  "base64_codec b64 unb64 \<longleftrightarrow> (\<forall>s. unb64 (b64 s) = Some s \<and> CHR '':'' \<notin> set (b64 s))"

lemma base64_inj: "base64_codec b64 unb64 \<Longrightarrow> b64 s = b64 t \<longleftrightarrow> s = t"
  by (metis base64_codec_def option.inject)

lemma base64_colon: "base64_codec b64 unb64 \<Longrightarrow> CHR '':'' \<notin> set (b64 s)"
  by (simp add: base64_codec_def)

lemma append_sep_inj:
  "c \<notin> set u \<Longrightarrow> c \<notin> set u' \<Longrightarrow> u @ c # v = u' @ c # v' \<longleftrightarrow> u = u' \<and> v = v'"
proof (induction u arbitrary: u')
  case Nil
  then show ?case by (cases u') auto
next
  case (Cons x u)
  then show ?case by (cases u') auto
qed

definition subscription_key :: "(string \<Rightarrow> string) \<Rightarrow> string \<Rightarrow> string option \<Rightarrow> string" where
  "subscription_key b64 client share =
     (case share of
        Some g \<Rightarrow> shared_subscription_key b64 client g
      | None \<Rightarrow> normal_subscription_key b64 client)"

lemma node_key_eq: "node_key b64 s = subscription_key b64 (client_identifier s) (shared_group s)"
  by (simp add: node_key_def subscription_key_def)

lemma subscription_key_inj:
  assumes "base64_codec b64 unb64"
  shows "subscription_key b64 c g = subscription_key b64 c' g' \<longleftrightarrow> c = c' \<and> g = g'"
  using base64_inj [OF assms] base64_colon [OF assms]
  by (auto simp: subscription_key_def shared_subscription_key_def normal_subscription_key_def
      append_sep_inj split: option.splits)

lemma generate_key_inj:
  assumes "base64_codec b64 unb64"
  shows "generate_key b64 c t = generate_key b64 c' t' \<longleftrightarrow> c = c' \<and> t = t'"
  using base64_inj [OF assms] base64_colon [OF assms] by (simp add: generate_key_def append_sep_inj)

lemma extract_generate:
  assumes "base64_codec b64 unb64" and "valid_str c" and "valid_str t"
  shows "extract_info_from_key unb64 (generate_key b64 c t) = Some (c, t)"
proof -
  have "split_on (CHR '':'') (b64 c @ CHR '':'' # b64 t) = [b64 c, b64 t]"
    using assms(1) by (simp add: split_on_append split_on_word base64_codec_def)
  then show ?thesis
    using assms by (simp add: extract_info_from_key_def generate_key_def base64_codec_def Let_def)
qed

end
