(* ===== verification/Topic_Store.thy ===== *)
theory Topic_Store
  imports Topic_Storage
begin

text \<open>
  The store of \<open>topic_storage.rs\<close> as a whole: its invariant, kept by every operation, the abstract
  state it stands for (per tenant, the active subscriptions and the retained packets) and what
  each operation does to it, and the lookups in terms of that state.
\<close>

section \<open>Filters and their targets\<close>

abbreviation levels :: "string \<Rightarrow> string list" where
  "levels \<equiv> split_on (CHR ''/'')"

text \<open>The filter a raw filter is stored under, and its share name.\<close>

definition filter_target :: "string \<Rightarrow> (string \<times> string option) option" where
  "filter_target raw =
     (case parse_shared_subscription_filter raw of
        Ok (Some f) \<Rightarrow> Some (shared_topic_filter f, Some (share_name f))
      | Ok None \<Rightarrow> Some (raw, None)
      | Err _ \<Rightarrow> None)"

lemma filter_target_raw:
  "filter_target raw = Some (store, share) \<Longrightarrow>
   raw = (case share of Some g \<Rightarrow> ''$share/'' @ g @ ''/'' @ store | None \<Rightarrow> store)"
  by (auto simp: filter_target_def shared_filter_iff split: result.splits option.splits)

lemma filter_target_inj:
  "filter_target raw = Some t \<Longrightarrow> filter_target raw' = Some t \<Longrightarrow> raw' = raw"
  by (cases t) (metis filter_target_raw)

definition new_subscription ::
  "string \<Rightarrow> u8 \<Rightarrow> bool \<Rightarrow> bool \<Rightarrow> string option \<Rightarrow> string \<Rightarrow> subscription" where
  "new_subscription client qos no_loc rap share store =
     \<lparr>client_identifier = client, sub_qos = qos, sub_no_local = no_loc,
      sub_retain_as_published = rap, shared_group = share, sub_topic_filter = store\<rparr>"

lemma node_key_new [simp]:
  "node_key b64 (new_subscription client qos no_loc rap share store) = subscription_key b64 client share"
  by (simp add: node_key_eq new_subscription_def)

lemma subscribe_eq:
  "subscribe_with_options b64 st tenant client raw qos no_loc rap =
     (case filter_target raw of
        None \<Rightarrow> map_err (\<lambda>e. InvalidTopicFilter (display_shared_error e))
                 (and_then (parse_shared_subscription_filter raw) (\<lambda>_. Ok st))
      | Some (store, share) \<Rightarrow>
          if \<not> test_topic store then Err (InvalidTopicFilter store)
          else
            (case hm_get (topic_tree st) tenant of
               None \<Rightarrow> Err (TenantNotFound tenant)
             | Some root \<Rightarrow>
                 Ok (st\<lparr>topic_tree := hm_insert tenant (recursion_subscribe b64 root (levels store)
                          (new_subscription client qos no_loc rap share store)) (topic_tree st),
                        topic_info_recorder := hm_modify tenant
                          (hm_or_insert (generate_key b64 client raw) qos)
                          (topic_info_recorder st)\<rparr>)))"
  by (cases "parse_shared_subscription_filter raw")
    (auto simp: subscribe_with_options_def filter_target_def new_subscription_def
      split: option.splits)

definition unsubscribe_keys :: "(string \<Rightarrow> string) \<Rightarrow> string \<Rightarrow> string option \<Rightarrow> string list" where
  "unsubscribe_keys b64 client share =
     (case share of
        Some g \<Rightarrow> [subscription_key b64 client (Some g)]
      | None \<Rightarrow> [subscription_key b64 client None, client])"

lemma unsubscribe_eq:
  "storage_unsubscribe b64 st tenant client raw =
     (case filter_target raw of
        None \<Rightarrow> map_err (\<lambda>e. InvalidTopicFilter (display_shared_error e))
                 (and_then (parse_shared_subscription_filter raw) (\<lambda>_. Ok st))
      | Some (store, share) \<Rightarrow>
          (case hm_get (topic_tree st) tenant of
             None \<Rightarrow> Err (TenantNotFound tenant)
           | Some root \<Rightarrow>
               and_then (recursion_unsubscription root (levels store)
                 (unsubscribe_keys b64 client share) client share) (\<lambda>root'.
               Ok (st\<lparr>topic_tree := hm_insert tenant root' (topic_tree st),
                      topic_info_recorder := hm_modify tenant
                        (hm_remove (generate_key b64 client raw)) (topic_info_recorder st)\<rparr>))))"
  by (cases "parse_shared_subscription_filter raw")
    (auto simp: storage_unsubscribe_def filter_target_def unsubscribe_keys_def subscription_key_def
      legacy_normal_subscription_key_def split: option.splits)

section \<open>The invariant\<close>

text \<open>
  The index of subscriptions has an entry exactly for the active ones, under a key that decodes,
  and the index of retained packets one for each topic that has one.
\<close>

definition index_ok :: "(string \<Rightarrow> string) \<Rightarrow> topic_storage_node \<Rightarrow> (string, u8) hash_map \<Rightarrow> bool" where
  "index_ok b64 root items \<longleftrightarrow>
     (\<forall>k. hm_get items k \<noteq> None \<longleftrightarrow>
        (\<exists>c raw store share. valid_str c \<and> valid_str raw \<and> k = generate_key b64 c raw \<and>
           filter_target raw = Some (store, share) \<and>
           sub_at root (levels store) (subscription_key b64 c share) \<noteq> None))"

definition retain_index_ok :: "topic_storage_node \<Rightarrow> (string, string \<times> u8) hash_map \<Rightarrow> bool" where
  "retain_index_ok root recs \<longleftrightarrow>
     (\<forall>topic. hm_get recs topic \<noteq> None \<longleftrightarrow> retained_at root (levels topic) \<noteq> None)"

definition tenant_ok ::
  "(string \<Rightarrow> string) \<Rightarrow> topic_storage_node \<Rightarrow> (string, u8) hash_map \<Rightarrow>
   (string, string \<times> u8) hash_map \<Rightarrow> bool" where
  "tenant_ok b64 root items recs \<longleftrightarrow>
     tree_ok b64 [] root \<and> hm_ok items \<and> hm_ok recs \<and> index_ok b64 root items \<and>
     retain_index_ok root recs"

definition storage_ok :: "(string \<Rightarrow> string) \<Rightarrow> topic_storage \<Rightarrow> bool" where
  "storage_ok b64 st \<longleftrightarrow>
     hm_ok (topic_tree st) \<and> hm_ok (topic_info_recorder st) \<and> hm_ok (retain_message_recorder st) \<and>
     (\<forall>tenant.
        (case (hm_get (topic_tree st) tenant, hm_get (topic_info_recorder st) tenant,
               hm_get (retain_message_recorder st) tenant) of
           (None, None, None) \<Rightarrow> True
         | (Some root, Some items, Some recs) \<Rightarrow> tenant_ok b64 root items recs
         | _ \<Rightarrow> False))"

lemma storage_okD:
  assumes "storage_ok b64 st" and "hm_get (topic_tree st) tenant = Some root"
  obtains items recs where "hm_get (topic_info_recorder st) tenant = Some items"
    and "hm_get (retain_message_recorder st) tenant = Some recs" and "tenant_ok b64 root items recs"
proof -
  have "case (hm_get (topic_tree st) tenant, hm_get (topic_info_recorder st) tenant,
        hm_get (retain_message_recorder st) tenant) of
      (None, None, None) \<Rightarrow> True
    | (Some root, Some items, Some recs) \<Rightarrow> tenant_ok b64 root items recs
    | _ \<Rightarrow> False"
    using assms(1) unfolding storage_ok_def by blast
  with assms(2) that show ?thesis
    by (cases "hm_get (topic_info_recorder st) tenant";
        cases "hm_get (retain_message_recorder st) tenant") auto
qed

lemma storage_ok_update:
  assumes "storage_ok b64 st" and "hm_get (topic_tree st) tenant = Some root"
    and "\<And>items recs. tenant_ok b64 root items recs \<Longrightarrow> tenant_ok b64 root' (f items) (g recs)"
  shows "storage_ok b64 \<lparr>retain_message_recorder = hm_modify tenant g (retain_message_recorder st),
     topic_info_recorder = hm_modify tenant f (topic_info_recorder st),
     topic_tree = hm_insert tenant root' (topic_tree st)\<rparr>"
proof -
  obtain items recs where "hm_get (topic_info_recorder st) tenant = Some items"
    and "hm_get (retain_message_recorder st) tenant = Some recs" and "tenant_ok b64 root items recs"
    using storage_okD [OF assms(1,2)] .
  with assms show ?thesis
    by (simp add: storage_ok_def)
qed

lemma hm_modify_id: "hm_ok m \<Longrightarrow> hm_modify k (\<lambda>x. x) m = m"
  by (auto simp: hm_modify_def hm_insert_present split: option.splits)

lemma tenant_ok_new: "tenant_ok b64 (node_new p) [] []"
  by (simp add: tenant_ok_def index_ok_def retain_index_ok_def)

lemma storage_ok_create: "storage_ok b64 st \<Longrightarrow> storage_ok b64 (create_tenant tenant st)"
proof -
  assume ok: "storage_ok b64 st"
  have "tenant_ok b64 (node_new ''/'') [] []" by (rule tenant_ok_new)
  with ok show ?thesis
    by (auto simp: storage_ok_def create_tenant_def split: option.splits
        dest!: spec [of _ tenant])
qed

lemma storage_ok_new: "storage_ok b64 topic_storage_new"
  unfolding topic_storage_new_def
  by (rule storage_ok_create) (simp add: storage_ok_def)

lemma index_ok_subscribe:
  assumes b: "base64_codec b64 unb64" and i: "index_ok b64 root items"
    and t: "filter_target raw = Some (store, share)" and v: "valid_str c" "valid_str raw"
  shows "index_ok b64 (recursion_subscribe b64 root (levels store)
           (new_subscription c qos no_loc rap share store))
         (hm_or_insert (generate_key b64 c raw) qos items)"
  unfolding index_ok_def
proof (intro allI iffI)
  fix k
  let ?root = "recursion_subscribe b64 root (levels store) (new_subscription c qos no_loc rap share store)"
  let ?P = "\<lambda>root. \<exists>c raw store share. valid_str c \<and> valid_str raw \<and> k = generate_key b64 c raw \<and>
     filter_target raw = Some (store, share) \<and>
     sub_at root (levels store) (subscription_key b64 c share) \<noteq> None"
  { assume a: "hm_get (hm_or_insert (generate_key b64 c raw) qos items) k \<noteq> None"
    show "?P ?root"
    proof (cases "k = generate_key b64 c raw")
      case True
      then show ?thesis using t v by (auto simp: sub_at_subscribe)
    next
      case False
      with a i have "?P root" by (simp add: index_ok_def)
      then show ?thesis by (simp add: sub_at_subscribe) blast
    qed }
  { assume "?P ?root"
    then obtain c' raw' store' share' where w: "valid_str c'" "valid_str raw'"
      "k = generate_key b64 c' raw'" "filter_target raw' = Some (store', share')"
      "sub_at ?root (levels store') (subscription_key b64 c' share') \<noteq> None" by blast
    show "hm_get (hm_or_insert (generate_key b64 c raw) qos items) k \<noteq> None"
    proof (cases "store' = store \<and> c' = c \<and> share' = share")
      case True
      with w t filter_target_inj have "raw' = raw" by blast
      with True w show ?thesis by simp
    next
      case False
      with w(5) have "sub_at root (levels store') (subscription_key b64 c' share') \<noteq> None"
        by (auto simp: sub_at_subscribe split_on_inj subscription_key_inj [OF b] split: if_splits)
      with w i have "hm_get items k \<noteq> None"
        unfolding index_ok_def by blast
      then show ?thesis by (auto split: option.splits)
    qed }
qed

lemma storage_ok_subscribe:
  assumes "base64_codec b64 unb64" and "storage_ok b64 st" and "valid_str c" and "valid_str raw"
    and "subscribe_with_options b64 st tenant c raw qos no_loc rap = Ok st'"
  shows "storage_ok b64 st'"
proof -
  from assms(5) obtain store share root where s: "filter_target raw = Some (store, share)"
    "hm_get (topic_tree st) tenant = Some root"
    "st' = st\<lparr>topic_tree := hm_insert tenant (recursion_subscribe b64 root (levels store)
              (new_subscription c qos no_loc rap share store)) (topic_tree st),
            topic_info_recorder := hm_modify tenant (hm_or_insert (generate_key b64 c raw) qos)
              (topic_info_recorder st)\<rparr>"
    by (cases "parse_shared_subscription_filter raw")
      (auto simp: subscribe_eq filter_target_def split: option.splits if_splits)
  let ?sub = "new_subscription c qos no_loc rap share store"
  have t: "tenant_ok b64 (recursion_subscribe b64 root (levels store) ?sub)
      (hm_or_insert (generate_key b64 c raw) qos items) recs"
    if "tenant_ok b64 root items recs" for items recs
    using that index_ok_subscribe [OF assms(1) _ s(1) assms(3,4)] tree_ok_subscribe [of b64 "[]" root ?sub]
    by (simp add: tenant_ok_def retain_index_ok_def retained_at_subscribe new_subscription_def)
  have "hm_ok (retain_message_recorder st)"
    using assms(2) by (simp add: storage_ok_def)
  with storage_ok_update [OF assms(2) s(2), of _ _ "\<lambda>x. x", OF t] s(3) show ?thesis
    by (cases st) (simp add: hm_modify_id)
qed

lemma unsubscribed_at:
  assumes "base64_codec b64 unb64" and "tree_ok b64 [] root"
    and "recursion_unsubscription root ps (unsubscribe_keys b64 c share) c share = Ok root'"
  shows "sub_at root' qs (subscription_key b64 c' share') =
    (if qs = ps \<and> c' = c \<and> share' = share then None else sub_at root qs (subscription_key b64 c' share'))"
proof (cases "sub_at root qs (subscription_key b64 c' share')")
  case (Some s)
  then have "client_identifier s = c' \<and> shared_group s = share'"
    using sub_at_content [OF assms(2) Some] by (simp add: node_key_eq subscription_key_inj [OF assms(1)])
  moreover have "subscription_key b64 c share \<in> set (unsubscribe_keys b64 c share)"
    by (simp add: unsubscribe_keys_def split: option.splits)
  ultimately show ?thesis
    using sub_at_unsubscription [OF assms(3), of qs "subscription_key b64 c' share'"] Some by auto
qed (simp add: sub_at_unsubscription [OF assms(3)])

lemma index_ok_unsubscribe:
  assumes b: "base64_codec b64 unb64" and o: "tree_ok b64 [] root" and i: "index_ok b64 root items"
    and t: "filter_target raw = Some (store, share)"
    and u: "recursion_unsubscription root (levels store) (unsubscribe_keys b64 c share) c share = Ok root'"
  shows "index_ok b64 root' (hm_remove (generate_key b64 c raw) items)"
  unfolding index_ok_def
proof (intro allI iffI)
  fix k
  note at = unsubscribed_at [OF b o u]
  let ?P = "\<lambda>root. \<exists>c raw store share. valid_str c \<and> valid_str raw \<and> k = generate_key b64 c raw \<and>
     filter_target raw = Some (store, share) \<and>
     sub_at root (levels store) (subscription_key b64 c share) \<noteq> None"
  { assume a: "hm_get (hm_remove (generate_key b64 c raw) items) k \<noteq> None"
    with i have "?P root" by (auto simp: index_ok_def split: if_splits)
    then obtain c' raw' store' share' where w: "valid_str c'" "valid_str raw'"
      "k = generate_key b64 c' raw'" "filter_target raw' = Some (store', share')"
      "sub_at root (levels store') (subscription_key b64 c' share') \<noteq> None" by blast
    have "\<not> (store' = store \<and> c' = c \<and> share' = share)"
      using a w t filter_target_inj [OF t, of raw'] by auto
    with w show "?P root'"
      by (intro exI [of _ c'] exI [of _ raw'] exI [of _ store'] exI [of _ share'])
        (simp add: at split_on_inj) }
  { assume "?P root'"
    then obtain c' raw' store' share' where w: "valid_str c'" "valid_str raw'"
      "k = generate_key b64 c' raw'" "filter_target raw' = Some (store', share')"
      "sub_at root' (levels store') (subscription_key b64 c' share') \<noteq> None" by blast
    then have "sub_at root (levels store') (subscription_key b64 c' share') \<noteq> None"
      and n: "\<not> (store' = store \<and> c' = c \<and> share' = share)"
      by (auto simp: at split: if_splits)
    with w i have "hm_get items k \<noteq> None"
      unfolding index_ok_def by blast
    moreover have "k \<noteq> generate_key b64 c raw"
      using n w t by (auto simp: generate_key_inj [OF b])
    ultimately show "hm_get (hm_remove (generate_key b64 c raw) items) k \<noteq> None"
      by simp }
qed

lemma storage_ok_unsubscribe:
  assumes "base64_codec b64 unb64" and "storage_ok b64 st"
    and "storage_unsubscribe b64 st tenant c raw = Ok st'"
  shows "storage_ok b64 st'"
proof -
  from assms(3) obtain store share root root' where s: "filter_target raw = Some (store, share)"
    "hm_get (topic_tree st) tenant = Some root"
    "recursion_unsubscription root (levels store) (unsubscribe_keys b64 c share) c share = Ok root'"
    "st' = st\<lparr>topic_tree := hm_insert tenant root' (topic_tree st),
            topic_info_recorder := hm_modify tenant (hm_remove (generate_key b64 c raw))
              (topic_info_recorder st)\<rparr>"
    by (cases "parse_shared_subscription_filter raw")
      (auto simp: unsubscribe_eq filter_target_def and_then_eq_Ok split: option.splits if_splits)
  have t: "tenant_ok b64 root' (hm_remove (generate_key b64 c raw) items) recs"
    if "tenant_ok b64 root items recs" for items recs
    using that index_ok_unsubscribe [OF assms(1) _ _ s(1,3)] tree_ok_unsubscription [OF _ s(3)]
    by (auto simp: tenant_ok_def retain_index_ok_def retained_at_unsubscription [OF s(3)])
  have "hm_ok (retain_message_recorder st)"
    using assms(2) by (simp add: storage_ok_def)
  with storage_ok_update [OF assms(2) s(2), of _ _ "\<lambda>x. x", OF t] s(4) show ?thesis
    by (cases st) (simp add: hm_modify_id)
qed

lemma storage_ok_register_retain:
  assumes "storage_ok b64 st" and "register_retain_publish_packet st tenant source packet = Ok st'"
  shows "storage_ok b64 st'"
proof (cases "\<exists>p. packet = Publish p")
  case False
  with assms show ?thesis
    by (cases packet) (auto simp: register_retain_publish_packet_def)
next
  case True
  then obtain p where p: "packet = Publish p" by blast
  let ?t = "topic_name p"
  from assms(2) p obtain root where s: "hm_get (topic_tree st) tenant = Some root"
    "st' = st\<lparr>topic_tree := hm_insert tenant
              (recursion_retain_publish_packet root (levels ?t) (Publish p)) (topic_tree st),
            retain_message_recorder := hm_modify tenant (hm_insert ?t (source, publish_qos p))
              (retain_message_recorder st)\<rparr>"
    by (auto simp: register_retain_publish_packet_def split: option.splits if_splits)
  have t: "tenant_ok b64 (recursion_retain_publish_packet root (levels ?t) (Publish p)) items
      (hm_insert ?t (source, publish_qos p) recs)"
    if "tenant_ok b64 root items recs" for items recs
    using that tree_ok_retain [of b64 "[]" root]
    by (auto simp: tenant_ok_def retain_index_ok_def index_ok_def retained_at_retain sub_at_retain
        split_on_inj)
  have "hm_ok (topic_info_recorder st)"
    using assms(1) by (simp add: storage_ok_def)
  with storage_ok_update [OF assms(1) s(1), of _ "\<lambda>x. x", OF t] s(2) show ?thesis
    by (cases st) (simp add: hm_modify_id)
qed

lemma storage_ok_clean_retain:
  assumes "storage_ok b64 st" and "clean_retain_publish_packet st tenant topic = Ok st'"
  shows "storage_ok b64 st'"
proof -
  from assms(2) obtain root root' where s: "hm_get (topic_tree st) tenant = Some root"
    "recursion_clean_retain_publish_packet root (levels topic) = Ok root'"
    "st' = st\<lparr>topic_tree := hm_insert tenant root' (topic_tree st),
            retain_message_recorder := hm_modify tenant (hm_remove topic) (retain_message_recorder st)\<rparr>"
    by (auto simp: clean_retain_publish_packet_def and_then_eq_Ok split: option.splits)
  have t: "tenant_ok b64 root' items (hm_remove topic recs)"
    if "tenant_ok b64 root items recs" for items recs
    using that tree_ok_clean_retain [OF _ s(2)] clean_retain_at [OF s(2)]
    by (auto simp: tenant_ok_def retain_index_ok_def index_ok_def split_on_inj)
  have "hm_ok (topic_info_recorder st)"
    using assms(1) by (simp add: storage_ok_def)
  with storage_ok_update [OF assms(1) s(1), of _ "\<lambda>x. x", OF t] s(3) show ?thesis
    by (cases st) (simp add: hm_modify_id)
qed

section \<open>The state the store stands for\<close>

text \<open>
  Per tenant, the active subscriptions by levels of the filter, client and share name, and the
  retained packets by levels of the topic.
\<close>

type_synonym abstract_tenant =
  "(string list \<times> string \<times> string option \<rightharpoonup> subscription) \<times> (string list \<rightharpoonup> packet)"

definition abs_tenant :: "(string \<Rightarrow> string) \<Rightarrow> topic_storage_node \<Rightarrow> abstract_tenant" where
  "abs_tenant b64 root =
     (\<lambda>(f, c, share). sub_at root f (subscription_key b64 c share), \<lambda>t. retained_at root t)"

definition abs_store :: "(string \<Rightarrow> string) \<Rightarrow> topic_storage \<Rightarrow> (string \<rightharpoonup> abstract_tenant)" where
  "abs_store b64 st = (\<lambda>tenant. map_option (abs_tenant b64) (hm_get (topic_tree st) tenant))"

lemma abs_storeE:
  assumes "abs_store b64 st tenant = Some (subs, ret)"
  obtains root where "hm_get (topic_tree st) tenant = Some root"
    and "subs = (\<lambda>(f, c, share). sub_at root f (subscription_key b64 c share))"
    and "ret = retained_at root"
  using assms by (auto simp: abs_store_def abs_tenant_def)

lemma abs_store_insert:
  "abs_store b64 (st\<lparr>topic_tree := hm_insert tenant root (topic_tree st), topic_info_recorder := x\<rparr>) =
     (abs_store b64 st)(tenant \<mapsto> abs_tenant b64 root)"
  "abs_store b64 (st\<lparr>topic_tree := hm_insert tenant root (topic_tree st), retain_message_recorder := y\<rparr>) =
     (abs_store b64 st)(tenant \<mapsto> abs_tenant b64 root)"
  by (auto simp: abs_store_def)

lemma abs_tenant_subscribe:
  assumes "base64_codec b64 unb64"
  shows "abs_tenant b64 (recursion_subscribe b64 root f (new_subscription c q nl rap share store)) =
    ((fst (abs_tenant b64 root))((f, c, share) \<mapsto> new_subscription c q nl rap share store),
     snd (abs_tenant b64 root))"
  by (auto simp: abs_tenant_def sub_at_subscribe retained_at_subscribe fun_eq_iff
      subscription_key_inj [OF assms])

lemma abs_tenant_unsubscribe:
  assumes "base64_codec b64 unb64" and "tree_ok b64 [] root"
    and "recursion_unsubscription root f (unsubscribe_keys b64 c share) c share = Ok root'"
  shows "abs_tenant b64 root' =
    ((fst (abs_tenant b64 root))((f, c, share) := None), snd (abs_tenant b64 root))"
  by (auto simp: abs_tenant_def unsubscribed_at [OF assms] retained_at_unsubscription [OF assms(3)]
      fun_eq_iff)

lemma unsubscription_Err:
  "recursion_unsubscription node ps keys c g = Err e \<Longrightarrow>
   (\<exists>p. e = TopicNotFound p) \<and> sub_at node ps k = None"
proof (induction ps arbitrary: node)
  case (Cons p ps)
  then show ?case
    by (auto simp: and_then_eq_Err split: option.splits)
qed simp

lemma clean_retain_Err:
  "recursion_clean_retain_publish_packet node ps = Err e \<Longrightarrow>
   (\<exists>p. e = TopicNotFound p) \<and> retained_at node ps = None"
proof (induction ps arbitrary: node)
  case (Cons p ps)
  then show ?case
    by (auto simp: and_then_eq_Err split: option.splits)
qed simp

lemma split_on_snoc: "split_on c (s @ c # t) = split_on c s @ split_on c t"
proof (induction s)
  case (Cons x s)
  obtain w ws where "split_on c s = w # ws"
    using split_on_nonempty by (meson neq_Nil_conv)
  with Cons show ?case by auto
qed simp

lemma matches_parent: "\<not> subscription_matches (t @ [''#'']) t"
  by (induction t) auto

lemma filter_matches_parent: "filter_matches (t @ [''#'']) t"
  by (induction t) auto

lemma subscription_matches_protocol:
  "filter_levels_ok f \<Longrightarrow> subscription_matches f t \<longleftrightarrow> filter_matches f t \<and> length f \<le> length t"
  by (induction f t rule: subscription_matches.induct) (auto simp: plain_level_def)

lemma filter_levels_ok_parent: "(\<forall>l\<in>set t. plain_level l) \<Longrightarrow> filter_levels_ok (t @ [''#''])"
  by (induction t) auto

lemma delivered_set:
  assumes "tree_ok b64 [] root" and "''#'' \<notin> set ts" and "''+'' \<notin> set ts"
  shows "distinct (recursion_get_subscriptions root ts)"
    and "set (recursion_get_subscriptions root ts) =
      {s. \<exists>f c share. sub_at root f (subscription_key b64 c share) = Some s \<and> subscription_matches f ts}"
proof -
  have m: "mset (recursion_get_subscriptions root ts) = mset (matched root ts)"
    by (rule recursion_get_subscriptions_mset [OF assms])
  have "distinct (matched root ts)"
    using tree_subs_distinct [OF assms(1)] by (simp add: matched_def distinct_map_filter)
  then show "distinct (recursion_get_subscriptions root ts)"
    using mset_eq_imp_distinct_iff [OF m] by blast
  have "set (recursion_get_subscriptions root ts) = set (matched root ts)"
    by (rule mset_eq_setD [OF m])
  also have "\<dots> = {s. \<exists>f. sub_at root f (node_key b64 s) = Some s \<and> subscription_matches f ts}"
    by (force simp: matched_def tree_subs_at [OF assms(1)])
  also have "\<dots> = {s. \<exists>f c share. sub_at root f (subscription_key b64 c share) = Some s \<and>
      subscription_matches f ts}"
    using sub_at_content [OF assms(1)] by (auto simp: node_key_eq)
  finally show "set (recursion_get_subscriptions root ts) =
      {s. \<exists>f c share. sub_at root f (subscription_key b64 c share) = Some s \<and> subscription_matches f ts}" .
qed

lemma retained_set:
  assumes "tree_ok b64 [] root"
  shows "set (recursion_get_retain_packet root fs) =
    {packet. \<exists>t. retained_at root t = Some packet \<and> filter_matches fs t}"
  by (force simp: recursion_get_retain_packet_eq [OF assms] tree_retained_at [OF assms])

lemma storage_tree_ok:
  "storage_ok b64 st \<Longrightarrow> hm_get (topic_tree st) tenant = Some root \<Longrightarrow> tree_ok b64 [] root"
  by (erule storage_okD) (auto simp: tenant_ok_def)

lemma those_map_Some: "(\<And>x. x \<in> set xs \<Longrightarrow> f x = Some (g x)) \<Longrightarrow> those (map f xs) = Some (map g xs)"
  by (induction xs) auto

lemma listing_rows:
  assumes "base64_codec b64 unb64" and "index_ok b64 root items" and "hm_ok items"
  shows "\<exists>rows. length rows = length items \<and>
    (\<forall>n m. those (map (\<lambda>(key, qos). map_option (\<lambda>(client, topic). (client, topic, qos))
      (extract_info_from_key unb64 key)) (take m (drop n items))) = Some (take m (drop n rows))) \<and>
    (\<forall>c raw. (\<exists>q. (c, raw, q) \<in> set rows) \<longleftrightarrow> hm_get items (generate_key b64 c raw) \<noteq> None)"
proof -
  define dec where "dec = (\<lambda>e :: string \<times> u8. case the (extract_info_from_key unb64 (fst e)) of
    (c, t) \<Rightarrow> (c, t, snd e))"
  have d: "\<exists>c raw. valid_str c \<and> valid_str raw \<and> k = generate_key b64 c raw" if "(k, q) \<in> set items" for k q
  proof -
    have "hm_get items k \<noteq> None" using that assms(3) by (auto simp: hm_mem_get)
    with assms(2) show ?thesis unfolding index_ok_def by blast
  qed
  have x: "extract_info_from_key unb64 (generate_key b64 c raw) = Some (c, raw)"
    if "hm_get items (generate_key b64 c raw) \<noteq> None" for c raw
  proof -
    from that assms(2) obtain c' raw' where "valid_str c'" "valid_str raw'"
      "generate_key b64 c raw = generate_key b64 c' raw'" unfolding index_ok_def by blast
    then show ?thesis
      using extract_generate [OF assms(1)] by (auto simp: generate_key_inj [OF assms(1)])
  qed
  have "those (map (\<lambda>(key, qos). map_option (\<lambda>(client, topic). (client, topic, qos))
      (extract_info_from_key unb64 key)) (take m (drop n items))) =
      Some (take m (drop n (map dec items)))" for n m
    unfolding drop_map take_map
  proof (rule those_map_Some)
    fix e assume "e \<in> set (take m (drop n items))"
    then have "e \<in> set items" by (meson in_set_dropD in_set_takeD)
    with d [of "fst e" "snd e"] show "(case e of (key, qos) \<Rightarrow> map_option
        (\<lambda>(client, topic). (client, topic, qos)) (extract_info_from_key unb64 key)) = Some (dec e)"
      using extract_generate [OF assms(1)] by (auto simp: dec_def case_prod_unfold)
  qed
  moreover have "(\<exists>q. (c, raw, q) \<in> set (map dec items)) \<longleftrightarrow>
      hm_get items (generate_key b64 c raw) \<noteq> None" for c raw
  proof
    assume "\<exists>q. (c, raw, q) \<in> set (map dec items)"
    then obtain k q where e: "(k, q) \<in> set items" "dec (k, q) = (c, raw, q)"
      by (auto simp: dec_def case_prod_unfold)
    from d [OF e(1)] obtain c' raw' where "valid_str c'" "valid_str raw'" "k = generate_key b64 c' raw'"
      by blast
    with e extract_generate [OF assms(1)] assms(3) show "hm_get items (generate_key b64 c raw) \<noteq> None"
      by (auto simp: dec_def hm_mem_get)
  next
    assume a: "hm_get items (generate_key b64 c raw) \<noteq> None"
    then obtain q where "(generate_key b64 c raw, q) \<in> set items"
      by (auto dest: map_of_SomeD)
    moreover have "dec (generate_key b64 c raw, q) = (c, raw, q)"
      using x [OF a] by (simp add: dec_def)
    ultimately show "\<exists>q. (c, raw, q) \<in> set (map dec items)"
      by (metis image_eqI list.set_map)
  qed
  ultimately show ?thesis
    by (intro exI [of _ "map dec items"]) simp
qed

lemma storage_restore:
  assumes "storage_ok b64 st" and "from_slice bs = Ok (storage_to_serializable st)"
  shows "storage_from_snapshot b64 from_slice bs = Ok st"
proof -
  have o: "hm_ok (topic_tree st)"
    using assms(1) by (simp add: storage_ok_def)
  have "node_from_serializable b64 (node_to_serializable n) = n" if "(k, n) \<in> set (topic_tree st)" for k n
    using that storage_tree_ok [OF assms(1), of k n] by (auto simp: hm_mem_get [OF o] intro: node_serializable_roundtrip)
  then have "map (\<lambda>(k, v). (k, node_from_serializable b64 v))
      (map (\<lambda>(k, v). (k, node_to_serializable v)) (topic_tree st)) = topic_tree st"
    by (auto intro!: map_idI)
  with o show ?thesis
    by (cases st)
      (simp add: storage_from_snapshot_def assms(2) storage_from_serializable_def
        storage_to_serializable_def hm_collect_id)
qed

section \<open>A codec and a store for the examples\<close>

definition hex_encode :: "string \<Rightarrow> string" where
  "hex_encode s = concat (map (\<lambda>c. [char_of (65 + of_char c div 16 :: nat), char_of (65 + of_char c mod 16 :: nat)]) s)"

fun hex_decode :: "string \<Rightarrow> string option" where
  "hex_decode [] = Some []"
| "hex_decode [x] = None"
| "hex_decode (x # y # s) =
     map_option (Cons (char_of ((of_char x - 65) * 16 + (of_char y - 65) :: nat))) (hex_decode s)"

lemma hex_codec: "base64_codec hex_encode hex_decode"
proof -
  have b: "(of_char c :: nat) < 256" for c :: char
    by (rule nat_of_char_less_256)
  have "hex_decode (hex_encode s) = Some s" for s
  proof (induction s)
    case (Cons c s)
    have "(of_char c :: nat) div 16 < 16" "(of_char c :: nat) mod 16 < 16"
      using b [of c] by (auto simp: less_mult_imp_div_less)
    with Cons show ?case
      by (simp add: hex_encode_def of_char_of)
  qed (simp add: hex_encode_def)
  moreover have "CHR '':'' \<notin> set (hex_encode s)" for s
  proof
    assume "CHR '':'' \<in> set (hex_encode s)"
    then obtain c where "CHR '':'' = char_of (65 + (of_char c :: nat) div 16) \<or>
        CHR '':'' = char_of (65 + (of_char c :: nat) mod 16)"
      by (auto simp: hex_encode_def)
    moreover have "(of_char c :: nat) div 16 < 16" "(of_char c :: nat) mod 16 < 16"
      using b [of c] by (auto simp: less_mult_imp_div_less)
    ultimately obtain n :: nat where n: "n < 16" "CHR '':'' = char_of (65 + n)" by blast
    from n(2) have "(of_char (CHR '':'') :: nat) = of_char (char_of (65 + n) :: char)" by simp
    with n(1) have "(of_char (CHR '':'') :: nat) = 65 + n" by (simp only: of_char_of) simp
    then show False by simp
  qed
  ultimately show ?thesis by (simp add: base64_codec_def)
qed

definition example_retained :: packet where
  "example_retained =
     Publish \<lparr>publish_protocol_version = V5_0, topic_name = ''a'', payload = [1], publish_qos = 1,
       retain = True, dup = False, publish_packet_identifier = None,
       publish_properties = default_properties, expires_at_unix_secs = None\<rparr>"

text \<open>Client \<open>c\<close> subscribed to \<open>a/#\<close>, and a packet retained for \<open>a\<close>.\<close>

definition example_root :: topic_storage_node where
  "example_root =
     recursion_retain_publish_packet
       (recursion_subscribe hex_encode (node_new ''/'') [''a'', ''#'']
         (new_subscription ''c'' 1 False False None ''a/#'')) [''a''] example_retained"

definition example_store :: topic_storage where
  "example_store =
     \<lparr>retain_message_recorder = [(''public'', [(''a'', ''d'', 1)])],
      topic_info_recorder = [(''public'', [(generate_key hex_encode ''c'' ''a/#'', 1)])],
      topic_tree = [(''public'', example_root)]\<rparr>"

lemma example_levels:
  "levels ''a/#'' = [''a'', ''#'']" "levels ''a'' = [''a'']" "levels ''a/b'' = [''a'', ''b'']"
  by simp_all

lemma example_store_steps:
  "subscribe_with_options hex_encode topic_storage_new ''public'' ''c'' ''a/#'' 1 False False =
     Ok \<lparr>retain_message_recorder = [(''public'', [])],
         topic_info_recorder = [(''public'', [(generate_key hex_encode ''c'' ''a/#'', 1)])],
         topic_tree = [(''public'', recursion_subscribe hex_encode (node_new ''/'') [''a'', ''#'']
           (new_subscription ''c'' 1 False False None ''a/#''))]\<rparr>"
  "register_retain_publish_packet
     \<lparr>retain_message_recorder = [(''public'', [])],
         topic_info_recorder = [(''public'', [(generate_key hex_encode ''c'' ''a/#'', 1)])],
         topic_tree = [(''public'', recursion_subscribe hex_encode (node_new ''/'') [''a'', ''#'']
           (new_subscription ''c'' 1 False False None ''a/#''))]\<rparr> ''public'' ''d'' example_retained
     = Ok example_store"
   apply (simp add: subscribe_with_options_def topic_storage_new_def create_tenant_def
      parse_shared_subscription_filter_def strip_prefix_def test_topic_def hm_or_insert_def
      hm_modify_def new_subscription_def Let_def)
  apply (simp add: register_retain_publish_packet_def example_retained_def test_topic_def
      hm_modify_def example_store_def example_root_def Let_def)
  done

lemma example_store_ok: "storage_ok hex_encode example_store"
proof -
  have v: "valid_str ''c''" "valid_str ''a/#''"
    by (simp_all add: valid_str_def as_bytes_def byte_of_char_def)
  from storage_ok_subscribe [OF hex_codec storage_ok_new v example_store_steps(1)]
  show ?thesis by (rule storage_ok_register_retain [OF _ example_store_steps(2)])
qed

lemma example_abs:
  "abs_store hex_encode example_store ''public'' = Some (abs_tenant hex_encode example_root)"
  by (simp add: abs_store_def example_store_def)

lemma example_at:
  "sub_at example_root [''a'', ''#''] (subscription_key hex_encode ''c'' None)
     = Some (new_subscription ''c'' 1 False False None ''a/#'')"
  "retained_at example_root [''a''] = Some example_retained"
  by (simp_all del: sub_at.simps retained_at.simps recursion_subscribe.simps
      recursion_retain_publish_packet.simps
      add: example_root_def sub_at_retain sub_at_subscribe retained_at_retain)

section \<open>Properties\<close>

text \<open>
  C27: subscribing refines an update of the abstract map: exactly the entry for the filter's levels,
  the client and the share name becomes the new subscription; nothing else of any tenant changes.
\<close>

theorem subscribe_refines:
  assumes "base64_codec b64 unb64" and "filter_target raw = Some (store, share)"
    and "test_topic store" and "abs_store b64 st tenant = Some (subs, ret)"
  shows "\<exists>st'. subscribe_with_options b64 st tenant c raw q nl rap = Ok st' \<and>
    abs_store b64 st' = (abs_store b64 st)(tenant \<mapsto>
      (subs((levels store, c, share) \<mapsto>
         \<lparr>client_identifier = c, sub_qos = q, sub_no_local = nl, sub_retain_as_published = rap,
          shared_group = share, sub_topic_filter = store\<rparr>), ret))"
proof -
  from assms(4) obtain root where r: "hm_get (topic_tree st) tenant = Some root"
    "abs_tenant b64 root = (subs, ret)" by (auto simp: abs_store_def)
  show ?thesis
    using assms(2,3) r
    by (simp add: subscribe_eq abs_store_insert abs_tenant_subscribe [OF assms(1)])
      (simp add: new_subscription_def)
qed

theorem subscribe_refines_witness:
  "\<exists>st'. subscribe_with_options hex_encode example_store ''public'' ''e'' ''$share/g/a/b'' 2 False True = Ok st'"
proof -
  have "filter_target ''$share/g/a/b'' = Some (''a/b'', Some ''g'')"
    by (simp add: filter_target_def parse_shared_subscription_filter_def strip_prefix_def
        is_valid_share_name_def test_topic_def Let_def)
  from subscribe_refines [OF hex_codec this _
      example_abs [unfolded abs_tenant_def], of "''e''" 2 False True]
  show ?thesis by (auto simp: test_topic_def Let_def)
qed

text \<open>
  C28: unsubscribing refines the removal of that one entry; when it fails because a level of the
  filter is unknown, there was no such subscription.
\<close>

theorem unsubscribe_refines:
  assumes "base64_codec b64 unb64" and "storage_ok b64 st"
    and "filter_target raw = Some (store, share)" and "abs_store b64 st tenant = Some (subs, ret)"
  shows "case storage_unsubscribe b64 st tenant c raw of
      Ok st' \<Rightarrow> abs_store b64 st' =
        (abs_store b64 st)(tenant \<mapsto> (subs((levels store, c, share) := None), ret))
    | Err e \<Rightarrow> (\<exists>l. e = TopicNotFound l) \<and> subs (levels store, c, share) = None"
proof -
  from assms(4) obtain root where r: "hm_get (topic_tree st) tenant = Some root"
    "abs_tenant b64 root = (subs, ret)" by (auto simp: abs_store_def)
  let ?u = "recursion_unsubscription root (levels store) (unsubscribe_keys b64 c share) c share"
  have o: "tree_ok b64 [] root" by (rule storage_tree_ok [OF assms(2) r(1)])
  have s: "subs (levels store, c, share) = sub_at root (levels store) (subscription_key b64 c share)"
    using r(2) by (auto simp: abs_tenant_def)
  show ?thesis
  proof (cases ?u)
    case (Ok root')
    with r assms(3) abs_tenant_unsubscribe [OF assms(1) o Ok] show ?thesis
      by (simp add: unsubscribe_eq abs_store_insert)
  next
    case (Err e)
    with r assms(3) unsubscription_Err [OF Err] s show ?thesis
      by (simp add: unsubscribe_eq)
  qed
qed

theorem unsubscribe_refines_witness:
  "\<exists>st'. storage_unsubscribe hex_encode example_store ''public'' ''c'' ''a/#'' = Ok st' \<and>
     abs_store hex_encode st' ''public'' =
       Some ((fst (abs_tenant hex_encode example_root))(([''a'', ''#''], ''c'', None) := None),
             snd (abs_tenant hex_encode example_root))"
proof -
  have t: "filter_target ''a/#'' = Some (''a/#'', None)"
    by (simp add: filter_target_def parse_shared_subscription_filter_def strip_prefix_def)
  have a: "fst (abs_tenant hex_encode example_root) (levels ''a/#'', ''c'', None) \<noteq> None"
    by (simp del: sub_at.simps retained_at.simps add: abs_tenant_def example_at)
  have "abs_store hex_encode example_store ''public'' =
      Some (fst (abs_tenant hex_encode example_root), snd (abs_tenant hex_encode example_root))"
    by (simp add: example_abs)
  from unsubscribe_refines [OF hex_codec example_store_ok t this, of "''c''"] a show ?thesis
    by (auto split: result.splits)
qed

text \<open>
  C3: a message to a topic without wildcards is given exactly the active subscriptions of its
  tenant whose filter matches the topic, each once, whether ordinary or shared.
\<close>

theorem delivery_exact:
  assumes "storage_ok b64 st" and "abs_store b64 st tenant = Some (subs, ret)"
    and "''#'' \<notin> set (levels topic)" and "''+'' \<notin> set (levels topic)"
  shows "\<exists>out. get_subscriptions st tenant topic = Ok out \<and> distinct out \<and>
    set out = {s. \<exists>f c share. subs (f, c, share) = Some s \<and> subscription_matches f (levels topic)}"
proof -
  from assms(2) obtain root where r: "hm_get (topic_tree st) tenant = Some root"
    "subs = (\<lambda>(f, c, share). sub_at root f (subscription_key b64 c share))"
    by (rule abs_storeE)
  from delivered_set [OF storage_tree_ok [OF assms(1) r(1)] assms(3,4)] show ?thesis
    by (simp add: get_subscriptions_def r)
qed

theorem delivery_exact_witness:
  "\<exists>out. get_subscriptions example_store ''public'' ''a/b'' = Ok out \<and>
     new_subscription ''c'' 1 False False None ''a/#'' \<in> set out"
proof -
  have "subscription_matches [''a'', ''#''] (levels ''a/b'')" by simp
  moreover have "fst (abs_tenant hex_encode example_root) ([''a'', ''#''], ''c'', None) =
      Some (new_subscription ''c'' 1 False False None ''a/#'')"
    by (simp del: sub_at.simps retained_at.simps add: abs_tenant_def example_at)
  moreover have "abs_store hex_encode example_store ''public'' =
      Some (fst (abs_tenant hex_encode example_root), snd (abs_tenant hex_encode example_root))"
    by (simp add: example_abs)
  ultimately show ?thesis
    using delivery_exact [OF example_store_ok, of "''public''" _ _ "''a/b''"] by fastforce
qed

text \<open>
  C29: a lookup of retained messages returns exactly the packets retained for the topics the filter
  matches under the protocol's rule, except those that have expired.
\<close>

theorem retained_exact:
  assumes "storage_ok b64 st" and "abs_store b64 st tenant = Some (subs, ret)" and "test_topic raw"
  shows "\<exists>out. get_retain_publish_packet st tenant raw now = Ok out \<and>
    set out = {packet. \<exists>t. ret t = Some packet \<and> filter_matches (levels raw) t \<and>
      \<not> is_packet_expired packet now}"
proof -
  from assms(2) obtain root where r: "hm_get (topic_tree st) tenant = Some root" "ret = retained_at root"
    by (rule abs_storeE)
  from retained_set [OF storage_tree_ok [OF assms(1) r(1)], of "levels raw"] show ?thesis
    using assms(3) by (auto simp: get_retain_publish_packet_def r)
qed

theorem retained_exact_witness:
  "\<exists>out. get_retain_publish_packet example_store ''public'' ''+'' 5 = Ok out \<and> example_retained \<in> set out"
proof -
  have "filter_matches (levels ''+'') [''a'']" by simp
  moreover have "snd (abs_tenant hex_encode example_root) [''a''] = Some example_retained"
    by (simp del: sub_at.simps retained_at.simps add: abs_tenant_def example_at)
  moreover have "\<not> is_packet_expired example_retained 5"
    by (simp add: example_retained_def is_packet_expired_def is_publish_expired_def)
  moreover have "abs_store hex_encode example_store ''public'' =
      Some (fst (abs_tenant hex_encode example_root), snd (abs_tenant hex_encode example_root))"
    by (simp add: example_abs)
  moreover have "test_topic ''+''" by (simp add: test_topic_def Let_def)
  ultimately show ?thesis
    using retained_exact [OF example_store_ok, of "''public''" _ _ "''+''" 5] by blast
qed

text \<open>
  Registering a retained packet replaces the one of its topic and cleaning a topic removes its
  packet, and neither changes anything else; a registration is refused exactly for an invalid topic
  name or an unknown tenant, a cleaning only where there is nothing to clean.
\<close>

theorem retained_updates_refine:
  "(case register_retain_publish_packet st tenant source (Publish p) of
      Ok st' \<Rightarrow> test_topic (topic_name p) \<and> (\<exists>subs ret. abs_store b64 st tenant = Some (subs, ret) \<and>
        abs_store b64 st' = (abs_store b64 st)(tenant \<mapsto> (subs, ret(levels (topic_name p) \<mapsto> Publish p))))
    | Err e \<Rightarrow> (if test_topic (topic_name p)
               then e = TenantNotFound tenant \<and> abs_store b64 st tenant = None
               else e = InvalidTopicFilter (topic_name p))) \<and>
   (case clean_retain_publish_packet st tenant topic of
      Ok st' \<Rightarrow> (\<exists>subs ret. abs_store b64 st tenant = Some (subs, ret) \<and>
        abs_store b64 st' = (abs_store b64 st)(tenant \<mapsto> (subs, ret(levels topic := None))))
    | Err e \<Rightarrow> (case abs_store b64 st tenant of
                None \<Rightarrow> e = TenantNotFound tenant
              | Some (subs, ret) \<Rightarrow> (\<exists>l. e = TopicNotFound l) \<and> ret (levels topic) = None))"
proof (cases "hm_get (topic_tree st) tenant")
  case None
  then show ?thesis
    by (simp add: register_retain_publish_packet_def clean_retain_publish_packet_def abs_store_def)
next
  case (Some root)
  have "abs_tenant b64 (recursion_retain_publish_packet root ls packet) =
      (fst (abs_tenant b64 root), (snd (abs_tenant b64 root))(ls \<mapsto> packet))" for ls packet
    by (auto simp: abs_tenant_def retained_at_retain sub_at_retain fun_eq_iff)
  moreover have "abs_tenant b64 root' =
      (fst (abs_tenant b64 root), (snd (abs_tenant b64 root))(levels topic := None))"
    if "recursion_clean_retain_publish_packet root (levels topic) = Ok root'" for root'
    using clean_retain_at [OF that] by (auto simp: abs_tenant_def fun_eq_iff)
  moreover have "snd (abs_tenant b64 root) (levels topic) = None \<and> (\<exists>l. e = TopicNotFound l)"
    if "recursion_clean_retain_publish_packet root (levels topic) = Err e" for e
    using clean_retain_Err [OF that] by (simp add: abs_tenant_def)
  moreover have "abs_store b64 st tenant = Some (abs_tenant b64 root)"
    by (simp add: abs_store_def Some)
  ultimately show ?thesis
    by (cases "abs_tenant b64 root"; cases "recursion_clean_retain_publish_packet root (levels topic)")
      (auto simp: register_retain_publish_packet_def clean_retain_publish_packet_def Some
        abs_store_insert)
qed

text \<open>
  C33: the multi-level wildcard stands for its parent level in a lookup of retained messages but not
  in the delivery of messages: a subscription to \<open>t/#\<close> is offered the packet retained for \<open>t\<close>, and
  is not among the receivers of a message to \<open>t\<close>.
\<close>

theorem parent_level_divergence:
  assumes "storage_ok b64 st" and "abs_store b64 st tenant = Some (subs, ret)"
    and "\<forall>l\<in>set (levels topic). CHR ''#'' \<notin> set l \<and> CHR ''+'' \<notin> set l"
    and "ret (levels topic) = Some packet" and "\<not> is_packet_expired packet now"
  shows "(\<exists>out. get_retain_publish_packet st tenant (topic @ ''/#'') now = Ok out \<and> packet \<in> set out) \<and>
    (\<exists>out. get_subscriptions st tenant topic = Ok out \<and>
       (\<forall>s\<in>set out. sub_topic_filter s \<noteq> topic @ ''/#''))"
proof
  have l: "levels (topic @ ''/#'') = levels topic @ [''#'']"
    using split_on_snoc [of "CHR ''/''" topic "''#''"] by simp
  from assms(2) obtain root where r: "hm_get (topic_tree st) tenant = Some root" "ret = retained_at root"
    by (rule abs_storeE)
  note o = storage_tree_ok [OF assms(1) r(1)]
  have "test_topic (topic @ ''/#'')"
    using assms(3) by (simp add: test_topic_iff l filter_levels_ok_parent plain_level_def)
  moreover have "packet \<in> set (recursion_get_retain_packet root (levels topic @ [''#'']))"
    using assms(4) by (auto simp: retained_set [OF o] r(2) intro: filter_matches_parent)
  ultimately show "\<exists>out. get_retain_publish_packet st tenant (topic @ ''/#'') now = Ok out \<and> packet \<in> set out"
    using assms(5) by (simp add: get_retain_publish_packet_def r(1) l)
  have "sub_topic_filter s \<noteq> topic @ ''/#''" if "s \<in> set (recursion_get_subscriptions root (levels topic))" for s
  proof -
    have "''#'' \<notin> set (levels topic)" "''+'' \<notin> set (levels topic)"
      using assms(3) by fastforce+
    with that delivered_set(2) [OF o] obtain f c share where
      "sub_at root f (subscription_key b64 c share) = Some s" "subscription_matches f (levels topic)"
      by blast
    with sub_at_content [OF o] matches_parent l show ?thesis by fastforce
  qed
  then show "\<exists>out. get_subscriptions st tenant topic = Ok out \<and>
      (\<forall>s\<in>set out. sub_topic_filter s \<noteq> topic @ ''/#'')"
    by (simp add: get_subscriptions_def r(1))
qed

theorem parent_level_divergence_witness:
  "(\<exists>out. get_retain_publish_packet example_store ''public'' (''a'' @ ''/#'') 5 = Ok out \<and>
      example_retained \<in> set out) \<and>
   (\<exists>out. get_subscriptions example_store ''public'' ''a'' = Ok out \<and>
      (\<forall>s\<in>set out. sub_topic_filter s \<noteq> ''a'' @ ''/#''))"
proof (rule parent_level_divergence [OF example_store_ok])
  show "abs_store hex_encode example_store ''public'' =
      Some (fst (abs_tenant hex_encode example_root), snd (abs_tenant hex_encode example_root))"
    by (simp add: example_abs)
  show "snd (abs_tenant hex_encode example_root) (levels ''a'') = Some example_retained"
    by (simp del: sub_at.simps retained_at.simps add: abs_tenant_def example_at)
  show "\<not> is_packet_expired example_retained 5"
    by (simp add: example_retained_def is_packet_expired_def is_publish_expired_def)
qed simp

text \<open>
  The pages of a tenant's subscription listing are slices of one list, whose rows are exactly
  the active subscriptions by client and raw filter; no key fails to decode.
\<close>

theorem listing_exact:
  assumes "base64_codec b64 unb64" and "storage_ok b64 st"
    and "abs_store b64 st tenant = Some (subs, ret)"
  shows "\<exists>rows. (\<forall>offset limit. get_topic_list_with_pagination unb64 st tenant offset limit =
      Some (Ok (word_of_nat (length rows), take (unat limit) (drop (unat offset) rows)))) \<and>
    (\<forall>c raw. (\<exists>q. (c, raw, q) \<in> set rows) \<longleftrightarrow> valid_str c \<and> valid_str raw \<and>
      (\<exists>store share. filter_target raw = Some (store, share) \<and> subs (levels store, c, share) \<noteq> None))"
proof -
  from assms(3) obtain root where r: "hm_get (topic_tree st) tenant = Some root"
    "subs = (\<lambda>(f, c, share). sub_at root f (subscription_key b64 c share))"
    by (rule abs_storeE)
  from storage_okD [OF assms(2) r(1)] obtain items recs where
    i: "hm_get (topic_info_recorder st) tenant = Some items" and t: "tenant_ok b64 root items recs" .
  then have o: "index_ok b64 root items" "hm_ok items" by (auto simp: tenant_ok_def)
  from listing_rows [OF assms(1) o] obtain rows where l: "length rows = length items"
    "\<And>n m. those (map (\<lambda>(key, qos). map_option (\<lambda>(client, topic). (client, topic, qos))
      (extract_info_from_key unb64 key)) (take m (drop n items))) = Some (take m (drop n rows))"
    "\<And>c raw. (\<exists>q. (c, raw, q) \<in> set rows) \<longleftrightarrow> hm_get items (generate_key b64 c raw) \<noteq> None"
    by metis
  have "hm_get items (generate_key b64 c raw) \<noteq> None \<longleftrightarrow> valid_str c \<and> valid_str raw \<and>
      (\<exists>store share. filter_target raw = Some (store, share) \<and> subs (levels store, c, share) \<noteq> None)"
    for c raw
    using o(1) unfolding index_ok_def r(2) by (auto simp: generate_key_inj [OF assms(1)])
  with l i show ?thesis
    by (intro exI [of _ rows]) (simp add: get_topic_list_with_pagination_def)
qed

theorem listing_exact_witness:
  "\<exists>rows. get_topic_list_with_pagination hex_decode example_store ''public'' 0 10 =
      Some (Ok (word_of_nat (length rows), take 10 rows)) \<and> (\<exists>q. (''c'', ''a/#'', q) \<in> set rows)"
proof -
  have a: "abs_store hex_encode example_store ''public'' =
      Some (fst (abs_tenant hex_encode example_root), snd (abs_tenant hex_encode example_root))"
    by (simp add: example_abs)
  have v: "valid_str ''c''" "valid_str ''a/#''"
    by (simp_all add: valid_str_def as_bytes_def byte_of_char_def)
  have t: "filter_target ''a/#'' = Some (''a/#'', None)"
    by (simp add: filter_target_def parse_shared_subscription_filter_def strip_prefix_def)
  have s: "fst (abs_tenant hex_encode example_root) (levels ''a/#'', ''c'', None) \<noteq> None"
    by (simp del: sub_at.simps retained_at.simps add: abs_tenant_def example_at)
  from listing_exact [OF hex_codec example_store_ok a] obtain rows where
    "\<And>offset limit. get_topic_list_with_pagination hex_decode example_store ''public'' offset limit =
      Some (Ok (word_of_nat (length rows), take (unat limit) (drop (unat offset) rows)))"
    "(\<exists>q. (''c'', ''a/#'', q) \<in> set rows)"
    using v t s by blast
  from this(1) [of 0 10] this(2) show ?thesis by auto
qed

text \<open>
  Subscribing again with another QoS changes the QoS of the active subscription but not the one
  the listing shows.
\<close>

theorem resubscribe_keeps_listed_qos:
  assumes "base64_codec b64 unb64" and "hm_get (topic_info_recorder st) tenant = Some items"
    and "hm_get items (generate_key b64 c raw) = Some old"
    and "subscribe_with_options b64 st tenant c raw new nl rap = Ok st'"
  shows "\<exists>items' store share s. hm_get (topic_info_recorder st') tenant = Some items' \<and>
    hm_get items' (generate_key b64 c raw) = Some old \<and>
    filter_target raw = Some (store, share) \<and>
    fst (the (abs_store b64 st' tenant)) (levels store, c, share) = Some s \<and> sub_qos s = new"
proof -
  from assms(4) obtain store share where t: "filter_target raw = Some (store, share)"
    by (cases "parse_shared_subscription_filter raw")
      (auto simp: subscribe_eq filter_target_def split: option.splits)
  with assms show ?thesis
    by (auto simp: subscribe_eq abs_store_insert abs_tenant_subscribe [OF assms(1)]
        split: option.splits if_splits) (simp add: new_subscription_def)
qed

theorem resubscribe_keeps_listed_qos_witness:
  "\<exists>st' s. subscribe_with_options hex_encode example_store ''public'' ''c'' ''a/#'' 2 False False = Ok st' \<and>
     fst (the (abs_store hex_encode st' ''public'')) (levels ''a/#'', ''c'', None) = Some s \<and> sub_qos s = 2 \<and>
     (\<exists>items'. hm_get (topic_info_recorder st') ''public'' = Some items' \<and>
        hm_get items' (generate_key hex_encode ''c'' ''a/#'') = Some 1)"
proof -
  have t: "filter_target ''a/#'' = Some (''a/#'', None)"
    by (simp add: filter_target_def parse_shared_subscription_filter_def strip_prefix_def)
  then obtain st' where s: "subscribe_with_options hex_encode example_store ''public'' ''c'' ''a/#'' 2 False False = Ok st'"
    by (simp add: subscribe_eq test_topic_def Let_def example_store_def)
  from resubscribe_keeps_listed_qos [OF hex_codec _ _ s, of _ 1] t s show ?thesis
    by (fastforce simp: example_store_def)
qed

text \<open>
  Restoring a snapshot gives back the store it was taken from, provided the JSON codec reads
  back what it wrote.
\<close>

theorem storage_snapshot_roundtrip:
  assumes "storage_ok b64 st" and "storage_to_snapshot to_vec st = Ok bs"
    and "from_slice bs = Ok (storage_to_serializable st)"
  shows "storage_from_snapshot b64 from_slice bs = Ok st"
  using assms(1,3) by (rule storage_restore)

theorem storage_snapshot_roundtrip_witness:
  "storage_from_snapshot hex_encode (\<lambda>_. Ok (storage_to_serializable example_store)) [7] = Ok example_store"
  by (rule storage_snapshot_roundtrip [OF example_store_ok, where to_vec = "\<lambda>_. Ok [7]"])
    (simp_all add: storage_to_snapshot_def)

end
