(* ===== verification/Effects.thy ===== *)
theory Effects
  imports Broker_Prelude
begin

text \<open>
  Operations that change a state and may fail: they take the state and give their result with the
  state they leave behind, also where they fail. \<open>bind_op\<close> is the \<open>?\<close> operator of the source.
\<close>

type_synonym ('a, 'e, 's) op = "'s \<Rightarrow> ('a, 'e) result \<times> 's"

definition pure_op :: "'a \<Rightarrow> ('a, 'e, 's) op" where
  "pure_op a s = (Ok a, s)"

definition fail_op :: "'e \<Rightarrow> ('a, 'e, 's) op" where
  "fail_op e s = (Err e, s)"

definition bind_op :: "('a, 'e, 's) op \<Rightarrow> ('a \<Rightarrow> ('b, 'e, 's) op) \<Rightarrow> ('b, 'e, 's) op" where
  "bind_op m f s = (case m s of (Ok a, s') \<Rightarrow> f a s' | (Err e, s') \<Rightarrow> (Err e, s'))"

definition map_err_op :: "('e \<Rightarrow> 'f) \<Rightarrow> ('a, 'e, 's) op \<Rightarrow> ('a, 'f, 's) op" where
  "map_err_op g m s = (case m s of (r, s') \<Rightarrow> (map_err g r, s'))"

text \<open>A computation that only reads the state, and one that does not look at it.\<close>

definition read_op :: "('s \<Rightarrow> ('a, 'e) result) \<Rightarrow> ('a, 'e, 's) op" where
  "read_op r s = (r s, s)"

definition lift_op :: "('a, 'e) result \<Rightarrow> ('a, 'e, 's) op" where
  "lift_op r s = (r, s)"

definition modify_op :: "('s \<Rightarrow> 's) \<Rightarrow> (unit, 'e, 's) op" where
  "modify_op f s = (Ok (), f s)"

definition get_op :: "('s, 'e, 's) op" where
  "get_op s = (Ok s, s)"

text \<open>A result looked at but not returned: \<open>if let Err(e) = ...\<close> and \<open>let _ = ...\<close>.\<close>

definition try_op :: "('a, 'e, 's) op \<Rightarrow> (('a, 'e) result, 'f, 's) op" where
  "try_op m s = (case m s of (r, s') \<Rightarrow> (Ok r, s'))"

text \<open>A loop over the elements of a list that stops at the first error.\<close>

fun for_op :: "('a \<Rightarrow> (unit, 'e, 's) op) \<Rightarrow> 'a list \<Rightarrow> (unit, 'e, 's) op" where
  "for_op f [] = pure_op ()"
| "for_op f (x # xs) = bind_op (f x) (\<lambda>_. for_op f xs)"

lemma bind_op_cong [fundef_cong]:
  "m = m' \<Longrightarrow> s = s' \<Longrightarrow> (\<And>a t. m' s' = (Ok a, t) \<Longrightarrow> f a t = g a t) \<Longrightarrow> bind_op m f s = bind_op m' g s'"
  by (auto simp: bind_op_def split: prod.split result.split)

lemmas op_defs = pure_op_def fail_op_def map_err_op_def read_op_def lift_op_def
  modify_op_def get_op_def try_op_def

lemma bind_pure_op [simp]: "bind_op (pure_op a) f = f a"
  by (rule ext) (simp add: bind_op_def pure_op_def)

lemma bind_op_assoc: "bind_op (bind_op m f) g = bind_op m (\<lambda>a. bind_op (f a) g)"
  by (rule ext) (simp add: bind_op_def split: prod.split result.split)

lemma bind_op_eq_Ok:
  "bind_op m f s = (Ok b, s'') \<longleftrightarrow> (\<exists>a s'. m s = (Ok a, s') \<and> f a s' = (Ok b, s''))"
  by (auto simp: bind_op_def split: prod.splits result.splits)

lemma bind_op_eq_Err:
  "bind_op m f s = (Err e, s'') \<longleftrightarrow>
     m s = (Err e, s'') \<or> (\<exists>a s'. m s = (Ok a, s') \<and> f a s' = (Err e, s''))"
  by (auto simp: bind_op_def split: prod.splits result.splits)

lemma map_err_op_eq_Ok [simp]: "map_err_op g m s = (Ok a, s') \<longleftrightarrow> m s = (Ok a, s')"
  by (cases "m s"; cases "fst (m s)") (auto simp: map_err_op_def)

lemma op_eq_Ok [simp]:
  "pure_op a s = (Ok b, s') \<longleftrightarrow> a = b \<and> s = s'"
  "fail_op e s = (Ok b, s') \<longleftrightarrow> False"
  "read_op r s = (Ok b, s') \<longleftrightarrow> r s = Ok b \<and> s = s'"
  "lift_op x s = (Ok b, s') \<longleftrightarrow> x = Ok b \<and> s = s'"
  "modify_op h s = (Ok (), s') \<longleftrightarrow> s' = h s"
  by (auto simp: op_defs)

lemma for_op_append:
  "for_op f (xs @ ys) = bind_op (for_op f xs) (\<lambda>_. for_op f ys)"
  by (induction xs) (simp_all add: bind_op_assoc)

text \<open>An invariant kept by every round of a loop.\<close>

lemma for_op_invariant:
  assumes "\<forall>x s r s'. x \<in> set xs \<longrightarrow> P s \<longrightarrow> f x s = (r, s') \<longrightarrow> P s'"
    and "P s" and "for_op f xs s = (r, s')"
  shows "P s'"
  using assms
proof (induction xs arbitrary: s)
  case (Cons x xs)
  obtain r1 s1 where f: "f x s = (r1, s1)" by fastforce
  have "P s1"
    using Cons.prems(1,2) f by (metis list.set_intros(1))
  moreover have "\<forall>x s r s'. x \<in> set xs \<longrightarrow> P s \<longrightarrow> f x s = (r, s') \<longrightarrow> P s'"
    using Cons.prems(1) by (metis list.set_intros(2))
  ultimately show ?case
    using Cons.IH [of s1] Cons.prems(3) f by (cases r1) (simp_all add: bind_op_def)
qed (simp add: pure_op_def)

end
