(* ===== verification/Raft_Common.thy ===== *)
theory Raft_Common
  imports Effects "HOL-Library.List_Lexorder" "HOL-Library.RBT"
begin

text \<open>
  What the replicated state machines of \<open>broker/src/raft\<close> share: log entries, stored snapshots, the
  replies collected by \<open>apply\<close>, the keys of the log and the database they live in. Log identifiers
  and memberships belong to \<open>openraft\<close> and are type parameters; \<open>rocksdb\<close> is the argument \<open>kv\<close>, and
  what is relied on of it is \<open>kv_laws\<close>.
\<close>

datatype ('r, 'm) entry_payload = Blank | Normal 'r | Membership 'm

record ('l, 'r, 'm) entry =
  entry_log_id :: 'l
  entry_payload :: "('r, 'm) entry_payload"

record ('l, 'm) snapshot_meta =
  meta_last_log_id :: "'l option"
  meta_last_membership :: "'l option \<times> 'm"
  meta_snapshot_id :: string

record ('l, 'm) stored_snapshot =
  snap_meta :: "('l, 'm) snapshot_meta"
  snap_data :: bytes

text \<open>The errors of a store, with what they were caused by.\<close>

datatype 'e storage_error =
    WriteStateMachine 'e
  | SerdeError string
  | DbError string
  | InvalidKeyLength nat
  | IoError string
  | Panicked

text \<open>A \<open>Result\<close> ignored by \<open>let _ =\<close>: a failed operation leaves the store as it was.\<close>

definition or_unchanged :: "'s \<Rightarrow> ('s, 'e) result \<Rightarrow> 's" where
  "or_unchanged st r = (case r of Ok st' \<Rightarrow> st' | Err _ \<Rightarrow> st)"

text \<open>Replies pushed before those of the rest of the log.\<close>

definition replies_then :: "'r list \<Rightarrow> 's \<times> ('r list, 'e) result \<Rightarrow> 's \<times> ('r list, 'e) result" where
  "replies_then rs out = (fst out, and_then (snd out) (\<lambda>rs'. Ok (rs @ rs')))"

lemma replies_then_Nil [simp]: "replies_then [] out = out"
  by (cases out; cases "snd out") (auto simp: replies_then_def)

lemma replies_then_append [simp]: "replies_then rs (replies_then rs' out) = replies_then (rs @ rs') out"
  by (simp add: replies_then_def and_then_assoc)

lemma fst_replies_then [simp]: "fst (replies_then rs out) = fst out"
  by (simp add: replies_then_def)

lemma replies_then_Ok:
  "replies_then rs out = (s, Ok rs') \<longleftrightarrow> (\<exists>rs0. out = (s, Ok rs0) \<and> rs' = rs @ rs0)"
  by (cases out; cases "snd out") (auto simp: replies_then_def)

section \<open>Keys of the log\<close>

text \<open>
  The indexes of log entries are stored as eight big-endian bytes; reading back refuses any other
  length.
\<close>

fun be_bytes :: "nat \<Rightarrow> nat \<Rightarrow> bytes" where
  "be_bytes 0 n = []"
| "be_bytes (Suc k) n = be_bytes k (n div 256) @ [word_of_nat n]"

definition from_be_bytes :: "bytes \<Rightarrow> nat" where
  "from_be_bytes bs = foldl (\<lambda>n b. n * 256 + unat b) 0 bs"

definition id_to_bin :: "u64 \<Rightarrow> bytes" where
  "id_to_bin i = be_bytes 8 (unat i)"

definition bin_to_id :: "bytes \<Rightarrow> (u64, nat) result" where
  "bin_to_id buf = (if length buf = 8 then Ok (word_of_nat (from_be_bytes buf)) else Err (length buf))"

lemma length_be_bytes [simp]: "length (be_bytes k n) = k"
  by (induction k arbitrary: n) simp_all

lemma from_be_be_bytes: "from_be_bytes (be_bytes k n) = n mod 256 ^ k"
proof (induction k arbitrary: n)
  case (Suc k)
  have "n div 256 mod 256 ^ k * 256 + n mod 256 = n mod (256 * 256 ^ k)"
    by (simp add: mod_mult2_eq)
  with Suc [of "n div 256"] show ?case
    by (simp add: from_be_bytes_def unat_u8_of_nat)
qed (simp add: from_be_bytes_def)

lemma bin_to_id_id_to_bin [simp]: "bin_to_id (id_to_bin i) = Ok i"
proof -
  have "unat i < 256 ^ 8"
    using unsigned_less [of i] by simp
  then have "from_be_bytes (id_to_bin i) = unat i"
    by (simp add: id_to_bin_def from_be_be_bytes del: be_bytes.simps)
  then show ?thesis
    by (simp add: bin_to_id_def) (simp add: id_to_bin_def del: be_bytes.simps)
qed

lemma length_id_to_bin [simp]: "length (id_to_bin i) = 8"
  by (simp add: id_to_bin_def del: be_bytes.simps)

lemma id_to_bin_inject [simp]: "id_to_bin i = id_to_bin j \<longleftrightarrow> i = j"
  by (metis bin_to_id_id_to_bin result.inject(1))

text \<open>The byte order of the keys is the order of the indexes.\<close>

lemma lexord_snoc:
  "length xs = length ys \<Longrightarrow>
   (xs @ [a], ys @ [b]) \<in> lexord r \<longleftrightarrow> (xs, ys) \<in> lexord r \<or> xs = ys \<and> (a, b) \<in> r"
  by (induction xs ys rule: list_induct2) auto

lemma div_mod_less:
  "m div 256 < n div 256 \<or> m div 256 = n div 256 \<and> m mod 256 < n mod 256 \<longleftrightarrow> m < (n :: nat)"
proof -
  have "m = 256 * (m div 256) + m mod 256" "n = 256 * (n div 256) + n mod 256"
    "m mod 256 < 256" "n mod 256 < 256" by simp_all
  then show ?thesis by linarith
qed

lemma be_bytes_less:
  "m < 256 ^ k \<Longrightarrow> n < 256 ^ k \<Longrightarrow> be_bytes k m < be_bytes k n \<longleftrightarrow> m < n"
proof (induction k arbitrary: m n)
  case (Suc k)
  have d: "m div 256 < 256 ^ k" "n div 256 < 256 ^ k"
    using Suc.prems by (simp_all add: less_mult_imp_div_less)
  have e: "be_bytes k (m div 256) = be_bytes k (n div 256) \<longleftrightarrow> m div 256 = n div 256"
    using d by (metis from_be_be_bytes mod_less)
  have w: "(word_of_nat m :: u8) < word_of_nat n \<longleftrightarrow> m mod 256 < n mod 256"
    by (simp add: word_less_nat_alt unat_u8_of_nat)
  have "be_bytes (Suc k) m < be_bytes (Suc k) n \<longleftrightarrow>
      m div 256 < n div 256 \<or> m div 256 = n div 256 \<and> m mod 256 < n mod 256"
    using Suc.IH [OF d] e w
    by (simp only: list_less_def be_bytes.simps lexord_snoc length_be_bytes mem_Collect_eq prod.case)
  also have "\<dots> \<longleftrightarrow> m < n"
    by (rule div_mod_less)
  finally show ?case .
qed (simp add: list_less_def)

lemma id_to_bin_less [simp]: "id_to_bin i < id_to_bin j \<longleftrightarrow> i < j"
proof -
  have "unat i < 256 ^ 8" "unat j < 256 ^ 8"
    using unsigned_less [of i] unsigned_less [of j] by simp_all
  then show ?thesis
    by (simp only: id_to_bin_def be_bytes_less word_less_nat_alt)
qed

lemma id_to_bin_le [simp]: "id_to_bin i \<le> id_to_bin j \<longleftrightarrow> i \<le> j"
  by (metis id_to_bin_less linorder_not_less)

section \<open>The database\<close>

text \<open>
  The calls made to \<open>rocksdb\<close>, each on a column family; a missing column family is one of their
  errors. \<open>kv_scan\<close> is a forward iterator from a key, \<open>kv_last\<close> the first element from the end.
\<close>

record 'db kv_store =
  kv_get :: "string \<Rightarrow> bytes \<Rightarrow> 'db \<Rightarrow> (bytes option, string) result"
  kv_put :: "string \<Rightarrow> bytes \<Rightarrow> bytes \<Rightarrow> (unit, string, 'db) op"
  kv_write_batch :: "string \<Rightarrow> (bytes \<times> bytes) list \<Rightarrow> (unit, string, 'db) op"
  kv_delete :: "string \<Rightarrow> bytes \<Rightarrow> (unit, string, 'db) op"
  kv_delete_range :: "string \<Rightarrow> bytes \<Rightarrow> bytes \<Rightarrow> (unit, string, 'db) op"
  kv_scan :: "string \<Rightarrow> bytes \<Rightarrow> 'db \<Rightarrow> (bytes \<times> bytes, string) result list"
  kv_last :: "string \<Rightarrow> 'db \<Rightarrow> (bytes \<times> bytes, string) result option"
  kv_flush :: "(unit, string, 'db) op"

text \<open>
  What is relied on: a write changes its keys and nothing else, or fails and changes nothing; reads
  that succeed show the contents; iterators go through the keys in byte order.
\<close>

definition kv_writes ::
  "('db \<Rightarrow> string \<Rightarrow> bytes \<Rightarrow> bytes option) \<Rightarrow> (unit, string, 'db) op \<Rightarrow>
   ((string \<Rightarrow> bytes \<Rightarrow> bytes option) \<Rightarrow> (string \<Rightarrow> bytes \<Rightarrow> bytes option)) \<Rightarrow> bool" where
  "kv_writes view m f \<longleftrightarrow>
     (\<forall>db r db'. m db = (r, db') \<longrightarrow> view db' = (case r of Ok _ \<Rightarrow> f (view db) | Err _ \<Rightarrow> view db))"

definition kv_laws :: "'db kv_store \<Rightarrow> ('db \<Rightarrow> string \<Rightarrow> bytes \<Rightarrow> bytes option) \<Rightarrow> bool" where
  "kv_laws kv view \<longleftrightarrow>
     (\<forall>cf k db r. kv_get kv cf k db = Ok r \<longrightarrow> r = view db cf k) \<and>
     (\<forall>cf k v. kv_writes view (kv_put kv cf k v) (\<lambda>w. w(cf := (w cf)(k \<mapsto> v)))) \<and>
     (\<forall>cf es. kv_writes view (kv_write_batch kv cf es) (\<lambda>w. w(cf := w cf ++ map_of (rev es)))) \<and>
     (\<forall>cf k. kv_writes view (kv_delete kv cf k) (\<lambda>w. w(cf := (w cf)(k := None)))) \<and>
     (\<forall>cf a b. kv_writes view (kv_delete_range kv cf a b)
        (\<lambda>w. w(cf := (\<lambda>k. if a \<le> k \<and> k < b then None else w cf k)))) \<and>
     (\<forall>cf a db es. kv_scan kv cf a db = map Ok es \<longrightarrow>
        sorted_wrt (<) (map fst es) \<and> (\<forall>k v. (k, v) \<in> set es \<longleftrightarrow> view db cf k = Some v \<and> a \<le> k)) \<and>
     (\<forall>cf db. kv_last kv cf db = None \<longrightarrow> view db cf = Map.empty) \<and>
     (\<forall>cf db k v. kv_last kv cf db = Some (Ok (k, v)) \<longrightarrow>
        view db cf k = Some v \<and> (\<forall>k'. k < k' \<longrightarrow> view db cf k' = None)) \<and>
     kv_writes view (kv_flush kv) (\<lambda>w. w)"

lemma kv_writesD:
  "kv_writes view m f \<Longrightarrow> m db = (Ok u, db') \<Longrightarrow> view db' = f (view db)"
  "kv_writes view m f \<Longrightarrow> m db = (Err e, db') \<Longrightarrow> view db' = view db"
  by (auto simp: kv_writes_def)

lemma kv_lawsD:
  assumes "kv_laws kv view"
  shows "kv_get kv cf k db = Ok r \<Longrightarrow> r = view db cf k"
    and "kv_writes view (kv_put kv cf k v) (\<lambda>w. w(cf := (w cf)(k \<mapsto> v)))"
    and "kv_writes view (kv_delete kv cf k) (\<lambda>w. w(cf := (w cf)(k := None)))"
    and "kv_writes view (kv_delete_range kv cf a b)
      (\<lambda>w. w(cf := (\<lambda>k. if a \<le> k \<and> k < b then None else w cf k)))"
    and "kv_scan kv cf a db = map Ok es \<Longrightarrow> sorted_wrt (<) (map fst es)"
    and "kv_scan kv cf a db = map Ok es \<Longrightarrow> (k, v) \<in> set es \<longleftrightarrow> view db cf k = Some v \<and> a \<le> k"
    and "kv_last kv cf db = None \<Longrightarrow> view db cf = Map.empty"
    and "kv_last kv cf db = Some (Ok (k, v)) \<Longrightarrow> view db cf k = Some v"
    and "kv_last kv cf db = Some (Ok (k, v)) \<Longrightarrow> k < k' \<Longrightarrow> view db cf k' = None"
    and "kv_writes view (kv_flush kv) (\<lambda>w. w)"
    and "kv_writes view (kv_write_batch kv cf es) (\<lambda>w. w(cf := w cf ++ map_of (rev es)))"
  using assms by (simp_all add: kv_laws_def)

text \<open>An in-memory database for the examples: a search tree per column family, no write fails.\<close>

definition mem_kv :: "(string \<Rightarrow> (bytes, bytes) rbt) kv_store" where
  "mem_kv =
     \<lparr>kv_get = \<lambda>cf k db. Ok (RBT.lookup (db cf) k),
      kv_put = \<lambda>cf k v db. (Ok (), db(cf := RBT.insert k v (db cf))),
      kv_write_batch = \<lambda>cf es db. (Ok (), db(cf := fold (\<lambda>(k, v). RBT.insert k v) es (db cf))),
      kv_delete = \<lambda>cf k db. (Ok (), db(cf := RBT.delete k (db cf))),
      kv_delete_range = \<lambda>cf a b db. (Ok (), db(cf :=
        fold RBT.delete (filter (\<lambda>k. a \<le> k \<and> k < b) (RBT.keys (db cf))) (db cf))),
      kv_scan = \<lambda>cf a db. map Ok (filter (\<lambda>e. a \<le> fst e) (RBT.entries (db cf))),
      kv_last = \<lambda>cf db. (case rev (RBT.entries (db cf)) of [] \<Rightarrow> None | e # _ \<Rightarrow> Some (Ok e)),
      kv_flush = \<lambda>db. (Ok (), db)\<rparr>"

definition mem_view :: "(string \<Rightarrow> (bytes, bytes) rbt) \<Rightarrow> string \<Rightarrow> bytes \<Rightarrow> bytes option" where
  "mem_view db cf = RBT.lookup (db cf)"

lemma lookup_fold_delete:
  "RBT.lookup (fold RBT.delete ks t) k = (if k \<in> set ks then None else RBT.lookup t k)"
  by (induction ks arbitrary: t) auto

lemma lookup_fold_insert:
  "RBT.lookup (fold (\<lambda>(k, v). RBT.insert k v) es t) = RBT.lookup t ++ map_of (rev es)"
  by (induction es arbitrary: t) (auto simp: map_add_upd_left)

lemma entries_lookup: "(k, v) \<in> set (RBT.entries t) \<longleftrightarrow> RBT.lookup t k = Some v"
  by (metis RBT.distinct_entries RBT.map_of_entries map_of_eq_Some_iff)

lemma not_in_keys: "k \<notin> set (RBT.keys t) \<Longrightarrow> RBT.lookup t k = None"
  by (metis RBT.keys_entries entries_lookup not_None_eq)

lemma entries_last:
  assumes "rev (RBT.entries t) = (k, v) # es"
  shows "RBT.lookup t k = Some v \<and> (\<forall>k'. k < k' \<longrightarrow> RBT.lookup t k' = None)"
proof -
  have e: "RBT.entries t = rev es @ [(k, v)]"
    using assms by (simp add: rev_eq_Cons_iff)
  have "k' \<le> k" if "RBT.lookup t k' = Some v'" for k' v'
    using that RBT.sorted_entries [of t] by (auto simp: e sorted_append simp flip: entries_lookup)
  moreover have "RBT.lookup t k = Some v"
    by (simp add: e flip: entries_lookup)
  ultimately show ?thesis
    by (metis leD not_Some_eq)
qed

lemma sorted_entries_less: "sorted_wrt (<) (map fst (RBT.entries t))"
  using RBT.sorted_entries [of t] RBT.distinct_entries [of t] by (simp add: strict_sorted_iff)

lemma sorted_wrt_filter_fst:
  "sorted_wrt (<) (map fst es) \<Longrightarrow> sorted_wrt (<) (map fst (filter P es))"
  by (induction es) auto

lemma mem_writes:
  "kv_writes mem_view (kv_put mem_kv cf k v) (\<lambda>w. w(cf := (w cf)(k \<mapsto> v)))"
  "kv_writes mem_view (kv_write_batch mem_kv cf es) (\<lambda>w. w(cf := w cf ++ map_of (rev es)))"
  "kv_writes mem_view (kv_delete mem_kv cf k) (\<lambda>w. w(cf := (w cf)(k := None)))"
  "kv_writes mem_view (kv_delete_range mem_kv cf a b)
     (\<lambda>w. w(cf := (\<lambda>k. if a \<le> k \<and> k < b then None else w cf k)))"
  "kv_writes mem_view (kv_flush mem_kv) (\<lambda>w. w)"
  by (auto simp: kv_writes_def mem_kv_def mem_view_def lookup_fold_delete lookup_fold_insert not_in_keys
      intro!: ext)

lemma mem_scan:
  assumes "kv_scan mem_kv cf a db = map Ok es"
  shows "sorted_wrt (<) (map fst es) \<and> (\<forall>k v. (k, v) \<in> set es \<longleftrightarrow> mem_view db cf k = Some v \<and> a \<le> k)"
proof -
  have "es = filter (\<lambda>e. a \<le> fst e) (RBT.entries (db cf))"
    using assms by (auto simp: mem_kv_def inj_def dest!: map_injective)
  then show ?thesis
    using sorted_wrt_filter_fst [OF sorted_entries_less] by (simp add: entries_lookup mem_view_def)
qed

lemma mem_last:
  "kv_last mem_kv cf db = None \<Longrightarrow> mem_view db cf = Map.empty"
  "kv_last mem_kv cf db = Some (Ok (k, v)) \<Longrightarrow>
   mem_view db cf k = Some v \<and> (\<forall>k'. k < k' \<longrightarrow> mem_view db cf k' = None)"
  using entries_last [of "db cf" k v]
  by (auto simp: mem_kv_def mem_view_def split: list.splits simp flip: RBT.map_of_entries)

lemma mem_kv_laws: "kv_laws mem_kv mem_view"
  unfolding kv_laws_def
  by (intro conjI allI impI mem_writes mem_scan mem_last)
    (simp_all add: mem_kv_def mem_view_def)

end
