(* ===== verification/Raft_Log.thy ===== *)
theory Raft_Log
  imports Raft_Common
begin

text \<open>
  The persistent Raft log, vote, commit marks and current snapshot, \<open>LogStore\<close> and the snapshot
  functions of \<open>broker/src/raft/topic/store.rs\<close>; the stores of the session states and of the
  session actor map have the same code. Entries and log identifiers are written as JSON by a codec
  that is an argument, into the database \<open>kv\<close>.
\<close>

section \<open>Values under fixed keys\<close>

text \<open>\<open>log_index\<close> is the index of a log identifier; the rest is the JSON codec.\<close>

record ('l, 'r, 'm) log_codec =
  log_index :: "'l \<Rightarrow> u64"
  enc_entry :: "('l, 'r, 'm) entry \<Rightarrow> (bytes, string) result"
  dec_entry :: "bytes \<Rightarrow> (('l, 'r, 'm) entry, string) result"
  enc_log_id :: "'l \<Rightarrow> (bytes, string) result"
  dec_log_id :: "bytes \<Rightarrow> ('l, string) result"

definition store_put ::
  "'db kv_store \<Rightarrow> string \<Rightarrow> (bytes, string) result \<Rightarrow> (unit, 'e storage_error, 'db) op" where
  "store_put kv key json =
     bind_op (lift_op (map_err SerdeError json)) (\<lambda>bs.
     bind_op (map_err_op DbError (kv_put kv ''store'' (as_bytes key) bs)) (\<lambda>_.
     map_err_op DbError (kv_flush kv)))"

definition store_get ::
  "'db kv_store \<Rightarrow> string \<Rightarrow> (bytes \<Rightarrow> ('a, string) result) \<Rightarrow> 'db \<Rightarrow> ('a option, 'e storage_error) result" where
  "store_get kv key dec db =
     and_then (map_err DbError (kv_get kv ''store'' (as_bytes key) db)) (\<lambda>v.
     Ok (case v of None \<Rightarrow> None | Some bs \<Rightarrow> (case dec bs of Ok a \<Rightarrow> Some a | Err _ \<Rightarrow> None)))"

definition get_last_purged ::
  "'db kv_store \<Rightarrow> ('l, 'r, 'm) log_codec \<Rightarrow> 'db \<Rightarrow> ('l option, 'e storage_error) result" where
  "get_last_purged kv cd = store_get kv ''last_purged_log_id'' (dec_log_id cd)"

definition set_last_purged ::
  "'db kv_store \<Rightarrow> ('l, 'r, 'm) log_codec \<Rightarrow> 'l \<Rightarrow> (unit, 'e storage_error, 'db) op" where
  "set_last_purged kv cd log_id = store_put kv ''last_purged_log_id'' (enc_log_id cd log_id)"

text \<open>In JSON, \<open>Some\<close> is written as its content and \<open>None\<close> as \<open>null\<close>.\<close>

definition set_committed ::
  "'db kv_store \<Rightarrow> ('l, 'r, 'm) log_codec \<Rightarrow> 'l option \<Rightarrow> (unit, 'e storage_error, 'db) op" where
  "set_committed kv cd committed = store_put kv ''committed''
     (case committed of None \<Rightarrow> Ok (as_bytes ''null'') | Some log_id \<Rightarrow> enc_log_id cd log_id)"

definition get_committed ::
  "'db kv_store \<Rightarrow> ('l, 'r, 'm) log_codec \<Rightarrow> 'db \<Rightarrow> ('l option, 'e storage_error) result" where
  "get_committed kv cd = store_get kv ''committed'' (dec_log_id cd)"

definition set_vote ::
  "'db kv_store \<Rightarrow> ('v \<Rightarrow> (bytes, string) result) \<Rightarrow> 'v \<Rightarrow> (unit, 'e storage_error, 'db) op" where
  "set_vote kv enc vote = store_put kv ''vote'' (enc vote)"

definition get_vote ::
  "'db kv_store \<Rightarrow> (bytes \<Rightarrow> ('v, string) result) \<Rightarrow> 'db \<Rightarrow> ('v option, 'e storage_error) result" where
  "get_vote kv dec = store_get kv ''vote'' dec"

definition set_current_snapshot ::
  "'db kv_store \<Rightarrow> (('l, 'm) stored_snapshot \<Rightarrow> (bytes, string) result) \<Rightarrow> ('l, 'm) stored_snapshot \<Rightarrow>
   (unit, 'e storage_error, 'db) op" where
  "set_current_snapshot kv enc snap = store_put kv ''snapshot'' (enc snap)"

definition get_current_snapshot ::
  "'db kv_store \<Rightarrow> (bytes \<Rightarrow> (('l, 'm) stored_snapshot, string) result) \<Rightarrow> 'db \<Rightarrow>
   (('l, 'm) stored_snapshot option, 'e storage_error) result" where
  "get_current_snapshot kv dec = store_get kv ''snapshot'' dec"

text \<open>
  The JSON codecs of a state machine's data \<open>'d\<close>, of \<open>SnapshotWrapper\<close> and of
  \<open>StoredSnapshot\<close>; \<open>snapshot_id\<close> is the
  text built from the last log id and the counter.
\<close>

record ('d, 'l, 'm) snapshot_codec =
  to_vec :: "'d \<Rightarrow> (bytes, string) result"
  from_slice :: "bytes \<Rightarrow> ('d, string) result"
  wrap :: "bytes \<Rightarrow> (bytes, string) result"
  unwrap :: "bytes \<Rightarrow> (bytes, string) result"
  enc_snapshot :: "('l, 'm) stored_snapshot \<Rightarrow> (bytes, string) result"
  dec_snapshot :: "bytes \<Rightarrow> (('l, 'm) stored_snapshot, string) result"
  snapshot_id :: "'l option \<Rightarrow> string"

section \<open>The log\<close>

datatype bound = Included u64 | Excluded u64 | Unbounded

fun range_contains :: "bound \<times> bound \<Rightarrow> u64 \<Rightarrow> bool" where
  "range_contains (lo, hi) i \<longleftrightarrow>
     (case lo of Included a \<Rightarrow> a \<le> i | Excluded a \<Rightarrow> a < i | Unbounded \<Rightarrow> True) \<and>
     (case hi of Included b \<Rightarrow> i \<le> b | Excluded b \<Rightarrow> i < b | Unbounded \<Rightarrow> True)"

fun start_key :: "bound \<Rightarrow> bytes" where
  "start_key (Included x) = id_to_bin x"
| "start_key (Excluded x) = id_to_bin (x + 1)"
| "start_key Unbounded = id_to_bin 0"

text \<open>The loop ends at the first key outside of the range; a failed assertion panics.\<close>

fun read_entries ::
  "('l, 'r, 'm) log_codec \<Rightarrow> bound \<times> bound \<Rightarrow> (bytes \<times> bytes, string) result list \<Rightarrow>
   (('l, 'r, 'm) entry list, 'e storage_error) result" where
  "read_entries cd rng [] = Ok []"
| "read_entries cd rng (Err e # rest) = Err (DbError e)"
| "read_entries cd rng (Ok (k, v) # rest) =
     and_then (map_err InvalidKeyLength (bin_to_id k)) (\<lambda>i.
     if \<not> range_contains rng i then Ok []
     else
       and_then (map_err SerdeError (dec_entry cd v)) (\<lambda>ent.
       if i \<noteq> log_index cd (entry_log_id ent) then Err Panicked
       else and_then (read_entries cd rng rest) (\<lambda>ents. Ok (ent # ents))))"

definition try_get_log_entries ::
  "'db kv_store \<Rightarrow> ('l, 'r, 'm) log_codec \<Rightarrow> bound \<times> bound \<Rightarrow> 'db \<Rightarrow>
   (('l, 'r, 'm) entry list, 'e storage_error) result" where
  "try_get_log_entries kv cd rng db =
     read_entries cd rng (kv_scan kv ''logs'' (start_key (fst rng)) db)"

record 'l log_state =
  last_purged_log_id :: "'l option"
  last_log_id :: "'l option"

definition get_log_state ::
  "'db kv_store \<Rightarrow> ('l, 'r, 'm) log_codec \<Rightarrow> 'db \<Rightarrow> ('l log_state, 'e storage_error) result" where
  "get_log_state kv cd db =
     and_then (case kv_last kv ''logs'' db of
         None \<Rightarrow> Ok None
       | Some res \<Rightarrow>
           and_then (map_err DbError res) (\<lambda>(_, ent).
           and_then (map_err SerdeError (dec_entry cd ent)) (\<lambda>entry. Ok (Some (entry_log_id entry))))) (\<lambda>last.
     and_then (get_last_purged kv cd db) (\<lambda>purged.
     Ok \<lparr>last_purged_log_id = purged,
         last_log_id = (case last of None \<Rightarrow> purged | Some x \<Rightarrow> Some x)\<rparr>))"

definition append_entry ::
  "'db kv_store \<Rightarrow> ('l, 'r, 'm) log_codec \<Rightarrow> ('l, 'r, 'm) entry \<Rightarrow> (unit, 'e storage_error, 'db) op" where
  "append_entry kv cd ent =
     (let key = id_to_bin (log_index cd (entry_log_id ent)) in
      bind_op (lift_op (map_err InvalidKeyLength (bin_to_id key))) (\<lambda>i.
      if i \<noteq> log_index cd (entry_log_id ent) then fail_op Panicked
      else
        bind_op (lift_op (map_err SerdeError (enc_entry cd ent))) (\<lambda>bs.
        map_err_op DbError (kv_put kv ''logs'' key bs))))"

definition log_append ::
  "'db kv_store \<Rightarrow> ('l, 'r, 'm) log_codec \<Rightarrow> ('l, 'r, 'm) entry list \<Rightarrow> (unit, 'e storage_error, 'db) op" where
  "log_append kv cd entries = for_op (append_entry kv cd) entries"

definition log_truncate ::
  "'db kv_store \<Rightarrow> ('l, 'r, 'm) log_codec \<Rightarrow> 'l \<Rightarrow> (unit, 'e storage_error, 'db) op" where
  "log_truncate kv cd log_id =
     map_err_op DbError (kv_delete_range kv ''logs'' (id_to_bin (log_index cd log_id))
       (id_to_bin 0xffffffffffffffff))"

definition log_purge ::
  "'db kv_store \<Rightarrow> ('l, 'r, 'm) log_codec \<Rightarrow> 'l \<Rightarrow> (unit, 'e storage_error, 'db) op" where
  "log_purge kv cd log_id =
     bind_op (set_last_purged kv cd log_id) (\<lambda>_.
     map_err_op DbError (kv_delete_range kv ''logs'' (id_to_bin 0)
       (id_to_bin (log_index cd log_id + 1))))"

section \<open>What the log holds\<close>

text \<open>The entry at an index, and that every key of the log is the index of its entry.\<close>

definition codec_ok :: "('l, 'r, 'm) log_codec \<Rightarrow> bool" where
  "codec_ok cd \<longleftrightarrow> (\<forall>e bs. enc_entry cd e = Ok bs \<longrightarrow> dec_entry cd bs = Ok e)"

definition log_at ::
  "('l, 'r, 'm) log_codec \<Rightarrow> (string \<Rightarrow> bytes \<Rightarrow> bytes option) \<Rightarrow> u64 \<Rightarrow> ('l, 'r, 'm) entry option" where
  "log_at cd w i = (case w ''logs'' (id_to_bin i) of
     None \<Rightarrow> None | Some v \<Rightarrow> (case dec_entry cd v of Ok e \<Rightarrow> Some e | Err _ \<Rightarrow> None))"

definition log_ok :: "('l, 'r, 'm) log_codec \<Rightarrow> (string \<Rightarrow> bytes \<Rightarrow> bytes option) \<Rightarrow> bool" where
  "log_ok cd w \<longleftrightarrow> (\<forall>k v. w ''logs'' k = Some v \<longrightarrow>
     (\<exists>e. dec_entry cd v = Ok e \<and> k = id_to_bin (log_index cd (entry_log_id e))))"

lemma log_at_Some:
  "log_at cd w i = Some e \<longleftrightarrow> (\<exists>v. w ''logs'' (id_to_bin i) = Some v \<and> dec_entry cd v = Ok e)"
  by (simp add: log_at_def split: option.splits result.splits)

lemma u64_Suc_le:
  assumes "x \<noteq> - 1"
  shows "x + 1 \<le> i \<longleftrightarrow> x < (i :: u64)"
proof -
  have "unat x \<noteq> unat (- 1 :: u64)"
    using assms by (simp only: word_unat_eq_iff not_False_eq_True)
  then have "unat x + 1 < 2 ^ 64"
    using unsigned_less [of x, where 'a = nat] by (simp add: unsigned_minus_1_eq_mask mask_eq_exp_minus_1)
  then have "unat (x + 1) = Suc (unat x)"
    by (simp add: unat_word_ariths)
  then show ?thesis
    by (simp add: word_le_nat_alt word_less_nat_alt Suc_le_eq)
qed

lemma start_key_le:
  "lo \<noteq> Excluded (- 1) \<Longrightarrow> start_key lo \<le> id_to_bin i \<longleftrightarrow> range_contains (lo, Unbounded) i"
  by (cases lo) (simp_all add: u64_Suc_le)

lemma read_entries_exact:
  assumes "\<forall>e\<in>set kvs. \<exists>ent. dec_entry cd (snd e) = Ok ent \<and> fst e = id_to_bin (log_index cd (entry_log_id ent))"
    and "sorted_wrt (<) (map fst kvs)" and "\<forall>e\<in>set kvs. start_key lo \<le> fst e"
    and "lo \<noteq> Excluded (- 1)"
  shows "\<exists>es. read_entries cd (lo, hi) (map Ok kvs) = (Ok es :: (_, 'e storage_error) result) \<and>
    sorted_wrt (<) (map (\<lambda>e. log_index cd (entry_log_id e)) es) \<and>
    set es = {ent. \<exists>e\<in>set kvs. dec_entry cd (snd e) = Ok ent \<and>
                range_contains (lo, hi) (log_index cd (entry_log_id ent))}"
  using assms(1,2,3)
proof (induction kvs)
  case (Cons e kvs)
  note [simp del] = range_contains.simps
  obtain k v where e: "e = (k, v)" by (cases e)
  obtain ent where ent: "dec_entry cd v = Ok ent" "k = id_to_bin (log_index cd (entry_log_id ent))"
    using Cons.prems(1) by (auto simp: e)
  let ?i = "\<lambda>ent. log_index cd (entry_log_id ent)"
  have later: "?i ent < ?i ent'" if m: "e' \<in> set kvs" and d: "dec_entry cd (snd e') = Ok ent'" for e' ent'
  proof -
    obtain ent'' where "dec_entry cd (snd e') = Ok ent''" "fst e' = id_to_bin (?i ent'')"
      using Cons.prems(1) m by auto
    moreover have "k < fst e'"
      using Cons.prems(2) m by (auto simp: e)
    ultimately show ?thesis using d ent(2) by simp
  qed
  have lo: "range_contains (lo, Unbounded) (?i ent)"
    using Cons.prems(3) ent start_key_le [OF assms(4)] by (simp add: e)
  have p: "\<forall>e\<in>set kvs. \<exists>ent. dec_entry cd (snd e) = Ok ent \<and> fst e = id_to_bin (?i ent)"
    "sorted_wrt (<) (map fst kvs)" "\<forall>e\<in>set kvs. start_key lo \<le> fst e"
    using Cons.prems by simp_all
  obtain es where es: "read_entries cd (lo, hi) (map Ok kvs) = (Ok es :: (_, 'e storage_error) result)"
    "sorted_wrt (<) (map ?i es)"
    "set es = {ent. \<exists>e\<in>set kvs. dec_entry cd (snd e) = Ok ent \<and> range_contains (lo, hi) (?i ent)}"
    using Cons.IH [OF p] by blast
  show ?case
  proof (cases "range_contains (lo, hi) (?i ent)")
    case True
    moreover have "\<forall>ent'\<in>set es. ?i ent < ?i ent'"
      using es(3) later by blast
    moreover have "set (ent # es) = {ent. \<exists>e\<in>set (e # kvs). dec_entry cd (snd e) = Ok ent \<and>
        range_contains (lo, hi) (?i ent)}"
      using True ent(1) unfolding list.set es(3) e by auto
    ultimately show ?thesis
      using es(1,2) ent by (intro exI [of _ "ent # es"]) (simp add: e)
  next
    case False
    then have "\<not> range_contains (lo, hi) (?i ent')" if "e' \<in> set kvs" "dec_entry cd (snd e') = Ok ent'" for e' ent'
      using later [OF that] lo by (auto simp: range_contains.simps split: bound.splits)
    then have "{ent. \<exists>e\<in>set (e # kvs). dec_entry cd (snd e) = Ok ent \<and> range_contains (lo, hi) (?i ent)} = {}"
      using False ent(1) by (auto simp: e)
    with False ent show ?thesis by (simp add: e)
  qed
qed simp

lemma try_get_log_entries_exact:
  assumes "kv_laws kv view" and "log_ok cd (view db)" and "lo \<noteq> Excluded (- 1)"
    and "kv_scan kv ''logs'' (start_key lo) db = map Ok kvs"
  shows "\<exists>es. try_get_log_entries kv cd (lo, hi) db = Ok es \<and>
    sorted_wrt (<) (map (\<lambda>e. log_index cd (entry_log_id e)) es) \<and>
    set es = {ent. \<exists>i. log_at cd (view db) i = Some ent \<and> range_contains (lo, hi) i}"
proof -
  note mem = kv_lawsD(6) [OF assms(1,4)]
  have k: "\<exists>ent. dec_entry cd (snd e) = Ok ent \<and> fst e = id_to_bin (log_index cd (entry_log_id ent))"
    "start_key lo \<le> fst e" if "e \<in> set kvs" for e
    using that mem [of "fst e" "snd e"] assms(2) by (auto simp: log_ok_def)
  have i: "i = log_index cd (entry_log_id ent)"
    if "view db ''logs'' (id_to_bin i) = Some v" "dec_entry cd v = Ok ent" for i v ent
    using assms(2) that by (force simp: log_ok_def)
  have "(\<exists>e\<in>set kvs. dec_entry cd (snd e) = Ok ent \<and> range_contains (lo, hi) (log_index cd (entry_log_id ent))) \<longleftrightarrow>
      (\<exists>i. log_at cd (view db) i = Some ent \<and> range_contains (lo, hi) i)" (is "?l \<longleftrightarrow> ?r") for ent
  proof
    assume ?l
    then obtain e where e: "e \<in> set kvs" "dec_entry cd (snd e) = Ok ent"
      "range_contains (lo, hi) (log_index cd (entry_log_id ent))" by blast
    have "view db ''logs'' (fst e) = Some (snd e)"
      using e(1) mem [of "fst e" "snd e"] by simp
    moreover have "fst e = id_to_bin (log_index cd (entry_log_id ent))"
      using k(1) [OF e(1)] e(2) by auto
    ultimately have "log_at cd (view db) (log_index cd (entry_log_id ent)) = Some ent"
      using e(2) unfolding log_at_Some by metis
    with e(3) show ?r by blast
  next
    assume ?r
    then obtain i v where v: "view db ''logs'' (id_to_bin i) = Some v" "dec_entry cd v = Ok ent"
      "range_contains (lo, hi) i" unfolding log_at_Some by blast
    then have "range_contains (lo, Unbounded) i" by simp
    then have "(id_to_bin i, v) \<in> set kvs"
      using v(1) mem start_key_le [OF assms(3)] by blast
    with v i [OF v(1,2)] show ?l
      by (intro bexI [of _ "(id_to_bin i, v)"]) simp_all
  qed
  then have eq: "{ent. \<exists>e\<in>set kvs. dec_entry cd (snd e) = Ok ent \<and>
        range_contains (lo, hi) (log_index cd (entry_log_id ent))} =
      {ent. \<exists>i. log_at cd (view db) i = Some ent \<and> range_contains (lo, hi) i}"
    by (simp only:)
  have "\<forall>e\<in>set kvs. \<exists>ent. dec_entry cd (snd e) = Ok ent \<and>
      fst e = id_to_bin (log_index cd (entry_log_id ent))" "\<forall>e\<in>set kvs. start_key lo \<le> fst e"
    using k by blast+
  from read_entries_exact [OF this(1) kv_lawsD(5) [OF assms(1,4)] this(2) assms(3), of hi]
  show ?thesis
    unfolding try_get_log_entries_def fst_conv assms(4) eq .
qed

section \<open>Writes\<close>

lemma append_entry_refines:
  assumes "kv_laws kv view" and "codec_ok cd" and "log_ok cd (view db)"
    and "append_entry kv cd ent db = (r, db')"
  shows "log_ok cd (view db') \<and> log_at cd (view db') =
    (case r of Ok _ \<Rightarrow> (log_at cd (view db))(log_index cd (entry_log_id ent) \<mapsto> ent) | Err _ \<Rightarrow> log_at cd (view db))"
proof (cases r)
  case (Ok u)
  then obtain bs where bs: "enc_entry cd ent = Ok bs"
    "kv_put kv ''logs'' (id_to_bin (log_index cd (entry_log_id ent))) bs db = (Ok u, db')"
    using assms(4) by (cases "enc_entry cd ent") (auto simp: append_entry_def bind_op_eq_Ok)
  have "dec_entry cd bs = Ok ent"
    using assms(2) bs(1) by (simp add: codec_ok_def)
  with kv_writesD(1) [OF kv_lawsD(2) [OF assms(1)] bs(2)] assms(3) Ok show ?thesis
    by (auto simp: log_ok_def log_at_def fun_eq_iff)
next
  case (Err e)
  have "view db' = view db"
    using assms(4) Err kv_writesD(2) [OF kv_lawsD(2) [OF assms(1)]]
    by (cases "enc_entry cd ent")
      (auto simp: append_entry_def bind_op_eq_Err lift_op_def fail_op_def map_err_op_def Let_def
        split: prod.splits elim: map_err.elims)
  with assms(3) Err show ?thesis by simp
qed

lemma log_append_refines:
  fixes r :: "(unit, 'e storage_error) result"
  assumes "kv_laws kv view" and "codec_ok cd" and "log_ok cd (view db)"
    and "log_append kv cd es db = (r, db')"
  shows "log_ok cd (view db') \<and> (\<forall>u. r = Ok u \<longrightarrow>
    log_at cd (view db') = log_at cd (view db) ++ map_of (rev (map (\<lambda>e. (log_index cd (entry_log_id e), e)) es)))"
  using assms(3,4) unfolding log_append_def
proof (induction es arbitrary: db)
  case (Cons e es)
  obtain r1 :: "(unit, 'e storage_error) result" and db1 where a: "append_entry kv cd e db = (r1, db1)" by fastforce
  note s = append_entry_refines [OF assms(1,2) Cons.prems(1) a]
  show ?case
  proof (cases r1)
    case (Ok u)
    with Cons.prems(2) a have f: "for_op (append_entry kv cd) es db1 = (r, db')"
      by (simp add: bind_op_def)
    have eq: "(log_at cd (view db))(log_index cd (entry_log_id e) \<mapsto> e) ++
        map_of (rev (map (\<lambda>e. (log_index cd (entry_log_id e), e)) es)) =
        log_at cd (view db) ++ map_of (rev (map (\<lambda>e. (log_index cd (entry_log_id e), e)) (e # es)))"
      by simp
    have l: "log_ok cd (view db1)" "log_at cd (view db1) = (log_at cd (view db))(log_index cd (entry_log_id e) \<mapsto> e)"
      using s Ok by simp_all
    show ?thesis
      using Cons.IH [OF l(1) f] unfolding l(2) eq .
  next
    case (Err x)
    with Cons.prems(2) a s show ?thesis by (auto simp: bind_op_def)
  qed
qed (simp add: pure_op_def)

lemma delete_range_refines:
  assumes "kv_laws kv view" and "log_ok cd (view db)"
    and "kv_delete_range kv ''logs'' (id_to_bin a) (id_to_bin b) db = (r, db')"
  shows "log_ok cd (view db') \<and> (\<forall>u. r = Ok u \<longrightarrow>
    log_at cd (view db') = (\<lambda>i. if a \<le> i \<and> i < b then None else log_at cd (view db) i))"
proof (cases r)
  case (Ok u)
  with kv_writesD(1) [OF kv_lawsD(4) [OF assms(1)]] assms(3)
  have "view db' = (view db)(''logs'' := \<lambda>k. if id_to_bin a \<le> k \<and> k < id_to_bin b then None else view db ''logs'' k)"
    by blast
  with assms(2) Ok show ?thesis
    by (simp add: log_ok_def log_at_def fun_eq_iff)
next
  case (Err e)
  with kv_writesD(2) [OF kv_lawsD(4) [OF assms(1)]] assms(3) have "view db' = view db" by blast
  with assms(2) Err show ?thesis by simp
qed

lemma log_truncate_refines:
  assumes "kv_laws kv view" and "log_ok cd (view db)" and "log_truncate kv cd l db = (r, db')"
  shows "log_ok cd (view db') \<and> (\<forall>u. r = Ok u \<longrightarrow>
    log_at cd (view db') = (\<lambda>i. if log_index cd l \<le> i \<and> i < - 1 then None else log_at cd (view db) i))"
proof -
  have "id_to_bin 0xffffffffffffffff = id_to_bin (- 1)" by simp
  with assms(3) obtain r1 where
    d: "kv_delete_range kv ''logs'' (id_to_bin (log_index cd l)) (id_to_bin (- 1)) db = (r1, db')"
    and r: "r = map_err DbError r1"
    by (auto simp: log_truncate_def map_err_op_def split: prod.splits)
  from delete_range_refines [OF assms(1,2) d] r show ?thesis
    by (cases r1) simp_all
qed

lemma log_at_store [simp]:
  "log_at cd (w(''store'' := f)) = log_at cd w" "log_ok cd (w(''store'' := f)) = log_ok cd w"
  by (simp_all add: log_at_def log_ok_def fun_eq_iff)

lemma store_put_view:
  assumes "kv_laws kv view" and "store_put kv key json db = (r, db')"
  shows "(\<exists>bs. json = Ok bs \<and> view db' = (view db)(''store'' := (view db ''store'')(as_bytes key \<mapsto> bs))) \<or>
    (\<exists>e. r = Err e) \<and> view db' = view db"
proof (cases json)
  case (Ok bs)
  obtain r1 db1 where p: "kv_put kv ''store'' (as_bytes key) bs db = (r1, db1)" by fastforce
  obtain r2 db2 where f: "kv_flush kv db1 = (r2, db2)" by fastforce
  note v = kv_writesD [OF kv_lawsD(2) [OF assms(1)]] kv_writesD [OF kv_lawsD(10) [OF assms(1)]]
  show ?thesis
  proof (cases r1)
    case (Ok u)
    with \<open>json = Ok bs\<close> p f assms(2) have "db' = db2"
      by (simp add: store_put_def bind_op_def lift_op_def map_err_op_def)
    moreover have "view db2 = view db1"
      using v(3,4) [of db1 _ db2] f by (cases r2) simp_all
    moreover have "view db1 = (view db)(''store'' := (view db ''store'')(as_bytes key \<mapsto> bs))"
      using v(1) p Ok by blast
    ultimately show ?thesis using \<open>json = Ok bs\<close> by simp
  next
    case (Err e)
    then have "view db1 = view db"
      using v(2) p by blast
    moreover have "r = Err (DbError e) \<and> db' = db1"
      using \<open>json = Ok bs\<close> p Err assms(2)
      by (simp add: store_put_def bind_op_def lift_op_def map_err_op_def)
    ultimately show ?thesis by simp
  qed
next
  case (Err e)
  with assms(2) show ?thesis
    by (auto simp: store_put_def bind_op_def lift_op_def)
qed

lemma log_purge_refines:
  fixes r :: "(unit, 'e storage_error) result"
  assumes "kv_laws kv view" and "log_ok cd (view db)" and "log_purge kv cd l db = (r, db')"
    and "log_index cd l \<noteq> - 1"
  shows "log_ok cd (view db') \<and> (\<forall>u. r = Ok u \<longrightarrow>
    log_at cd (view db') = (\<lambda>i. if i \<le> log_index cd l then None else log_at cd (view db) i))"
proof -
  obtain r1 :: "(unit, 'e storage_error) result" and db1 where s: "set_last_purged kv cd l db = (r1, db1)" by fastforce
  have v: "log_ok cd (view db1)" "log_at cd (view db1) = log_at cd (view db)"
    using store_put_view [OF assms(1) s [unfolded set_last_purged_def]] assms(2) by auto
  have i: "i < log_index cd l + 1 \<longleftrightarrow> i \<le> log_index cd l" for i
    using u64_Suc_le [OF assms(4), of i] by (metis linorder_not_less)
  show ?thesis
  proof (cases r1)
    case (Ok u)
    obtain r2 db2 where d:
      "kv_delete_range kv ''logs'' (id_to_bin 0) (id_to_bin (log_index cd l + 1)) db1 = (r2, db2)" by fastforce
    with assms(3) s Ok have "r = map_err DbError r2" "db' = db2"
      by (simp_all add: log_purge_def bind_op_def map_err_op_def)
    with delete_range_refines [OF assms(1) v(1) d] show ?thesis
      unfolding v(2) i by (cases r2) simp_all
  next
    case (Err e)
    with assms(3) s v show ?thesis by (auto simp: log_purge_def bind_op_def)
  qed
qed

section \<open>The vote\<close>

text \<open>What else is done to the database, in any order.\<close>

datatype ('l, 'r, 'm) store_op =
    AppendOp "('l, 'r, 'm) entry list"
  | TruncateOp 'l
  | PurgeOp 'l
  | CommittedOp "'l option"
  | SnapshotOp "('l, 'm) stored_snapshot"

fun run_op ::
  "'db kv_store \<Rightarrow> ('l, 'r, 'm) log_codec \<Rightarrow> (('l, 'm) stored_snapshot \<Rightarrow> (bytes, string) result) \<Rightarrow>
   ('l, 'r, 'm) store_op \<Rightarrow> (unit, 'e storage_error, 'db) op" where
  "run_op kv cd enc (AppendOp es) = log_append kv cd es"
| "run_op kv cd enc (TruncateOp l) = log_truncate kv cd l"
| "run_op kv cd enc (PurgeOp l) = log_purge kv cd l"
| "run_op kv cd enc (CommittedOp c) = set_committed kv cd c"
| "run_op kv cd enc (SnapshotOp snap) = set_current_snapshot kv enc snap"

text \<open>Operations one after the other, each whether the one before succeeded or not.\<close>

fun run_ops ::
  "'db kv_store \<Rightarrow> ('l, 'r, 'm) log_codec \<Rightarrow> (('l, 'm) stored_snapshot \<Rightarrow> (bytes, string) result) \<Rightarrow>
   ('l, 'r, 'm) store_op list \<Rightarrow> 'db \<Rightarrow> 'db" where
  "run_ops kv cd enc [] db = db"
| "run_ops kv cd enc (x # xs) db =
     run_ops kv cd enc xs (snd (run_op kv cd enc x db :: (unit, unit storage_error) result \<times> 'db))"

definition vote_bytes :: "(string \<Rightarrow> bytes \<Rightarrow> bytes option) \<Rightarrow> bytes option" where
  "vote_bytes w = w ''store'' (as_bytes ''vote'')"

lemma vote_bytes_logs [simp]: "vote_bytes (w(''logs'' := f)) = vote_bytes w"
  by (simp add: vote_bytes_def)

lemma store_put_vote_bytes:
  assumes "kv_laws kv view" and "as_bytes key \<noteq> as_bytes ''vote''" and "store_put kv key json db = (r, db')"
  shows "vote_bytes (view db') = vote_bytes (view db)"
  using store_put_view [OF assms(1,3)] assms(2) by (auto simp: vote_bytes_def)

lemma logs_write_vote_bytes:
  assumes "kv_writes view m (\<lambda>w. w(''logs'' := f w))" and "map_err_op g m db = (r, db')"
  shows "vote_bytes (view db') = vote_bytes (view db)"
proof -
  obtain r1 where "m db = (r1, db')"
    using assms(2) by (auto simp: map_err_op_def split: prod.splits)
  then have "view db' = view db \<or> view db' = (view db)(''logs'' := f (view db))"
    using assms(1) by (cases r1) (auto simp: kv_writes_def)
  then show ?thesis by auto
qed

lemma append_vote_bytes:
  assumes "kv_laws kv view" and "append_entry kv cd ent db = (r, db')"
  shows "vote_bytes (view db') = vote_bytes (view db)"
  using logs_write_vote_bytes [OF kv_lawsD(2) [OF assms(1)]] assms(2)
  by (cases "enc_entry cd ent") (auto simp: append_entry_def bind_op_def lift_op_def)

lemma purge_vote_bytes:
  fixes r :: "(unit, 'e storage_error) result"
  assumes "kv_laws kv view" and "log_purge kv cd l db = (r, db')"
  shows "vote_bytes (view db') = vote_bytes (view db)"
proof -
  obtain r1 :: "(unit, 'e storage_error) result" and db1 where s: "set_last_purged kv cd l db = (r1, db1)"
    by fastforce
  have "vote_bytes (view db1) = vote_bytes (view db)"
    by (rule store_put_vote_bytes [OF assms(1) _ s [unfolded set_last_purged_def]])
      (simp add: as_bytes_def byte_of_char_def)
  moreover have "vote_bytes (view db') = vote_bytes (view db1)"
  proof (cases r1)
    case (Ok u)
    with assms(2) s have "map_err_op DbError (kv_delete_range kv ''logs'' (id_to_bin 0)
        (id_to_bin (log_index cd l + 1))) db1 = (r, db')"
      by (simp add: log_purge_def bind_op_def)
    then show ?thesis by (rule logs_write_vote_bytes [OF kv_lawsD(4) [OF assms(1)]])
  next
    case (Err e)
    with assms(2) s show ?thesis by (simp add: log_purge_def bind_op_def)
  qed
  ultimately show ?thesis by simp
qed

lemma run_op_vote_bytes:
  assumes "kv_laws kv view" and "run_op kv cd enc x db = (r, db')"
  shows "vote_bytes (view db') = vote_bytes (view db)"
proof (cases x)
  case (AppendOp es)
  with assms(2) have l: "for_op (append_entry kv cd) es db = (r, db')"
    by (simp add: log_append_def)
  show ?thesis
    by (rule for_op_invariant [OF _ _ l, of "\<lambda>d. vote_bytes (view d) = vote_bytes (view db)"])
      (use append_vote_bytes [OF assms(1)] in fastforce)+
next
  case (TruncateOp l)
  with assms(2) logs_write_vote_bytes [OF kv_lawsD(4) [OF assms(1)]] show ?thesis
    by (auto simp: log_truncate_def)
next
  case (PurgeOp l)
  with assms purge_vote_bytes show ?thesis by auto
next
  case (CommittedOp c)
  with assms(2) show ?thesis
    by (intro store_put_vote_bytes [OF assms(1), of "''committed''"])
      (auto simp: set_committed_def as_bytes_def byte_of_char_def)
next
  case (SnapshotOp snap)
  with assms(2) show ?thesis
    by (intro store_put_vote_bytes [OF assms(1), of "''snapshot''"])
      (auto simp: set_current_snapshot_def as_bytes_def byte_of_char_def)
qed

lemma run_ops_vote_bytes:
  "kv_laws kv view \<Longrightarrow> vote_bytes (view (run_ops kv cd enc xs db)) = vote_bytes (view db)"
proof (induction xs arbitrary: db)
  case (Cons x xs)
  then show ?case
    using run_op_vote_bytes [OF Cons.prems prod.collapse [symmetric]] by simp
qed simp

section \<open>A codec for the examples\<close>

definition blank_codec :: "(u64, unit, unit) log_codec" where
  "blank_codec =
     \<lparr>log_index = (\<lambda>i. i),
      enc_entry = (\<lambda>e. if entry_payload e = Blank then Ok (id_to_bin (entry_log_id e)) else Err ''payload''),
      dec_entry = (\<lambda>bs. case bin_to_id bs of
        Ok i \<Rightarrow> Ok \<lparr>entry_log_id = i, entry_payload = Blank\<rparr> | Err _ \<Rightarrow> Err ''length''),
      enc_log_id = (\<lambda>i. Ok (id_to_bin i)),
      dec_log_id = (\<lambda>bs. map_err (\<lambda>_. ''length'') (bin_to_id bs))\<rparr>"

lemma blank_codec_simps [simp]:
  "log_index blank_codec i = i" "enc_entry blank_codec \<lparr>entry_log_id = i, entry_payload = Blank\<rparr> = Ok (id_to_bin i)"
  by (simp_all add: blank_codec_def)

definition bin_to_vote :: "bytes \<Rightarrow> (u64, string) result" where
  "bin_to_vote bs = map_err (\<lambda>_. ''length'') (bin_to_id bs)"

lemma entries_empty: "RBT.entries RBT.empty = []"
  using entries_lookup [of _ _ RBT.empty]
  by (metis RBT.lookup_empty list.set_intros(1) neq_Nil_conv option.distinct(1) surj_pair)

lemma blank_codec_ok: "codec_ok blank_codec"
  by (auto simp: codec_ok_def blank_codec_def split: if_splits)

section \<open>Properties\<close>

text \<open>
  Reading a range of the log returns exactly the entries whose index is in the range, in the
  order of their indexes; the assertion on the index never fails.
\<close>

theorem log_read_exact:
  assumes "kv_laws kv view" and "log_ok cd (view db)" and "lo \<noteq> Excluded (- 1)"
    and "kv_scan kv ''logs'' (start_key lo) db = map Ok kvs"
  shows "\<exists>es. try_get_log_entries kv cd (lo, hi) db = Ok es \<and>
    sorted_wrt (<) (map (\<lambda>e. log_index cd (entry_log_id e)) es) \<and>
    set es = {ent. \<exists>i. log_at cd (view db) i = Some ent \<and> range_contains (lo, hi) i}"
  by (rule try_get_log_entries_exact [OF assms])

theorem log_read_exact_witness:
  "\<exists>es. try_get_log_entries mem_kv blank_codec (Included 1, Excluded 3)
       ((\<lambda>_. RBT.empty)(''logs'' := RBT.insert (id_to_bin 2) (id_to_bin 2) RBT.empty)) =
     (Ok es :: (_, unit storage_error) result) \<and> set es = {\<lparr>entry_log_id = 2, entry_payload = Blank\<rparr>}"
proof -
  let ?db = "(\<lambda>_. RBT.empty)(''logs'' := RBT.insert (id_to_bin 2) (id_to_bin 2) RBT.empty)"
  have o: "log_ok blank_codec (mem_view ?db)"
    by (auto simp: log_ok_def mem_view_def blank_codec_def split: if_splits)
  have "kv_scan mem_kv ''logs'' (start_key (Included 1)) ?db =
      map Ok (filter (\<lambda>e. start_key (Included 1) \<le> fst e) (RBT.entries (?db ''logs'')))"
    by (simp add: mem_kv_def)
  from log_read_exact [where 'e = unit and hi = "Excluded 3", OF mem_kv_laws o _ this]
  show ?thesis
    by (auto simp: log_at_Some mem_view_def blank_codec_def split: if_splits)
qed

text \<open>
  C31: the log store refines a partial map from indexes to entries: appending adds the entries,
  overwriting those of the same index; truncating removes everything from an index on (but the
  largest index), and purging everything up to an index. Where an operation fails, every key is
  still the index of its entry.
\<close>

theorem log_operations_refine:
  fixes append truncate purge :: "(unit, 'e storage_error) result \<times> 'db"
    and es :: "('l, 'r, 'm) entry list" and l :: 'l
  assumes "kv_laws kv view" and "codec_ok cd" and "log_ok cd (view db)"
  defines "append \<equiv> log_append kv cd es db" and "truncate \<equiv> log_truncate kv cd l db"
    and "purge \<equiv> log_purge kv cd l db"
  shows "log_ok cd (view (snd append)) \<and> (fst append = Ok () \<longrightarrow> log_at cd (view (snd append)) =
      log_at cd (view db) ++ map_of (rev (map (\<lambda>e. (log_index cd (entry_log_id e), e)) es))) \<and>
    log_ok cd (view (snd truncate)) \<and> (fst truncate = Ok () \<longrightarrow> log_at cd (view (snd truncate)) =
      (\<lambda>i. if log_index cd l \<le> i \<and> i < - 1 then None else log_at cd (view db) i)) \<and>
    (log_index cd l \<noteq> - 1 \<longrightarrow> log_ok cd (view (snd purge)) \<and> (fst purge = Ok () \<longrightarrow>
      log_at cd (view (snd purge)) = (\<lambda>i. if i \<le> log_index cd l then None else log_at cd (view db) i)))"
proof -
  have a: "log_append kv cd es db = (fst append, snd append)" "log_purge kv cd l db = (fst purge, snd purge)"
    "log_truncate kv cd l db = (fst truncate, snd truncate)"
    by (simp_all add: append_def purge_def truncate_def)
  show ?thesis
    using log_append_refines [OF assms(1-3) a(1)] log_purge_refines [OF assms(1,3) a(2)]
      log_truncate_refines [OF assms(1,3) a(3)] by simp
qed

theorem log_operations_refine_witness:
  "log_at blank_codec (mem_view (snd (log_append mem_kv blank_codec
      [\<lparr>entry_log_id = 5, entry_payload = Blank\<rparr>] (\<lambda>_. RBT.empty) :: (unit, unit storage_error) result \<times> _))) 5
    = Some \<lparr>entry_log_id = 5, entry_payload = Blank\<rparr>"
proof -
  let ?es = "[\<lparr>entry_log_id = 5 :: u64, entry_payload = Blank :: (unit, unit) entry_payload\<rparr>]"
  have o: "log_ok blank_codec (mem_view (\<lambda>_. RBT.empty))"
    by (simp add: log_ok_def mem_view_def)
  have "fst (log_append mem_kv blank_codec ?es (\<lambda>_. RBT.empty) :: (unit, unit storage_error) result \<times> _) = Ok ()"
    by (simp add: log_append_def append_entry_def bind_op_def lift_op_def pure_op_def map_err_op_def mem_kv_def)
  with log_operations_refine [where 'e = unit, of mem_kv mem_view blank_codec "\<lambda>_. RBT.empty" ?es 0, OF mem_kv_laws blank_codec_ok o]
  show ?thesis by simp
qed

text \<open>
  A vote once saved is the vote that is read back, whatever is appended, truncated, purged,
  committed or snapshotted in between and whichever of these fail.
\<close>

theorem vote_survives:
  assumes "kv_laws kv view" and "enc_vote v = Ok bs" and "dec_vote bs = Ok v"
    and "set_vote kv enc_vote v db = (Ok (), db1)"
  shows "case get_vote kv dec_vote (run_ops kv cd enc_snap xs db1) of Ok r \<Rightarrow> r = Some v | Err _ \<Rightarrow> True"
proof -
  have "vote_bytes (view db1) = Some bs"
    using store_put_view [OF assms(1) assms(4) [unfolded set_vote_def]] assms(2)
    by (auto simp: vote_bytes_def)
  then have "view (run_ops kv cd enc_snap xs db1) ''store'' (as_bytes ''vote'') = Some bs"
    using run_ops_vote_bytes [OF assms(1), of cd enc_snap xs db1] by (simp add: vote_bytes_def)
  with kv_lawsD(1) [OF assms(1)] assms(3) show ?thesis
    by (cases "kv_get kv ''store'' (as_bytes ''vote'') (run_ops kv cd enc_snap xs db1)")
      (auto simp: get_vote_def store_get_def)
qed

theorem vote_survives_witness:
  "case get_vote mem_kv bin_to_vote (run_ops mem_kv blank_codec (\<lambda>_. Err ''no'') [PurgeOp 3, TruncateOp 9]
      ((\<lambda>_. RBT.empty)(''store'' := RBT.insert (as_bytes ''vote'') (id_to_bin 7) RBT.empty)))
    of Ok r \<Rightarrow> r = Some 7 | Err (e :: unit storage_error) \<Rightarrow> True"
proof (rule vote_survives [OF mem_kv_laws, where bs = "id_to_bin 7"])
  show "set_vote mem_kv (\<lambda>v. Ok (id_to_bin v)) 7 (\<lambda>_. RBT.empty) =
      (Ok () :: (unit, unit storage_error) result,
       (\<lambda>_. RBT.empty)(''store'' := RBT.insert (as_bytes ''vote'') (id_to_bin 7) RBT.empty))"
    by (simp add: set_vote_def store_put_def bind_op_def lift_op_def map_err_op_def mem_kv_def)
qed (simp_all add: bin_to_vote_def)

end
