(* ===== verification/Topic_State_Machine.thy ===== *)
theory Topic_State_Machine
  imports Topic_Store Raft_Log
begin

text \<open>
  The replicated state machine over the topic store, \<open>broker/src/raft/topic/store.rs\<close> and
  \<open>types.rs\<close>: applying committed log entries, building and installing snapshots. Log identifiers,
  memberships and the entries' leader terms belong to \<open>openraft\<close> and are type parameters; the
  JSON codecs and the database are arguments.
\<close>

section \<open>Requests and entries\<close>

datatype topic_request =
    SubscribeTopic string string string u8 bool bool
  | UnsubscribeTopic string string string
  | RegisterRetainPublishPacket string string packet
  | CleanRetainPublishPacket string string
  | CreateTenant string

datatype topic_response = RespNone

record ('l, 'm) topic_state_machine =
  last_applied_log_id :: "'l option"
  last_membership :: "'l option \<times> 'm"
  sm_topic_storage :: topic_storage

section \<open>Applying the log\<close>

fun apply_topic_request ::
  "(string \<Rightarrow> string) \<Rightarrow> topic_request \<Rightarrow> topic_storage \<Rightarrow> (topic_storage, topic_storage_error storage_error) result" where
  "apply_topic_request b64 (SubscribeTopic tenant client topic qos nl rap) st =
     (let st = (if contains_tenant st tenant then st else create_tenant tenant st) in
      Ok (or_unchanged st (subscribe_with_options b64 st tenant client topic qos nl rap)))"
| "apply_topic_request b64 (UnsubscribeTopic tenant client topic) st =
     Ok (or_unchanged st (storage_unsubscribe b64 st tenant client topic))"
| "apply_topic_request b64 (RegisterRetainPublishPacket tenant source packet) st =
     map_err WriteStateMachine (register_retain_publish_packet st tenant source packet)"
| "apply_topic_request b64 (CleanRetainPublishPacket tenant topic) st =
     Ok (or_unchanged st (clean_retain_publish_packet st tenant topic))"
| "apply_topic_request b64 (CreateTenant tenant) st = Ok (create_tenant tenant st)"

text \<open>
  The loop returns with the first error; what was applied before stays applied, and the entry that
  failed is already recorded as the last one.
\<close>

fun topic_apply ::
  "(string \<Rightarrow> string) \<Rightarrow> ('l, topic_request, 'm) entry list \<Rightarrow> ('l, 'm) topic_state_machine \<Rightarrow>
   ('l, 'm) topic_state_machine \<times> (topic_response list, topic_storage_error storage_error) result" where
  "topic_apply b64 [] sm = (sm, Ok [])"
| "topic_apply b64 (ent # rest) sm =
     (let sm = sm\<lparr>last_applied_log_id := Some (entry_log_id ent)\<rparr> in
      case entry_payload ent of
        Blank \<Rightarrow> replies_then [RespNone] (topic_apply b64 rest sm)
      | Normal req \<Rightarrow>
          (case apply_topic_request b64 req (sm_topic_storage sm) of
             Ok st \<Rightarrow> replies_then [RespNone]
               (topic_apply b64 rest (sm\<lparr>sm_topic_storage := st\<rparr>))
           | Err e \<Rightarrow> (sm, Err e))
      | Membership m \<Rightarrow> replies_then [RespNone]
          (topic_apply b64 rest (sm\<lparr>last_membership := (Some (entry_log_id ent), m)\<rparr>)))"

section \<open>Snapshots\<close>

definition snapshot_json ::
  "(serializable_topic_storage, 'l, 'm) snapshot_codec \<Rightarrow> ('l, 'm) topic_state_machine \<Rightarrow> (bytes, topic_storage_error storage_error) result" where
  "snapshot_json sc sm =
     and_then (map_err SerdeError (storage_to_snapshot (to_vec sc) (sm_topic_storage sm))) (\<lambda>data.
     map_err SerdeError (wrap sc data))"

definition build_snapshot ::
  "'db kv_store \<Rightarrow> (serializable_topic_storage, 'l, 'm) snapshot_codec \<Rightarrow> ('l, 'm) topic_state_machine \<Rightarrow>
   (('l, 'm) stored_snapshot, topic_storage_error storage_error, 'db) op" where
  "build_snapshot kv sc sm =
     bind_op (lift_op (snapshot_json sc sm)) (\<lambda>json.
     let snapshot =
       \<lparr>snap_meta = \<lparr>meta_last_log_id = last_applied_log_id sm,
                    meta_last_membership = last_membership sm,
                    meta_snapshot_id = snapshot_id sc (last_applied_log_id sm)\<rparr>,
        snap_data = json\<rparr> in
     bind_op (set_current_snapshot kv (enc_snapshot sc) snapshot) (\<lambda>_.
     pure_op snapshot))"

text \<open>The state machine is returned also on an error: by then its log id is already replaced.\<close>

definition update_state_machine ::
  "(string \<Rightarrow> string) \<Rightarrow> (serializable_topic_storage, 'l, 'm) snapshot_codec \<Rightarrow> ('l, 'm) stored_snapshot \<Rightarrow>
   (unit, topic_storage_error storage_error, ('l, 'm) topic_state_machine) op" where
  "update_state_machine b64 sc snapshot sm =
     (case unwrap sc (snap_data snapshot) of
        Err e \<Rightarrow> (Err (SerdeError e), sm)
      | Ok data \<Rightarrow>
          let sm = sm\<lparr>last_applied_log_id := meta_last_log_id (snap_meta snapshot),
                      last_membership := meta_last_membership (snap_meta snapshot)\<rparr> in
          (case storage_from_snapshot b64 (from_slice sc) data of
             Err e \<Rightarrow> (Err (SerdeError e), sm)
           | Ok st \<Rightarrow> (Ok (), sm\<lparr>sm_topic_storage := st\<rparr>)))"

definition install_snapshot ::
  "(string \<Rightarrow> string) \<Rightarrow> 'db kv_store \<Rightarrow> (serializable_topic_storage, 'l, 'm) snapshot_codec \<Rightarrow> ('l, 'm) stored_snapshot \<Rightarrow>
   (unit, topic_storage_error storage_error, ('l, 'm) topic_state_machine \<times> 'db) op" where
  "install_snapshot b64 kv sc snapshot s =
     (case update_state_machine b64 sc snapshot (fst s) of
        (Err e, sm) \<Rightarrow> (Err e, (sm, snd s))
      | (Ok _, sm) \<Rightarrow>
          (case set_current_snapshot kv (enc_snapshot sc) snapshot (snd s) of
             (r, db) \<Rightarrow> (r, (sm, db))))"

text \<open>
  Starting a store on a database: the state machine of the current snapshot, if there is one that
  can be read, otherwise one with the store it is given (\<open>membership\<close> is the default of \<open>openraft\<close>).
\<close>

definition state_machine_new ::
  "(string \<Rightarrow> string) \<Rightarrow> 'db kv_store \<Rightarrow> (serializable_topic_storage, 'l, 'm) snapshot_codec \<Rightarrow> 'l option \<times> 'm \<Rightarrow> topic_storage \<Rightarrow> 'db \<Rightarrow>
   (('l, 'm) topic_state_machine, topic_storage_error storage_error) result" where
  "state_machine_new b64 kv sc membership st db =
     (let sm = \<lparr>last_applied_log_id = None, last_membership = membership, sm_topic_storage = st\<rparr> in
      and_then (get_current_snapshot kv (dec_snapshot sc) db) (\<lambda>snapshot.
      case snapshot of
        None \<Rightarrow> Ok sm
      | Some snap \<Rightarrow>
          (case update_state_machine b64 sc snap sm of (Ok _, sm) \<Rightarrow> Ok sm | (Err e, _) \<Rightarrow> Err e)))"

section \<open>The invariant over a log\<close>

text \<open>Strings of requests are Rust strings.\<close>

fun topic_request_ok :: "topic_request \<Rightarrow> bool" where
  "topic_request_ok (SubscribeTopic tenant client topic qos nl rap) \<longleftrightarrow> valid_str client \<and> valid_str topic"
| "topic_request_ok _ \<longleftrightarrow> True"

definition topic_entry_ok :: "('l, topic_request, 'm) entry \<Rightarrow> bool" where
  "topic_entry_ok ent = (case entry_payload ent of Normal req \<Rightarrow> topic_request_ok req | _ \<Rightarrow> True)"

lemma apply_topic_request_ok:
  assumes "base64_codec b64 unb64" and "storage_ok b64 st" and "topic_request_ok req"
    and "apply_topic_request b64 req st = Ok st'"
  shows "storage_ok b64 st'"
proof (cases req)
  case (SubscribeTopic tenant client topic qos nl rap)
  let ?st = "if contains_tenant st tenant then st else create_tenant tenant st"
  have "storage_ok b64 ?st"
    using assms(2) by (simp add: storage_ok_create)
  moreover have "valid_str client" "valid_str topic"
    using assms(3) SubscribeTopic by auto
  ultimately show ?thesis
    using assms(4) SubscribeTopic storage_ok_subscribe [OF assms(1), of ?st]
    by (cases "subscribe_with_options b64 ?st tenant client topic qos nl rap")
      (auto simp: or_unchanged_def Let_def)
next
  case (UnsubscribeTopic tenant client topic)
  with assms storage_ok_unsubscribe [OF assms(1,2)] show ?thesis
    by (auto simp: or_unchanged_def split: result.splits)
next
  case (RegisterRetainPublishPacket tenant source packet)
  with assms storage_ok_register_retain [OF assms(2)] show ?thesis
    by (cases "register_retain_publish_packet st tenant source packet") auto
next
  case (CleanRetainPublishPacket tenant topic)
  with assms storage_ok_clean_retain [OF assms(2)] show ?thesis
    by (auto simp: or_unchanged_def split: result.splits)
next
  case (CreateTenant tenant)
  with assms show ?thesis by (auto simp: storage_ok_create)
qed

lemma topic_apply_storage_ok:
  assumes "base64_codec b64 unb64"
  shows "list_all topic_entry_ok es \<Longrightarrow> storage_ok b64 (sm_topic_storage sm) \<Longrightarrow>
    storage_ok b64 (sm_topic_storage (fst (topic_apply b64 es sm)))"
proof (induction es arbitrary: sm)
  case (Cons ent rest)
  have "storage_ok b64 st" if "entry_payload ent = Normal req"
    "apply_topic_request b64 req (sm_topic_storage sm) = Ok st" for req st
    using apply_topic_request_ok [OF assms Cons.prems(2) _ that(2)] that(1) Cons.prems(1)
    by (simp add: topic_entry_ok_def)
  with Cons show ?case
    by (auto simp: Let_def split: entry_payload.splits result.splits)
qed simp

lemma topic_apply_append:
  "topic_apply b64 es sm = (sm', Ok rs) \<Longrightarrow>
   topic_apply b64 (es @ es') sm = replies_then rs (topic_apply b64 es' sm')"
proof (induction es arbitrary: sm rs)
  case (Cons ent rest)
  then show ?case
    by (auto simp: Let_def replies_then_Ok split: entry_payload.splits result.splits)
qed simp

section \<open>A codec for the examples\<close>

definition example_machine :: "(nat, unit) topic_state_machine" where
  "example_machine = \<lparr>last_applied_log_id = Some 1, last_membership = (None, ()),
     sm_topic_storage = topic_storage_new\<rparr>"

definition example_codec :: "(serializable_topic_storage, nat, unit) snapshot_codec" where
  "example_codec =
     \<lparr>to_vec = \<lambda>_. Ok [7], from_slice = \<lambda>_. Ok (storage_to_serializable topic_storage_new),
      wrap = Ok, unwrap = Ok, enc_snapshot = \<lambda>_. Ok [9],
      dec_snapshot = \<lambda>_. Ok \<lparr>snap_meta = \<lparr>meta_last_log_id = Some 1, meta_last_membership = (None, ()),
        meta_snapshot_id = ''s''\<rparr>, snap_data = [7]\<rparr>,
      snapshot_id = \<lambda>_. ''s''\<rparr>"

section \<open>Properties\<close>

text \<open>
  Whatever committed log is applied to a fresh store, and even where an entry fails, the
  store's invariant holds: the trees are well-formed, and both indexes agree with them.
\<close>

theorem topic_log_invariant:
  assumes "base64_codec b64 unb64" and "list_all topic_entry_ok es"
    and "sm_topic_storage sm = topic_storage_new"
  shows "storage_ok b64 (sm_topic_storage (fst (topic_apply b64 es sm)))"
  using topic_apply_storage_ok [OF assms(1,2), of sm] assms(3) by (simp add: storage_ok_new)

theorem topic_log_invariant_witness:
  "storage_ok hex_encode (sm_topic_storage (fst (topic_apply hex_encode
     [\<lparr>entry_log_id = (1 :: nat),
       entry_payload = Normal (SubscribeTopic ''t'' ''c'' ''a/+'' 1 False False) :: (_, unit) entry_payload\<rparr>]
     \<lparr>last_applied_log_id = None, last_membership = (None, ()), sm_topic_storage = topic_storage_new\<rparr>)))"
proof (rule topic_log_invariant [OF hex_codec])
  show "list_all topic_entry_ok [\<lparr>entry_log_id = (1 :: nat),
      entry_payload = Normal (SubscribeTopic ''t'' ''c'' ''a/+'' 1 False False) :: (_, unit) entry_payload\<rparr>]"
    by (simp add: topic_entry_ok_def valid_str_def as_bytes_def byte_of_char_def)
qed simp

text \<open>
  C12: a replica that installs a snapshot and applies the rest of the log, and the node itself when
  it is restarted from the snapshot it saved, reach the same state and the same answers as a
  replica that applied the whole log; provided the JSON codecs read back what they wrote and the
  restart can read its database.
\<close>

theorem snapshot_then_log_equals_log:
  assumes "base64_codec b64 unb64" and "kv_laws kv view" and "list_all topic_entry_ok es"
    and "sm_topic_storage sm = topic_storage_new"
    and "topic_apply b64 es sm = (sm1, Ok rs)"
    and "build_snapshot kv sc sm1 db = (Ok snapshot, db1)"
    and "to_vec sc (storage_to_serializable (sm_topic_storage sm1)) = Ok bs"
    and "from_slice sc bs = Ok (storage_to_serializable (sm_topic_storage sm1))"
    and "unwrap sc (snap_data snapshot) = Ok bs"
    and "enc_snapshot sc snapshot = Ok js" and "dec_snapshot sc js = Ok snapshot"
  shows "\<exists>sm2. update_state_machine b64 sc snapshot other = (Ok (), sm2) \<and>
    (case state_machine_new b64 kv sc membership st db1 of
       Ok sm3 \<Rightarrow> sm3 = sm2 | Err e \<Rightarrow> (\<exists>s. e = DbError s)) \<and>
    topic_apply b64 (es @ es') sm = replies_then rs (topic_apply b64 es' sm2)"
proof -
  have o: "storage_ok b64 (sm_topic_storage sm1)"
    using topic_apply_storage_ok [OF assms(1,3), of sm] assms(4,5) by (simp add: storage_ok_new)
  have r: "storage_from_snapshot b64 (from_slice sc) bs = Ok (sm_topic_storage sm1)"
    by (rule storage_restore [OF o]) (rule assms(8))
  from assms(6) have meta: "snap_meta snapshot = \<lparr>meta_last_log_id = last_applied_log_id sm1,
      meta_last_membership = last_membership sm1,
      meta_snapshot_id = snapshot_id sc (last_applied_log_id sm1)\<rparr>"
    and put: "store_put kv ''snapshot'' (enc_snapshot sc snapshot) db =
      (Ok () :: (unit, topic_storage_error storage_error) result, db1)"
    by (auto simp: build_snapshot_def bind_op_eq_Ok Let_def set_current_snapshot_def)
  have u: "update_state_machine b64 sc snapshot x = (Ok (), sm1)" for x
    using assms(9) meta r by (cases sm1; cases x) (simp add: update_state_machine_def)
  have "view db1 ''store'' (as_bytes ''snapshot'') = Some js"
    using store_put_view [OF assms(2) put] assms(10) by auto
  then have "get_current_snapshot kv (dec_snapshot sc) db1 =
        (Ok (Some snapshot) :: (_, topic_storage_error storage_error) result) \<or>
      (\<exists>s. get_current_snapshot kv (dec_snapshot sc) db1 = Err (DbError s :: topic_storage_error storage_error))"
    using kv_lawsD(1) [OF assms(2)] assms(11)
    by (cases "kv_get kv ''store'' (as_bytes ''snapshot'') db1")
      (auto simp: get_current_snapshot_def store_get_def)
  then show ?thesis
    using topic_apply_append [OF assms(5), of es'] u by (auto simp: state_machine_new_def)
qed

theorem snapshot_then_log_equals_log_witness:
  "\<exists>snapshot db1 sm2 :: (nat, unit) topic_state_machine.
     build_snapshot mem_kv example_codec example_machine (\<lambda>_. RBT.empty) = (Ok snapshot, db1) \<and>
     update_state_machine hex_encode example_codec snapshot example_machine = (Ok (), sm2) \<and>
     (case state_machine_new hex_encode mem_kv example_codec (None, ()) topic_storage_new db1 of
        Ok sm3 \<Rightarrow> sm3 = sm2 | Err e \<Rightarrow> (\<exists>s. e = DbError s))"
proof -
  let ?sm = "\<lparr>last_applied_log_id = None, last_membership = (None :: nat option, ()),
    sm_topic_storage = topic_storage_new\<rparr>"
  let ?e = "\<lparr>entry_log_id = 1 :: nat, entry_payload = Blank :: (topic_request, unit) entry_payload\<rparr>"
  let ?s = "\<lparr>snap_meta = \<lparr>meta_last_log_id = Some 1, meta_last_membership = (None, ()),
    meta_snapshot_id = ''s''\<rparr>, snap_data = [7]\<rparr>"
  have b: "build_snapshot mem_kv example_codec example_machine (\<lambda>_. RBT.empty) =
      (Ok ?s, (\<lambda>_. RBT.empty)(''store'' := RBT.insert (as_bytes ''snapshot'') [9] RBT.empty))"
    by (simp add: build_snapshot_def snapshot_json_def storage_to_snapshot_def bind_op_def lift_op_def
        pure_op_def set_current_snapshot_def store_put_def map_err_op_def mem_kv_def example_codec_def
        example_machine_def)
  have a: "topic_apply hex_encode [?e] ?sm = (example_machine, Ok [RespNone])"
    by (simp add: example_machine_def replies_then_def)
  have c: "list_all topic_entry_ok [?e]" "sm_topic_storage ?sm = topic_storage_new"
    "to_vec example_codec (storage_to_serializable (sm_topic_storage example_machine)) = Ok [7]"
    "from_slice example_codec [7] = Ok (storage_to_serializable (sm_topic_storage example_machine))"
    "unwrap example_codec (snap_data ?s) = Ok [7]"
    "enc_snapshot example_codec ?s = Ok [9]" "dec_snapshot example_codec [9] = Ok ?s"
    by (simp_all add: topic_entry_ok_def example_codec_def example_machine_def)
  from snapshot_then_log_equals_log [of hex_encode hex_decode mem_kv mem_view "[?e]" ?sm example_machine
      "[RespNone]" example_codec "\<lambda>_. RBT.empty" ?s _ "[7]" "[9]" example_machine "(None, ())" topic_storage_new "[]",
      OF hex_codec mem_kv_laws c(1,2) a b c(3-7)] b
  show ?thesis by blast
qed

text \<open>
  C34: a retained message whose topic name the store refuses, once committed to the log, makes
  \<open>apply\<close> fail on every replica that reaches it, whatever follows it: no later entry of the log is
  ever applied.
\<close>

theorem invalid_retained_topic_stops_log:
  assumes "topic_apply b64 es sm = (sm1, Ok rs)"
    and "entry_payload e = Normal (RegisterRetainPublishPacket tenant source (Publish p))"
    and "\<not> test_topic (topic_name p)"
  shows "topic_apply b64 (es @ e # es') sm =
    (sm1\<lparr>last_applied_log_id := Some (entry_log_id e)\<rparr>,
     Err (WriteStateMachine (InvalidTopicFilter (topic_name p))))"
  using assms(2,3)
  by (simp add: topic_apply_append [OF assms(1)] register_retain_publish_packet_def
      replies_then_def)

theorem invalid_retained_topic_stops_log_witness:
  "snd (topic_apply hex_encode
     [\<lparr>entry_log_id = 1 :: nat, entry_payload = Normal (RegisterRetainPublishPacket ''public'' ''c''
        (Publish (example_expiring_publish\<lparr>topic_name := ''a#''\<rparr>))) :: (_, unit) entry_payload\<rparr>,
      \<lparr>entry_log_id = 2, entry_payload = Normal (CreateTenant ''t'')\<rparr>]
     \<lparr>last_applied_log_id = None, last_membership = (None, ()), sm_topic_storage = topic_storage_new\<rparr>)
   = Err (WriteStateMachine (InvalidTopicFilter ''a#''))"
  using invalid_retained_topic_stops_log [of hex_encode "[]"
      "\<lparr>last_applied_log_id = None, last_membership = (None, ()), sm_topic_storage = topic_storage_new\<rparr>"
      "\<lparr>last_applied_log_id = None, last_membership = (None, ()), sm_topic_storage = topic_storage_new\<rparr>"
      "[]" "\<lparr>entry_log_id = 1 :: nat, entry_payload = Normal (RegisterRetainPublishPacket ''public'' ''c''
        (Publish (example_expiring_publish\<lparr>topic_name := ''a#''\<rparr>))) :: (_, unit) entry_payload\<rparr>"
      "''public''" "''c''" "example_expiring_publish\<lparr>topic_name := ''a#''\<rparr>"]
  by (simp add: test_topic_def Let_def)

end
