(* ===== verification/Inflight.thy ===== *)
theory Inflight
  imports Hash_Map
begin

text \<open>
  Messages in flight, \<open>broker/src/inflight.rs\<close>: per packet identifier the state of its QoS exchange
  and the key of its stored payload. A call reads the clock through its argument \<open>now\<close>; of the
  configured \<open>Duration\<close> only the whole seconds are used.
\<close>

section \<open>State\<close>

datatype inflight_error = PacketIdentifierHasExisted

datatype inflight_state = WaitPubrel | WaitPubcomp | WaitPubrec | WaitPuback | Finish

record inflight_item =
  item_packet_identifier :: u16
  item_state :: inflight_state
  packet_key :: "string option"
  last_modified :: u64
  delivery_started :: bool

record inflight =
  inflight_inner :: "(u16, inflight_item) hash_map"
  expired_duration :: u64

section \<open>Operations\<close>

definition to_next :: "u64 \<Rightarrow> inflight_item \<Rightarrow> inflight_item" where
  "to_next now item =
     item\<lparr>item_state :=
            (case item_state item of
               WaitPubrel \<Rightarrow> Finish
             | WaitPubcomp \<Rightarrow> Finish
             | WaitPubrec \<Rightarrow> WaitPubcomp
             | WaitPuback \<Rightarrow> Finish
             | Finish \<Rightarrow> Finish),
          last_modified := now\<rparr>"

definition inflight_new :: "u64 \<Rightarrow> inflight" where
  "inflight_new duration = \<lparr>inflight_inner = [], expired_duration = duration\<rparr>"

definition get_all_packet_keys :: "inflight \<Rightarrow> string list" where
  "get_all_packet_keys i = List.map_filter (\<lambda>(_, item). packet_key item) (inflight_inner i)"

text \<open>\<open>insert\<close> returns the item replaced; the key of it is what the callers use.\<close>

definition insert_item :: "inflight_item \<Rightarrow> inflight \<Rightarrow> string option \<times> inflight" where
  "insert_item item i =
     ((case hm_get (inflight_inner i) (item_packet_identifier item) of
         Some old \<Rightarrow> packet_key old | None \<Rightarrow> None),
      i\<lparr>inflight_inner := hm_insert (item_packet_identifier item) item (inflight_inner i)\<rparr>)"

definition register_with_rx_packet ::
  "u64 \<Rightarrow> u16 \<Rightarrow> u8 \<Rightarrow> string \<Rightarrow> inflight \<Rightarrow> string option \<times> inflight" where
  "register_with_rx_packet now pid qos key i =
     (if qos = 2 then
        insert_item \<lparr>item_packet_identifier = pid, item_state = WaitPubrel, packet_key = Some key,
                     last_modified = now, delivery_started = True\<rparr> i
      else if qos = 1 then
        insert_item \<lparr>item_packet_identifier = pid, item_state = Finish, packet_key = Some key,
                     last_modified = now, delivery_started = True\<rparr> i
      else (None, i))"

definition packet_id_exists :: "u16 \<Rightarrow> inflight \<Rightarrow> bool" where
  "packet_id_exists pid i \<longleftrightarrow> hm_get (inflight_inner i) pid \<noteq> None"

definition register_with_tx_packet ::
  "u64 \<Rightarrow> u16 \<Rightarrow> u8 \<Rightarrow> string \<Rightarrow> inflight \<Rightarrow> (string option \<times> inflight, inflight_error) result" where
  "register_with_tx_packet now pid qos key i =
     (if packet_id_exists pid i then Err PacketIdentifierHasExisted
      else if qos = 2 then
        Ok (insert_item \<lparr>item_packet_identifier = pid, item_state = WaitPubrec, packet_key = Some key,
                         last_modified = now, delivery_started = True\<rparr> i)
      else if qos = 1 then
        Ok (insert_item \<lparr>item_packet_identifier = pid, item_state = WaitPuback, packet_key = Some key,
                         last_modified = now, delivery_started = True\<rparr> i)
      else Ok (None, i))"

definition get_all_packet_keys_and_refresh_expired_time ::
  "u64 \<Rightarrow> inflight \<Rightarrow> (u16 \<times> string) list \<times> inflight" where
  "get_all_packet_keys_and_refresh_expired_time now i =
     (List.map_filter (\<lambda>(_, item). map_option (Pair (item_packet_identifier item)) (packet_key item))
        (inflight_inner i),
      i\<lparr>inflight_inner := map (\<lambda>(k, item). (k, item\<lparr>last_modified := now\<rparr>)) (inflight_inner i)\<rparr>)"

text \<open>The sum of a modification time and the duration wraps like the \<open>u64\<close> addition.\<close>

definition item_expired :: "u64 \<Rightarrow> inflight \<Rightarrow> inflight_item \<Rightarrow> bool" where
  "item_expired now i item \<longleftrightarrow> last_modified item + expired_duration i < now"

definition get_all_expired_packet_keys_and_refresh_expired_time ::
  "u64 \<Rightarrow> inflight \<Rightarrow> (u16 \<times> string) list \<times> inflight" where
  "get_all_expired_packet_keys_and_refresh_expired_time now i =
     (List.map_filter (\<lambda>(_, item). if item_expired now i item
          then map_option (Pair (item_packet_identifier item)) (packet_key item) else None)
        (inflight_inner i),
      i\<lparr>inflight_inner := map (\<lambda>(k, item).
          (k, if item_expired now i item then item\<lparr>last_modified := now\<rparr> else item)) (inflight_inner i)\<rparr>)"

definition get_next_state_packet_key :: "u16 \<Rightarrow> inflight \<Rightarrow> string option" where
  "get_next_state_packet_key pid i =
     (case hm_get (inflight_inner i) pid of Some item \<Rightarrow> packet_key item | None \<Rightarrow> None)"

text \<open>The search of \<open>(1..=65535).find\<close> from \<open>n\<close> on.\<close>

function allocate_from :: "nat \<Rightarrow> inflight \<Rightarrow> u16 option" where
  "allocate_from n i =
     (if n > 65535 then None
      else if hm_get (inflight_inner i) (word_of_nat n) = None then Some (word_of_nat n)
      else allocate_from (n + 1) i)"
  by auto
termination
  by (relation "measure (\<lambda>(n, i). 65536 - n)") auto

declare allocate_from.simps [simp del]

definition allocate_packet_id :: "inflight \<Rightarrow> u16 option" where
  "allocate_packet_id i = allocate_from 1 i"

definition get_current_packet_key :: "u16 \<Rightarrow> inflight \<Rightarrow> string option" where
  "get_current_packet_key pid i =
     (case hm_get (inflight_inner i) pid of Some item \<Rightarrow> packet_key item | None \<Rightarrow> None)"

definition get_inflight_current_state :: "u16 \<Rightarrow> inflight \<Rightarrow> inflight_state option" where
  "get_inflight_current_state pid i = map_option item_state (hm_get (inflight_inner i) pid)"

definition mark_delivery_started :: "u16 \<Rightarrow> string \<Rightarrow> inflight \<Rightarrow> bool \<times> inflight" where
  "mark_delivery_started pid key i =
     (case hm_get (inflight_inner i) pid of
        Some item \<Rightarrow>
          if packet_key item = Some key
          then (True, i\<lparr>inflight_inner := hm_insert pid (item\<lparr>delivery_started := True\<rparr>) (inflight_inner i)\<rparr>)
          else (False, i)
      | None \<Rightarrow> (False, i))"

definition discard_unsent :: "u16 \<Rightarrow> string \<Rightarrow> inflight \<Rightarrow> string option \<times> inflight" where
  "discard_unsent pid key i =
     (case hm_get (inflight_inner i) pid of
        None \<Rightarrow> (None, i)
      | Some item \<Rightarrow>
          if delivery_started item \<or> packet_key item \<noteq> Some key \<or>
             item_state item \<notin> {WaitPuback, WaitPubrec}
          then (None, i)
          else (packet_key item, i\<lparr>inflight_inner := hm_remove pid (inflight_inner i)\<rparr>))"

definition next_state :: "u64 \<Rightarrow> u16 \<Rightarrow> inflight \<Rightarrow> string option \<times> inflight" where
  "next_state now pid i =
     (case hm_get (inflight_inner i) pid of
        Some item \<Rightarrow>
          let item = to_next now item in
          ((if item_state item = Finish then packet_key item else None),
           i\<lparr>inflight_inner := hm_insert pid item (inflight_inner i)\<rparr>)
      | None \<Rightarrow> (None, i))"

definition clean_finished_items :: "inflight \<Rightarrow> string list \<times> inflight" where
  "clean_finished_items i =
     (List.map_filter (\<lambda>(_, v). if item_state v = Finish then packet_key v else None) (inflight_inner i),
      i\<lparr>inflight_inner := filter (\<lambda>(_, v). item_state v \<noteq> Finish) (inflight_inner i)\<rparr>)"

section \<open>The keys in use\<close>

text \<open>The payload keys an inflight table refers to, with their number of uses.\<close>

definition option_mset :: "'a option \<Rightarrow> 'a multiset" where
  "option_mset x = (case x of Some k \<Rightarrow> {#k#} | None \<Rightarrow> {#})"

lemma option_mset_simps [simp]: "option_mset None = {#}" "option_mset (Some k) = {#k#}"
  by (simp_all add: option_mset_def)

definition inflight_keys :: "inflight \<Rightarrow> string multiset" where
  "inflight_keys i = (\<Sum>e\<in>#mset (inflight_inner i). option_mset (packet_key (snd e)))"

definition inflight_ok :: "inflight \<Rightarrow> bool" where
  "inflight_ok i \<longleftrightarrow> hm_ok (inflight_inner i) \<and>
     (\<forall>pid item. hm_get (inflight_inner i) pid = Some item \<longrightarrow>
        item_packet_identifier item = pid \<and> packet_key item \<noteq> None)"

lemma map_filter_mset:
  "mset (List.map_filter f xs) = (\<Sum>x\<in>#mset xs. option_mset (f x))"
  by (induction xs) (auto simp: map_filter_simps split: option.splits)

lemma set_map_filter_iff: "y \<in> set (List.map_filter f xs) \<longleftrightarrow> (\<exists>x\<in>set xs. f x = Some y)"
  by (induction xs) (auto simp: map_filter_simps split: option.splits)

lemma get_all_packet_keys_mset: "mset (get_all_packet_keys i) = inflight_keys i"
  by (simp add: get_all_packet_keys_def inflight_keys_def map_filter_mset case_prod_unfold)

lemma inflight_new_ok [simp]: "inflight_ok (inflight_new d)" "inflight_keys (inflight_new d) = {#}"
  by (simp_all add: inflight_ok_def inflight_new_def inflight_keys_def)

lemma insert_item_keys:
  assumes "inflight_ok i" and "insert_item item i = (old, i')"
  shows "inflight_keys i' + option_mset old = inflight_keys i + option_mset (packet_key item)"
proof (cases "hm_get (inflight_inner i) (item_packet_identifier item)")
  case None
  have "hm_ok (inflight_inner i)"
    using assms(1) by (simp add: inflight_ok_def)
  from hm.sum_put_fresh [OF this None, of "\<lambda>e. option_mset (packet_key (snd e))" item] None assms(2)
  show ?thesis
    by (auto simp: insert_item_def inflight_keys_def add.commute)
next
  case (Some v)
  have "hm_ok (inflight_inner i)"
    using assms(1) by (simp add: inflight_ok_def)
  from hm.sum_put_over [OF this Some, of "\<lambda>e. option_mset (packet_key (snd e))" item] Some assms(2)
  show ?thesis
    by (auto simp: insert_item_def inflight_keys_def add.commute)
qed

lemma insert_item_ok:
  "inflight_ok i \<Longrightarrow> packet_key item \<noteq> None \<Longrightarrow> inflight_ok (snd (insert_item item i))"
  by (auto simp: inflight_ok_def insert_item_def)

lemma register_rx_ok: "inflight_ok i \<Longrightarrow> inflight_ok (snd (register_with_rx_packet now pid qos key i))"
  by (simp add: register_with_rx_packet_def insert_item_ok)

lemma register_rx_keys:
  assumes "inflight_ok i" and "register_with_rx_packet now pid qos key i = (old, i')"
  shows "inflight_keys i' + option_mset old =
    inflight_keys i + (if qos = 1 \<or> qos = 2 then {#key#} else {#})"
  using assms insert_item_keys [OF assms(1)]
  by (auto simp: register_with_rx_packet_def split: if_splits)

lemma register_tx_ok:
  "inflight_ok i \<Longrightarrow> register_with_tx_packet now pid qos key i = Ok (old, i') \<Longrightarrow> inflight_ok i'"
  by (auto simp: register_with_tx_packet_def split: if_splits dest: insert_item_ok)
    (metis insert_item_ok inflight_item.select_convs(3) option.distinct(1) snd_conv)+

lemma register_tx_keys:
  assumes "inflight_ok i" and "register_with_tx_packet now pid qos key i = Ok (old, i')"
  shows "old = None"
    and "inflight_keys i' = inflight_keys i + (if qos = 1 \<or> qos = 2 then {#key#} else {#})"
proof -
  show n: "old = None"
    using assms(2)
    by (auto simp: register_with_tx_packet_def packet_id_exists_def insert_item_def split: if_splits)
  show "inflight_keys i' = inflight_keys i + (if qos = 1 \<or> qos = 2 then {#key#} else {#})"
    using assms(2) insert_item_keys [OF assms(1)] n
    by (fastforce simp: register_with_tx_packet_def split: if_splits)
qed

lemma update_item_keys:
  assumes "hm_ok (inflight_inner i)" and "hm_get (inflight_inner i) pid = Some item"
    and "packet_key item' = packet_key item"
  shows "inflight_keys (i\<lparr>inflight_inner := hm_insert pid item' (inflight_inner i)\<rparr>) = inflight_keys i"
  using hm.sum_put_over [OF assms(1,2), of "\<lambda>e. option_mset (packet_key (snd e))" item'] assms(3)
  by (simp add: inflight_keys_def)

lemma next_state_keys:
  "inflight_ok i \<Longrightarrow> inflight_keys (snd (next_state now pid i)) = inflight_keys i"
  by (auto simp: next_state_def Let_def inflight_ok_def to_next_def update_item_keys
      split: option.splits)

lemma next_state_ok: "inflight_ok i \<Longrightarrow> inflight_ok (snd (next_state now pid i))"
  by (auto simp: next_state_def Let_def inflight_ok_def to_next_def split: option.splits)

lemma discard_unsent_keys:
  assumes "inflight_ok i" and "discard_unsent pid key i = (k, i')"
  shows "inflight_keys i = inflight_keys i' + option_mset k" and "inflight_ok i'"
proof -
  have o: "hm_ok (inflight_inner i)" using assms(1) by (simp add: inflight_ok_def)
  show "inflight_ok i'"
    using assms by (auto simp: discard_unsent_def inflight_ok_def split: option.splits if_splits)
  show "inflight_keys i = inflight_keys i' + option_mset k"
  proof (cases "hm_get (inflight_inner i) pid")
    case (Some item)
    with assms(2) hm.sum_del [OF o Some, of "\<lambda>e. option_mset (packet_key (snd e))"] show ?thesis
      by (auto simp: discard_unsent_def inflight_keys_def add.commute split: if_splits)
  qed (use assms(2) in \<open>auto simp: discard_unsent_def\<close>)
qed

lemma clean_finished_keys:
  assumes "clean_finished_items i = (ks, i')"
  shows "inflight_keys i = inflight_keys i' + mset ks"
proof -
  have "(\<Sum>e\<in>#mset xs. option_mset (packet_key (snd e))) =
      (\<Sum>e\<in>#mset (filter (\<lambda>(_, v). item_state v \<noteq> Finish) xs). option_mset (packet_key (snd e))) +
      mset (List.map_filter (\<lambda>(_, v). if item_state v = Finish then packet_key v else None) xs)"
    for xs :: "(u16 \<times> inflight_item) list"
    by (induction xs) (auto simp: map_filter_simps split: option.splits)
  from this [of "inflight_inner i"] assms show ?thesis
    by (auto simp: clean_finished_items_def inflight_keys_def)
qed

lemma map_of_filter_val:
  "hm_ok m \<Longrightarrow> map_of (filter (\<lambda>(_, v). P v) m) k =
     (case map_of m k of Some v \<Rightarrow> if P v then Some v else None | None \<Rightarrow> None)"
proof (induction m)
  case (Cons e m)
  then have "map_of m (fst e) = None"
    by (auto simp: hm_ok_def map_of_eq_None_iff)
  with Cons show ?case
    by (cases e) (auto simp: hm_ok_def split: option.splits)
qed simp

lemma clean_finished_ok: "inflight_ok i \<Longrightarrow> inflight_ok (snd (clean_finished_items i))"
  by (auto simp: inflight_ok_def clean_finished_items_def map_of_filter_val hm_ok_def
      distinct_map_filter split: option.splits if_splits)

lemma clean_finished_get:
  "inflight_ok i \<Longrightarrow> hm_get (inflight_inner (snd (clean_finished_items i))) pid =
     (case hm_get (inflight_inner i) pid of
        Some item \<Rightarrow> if item_state item = Finish then None else Some item | None \<Rightarrow> None)"
  by (auto simp: inflight_ok_def clean_finished_items_def map_of_filter_val split: option.splits)

section \<open>Allocation of packet identifiers\<close>

lemma word_of_nat_u16_inj: "n < 65536 \<Longrightarrow> unat (word_of_nat n :: u16) = n"
  by (simp add: unat_of_nat take_bit_nat_eq_self)

lemma allocate_from_Some:
  "allocate_from n i = Some pid \<Longrightarrow> \<exists>m. n \<le> m \<and> m \<le> 65535 \<and> pid = word_of_nat m \<and>
     hm_get (inflight_inner i) (word_of_nat m) = None \<and>
     (\<forall>k. n \<le> k \<and> k < m \<longrightarrow> hm_get (inflight_inner i) (word_of_nat k) \<noteq> None)"
proof (induction n i rule: allocate_from.induct)
  case (1 n i)
  show ?case
  proof (cases "hm_get (inflight_inner i) (word_of_nat n)")
    case None
    with "1.prems" show ?thesis
      by (subst (asm) allocate_from.simps) (auto intro!: exI [of _ n] split: if_splits)
  next
    case (Some item)
    with "1.prems" have "n \<le> 65535" "allocate_from (n + 1) i = Some pid"
      by (subst (asm) allocate_from.simps, simp split: if_splits)+
    with "1.IH" Some obtain m where m: "n + 1 \<le> m" "m \<le> 65535" "pid = word_of_nat m"
      "hm_get (inflight_inner i) (word_of_nat m) = None"
      "\<And>k. n + 1 \<le> k \<Longrightarrow> k < m \<Longrightarrow> hm_get (inflight_inner i) (word_of_nat k) \<noteq> None" by auto
    have "hm_get (inflight_inner i) (word_of_nat k) \<noteq> None" if "n \<le> k" "k < m" for k
      using that m(5) [of k] Some by (cases "k = n") auto
    with m show ?thesis by (intro exI [of _ m]) auto
  qed
qed

lemma allocate_from_None:
  "allocate_from n i = None \<Longrightarrow> n \<le> m \<Longrightarrow> m \<le> 65535 \<Longrightarrow> hm_get (inflight_inner i) (word_of_nat m) \<noteq> None"
proof (induction n i rule: allocate_from.induct)
  case (1 n i)
  from "1.prems" have n: "hm_get (inflight_inner i) (word_of_nat n) \<noteq> None" "allocate_from (n + 1) i = None"
    by (subst (asm) allocate_from.simps, simp split: if_splits)+
  with 1 show ?case by (cases "m = n") auto
qed

section \<open>Properties\<close>

text \<open>
  The allocator always returns: it gives the smallest identifier that is not in flight, never
  zero, and gives none exactly when all 65535 identifiers are in flight.
\<close>

theorem allocate_packet_id_spec:
  "case allocate_packet_id i of
     Some pid \<Rightarrow> pid \<noteq> 0 \<and> \<not> packet_id_exists pid i \<and>
       (\<forall>pid'. if pid' \<noteq> 0 \<and> pid' < pid then packet_id_exists pid' i else True)
   | None \<Rightarrow> (\<forall>pid. if pid = 0 then True else packet_id_exists pid i)"
proof -
  have b: "1 \<le> unat pid \<and> unat pid \<le> 65535" if "pid \<noteq> 0" for pid :: u16
  proof -
    have "unat pid < 65536" using unsigned_less [of pid] by simp
    with that show ?thesis by (simp add: unat_gt_0 Suc_le_eq)
  qed
  show ?thesis
  proof (cases "allocate_packet_id i")
    case None
    then have "packet_id_exists pid i" if "pid \<noteq> 0" for pid
      using allocate_from_None [of 1 i "unat pid"] b [OF that]
      by (simp add: allocate_packet_id_def packet_id_exists_def)
    with None show ?thesis by simp
  next
    case (Some pid)
    from allocate_from_Some [OF Some [unfolded allocate_packet_id_def]] obtain m where
      m: "1 \<le> m" "m \<le> 65535" "pid = word_of_nat m" "hm_get (inflight_inner i) (word_of_nat m) = None"
      "\<And>k. 1 \<le> k \<Longrightarrow> k < m \<Longrightarrow> hm_get (inflight_inner i) (word_of_nat k) \<noteq> None" by auto
    then have u: "unat pid = m" by (simp add: word_of_nat_u16_inj)
    then have "pid \<noteq> 0" using m(1) by auto
    moreover have "packet_id_exists pid' i" if "pid' \<noteq> 0" "pid' < pid" for pid'
      using m(5) [of "unat pid'"] b [OF that(1)] that(2) u
      by (simp add: packet_id_exists_def word_less_nat_alt)
    ultimately show ?thesis
      using Some m by (simp add: packet_id_exists_def)
  qed
qed

text \<open>
  An exchange the broker starts finishes: after the acknowledgements of its QoS (one for QoS 1,
  two for QoS 2) the item is finished and the next cleaning releases its key and frees its
  identifier.
\<close>

theorem tx_exchange_finishes:
  assumes "inflight_ok i" and "register_with_tx_packet t0 pid qos key i = Ok (old, i1)"
    and "qos = 1 \<and> i2 = snd (next_state t1 pid i1) \<or>
         qos = 2 \<and> i2 = snd (next_state t2 pid (snd (next_state t1 pid i1)))"
    and "clean_finished_items i2 = (ks, i3)"
  shows "key \<in> set ks \<and> \<not> packet_id_exists pid i3 \<and>
    inflight_keys i + {#key#} = inflight_keys i3 + mset ks"
proof -
  have o: "inflight_ok i1" by (rule register_tx_ok [OF assms(1,2)])
  from assms(3) have k2: "inflight_keys i2 = inflight_keys i1" and o2: "inflight_ok i2"
    using o by (auto simp: next_state_keys next_state_ok)
  from assms(2,3) obtain item where g: "hm_get (inflight_inner i2) pid = Some item"
    "item_state item = Finish" "packet_key item = Some key"
    by (auto simp: register_with_tx_packet_def insert_item_def next_state_def to_next_def Let_def
        split: if_splits)
  then have "key \<in> set ks"
    using assms(4) map_of_SomeD [OF g(1)]
    by (auto simp: clean_finished_items_def set_map_filter_iff intro!: bexI [of _ "(pid, item)"])
  moreover have "\<not> packet_id_exists pid i3"
    using clean_finished_get [OF o2, of pid] assms(4) g by (simp add: packet_id_exists_def)
  moreover have "inflight_keys i + {#key#} = inflight_keys i3 + mset ks"
    using clean_finished_keys [OF assms(4)] k2 register_tx_keys(2) [OF assms(1,2)] assms(3) by auto
  ultimately show ?thesis by blast
qed

theorem tx_exchange_finishes_witness:
  "let i1 = snd (insert_item \<lparr>item_packet_identifier = 7, item_state = WaitPubrec,
         packet_key = Some ''k'', last_modified = 1, delivery_started = True\<rparr> (inflight_new 10));
       i2 = snd (next_state 3 7 (snd (next_state 2 7 i1)))
   in ''k'' \<in> set (fst (clean_finished_items i2))"
proof -
  let ?i1 = "snd (insert_item \<lparr>item_packet_identifier = 7, item_state = WaitPubrec,
    packet_key = Some ''k'', last_modified = 1, delivery_started = True\<rparr> (inflight_new 10))"
  have "register_with_tx_packet 1 7 2 ''k'' (inflight_new 10) = Ok (None, ?i1)"
    by (simp add: register_with_tx_packet_def packet_id_exists_def inflight_new_def insert_item_def)
  from tx_exchange_finishes [OF inflight_new_ok(1) this, of _ 2 3] show ?thesis
    by (auto simp: Let_def prod_eq_iff)
qed

end
