(* ===== verification/Session_State.thy ===== *)
theory Session_State
  imports Inflight Mqtt_Packet
begin

text \<open>
  The persistent session states, \<open>broker/src/session/session_state_storage.rs\<close>: per tenant and
  client the pending messages, the inflight table, the subscriptions and the expiry data, and the
  reference counts of the stored payloads. The states, shared in the source behind locks, are
  values here; every operation returns the new store.
\<close>

section \<open>Session states\<close>

datatype qos = AtMostOnce | AtLeastOnce | ExactlyOnce

definition qos_as_u8 :: "qos \<Rightarrow> u8" where
  "qos_as_u8 q = (case q of AtMostOnce \<Rightarrow> 0 | AtLeastOnce \<Rightarrow> 1 | ExactlyOnce \<Rightarrow> 2)"

text \<open>\<open>None\<close> is the panic on an invalid QoS.\<close>

definition qos_from_u8 :: "u8 \<Rightarrow> qos option" where
  "qos_from_u8 n =
     (if n = 0 then Some AtMostOnce
      else if n = 1 then Some AtLeastOnce
      else if n = 2 then Some ExactlyOnce
      else None)"

datatype session_state_storage_error =
    SessionInflightError inflight_error
  | SessionStateNotExisted string

record subscription_state =
  state_qos :: qos
  state_no_local :: bool
  state_retain_as_published :: bool

definition subscription_state_from_qos :: "qos \<Rightarrow> subscription_state" where
  "subscription_state_from_qos q =
     \<lparr>state_qos = q, state_no_local = False, state_retain_as_published = False\<rparr>"

text \<open>Snapshots hold subscription states, or the bare QoS of an older release.\<close>

datatype subscription_state_compat = Current subscription_state | Legacy qos

definition deserialize_subscriptions ::
  "(string, subscription_state_compat) hash_map \<Rightarrow> (string, subscription_state) hash_map" where
  "deserialize_subscriptions m =
     map (\<lambda>(topic, s). (topic, case s of Current s \<Rightarrow> s | Legacy q \<Rightarrow> subscription_state_from_qos q)) m"

record session_state =
  pending_messages :: "string list"
  session_inflight :: inflight
  session_subscriptions :: "(string, subscription_state) hash_map"
  disconnected_at :: "u64 option"
  session_protocol_version :: "protocol_version option"
  state_expiry_interval :: "u32 option"
  expires_at :: "u64 option"

definition new_with_options ::
  "u64 \<Rightarrow> protocol_version option \<Rightarrow> u32 option \<Rightarrow> session_state" where
  "new_with_options duration version expiry =
     \<lparr>pending_messages = [], session_inflight = inflight_new duration, session_subscriptions = [],
      disconnected_at = None, session_protocol_version = version, state_expiry_interval = expiry,
      expires_at = None\<rparr>"

definition expiry_deadline :: "u64 \<Rightarrow> u32 \<Rightarrow> u64 option" where
  "expiry_deadline disconnected interval =
     (if interval = - 1 then None else Some (saturating_add disconnected (ucast interval)))"

definition state_update_connection :: "u64 option \<Rightarrow> u32 option \<Rightarrow> session_state \<Rightarrow> session_state" where
  "state_update_connection disconnected update s =
     (let s = (case update of
                 Some interval \<Rightarrow> s\<lparr>session_protocol_version := Some V5_0,
                                   state_expiry_interval := Some interval\<rparr>
               | None \<Rightarrow> s) in
      s\<lparr>disconnected_at := disconnected,
        expires_at := (case (disconnected, state_expiry_interval s) of
                         (Some d, Some interval) \<Rightarrow> expiry_deadline d interval
                       | _ \<Rightarrow> None)\<rparr>)"

definition expired_disconnected_at :: "u64 \<Rightarrow> u64 \<Rightarrow> session_state \<Rightarrow> u64 option" where
  "expired_disconnected_at now legacy_ttl s =
     (case disconnected_at s of
        None \<Rightarrow> None
      | Some d \<Rightarrow>
          (case state_expiry_interval s of
             Some interval \<Rightarrow>
               if interval = - 1 then None
               else
                 let e = (case expires_at s of
                            Some e \<Rightarrow> e | None \<Rightarrow> saturating_add d (ucast interval)) in
                 if e \<le> now then Some d else None
           | None \<Rightarrow> if legacy_ttl < saturating_sub now d then Some d else None))"

section \<open>The store\<close>

record session_state_storage =
  storage_inner :: "(string, (string, session_state) hash_map) hash_map"
  ref_counts :: "(string, u64) hash_map"

definition session_storage_new :: session_state_storage where
  "session_storage_new = \<lparr>storage_inner = [], ref_counts = []\<rparr>"

text \<open>The counter wraps like the \<open>u64\<close> addition.\<close>

definition inc_ref :: "string \<Rightarrow> session_state_storage \<Rightarrow> session_state_storage" where
  "inc_ref key st =
     st\<lparr>ref_counts := hm_modify key (\<lambda>n. n + 1) (hm_or_insert key 0 (ref_counts st))\<rparr>"

definition dec_ref :: "string \<Rightarrow> session_state_storage \<Rightarrow> string option \<times> session_state_storage" where
  "dec_ref key st =
     (case hm_get (ref_counts st) key of
        None \<Rightarrow> (None, st)
      | Some n \<Rightarrow>
          let n = (if n > 0 then n - 1 else n) in
          if n = 0 then (Some key, st\<lparr>ref_counts := hm_remove key (ref_counts st)\<rparr>)
          else (None, st\<lparr>ref_counts := hm_insert key n (ref_counts st)\<rparr>))"

text \<open>The loops that drop several references and collect the keys no longer in use.\<close>

fun dec_refs :: "string list \<Rightarrow> session_state_storage \<Rightarrow> string list \<times> session_state_storage" where
  "dec_refs [] st = ([], st)"
| "dec_refs (key # keys) st =
     (let (freed, st) = dec_ref key st; (rest, st) = dec_refs keys st in
      ((case freed of Some k \<Rightarrow> k # rest | None \<Rightarrow> rest), st))"

definition get_session_state :: "string \<Rightarrow> string \<Rightarrow> session_state_storage \<Rightarrow> session_state option" where
  "get_session_state tenant client st =
     (case hm_get (storage_inner st) tenant of
        Some sessions \<Rightarrow> hm_get sessions client | None \<Rightarrow> None)"

definition session_state_exists :: "string \<Rightarrow> string \<Rightarrow> session_state_storage \<Rightarrow> bool" where
  "session_state_exists tenant client st \<longleftrightarrow> get_session_state tenant client st \<noteq> None"

text \<open>The state written back through its lock, and the tenant map made where it is missing.\<close>

definition put_session ::
  "string \<Rightarrow> string \<Rightarrow> session_state \<Rightarrow> session_state_storage \<Rightarrow> session_state_storage" where
  "put_session tenant client s st =
     st\<lparr>storage_inner := hm_modify tenant (hm_insert client s) (storage_inner st)\<rparr>"

definition ensure_tenant :: "string \<Rightarrow> session_state_storage \<Rightarrow> session_state_storage" where
  "ensure_tenant tenant st = st\<lparr>storage_inner := hm_or_insert tenant [] (storage_inner st)\<rparr>"

definition create_session_state ::
  "string \<Rightarrow> string \<Rightarrow> u64 \<Rightarrow> protocol_version option \<Rightarrow> u32 option \<Rightarrow> session_state_storage \<Rightarrow>
   session_state_storage" where
  "create_session_state tenant session duration version expiry st =
     put_session tenant session (new_with_options duration version expiry) (ensure_tenant tenant st)"

definition delete_session_state ::
  "string \<Rightarrow> string \<Rightarrow> session_state_storage \<Rightarrow> string list \<times> session_state_storage" where
  "delete_session_state tenant session st =
     (case get_session_state tenant session st of
        None \<Rightarrow> ([], st)
      | Some s \<Rightarrow>
          let st = st\<lparr>storage_inner := hm_modify tenant (hm_remove session) (storage_inner st)\<rparr> in
          let (freed, st) = dec_refs (pending_messages s) st in
          let (freed', st) = dec_refs (get_all_packet_keys (session_inflight s)) st in
          (freed @ freed', st))"

definition dec_ref_option ::
  "string option \<Rightarrow> session_state_storage \<Rightarrow> string option \<times> session_state_storage" where
  "dec_ref_option key st = (case key of Some k \<Rightarrow> dec_ref k st | None \<Rightarrow> (None, st))"

definition inflight_discard_unsent ::
  "string \<Rightarrow> string \<Rightarrow> u16 \<Rightarrow> string \<Rightarrow> session_state_storage \<Rightarrow>
   string option \<times> session_state_storage" where
  "inflight_discard_unsent tenant client pid key st =
     (case get_session_state tenant client st of
        None \<Rightarrow> (None, st)
      | Some s \<Rightarrow>
          let (removed, i) = discard_unsent pid key (session_inflight s) in
          dec_ref_option removed (put_session tenant client (s\<lparr>session_inflight := i\<rparr>) st))"

definition inflight_register_tx_packet ::
  "u64 \<Rightarrow> string \<Rightarrow> string \<Rightarrow> u16 \<Rightarrow> u8 \<Rightarrow> string \<Rightarrow> bool \<Rightarrow> session_state_storage \<Rightarrow>
   (string option, session_state_storage_error) result \<times> session_state_storage" where
  "inflight_register_tx_packet now tenant client pid qos key deferred st =
     (let st = ensure_tenant tenant st in
      case get_session_state tenant client st of
        None \<Rightarrow> (Err (SessionStateNotExisted client), st)
      | Some s \<Rightarrow>
          (case register_with_tx_packet now pid qos key (session_inflight s) of
             Err e \<Rightarrow> (Err (SessionInflightError e), st)
           | Ok (old_key, i) \<Rightarrow>
               let i = i\<lparr>inflight_inner := hm_modify pid (\<lambda>item. item\<lparr>delivery_started := \<not> deferred\<rparr>)
                           (inflight_inner i)\<rparr>;
                   st = inc_ref key (put_session tenant client (s\<lparr>session_inflight := i\<rparr>) st);
                   (freed, st) = dec_ref_option old_key st in
               (Ok freed, st)))"

definition inflight_register_rx_packet ::
  "u64 \<Rightarrow> string \<Rightarrow> string \<Rightarrow> u16 \<Rightarrow> u8 \<Rightarrow> string \<Rightarrow> session_state_storage \<Rightarrow>
   string option \<times> session_state_storage" where
  "inflight_register_rx_packet now tenant client pid qos key st =
     (let st = ensure_tenant tenant st in
      case get_session_state tenant client st of
        None \<Rightarrow> (None, st)
      | Some s \<Rightarrow>
          let st = inc_ref key st;
              (old_key, i) = register_with_rx_packet now pid qos key (session_inflight s) in
          dec_ref_option old_key (put_session tenant client (s\<lparr>session_inflight := i\<rparr>) st))"

definition inflight_get_next_state_packet_key ::
  "string \<Rightarrow> string \<Rightarrow> u16 \<Rightarrow> session_state_storage \<Rightarrow> string option" where
  "inflight_get_next_state_packet_key tenant client pid st =
     (case get_session_state tenant client st of
        Some s \<Rightarrow> get_next_state_packet_key pid (session_inflight s) | None \<Rightarrow> None)"

definition inflight_get_packet_state ::
  "string \<Rightarrow> string \<Rightarrow> u16 \<Rightarrow> session_state_storage \<Rightarrow> inflight_state option" where
  "inflight_get_packet_state tenant client pid st =
     (case get_session_state tenant client st of
        Some s \<Rightarrow> get_inflight_current_state pid (session_inflight s) | None \<Rightarrow> None)"

definition inflight_get_current_packet_key ::
  "string \<Rightarrow> string \<Rightarrow> u16 \<Rightarrow> session_state_storage \<Rightarrow> string option" where
  "inflight_get_current_packet_key tenant client pid st =
     (case get_session_state tenant client st of
        Some s \<Rightarrow> get_current_packet_key pid (session_inflight s) | None \<Rightarrow> None)"

definition inflight_next_state ::
  "u64 \<Rightarrow> string \<Rightarrow> string \<Rightarrow> u16 \<Rightarrow> session_state_storage \<Rightarrow> string option \<times> session_state_storage" where
  "inflight_next_state now tenant client pid st =
     (case get_session_state tenant client st of
        None \<Rightarrow> (None, st)
      | Some s \<Rightarrow>
          (None, put_session tenant client
             (s\<lparr>session_inflight := snd (next_state now pid (session_inflight s))\<rparr>) st))"

definition inflight_clean_finished_items ::
  "string \<Rightarrow> string \<Rightarrow> session_state_storage \<Rightarrow> string list \<times> session_state_storage" where
  "inflight_clean_finished_items tenant client st =
     (case get_session_state tenant client st of
        None \<Rightarrow> ([], st)
      | Some s \<Rightarrow>
          let (keys, i) = clean_finished_items (session_inflight s) in
          dec_refs keys (put_session tenant client (s\<lparr>session_inflight := i\<rparr>) st))"

definition append_to_pending_queue ::
  "string \<Rightarrow> string \<Rightarrow> string \<Rightarrow> session_state_storage \<Rightarrow> session_state_storage" where
  "append_to_pending_queue tenant client key st =
     (let st = ensure_tenant tenant st in
      case get_session_state tenant client st of
        None \<Rightarrow> st
      | Some s \<Rightarrow>
          put_session tenant client (s\<lparr>pending_messages := pending_messages s @ [key]\<rparr>) (inc_ref key st))"

text \<open>\<open>Vec::pop\<close> takes the last element.\<close>

definition pop_from_pending_queue ::
  "string \<Rightarrow> string \<Rightarrow> session_state_storage \<Rightarrow>
   (string option \<times> string option) \<times> session_state_storage" where
  "pop_from_pending_queue tenant client st =
     (case get_session_state tenant client st of
        None \<Rightarrow> ((None, None), st)
      | Some s \<Rightarrow>
          if pending_messages s = [] then ((None, None), st)
          else
            let key = last (pending_messages s);
                st = put_session tenant client (s\<lparr>pending_messages := butlast (pending_messages s)\<rparr>) st;
                (freed, st) = dec_ref key st in
            ((Some key, freed), st))"

definition subscribe_topic_with_options ::
  "string \<Rightarrow> string \<Rightarrow> string \<Rightarrow> qos \<Rightarrow> bool \<Rightarrow> bool \<Rightarrow> session_state_storage \<Rightarrow>
   session_state_storage" where
  "subscribe_topic_with_options tenant client topic q nl rap st =
     (let st = ensure_tenant tenant st in
      case get_session_state tenant client st of
        None \<Rightarrow> st
      | Some s \<Rightarrow> put_session tenant client
          (s\<lparr>session_subscriptions := hm_insert topic
             \<lparr>state_qos = q, state_no_local = nl, state_retain_as_published = rap\<rparr>
             (session_subscriptions s)\<rparr>) st)"

definition session_subscribe_topic ::
  "string \<Rightarrow> string \<Rightarrow> string \<Rightarrow> qos \<Rightarrow> session_state_storage \<Rightarrow> session_state_storage" where
  "session_subscribe_topic tenant client topic q st =
     subscribe_topic_with_options tenant client topic q False False st"

definition session_unsubscribe_topic ::
  "string \<Rightarrow> string \<Rightarrow> string \<Rightarrow> session_state_storage \<Rightarrow> session_state_storage" where
  "session_unsubscribe_topic tenant client topic st =
     (case get_session_state tenant client st of
        None \<Rightarrow> st
      | Some s \<Rightarrow> put_session tenant client
          (s\<lparr>session_subscriptions := hm_remove topic (session_subscriptions s)\<rparr>) st)"

definition scan_expired_sessions ::
  "u64 \<Rightarrow> u64 \<Rightarrow> session_state_storage \<Rightarrow> (string \<times> string \<times> u64) list" where
  "scan_expired_sessions now ttl st =
     concat (map (\<lambda>(tenant, sessions).
       List.map_filter (\<lambda>(client, s).
         map_option (\<lambda>d. (tenant, client, d)) (expired_disconnected_at now ttl s)) sessions)
       (storage_inner st))"

definition update_connection_state ::
  "string \<Rightarrow> string \<Rightarrow> u64 option \<Rightarrow> u32 option \<Rightarrow> session_state_storage \<Rightarrow> session_state_storage" where
  "update_connection_state tenant client disconnected update st =
     (case get_session_state tenant client st of
        None \<Rightarrow> st
      | Some s \<Rightarrow> put_session tenant client (state_update_connection disconnected update s) st)"

text \<open>The apply handler of the delivery mark works on the session state alone.\<close>

definition inflight_start_delivery ::
  "string \<Rightarrow> string \<Rightarrow> u16 \<Rightarrow> string \<Rightarrow> session_state_storage \<Rightarrow> bool \<times> session_state_storage" where
  "inflight_start_delivery tenant client pid key st =
     (case get_session_state tenant client st of
        None \<Rightarrow> (False, st)
      | Some s \<Rightarrow>
          let (started, i) = mark_delivery_started pid key (session_inflight s) in
          (started, put_session tenant client (s\<lparr>session_inflight := i\<rparr>) st))"

section \<open>Snapshots\<close>

record serializable_session_state_storage =
  ser_inner :: "(string, (string, session_state) hash_map) hash_map"
  ser_ref_counts :: "(string, u64) hash_map"

definition session_to_serializable ::
  "session_state_storage \<Rightarrow> serializable_session_state_storage" where
  "session_to_serializable st =
     \<lparr>ser_inner = hm_collect (map (\<lambda>(tenant, sessions). (tenant, hm_collect sessions)) (storage_inner st)),
      ser_ref_counts = ref_counts st\<rparr>"

definition session_from_serializable ::
  "serializable_session_state_storage \<Rightarrow> session_state_storage" where
  "session_from_serializable d =
     \<lparr>storage_inner = hm_collect (map (\<lambda>(tenant, sessions). (tenant, hm_collect sessions)) (ser_inner d)),
      ref_counts = ser_ref_counts d\<rparr>"

definition session_to_snapshot ::
  "(serializable_session_state_storage \<Rightarrow> (bytes, 'e) result) \<Rightarrow> session_state_storage \<Rightarrow> (bytes, 'e) result" where
  "session_to_snapshot to_vec st = to_vec (session_to_serializable st)"

definition session_from_snapshot ::
  "(bytes \<Rightarrow> (serializable_session_state_storage, 'e) result) \<Rightarrow> bytes \<Rightarrow> (session_state_storage, 'e) result" where
  "session_from_snapshot from_slice snapshot =
     and_then (from_slice snapshot) (\<lambda>d. Ok (session_from_serializable d))"

section \<open>References to payloads\<close>

text \<open>The payload keys the sessions refer to, and the count kept for a key.\<close>

definition session_refs :: "session_state \<Rightarrow> string multiset" where
  "session_refs s = mset (pending_messages s) + inflight_keys (session_inflight s)"

definition total_refs :: "session_state_storage \<Rightarrow> string multiset" where
  "total_refs st =
     (\<Sum>t\<in>#mset (storage_inner st). \<Sum>c\<in>#mset (snd t). session_refs (snd c))"

definition ref_count :: "session_state_storage \<Rightarrow> string \<Rightarrow> nat" where
  "ref_count st key = (case hm_get (ref_counts st) key of Some n \<Rightarrow> unat n | None \<Rightarrow> 0)"

definition sessions_ok :: "session_state_storage \<Rightarrow> bool" where
  "sessions_ok st \<longleftrightarrow>
     hm_ok (storage_inner st) \<and> hm_ok (ref_counts st) \<and>
     (\<forall>key n. hm_get (ref_counts st) key = Some n \<longrightarrow> n \<noteq> 0) \<and>
     (\<forall>tenant sessions. hm_get (storage_inner st) tenant = Some sessions \<longrightarrow>
        hm_ok sessions \<and>
        (\<forall>client s. hm_get sessions client = Some s \<longrightarrow> inflight_ok (session_inflight s)))"

lemma sessions_ok_new [simp]: "sessions_ok session_storage_new" "total_refs session_storage_new = {#}"
  "ref_count session_storage_new key = 0"
  by (simp_all add: sessions_ok_def session_storage_new_def total_refs_def ref_count_def)

lemma sessions_okD:
  "sessions_ok st \<Longrightarrow> get_session_state tenant client st = Some s \<Longrightarrow> inflight_ok (session_inflight s)"
  by (auto simp: sessions_ok_def get_session_state_def split: option.splits)

lemma session_serializable_id:
  assumes "sessions_ok st"
  shows "ser_inner (session_to_serializable st) = storage_inner st"
    and "ser_ref_counts (session_to_serializable st) = ref_counts st"
    and "session_from_serializable (session_to_serializable st) = st"
proof -
  have "map (\<lambda>(tenant, sessions). (tenant, hm_collect sessions)) (storage_inner st) = storage_inner st"
    using assms by (intro map_idI) (auto simp: sessions_ok_def hm_mem_get hm_collect_id)
  moreover have "hm_ok (storage_inner st)"
    using assms by (simp add: sessions_ok_def)
  ultimately show "ser_inner (session_to_serializable st) = storage_inner st"
    "ser_ref_counts (session_to_serializable st) = ref_counts st"
    "session_from_serializable (session_to_serializable st) = st"
    by (simp_all add: session_to_serializable_def session_from_serializable_def hm_collect_id)
qed

text \<open>Sessions.\<close>

lemma mset_exchange:
  fixes a :: "'a multiset"
  assumes "a + x = b + y" and "y + t' = x + t"
  shows "t' + a = t + b"
proof -
  have "y + (t' + a) = (y + t') + a" by (simp only: ac_simps)
  also have "\<dots> = (a + x) + t" unfolding assms(2) by (simp only: ac_simps)
  also have "\<dots> = y + (t + b)" unfolding assms(1) by (simp only: ac_simps)
  finally show ?thesis by (rule add_left_imp_eq)
qed

lemma total_put:
  assumes "sessions_ok st" and "get_session_state tenant client st = Some s"
  shows "total_refs (put_session tenant client s' st) + session_refs s = total_refs st + session_refs s'"
proof -
  from assms(2) obtain m where m: "hm_get (storage_inner st) tenant = Some m" "hm_get m client = Some s"
    by (auto simp: get_session_state_def split: option.splits)
  have o: "hm_ok (storage_inner st)" "hm_ok m"
    using assms(1) m by (auto simp: sessions_ok_def)
  let ?f = "\<lambda>c. session_refs (snd c)" and ?g = "\<lambda>t. \<Sum>c\<in>#mset (snd t). session_refs (snd c)"
  have "session_refs s + ?g (tenant, hm_insert client s' m) = session_refs s' + ?g (tenant, m)"
    using hm.sum_put_over [OF o(2) m(2), of ?f s'] by simp
  moreover have "?g (tenant, m) + total_refs (put_session tenant client s' st) =
      ?g (tenant, hm_insert client s' m) + total_refs st"
    using hm.sum_put_over [OF o(1) m(1), of ?g "hm_insert client s' m"] m(1)
    by (simp add: put_session_def hm_modify_def total_refs_def)
  ultimately show ?thesis by (rule mset_exchange)
qed

lemma total_put_fresh:
  assumes "sessions_ok st" and "hm_get (storage_inner st) tenant = Some m" and "hm_get m client = None"
  shows "total_refs (put_session tenant client s' st) = total_refs st + session_refs s'"
proof -
  have o: "hm_ok (storage_inner st)" "hm_ok m"
    using assms by (auto simp: sessions_ok_def)
  let ?f = "\<lambda>c. session_refs (snd c)" and ?g = "\<lambda>t. \<Sum>c\<in>#mset (snd t). session_refs (snd c)"
  have "?g (tenant, hm_insert client s' m) = session_refs s' + ?g (tenant, m)"
    using hm.sum_put_fresh [OF o(2) assms(3), of ?f s'] by simp
  moreover have "?g (tenant, m) + total_refs (put_session tenant client s' st) =
      ?g (tenant, hm_insert client s' m) + total_refs st"
    using hm.sum_put_over [OF o(1) assms(2), of ?g "hm_insert client s' m"] assms(2)
    by (simp add: put_session_def hm_modify_def total_refs_def)
  ultimately have "?g (tenant, m) + total_refs (put_session tenant client s' st) =
      ?g (tenant, m) + (total_refs st + session_refs s')"
    by (simp only: ac_simps)
  then show ?thesis by (rule add_left_imp_eq)
qed

lemma total_remove:
  assumes "sessions_ok st" and "get_session_state tenant client st = Some s"
  shows "total_refs st = total_refs (st\<lparr>storage_inner :=
      hm_modify tenant (hm_remove client) (storage_inner st)\<rparr>) + session_refs s"
proof -
  from assms(2) obtain m where m: "hm_get (storage_inner st) tenant = Some m" "hm_get m client = Some s"
    by (auto simp: get_session_state_def split: option.splits)
  have o: "hm_ok (storage_inner st)" "hm_ok m"
    using assms(1) m by (auto simp: sessions_ok_def)
  let ?st = "st\<lparr>storage_inner := hm_modify tenant (hm_remove client) (storage_inner st)\<rparr>"
  let ?f = "\<lambda>c. session_refs (snd c)" and ?g = "\<lambda>t. \<Sum>c\<in>#mset (snd t). session_refs (snd c)"
  have "?g (tenant, m) = session_refs s + ?g (tenant, hm_remove client m)"
    using hm.sum_del [OF o(2) m(2), of ?f] by simp
  moreover have "?g (tenant, m) + total_refs ?st = ?g (tenant, hm_remove client m) + total_refs st"
    using hm.sum_put_over [OF o(1) m(1), of ?g "hm_remove client m"] m(1)
    by (simp add: hm_modify_def total_refs_def)
  ultimately have "?g (tenant, hm_remove client m) + (total_refs ?st + session_refs s) =
      ?g (tenant, hm_remove client m) + total_refs st"
    by (simp only: ac_simps)
  then show ?thesis by simp
qed

lemma ensure_tenant_simps [simp]:
  "get_session_state tenant' client (ensure_tenant tenant st) = get_session_state tenant' client st"
  "ref_counts (ensure_tenant tenant st) = ref_counts st"
  "ref_count (ensure_tenant tenant st) key = ref_count st key"
  by (auto simp: ensure_tenant_def get_session_state_def ref_count_def split: option.splits)

lemma ensure_tenant_present: "hm_get (storage_inner (ensure_tenant tenant st)) tenant \<noteq> None"
  by (simp add: ensure_tenant_def)

lemma ensure_tenant_ok: "sessions_ok st \<Longrightarrow> sessions_ok (ensure_tenant tenant st)"
  by (auto simp: sessions_ok_def ensure_tenant_def split: if_splits option.splits)

lemma ensure_tenant_refs: "sessions_ok st \<Longrightarrow> total_refs (ensure_tenant tenant st) = total_refs st"
  using hm.sum_put_fresh [of "storage_inner st" tenant
      "\<lambda>t. \<Sum>c\<in>#mset (snd t). session_refs (snd c)" "[]"]
  by (auto simp: ensure_tenant_def total_refs_def hm_or_insert_def sessions_ok_def)

lemma put_session_ok:
  "sessions_ok st \<Longrightarrow> inflight_ok (session_inflight s) \<Longrightarrow> sessions_ok (put_session tenant client s st)"
  by (auto simp: sessions_ok_def put_session_def split: if_splits)

lemma put_session_simps [simp]:
  "ref_counts (put_session tenant client s st) = ref_counts st"
  "ref_count (put_session tenant client s st) key = ref_count st key"
  by (simp_all add: put_session_def ref_count_def)

lemma remove_session_ok:
  "sessions_ok st \<Longrightarrow>
   sessions_ok (st\<lparr>storage_inner := hm_modify tenant (hm_remove client) (storage_inner st)\<rparr>)"
  by (auto simp: sessions_ok_def split: if_splits)

lemma get_put_session:
  "get_session_state tenant client st \<noteq> None \<Longrightarrow>
   get_session_state tenant' client' (put_session tenant client s st) =
     (if tenant' = tenant \<and> client' = client then Some s else get_session_state tenant' client' st)"
  by (auto simp: get_session_state_def put_session_def split: option.splits)

text \<open>Counts.\<close>

lemma inc_ref_simps [simp]:
  "storage_inner (inc_ref key st) = storage_inner st"
  "get_session_state tenant client (inc_ref key st) = get_session_state tenant client st"
  "total_refs (inc_ref key st) = total_refs st"
  by (simp_all add: inc_ref_def get_session_state_def total_refs_def)

lemma ref_count_inc:
  assumes "Suc (ref_count st key) < 2 ^ 64"
  shows "ref_count (inc_ref key st) k = (if k = key then Suc (ref_count st key) else ref_count st k)"
proof -
  have "unat (n + 1) = Suc (unat n)" if "Suc (unat n) < 2 ^ 64" for n :: u64
    using that by (simp add: unat_word_ariths)
  with assms show ?thesis
    by (auto simp: inc_ref_def ref_count_def split: option.splits)
qed

lemma inc_ref_ok:
  assumes "sessions_ok st" and "Suc (ref_count st key) < 2 ^ 64"
  shows "sessions_ok (inc_ref key st)"
proof -
  have "n + 1 \<noteq> 0" if "Suc (unat n) < 2 ^ 64" for n :: u64
  proof
    assume "n + 1 = 0"
    then have "unat (n + 1) = 0" by simp
    moreover have "unat (n + 1) = Suc (unat n)"
      using that by (simp add: unat_word_ariths)
    ultimately show False by simp
  qed
  with assms show ?thesis
    by (auto simp: sessions_ok_def inc_ref_def ref_count_def split: if_splits option.splits)
qed

lemma dec_ref_simps [simp]:
  "storage_inner (snd (dec_ref key st)) = storage_inner st"
  "get_session_state tenant client (snd (dec_ref key st)) = get_session_state tenant client st"
  "total_refs (snd (dec_ref key st)) = total_refs st"
  by (simp_all add: dec_ref_def get_session_state_def total_refs_def Let_def split: option.splits)

lemma unat_pred: "n \<noteq> 0 \<Longrightarrow> unat (n - 1 :: u64) = unat n - 1"
  using unat_minus_one [of n] by simp

lemma ref_count_dec:
  assumes "sessions_ok st"
  shows "ref_count (snd (dec_ref key st)) k = (if k = key then ref_count st k - 1 else ref_count st k)"
proof (cases "hm_get (ref_counts st) key")
  case (Some n)
  then have "n \<noteq> 0" using assms by (auto simp: sessions_ok_def)
  then have "unat (n - 1) = unat n - 1" "n - 1 = 0 \<longleftrightarrow> unat n - 1 = 0"
    using unat_pred [of n] by (auto simp flip: unat_eq_zero)
  with Some \<open>n \<noteq> 0\<close> show ?thesis
    by (auto simp: dec_ref_def ref_count_def Let_def word_gt_0)
qed (simp add: dec_ref_def ref_count_def)

lemma dec_ref_ok: "sessions_ok st \<Longrightarrow> sessions_ok (snd (dec_ref key st))"
  by (auto simp: sessions_ok_def dec_ref_def Let_def split: if_splits option.splits)

lemma dec_ref_last:
  assumes "sessions_ok st" and "0 < ref_count st k" and "ref_count (snd (dec_ref key st)) k = 0"
  shows "k = key \<and> fst (dec_ref key st) = Some key"
proof -
  have k: "k = key" using assms(2,3) by (auto simp: ref_count_dec [OF assms(1)] split: if_splits)
  with assms(2) obtain n where n: "hm_get (ref_counts st) key = Some n" "n \<noteq> 0"
    using assms(1) by (cases "hm_get (ref_counts st) key") (auto simp: ref_count_def sessions_ok_def)
  have "n - 1 = 0"
    using assms(3) n k unat_pred [OF n(2)]
    by (auto simp: dec_ref_def ref_count_def Let_def word_gt_0 unat_eq_zero split: if_splits)
  with n k show ?thesis by (simp add: dec_ref_def Let_def word_gt_0)
qed

lemma dec_ref_freed:
  assumes "sessions_ok st" and "fst (dec_ref key st) = Some k"
  shows "k = key" and "ref_count (snd (dec_ref key st)) k = 0"
  using assms by (auto simp: dec_ref_def ref_count_def Let_def split: option.splits if_splits)

section \<open>The discipline of the counts\<close>

text \<open>
  How the counts relate to the references: as a bound (no payload in use is given up) or exactly
  (none is leaked). \<open>refs_step\<close> is what an operation keeps, with the keys it may take up and those
  it gives up.
\<close>

definition covered :: "(nat \<Rightarrow> nat \<Rightarrow> bool) \<Rightarrow> string multiset \<Rightarrow> session_state_storage \<Rightarrow> bool" where
  "covered R M st \<longleftrightarrow> (\<forall>k. R (count M k) (ref_count st k))"

definition refs_step ::
  "(nat \<Rightarrow> nat \<Rightarrow> bool) \<Rightarrow> session_state_storage \<Rightarrow> session_state_storage \<Rightarrow> string list \<Rightarrow> string list \<Rightarrow> bool" where
  "refs_step R st st' new freed \<longleftrightarrow>
     sessions_ok st' \<and> covered R (total_refs st') st' \<and>
     set_mset (total_refs st') \<subseteq> set_mset (total_refs st) \<union> set new \<and>
     (\<forall>k. ref_count st' k \<le> Suc (ref_count st k)) \<and> (\<forall>k\<in>set freed. k \<notin># total_refs st') \<and>
     (\<forall>k. ref_count st' k = 0 \<longrightarrow> ref_count st k = 0 \<or> k \<in> set freed)"

definition refs_inv :: "(nat \<Rightarrow> nat \<Rightarrow> bool) \<Rightarrow> session_state_storage \<Rightarrow> bool" where
  "refs_inv R st \<longleftrightarrow>
     sessions_ok st \<and> covered R (total_refs st) st \<and> (\<forall>k. Suc (ref_count st k) < 2 ^ 64)"

lemma refs_invD:
  "refs_inv R st \<Longrightarrow> sessions_ok st" "refs_inv R st \<Longrightarrow> covered R (total_refs st) st"
  "refs_inv R st \<Longrightarrow> Suc (ref_count st k) < 2 ^ 64"
  by (simp_all add: refs_inv_def)

lemma same_refs_step:
  "sessions_ok st' \<Longrightarrow> total_refs st' = total_refs st \<Longrightarrow> ref_counts st' = ref_counts st \<Longrightarrow>
   refs_inv R st \<Longrightarrow> refs_step R st st' new []"
  by (simp add: refs_step_def refs_inv_def covered_def ref_count_def)

lemma dec_refs_simps [simp]:
  "storage_inner (snd (dec_refs keys st)) = storage_inner st"
  "total_refs (snd (dec_refs keys st)) = total_refs st"
proof (induction keys arbitrary: st)
  case (Cons key keys)
  {
    case 1
    show ?case using Cons(1) by (simp add: case_prod_unfold Let_def)
  next
    case 2
    show ?case using Cons(2) by (simp add: case_prod_unfold Let_def)
  }
qed simp_all

lemma dec_refs_append:
  "dec_refs (ks @ ks') st =
     (let (freed, st) = dec_refs ks st; (freed', st) = dec_refs ks' st in (freed @ freed', st))"
proof (induction ks arbitrary: st)
  case (Cons k ks)
  then show ?case
    by (auto simp: Let_def split: prod.splits option.splits)
qed simp

lemma refs_subset: "a + out = t + into \<Longrightarrow> set_mset a \<subseteq> set_mset t \<union> set_mset into"
  by (metis inf_sup_ord(3) set_mset_union)

lemma put_pair_refs:
  assumes "sessions_ok st" and "get_session_state tenant client st = Some s"
    and "session_refs s' + out = session_refs s + into"
  shows "total_refs (put_session tenant client s' st) + out = total_refs st + into"
proof -
  have "total_refs (put_session tenant client s' st) + session_refs s = total_refs st + session_refs s'"
    by (rule total_put [OF assms(1,2)])
  with assms(3) show ?thesis
    by (metis mset_exchange add.commute)
qed

locale ref_discipline =
  fixes R :: "nat \<Rightarrow> nat \<Rightarrow> bool"
  assumes R_inc: "R m n \<Longrightarrow> R (Suc m) (Suc n)"
    and R_dec: "R (Suc m) n \<Longrightarrow> R m (n - 1)"
    and R_le: "R m n \<Longrightarrow> m \<le> n"
begin

lemma covered_inc:
  "covered R M st \<Longrightarrow> Suc (ref_count st key) < 2 ^ 64 \<Longrightarrow> covered R (M + {#key#}) (inc_ref key st)"
  by (auto simp: covered_def ref_count_inc R_inc)

lemma covered_dec:
  "sessions_ok st \<Longrightarrow> covered R (M + {#key#}) st \<Longrightarrow> covered R M (snd (dec_ref key st))"
  unfolding covered_def
proof (intro allI)
  fix k assume "sessions_ok st" and "\<forall>k. R (count (M + {#key#}) k) (ref_count st k)"
  then have "R (count (M + {#key#}) k) (ref_count st k)" by blast
  with \<open>sessions_ok st\<close> show "R (count M k) (ref_count (snd (dec_ref key st)) k)"
    using R_dec [of "count M k" "ref_count st k"] by (cases "k = key") (auto simp: ref_count_dec)
qed

lemma covered_dec_freed:
  assumes "sessions_ok st" and "covered R (M + {#key#}) st" and "fst (dec_ref key st) = Some k"
  shows "k \<notin># M"
proof -
  have "R (count M k) (ref_count (snd (dec_ref key st)) k)"
    using covered_dec [OF assms(1,2)] by (simp add: covered_def)
  with dec_ref_freed [OF assms(1,3)] R_le show ?thesis
    by (metis le_zero_eq count_greater_zero_iff less_irrefl)
qed

lemma covered_decs:
  "sessions_ok st \<Longrightarrow> covered R (M + mset keys) st \<Longrightarrow> dec_refs keys st = (freed, st') \<Longrightarrow>
   sessions_ok st' \<and> covered R M st' \<and> (\<forall>k. ref_count st' k \<le> ref_count st k) \<and>
   (\<forall>k\<in>set freed. k \<notin># M) \<and> (\<forall>k. ref_count st' k = 0 \<longrightarrow> ref_count st k = 0 \<or> k \<in> set freed)"
proof (induction keys arbitrary: st freed st')
  case (Cons key keys)
  define st1 where "st1 = snd (dec_ref key st)"
  obtain rest where r: "dec_refs keys st1 = (rest, st')"
    and f: "freed = (case fst (dec_ref key st) of Some k \<Rightarrow> k # rest | None \<Rightarrow> rest)"
    using Cons.prems(3)
    by (cases "dec_ref key st"; cases "dec_refs keys st1") (auto simp: st1_def)
  have c: "covered R ((M + mset keys) + {#key#}) st"
    using Cons.prems(2) by simp
  have i: "sessions_ok st' \<and> covered R M st' \<and> (\<forall>k. ref_count st' k \<le> ref_count st1 k) \<and>
      (\<forall>k\<in>set rest. k \<notin># M) \<and> (\<forall>k. ref_count st' k = 0 \<longrightarrow> ref_count st1 k = 0 \<or> k \<in> set rest)"
    using Cons.IH [OF _ _ r] covered_dec [OF Cons.prems(1) c] dec_ref_ok [OF Cons.prems(1)]
    by (simp add: st1_def)
  moreover have "ref_count st1 k \<le> ref_count st k" for k
    by (simp add: st1_def ref_count_dec [OF Cons.prems(1)])
  moreover have "k \<notin># M" if "fst (dec_ref key st) = Some k" for k
    using covered_dec_freed [OF Cons.prems(1) c that] by simp
  moreover have "ref_count st k = 0 \<or> k \<in> set freed" if "ref_count st' k = 0" for k
  proof (cases "ref_count st1 k = 0")
    case True
    with dec_ref_last [OF Cons.prems(1), of k key] show ?thesis
      by (cases "ref_count st k = 0") (simp_all add: st1_def f)
  next
    case False
    with i that have "k \<in> set rest" by metis
    then show ?thesis by (simp add: f split: option.split)
  qed
  ultimately show ?case
    by (auto simp: f split: option.splits intro: order_trans)
qed simp

lemma dec_refs_step:
  assumes "sessions_ok st1" and "covered R (total_refs st1 + mset keys) st1"
    and "\<And>k. ref_count st k \<le> ref_count st1 k \<and> ref_count st1 k \<le> Suc (ref_count st k)"
    and "dec_refs keys st1 = (freed, st')"
    and "set_mset (total_refs st1) \<subseteq> set_mset (total_refs st) \<union> set new"
  shows "refs_step R st st' new freed"
proof -
  have "total_refs st' = total_refs st1"
    using dec_refs_simps(2) [of keys st1] assms(4) by simp
  moreover have "ref_count st k = 0" if "ref_count st1 k = 0" for k
    using assms(3) [of k] that by simp
  ultimately show ?thesis
    using covered_decs [OF assms(1,2,4)] assms(3,5) unfolding refs_step_def by (metis order_trans)
qed

lemma dec_option_step:
  assumes "sessions_ok st1" and "covered R (total_refs st1 + option_mset key) st1"
    and "\<And>k. ref_count st k \<le> ref_count st1 k \<and> ref_count st1 k \<le> Suc (ref_count st k)"
    and "dec_ref_option key st1 = (freed, st')"
    and "set_mset (total_refs st1) \<subseteq> set_mset (total_refs st) \<union> set new"
  shows "refs_step R st st' new (case freed of Some k \<Rightarrow> [k] | None \<Rightarrow> [])"
proof -
  have "dec_refs (case key of Some k \<Rightarrow> [k] | None \<Rightarrow> []) st1 =
      (case freed of Some k \<Rightarrow> [k] | None \<Rightarrow> [], st')"
    using assms(4) by (auto simp: dec_ref_option_def split: option.splits)
  with dec_refs_step [OF assms(1) _ assms(3) this assms(5)] assms(2) show ?thesis
    by (cases key) auto
qed

lemma discard_unsent_step:
  assumes "refs_inv R st" and "inflight_discard_unsent tenant client pid key st = (freed, st')"
  shows "refs_step R st st' [] (case freed of Some k \<Rightarrow> [k] | None \<Rightarrow> [])"
proof (cases "get_session_state tenant client st")
  case None
  with assms same_refs_step [of st st] refs_invD [OF assms(1)] show ?thesis
    by (simp add: inflight_discard_unsent_def)
next
  case (Some s)
  note ok = refs_invD(1) [OF assms(1)]
  obtain removed i where d: "discard_unsent pid key (session_inflight s) = (removed, i)" by fastforce
  note k = discard_unsent_keys [OF sessions_okD [OF ok Some] d]
  let ?s = "s\<lparr>session_inflight := i\<rparr>" and ?st = "put_session tenant client (s\<lparr>session_inflight := i\<rparr>) st"
  have t: "total_refs ?st + option_mset removed = total_refs st + {#}"
    by (rule put_pair_refs [OF ok Some]) (simp add: session_refs_def k(1))
  moreover have "sessions_ok ?st"
    using ok k(2) by (intro put_session_ok) simp_all
  moreover have "dec_ref_option removed ?st = (freed, st')"
    using assms(2) by (simp add: inflight_discard_unsent_def Some d)
  ultimately show ?thesis
    using refs_invD(2) [OF assms(1)] refs_subset [OF t] by (intro dec_option_step) (auto simp: covered_def)
qed

lemma register_rx_step:
  assumes "refs_inv R st" and "inflight_register_rx_packet now tenant client pid qos key st = (freed, st')"
    and "qos = 1 \<or> qos = 2 \<or> (\<forall>m n. R m n \<longrightarrow> R m (Suc n))"
  shows "refs_step R st st' [key] (case freed of Some k \<Rightarrow> [k] | None \<Rightarrow> [])"
proof (cases "get_session_state tenant client st")
  case None
  with assms(2) ensure_tenant_ok ensure_tenant_refs refs_invD(1) [OF assms(1)] show ?thesis
    by (auto simp: inflight_register_rx_packet_def intro!: same_refs_step [OF _ _ _ assms(1)])
next
  case (Some s)
  define st0 where "st0 = ensure_tenant tenant st"
  have ok0: "sessions_ok st0" and r0: "total_refs st0 = total_refs st" and c0: "ref_count st0 = ref_count st"
    using refs_invD(1) [OF assms(1)] by (auto simp: st0_def ensure_tenant_ok ensure_tenant_refs)
  have b: "Suc (ref_count st0 key) < 2 ^ 64"
    using refs_invD(3) [OF assms(1), of key] c0 by simp
  have ok: "sessions_ok (inc_ref key st0)" by (rule inc_ref_ok [OF ok0 b])
  have g: "get_session_state tenant client (inc_ref key st0) = Some s"
    using Some by (simp add: st0_def)
  obtain old i where d: "register_with_rx_packet now pid qos key (session_inflight s) = (old, i)" by fastforce
  have i: "inflight_ok i"
    using register_rx_ok [OF sessions_okD [OF ok g], of now pid qos key] d by simp
  let ?into = "if qos = 1 \<or> qos = 2 then {#key#} else {#}"
  let ?st = "put_session tenant client (s\<lparr>session_inflight := i\<rparr>) (inc_ref key st0)"
  have t: "total_refs ?st + option_mset old = total_refs (inc_ref key st0) + ?into"
    by (rule put_pair_refs [OF ok g])
      (use register_rx_keys [OF sessions_okD [OF ok g] d] in \<open>simp add: session_refs_def add.assoc\<close>)
  have "covered R (total_refs st + {#key#}) (inc_ref key st0)"
    by (rule covered_inc) (use refs_invD(2) [OF assms(1)] b in \<open>auto simp: covered_def c0\<close>)
  moreover have "covered R (total_refs st) (inc_ref key st0)" if "\<forall>m n. R m n \<longrightarrow> R m (Suc n)"
    using refs_invD(2) [OF assms(1)] that by (auto simp: covered_def ref_count_inc [OF b] c0)
  ultimately have "covered R (total_refs st + ?into) (inc_ref key st0)"
    using assms(3) by auto
  then have "covered R (total_refs ?st + option_mset old) ?st"
    unfolding t by (auto simp: covered_def r0)
  moreover have "ref_count st k \<le> ref_count ?st k \<and> ref_count ?st k \<le> Suc (ref_count st k)" for k
    by (auto simp: ref_count_inc [OF b] c0)
  moreover have "sessions_ok ?st"
    using ok i by (intro put_session_ok) simp_all
  moreover have "dec_ref_option old ?st = (freed, st')"
    using assms(2) g by (simp add: inflight_register_rx_packet_def d st0_def)
  moreover have "set_mset (total_refs ?st) \<subseteq> set_mset (total_refs st) \<union> set [key]"
    using refs_subset [OF t] by (auto simp: r0 split: if_splits)
  ultimately show ?thesis
    by (intro dec_option_step) auto
qed

lemma register_tx_step:
  assumes "refs_inv R st"
    and "inflight_register_tx_packet now tenant client pid qos key deferred st = (r, st')"
    and "qos = 1 \<or> qos = 2 \<or> (\<forall>m n. R m n \<longrightarrow> R m (Suc n))"
  shows "refs_step R st st' [key] (case r of Ok (Some k) \<Rightarrow> [k] | _ \<Rightarrow> [])"
proof (cases "\<exists>s old i. get_session_state tenant client st = Some s \<and>
    register_with_tx_packet now pid qos key (session_inflight s) = Ok (old, i)")
  case False
  then have "st' = ensure_tenant tenant st \<and> (\<exists>e. r = Err e)"
    using assms(2)
    by (cases "get_session_state tenant client st")
      (auto simp: inflight_register_tx_packet_def Let_def split: result.splits prod.splits)
  with ensure_tenant_ok ensure_tenant_refs refs_invD(1) [OF assms(1)] show ?thesis
    by (auto intro!: same_refs_step [OF _ _ _ assms(1)])
next
  case True
  then obtain s old i where g: "get_session_state tenant client st = Some s"
    and d: "register_with_tx_packet now pid qos key (session_inflight s) = Ok (old, i)" by blast
  define st0 where "st0 = ensure_tenant tenant st"
  have ok: "sessions_ok st0" and r0: "total_refs st0 = total_refs st" and c0: "ref_count st0 = ref_count st"
    and g0: "get_session_state tenant client st0 = Some s"
    using refs_invD(1) [OF assms(1)] g by (auto simp: st0_def ensure_tenant_ok ensure_tenant_refs)
  note io = sessions_okD [OF ok g0]
  define i' where "i' = i\<lparr>inflight_inner := hm_modify pid (\<lambda>item. item\<lparr>delivery_started := \<not> deferred\<rparr>)
    (inflight_inner i)\<rparr>"
  have o: "inflight_ok i" by (rule register_tx_ok [OF io d])
  have i': "inflight_keys i' = inflight_keys i" "inflight_ok i'"
    using o update_item_keys [of i pid]
    by (auto simp: i'_def hm_modify_def inflight_ok_def split: option.splits if_splits)
  let ?into = "if qos = 1 \<or> qos = 2 then {#key#} else {#}"
  let ?st = "put_session tenant client (s\<lparr>session_inflight := i'\<rparr>) st0"
  have t: "total_refs ?st + {#} = total_refs st0 + ?into"
    by (rule put_pair_refs [OF ok g0])
      (use register_tx_keys(2) [OF io d] i' in \<open>simp add: session_refs_def add.assoc\<close>)
  have b: "Suc (ref_count ?st key) < 2 ^ 64"
    using refs_invD(3) [OF assms(1), of key] c0 by simp
  have "covered R (total_refs st + {#key#}) (inc_ref key ?st)"
    by (rule covered_inc) (use refs_invD(2) [OF assms(1)] b in \<open>auto simp: covered_def c0\<close>)
  moreover have "covered R (total_refs st) (inc_ref key ?st)" if "\<forall>m n. R m n \<longrightarrow> R m (Suc n)"
    using refs_invD(2) [OF assms(1)] that by (auto simp: covered_def ref_count_inc [OF b] c0)
  ultimately have "covered R (total_refs st + ?into) (inc_ref key ?st)"
    using assms(3) by auto
  then have "covered R (total_refs (inc_ref key ?st) + option_mset old) (inc_ref key ?st)"
    using t register_tx_keys(1) [OF io d] by (simp add: r0)
  moreover have "ref_count st k \<le> ref_count (inc_ref key ?st) k \<and>
      ref_count (inc_ref key ?st) k \<le> Suc (ref_count st k)" for k
    by (auto simp: ref_count_inc [OF b] c0)
  moreover have "sessions_ok (inc_ref key ?st)"
    using ok i'(2) b by (intro inc_ref_ok put_session_ok) simp_all
  moreover obtain freed where "dec_ref_option old (inc_ref key ?st) = (freed, st')" "r = Ok freed"
    using assms(2) g0 by (auto simp: inflight_register_tx_packet_def d st0_def i'_def Let_def
        split: prod.splits)
  moreover have "set_mset (total_refs (inc_ref key ?st)) \<subseteq> set_mset (total_refs st) \<union> set [key]"
    using refs_subset [OF t] by (auto simp: r0 split: if_splits)
  ultimately have "refs_step R st st' [key] (case freed of Some k \<Rightarrow> [k] | None \<Rightarrow> [])"
    by (intro dec_option_step [of "inc_ref key ?st" old]) auto
  with \<open>r = Ok freed\<close> show ?thesis by (cases freed) simp_all
qed

lemma put_same_step:
  assumes "refs_inv R st" and "get_session_state tenant client st = Some s"
    and "session_refs s' = session_refs s" and "inflight_ok (session_inflight s')"
  shows "refs_step R st (put_session tenant client s' st) [] []"
proof -
  have "total_refs (put_session tenant client s' st) + {#} = total_refs st + {#}"
    by (rule put_pair_refs [OF refs_invD(1) [OF assms(1)] assms(2)]) (simp add: assms(3))
  then show ?thesis
    using put_session_ok [OF refs_invD(1) [OF assms(1)] assms(4)]
    by (intro same_refs_step [OF _ _ _ assms(1)]) simp_all
qed

lemma ensure_inv: "refs_inv R st \<Longrightarrow> refs_inv R (ensure_tenant tenant st)"
  by (simp add: refs_inv_def ensure_tenant_ok ensure_tenant_refs covered_def)

lemma step_from_ensure:
  "refs_inv R st \<Longrightarrow> refs_step R (ensure_tenant tenant st) st' new freed \<Longrightarrow> refs_step R st st' new freed"
  by (simp add: refs_step_def refs_inv_def ensure_tenant_refs)

lemma refl_step: "refs_inv R st \<Longrightarrow> refs_step R st st new []"
  by (rule same_refs_step) (auto simp: refs_inv_def)

lemma start_delivery_step:
  assumes "refs_inv R st"
  shows "refs_step R st (snd (inflight_start_delivery tenant client pid key st)) [] []"
proof (cases "get_session_state tenant client st")
  case (Some s)
  have o: "inflight_ok (session_inflight s)"
    by (rule sessions_okD [OF refs_invD(1) [OF assms] Some])
  define i where "i = snd (mark_delivery_started pid key (session_inflight s))"
  have "inflight_keys i = inflight_keys (session_inflight s)" "inflight_ok i"
    using o update_item_keys [of "session_inflight s" pid]
    by (auto simp: i_def mark_delivery_started_def inflight_ok_def split: option.splits if_splits)
  then show ?thesis
    using Some put_same_step [OF assms Some, of "s\<lparr>session_inflight := i\<rparr>"]
    by (simp add: inflight_start_delivery_def case_prod_unfold session_refs_def i_def Let_def)
qed (simp add: inflight_start_delivery_def refl_step [OF assms])

lemma next_state_step:
  assumes "refs_inv R st"
  shows "refs_step R st (snd (inflight_next_state now tenant client pid st)) [] []"
proof (cases "get_session_state tenant client st")
  case (Some s)
  have "inflight_ok (session_inflight s)"
    by (rule sessions_okD [OF refs_invD(1) [OF assms] Some])
  then show ?thesis
    using Some by (simp add: inflight_next_state_def)
      (rule put_same_step [OF assms Some], simp_all add: session_refs_def next_state_keys next_state_ok)
qed (simp add: inflight_next_state_def refl_step [OF assms])

lemma clean_finished_step:
  assumes "refs_inv R st" and "inflight_clean_finished_items tenant client st = (freed, st')"
  shows "refs_step R st st' [] freed"
proof (cases "get_session_state tenant client st")
  case None
  with assms refl_step show ?thesis by (auto simp: inflight_clean_finished_items_def)
next
  case (Some s)
  note ok = refs_invD(1) [OF assms(1)]
  obtain ks i where d: "clean_finished_items (session_inflight s) = (ks, i)" by fastforce
  have i: "inflight_ok i"
    using clean_finished_ok [OF sessions_okD [OF ok Some]] d by simp
  let ?st = "put_session tenant client (s\<lparr>session_inflight := i\<rparr>) st"
  have t: "total_refs ?st + mset ks = total_refs st + {#}"
    by (rule put_pair_refs [OF ok Some]) (simp add: session_refs_def clean_finished_keys [OF d])
  moreover have "sessions_ok ?st"
    using ok i by (intro put_session_ok) simp_all
  moreover have "dec_refs ks ?st = (freed, st')"
    using assms(2) by (simp add: inflight_clean_finished_items_def Some d)
  ultimately show ?thesis
    using refs_invD(2) [OF assms(1)] refs_subset [OF t] by (intro dec_refs_step) (auto simp: covered_def)
qed

lemma append_pending_step:
  assumes "refs_inv R st"
  shows "refs_step R st (append_to_pending_queue tenant client key st) [key] []"
proof (cases "get_session_state tenant client st")
  case None
  with step_from_ensure [OF assms refl_step [OF ensure_inv [OF assms]]] show ?thesis
    by (simp add: append_to_pending_queue_def)
next
  case (Some s)
  let ?st = "inc_ref key (ensure_tenant tenant st)" and ?s = "s\<lparr>pending_messages := pending_messages s @ [key]\<rparr>"
  note inv = ensure_inv [OF assms, of tenant]
  have b: "Suc (ref_count (ensure_tenant tenant st) key) < 2 ^ 64"
    by (rule refs_invD(3) [OF inv])
  have ok: "sessions_ok ?st" by (rule inc_ref_ok [OF refs_invD(1) [OF inv] b])
  have g: "get_session_state tenant client ?st = Some s" using Some by simp
  have t: "total_refs (put_session tenant client ?s ?st) + {#} = total_refs ?st + {#key#}"
    by (rule put_pair_refs [OF ok g]) (simp add: session_refs_def)
  have "covered R (total_refs ?st + {#key#}) ?st"
    using covered_inc [OF refs_invD(2) [OF inv] b] by simp
  then have "covered R (total_refs (put_session tenant client ?s ?st)) (put_session tenant client ?s ?st)"
    using t by (simp add: covered_def)
  moreover have "sessions_ok (put_session tenant client ?s ?st)"
    using sessions_okD [OF ok g] by (intro put_session_ok [OF ok]) simp
  moreover have "set_mset (total_refs (put_session tenant client ?s ?st)) \<subseteq> set_mset (total_refs st) \<union> set [key]"
    using refs_subset [OF t] ensure_tenant_refs [OF refs_invD(1) [OF assms]] by simp
  ultimately show ?thesis
    using Some by (simp add: append_to_pending_queue_def refs_step_def ref_count_inc [OF b])
qed

lemma pop_pending_step:
  assumes "refs_inv R st" and "pop_from_pending_queue tenant client st = ((key, freed), st')"
  shows "refs_step R st st' [] (case freed of Some k \<Rightarrow> [k] | None \<Rightarrow> [])"
proof (cases "\<exists>s. get_session_state tenant client st = Some s \<and> pending_messages s \<noteq> []")
  case False
  with assms refl_step show ?thesis
    by (auto simp: pop_from_pending_queue_def split: option.splits)
next
  case True
  then obtain s where g: "get_session_state tenant client st = Some s" and n: "pending_messages s \<noteq> []"
    by blast
  note ok = refs_invD(1) [OF assms(1)]
  let ?k = "last (pending_messages s)" and ?s = "s\<lparr>pending_messages := butlast (pending_messages s)\<rparr>"
  let ?st = "put_session tenant client ?s st"
  have "mset (pending_messages s) = mset (butlast (pending_messages s) @ [?k])"
    using n by simp
  then have t: "total_refs ?st + option_mset (Some ?k) = total_refs st + {#}"
    by (intro put_pair_refs [OF ok g]) (simp add: session_refs_def del: append_butlast_last_id)
  moreover have "sessions_ok ?st"
    using sessions_okD [OF ok g] by (intro put_session_ok [OF ok]) simp
  moreover have "dec_ref_option (Some ?k) ?st = (freed, st')"
    using assms(2) n by (auto simp: pop_from_pending_queue_def g dec_ref_option_def Let_def split: prod.splits)
  ultimately show ?thesis
    using refs_invD(2) [OF assms(1)] refs_subset [OF t] by (intro dec_option_step) (auto simp: covered_def)
qed

lemma create_step:
  assumes "refs_inv R st"
    and "get_session_state tenant client st = None \<or> (\<forall>m m' n. R m n \<and> m' \<le> m \<longrightarrow> R m' n)"
  shows "refs_step R st (create_session_state tenant client duration version expiry st) [] []"
proof -
  let ?st = "ensure_tenant tenant st" and ?s = "new_with_options duration version expiry"
  note inv = ensure_inv [OF assms(1), of tenant]
  have e: "session_refs ?s = {#}" "inflight_ok (session_inflight ?s)"
    by (simp_all add: new_with_options_def session_refs_def)
  have ok: "sessions_ok (put_session tenant client ?s ?st)"
    by (rule put_session_ok [OF refs_invD(1) [OF inv] e(2)])
  obtain out where t: "total_refs (put_session tenant client ?s ?st) + out = total_refs ?st + {#}"
    and out: "get_session_state tenant client st = None \<Longrightarrow> out = {#}"
  proof (cases "get_session_state tenant client ?st")
    case None
    obtain m where m: "hm_get (storage_inner ?st) tenant = Some m"
      using ensure_tenant_present [of tenant st] by auto
    with None have "hm_get m client = None" by (simp add: get_session_state_def)
    from total_put_fresh [OF refs_invD(1) [OF inv] m this, of ?s] show ?thesis
      by (intro that [of "{#}"]) (simp_all add: e)
  next
    case (Some s)
    then show ?thesis
      using total_put [OF refs_invD(1) [OF inv] Some, of ?s] by (intro that [of "session_refs s"]) (simp_all add: e)
  qed
  have le: "count (total_refs (put_session tenant client ?s ?st)) k \<le> count (total_refs ?st) k" for k
    using t by (metis add.right_neutral count_union le_add1)
  have "R (count (total_refs (put_session tenant client ?s ?st)) k) (ref_count ?st k)" for k
    using assms(2)
  proof
    assume "get_session_state tenant client st = None"
    with t out refs_invD(2) [OF inv] show ?thesis by (simp add: covered_def)
  next
    assume "\<forall>m m' n. R m n \<and> m' \<le> m \<longrightarrow> R m' n"
    with le [of k] refs_invD(2) [OF inv] show ?thesis unfolding covered_def by blast
  qed
  then have "covered R (total_refs (put_session tenant client ?s ?st)) ?st"
    by (simp add: covered_def)
  with ok refs_subset [OF t] ensure_tenant_refs [OF refs_invD(1) [OF assms(1)]] show ?thesis
    by (simp add: create_session_state_def refs_step_def covered_def)
qed

lemma delete_step:
  assumes "refs_inv R st" and "delete_session_state tenant client st = (freed, st')"
  shows "refs_step R st st' [] freed"
proof (cases "get_session_state tenant client st")
  case None
  with assms refl_step show ?thesis by (auto simp: delete_session_state_def)
next
  case (Some s)
  note ok = refs_invD(1) [OF assms(1)]
  let ?st = "st\<lparr>storage_inner := hm_modify tenant (hm_remove client) (storage_inner st)\<rparr>"
  let ?ks = "pending_messages s @ get_all_packet_keys (session_inflight s)"
  have "total_refs st = total_refs ?st + mset ?ks"
    using total_remove [OF ok Some] by (simp add: session_refs_def get_all_packet_keys_mset)
  moreover have "sessions_ok ?st" by (rule remove_session_ok [OF ok])
  moreover have "dec_refs ?ks ?st = (freed, st')"
    using assms(2) by (simp add: delete_session_state_def Some dec_refs_append Let_def split: prod.splits)
  moreover have "ref_count ?st = ref_count st"
    by (simp add: ref_count_def fun_eq_iff)
  ultimately show ?thesis
    using refs_invD(2) [OF assms(1)] by (intro dec_refs_step) (auto simp: covered_def)
qed

lemma subscribe_step:
  assumes "refs_inv R st"
  shows "refs_step R st (subscribe_topic_with_options tenant client topic q nl rap st) [] []"
proof (cases "get_session_state tenant client st")
  case None
  with step_from_ensure [OF assms refl_step [OF ensure_inv [OF assms]]] show ?thesis
    by (simp add: subscribe_topic_with_options_def)
next
  case (Some s)
  have g: "get_session_state tenant client (ensure_tenant tenant st) = Some s" using Some by simp
  note inv = ensure_inv [OF assms, of tenant]
  show ?thesis
    using Some by (simp add: subscribe_topic_with_options_def)
      (rule step_from_ensure [OF assms put_same_step [OF inv g]],
       use sessions_okD [OF refs_invD(1) [OF inv] g] in \<open>simp_all add: session_refs_def\<close>)
qed

lemma unsubscribe_step:
  assumes "refs_inv R st"
  shows "refs_step R st (session_unsubscribe_topic tenant client topic st) [] []"
proof (cases "get_session_state tenant client st")
  case (Some s)
  then show ?thesis
    by (simp add: session_unsubscribe_topic_def)
      (rule put_same_step [OF assms Some],
       use sessions_okD [OF refs_invD(1) [OF assms] Some] in \<open>simp_all add: session_refs_def\<close>)
qed (simp add: session_unsubscribe_topic_def refl_step [OF assms])

lemma update_connection_step:
  assumes "refs_inv R st"
  shows "refs_step R st (update_connection_state tenant client disconnected update st) [] []"
proof (cases "get_session_state tenant client st")
  case (Some s)
  have "pending_messages (state_update_connection disconnected update s) = pending_messages s"
    "session_inflight (state_update_connection disconnected update s) = session_inflight s"
    by (auto simp: state_update_connection_def Let_def split: option.splits)
  with Some show ?thesis
    by (simp add: update_connection_state_def)
      (rule put_same_step [OF assms Some],
       use sessions_okD [OF refs_invD(1) [OF assms] Some] in \<open>simp_all add: session_refs_def\<close>)
qed (simp add: update_connection_state_def refl_step [OF assms])

end

text \<open>The counts bound the references; they equal them where nothing is overwritten or leaked.\<close>

interpretation bounding: ref_discipline "(\<le>)"
  by unfold_locales auto

interpretation exact: ref_discipline "(=)"
  by unfold_locales auto

section \<open>Expiry\<close>

lemma expired_after_disconnect:
  assumes "unat d + unat i < 2 ^ 64"
  shows "expired_disconnected_at now ttl (state_update_connection (Some d) (Some i) s) =
    (if i \<noteq> - 1 \<and> unat d + unat i \<le> unat now then Some d else None)"
proof -
  have "unat (ucast i :: u64) = unat i"
  proof -
    have "unat i < 2 ^ 32" using unsigned_less [of i] by simp
    then show ?thesis by (simp add: unsigned_ucast_eq take_bit_nat_eq_self)
  qed
  then have "unat (saturating_add d (ucast i)) = unat d + unat i"
    using assms by (simp add: unat_saturating_add)
  then show ?thesis
    by (auto simp: expired_disconnected_at_def state_update_connection_def expiry_deadline_def
        Let_def word_le_nat_alt)
qed

section \<open>Properties\<close>

text \<open>
  The scan reports exactly the sessions that have expired; a session that disconnected with an
  expiry interval expires once that interval has passed, never with the largest interval, and a
  session that is connected never does.
\<close>

theorem scan_expired_exact:
  assumes "sessions_ok st" and "unat d + unat i < 2 ^ 64"
  shows "((tenant, client, d') \<in> set (scan_expired_sessions now ttl st) \<longleftrightarrow>
      (\<exists>s. get_session_state tenant client st = Some s \<and> expired_disconnected_at now ttl s = Some d')) \<and>
    expired_disconnected_at now ttl (state_update_connection (Some d) (Some i) s) =
      (if i \<noteq> - 1 \<and> unat d + unat i \<le> unat now then Some d else None) \<and>
    expired_disconnected_at now ttl (state_update_connection None update s) = None"
proof (intro conjI)
  have o: "hm_ok (storage_inner st)"
    "\<And>m. hm_get (storage_inner st) tenant = Some m \<Longrightarrow> hm_ok m"
    using assms(1) by (auto simp: sessions_ok_def)
  show "(tenant, client, d') \<in> set (scan_expired_sessions now ttl st) \<longleftrightarrow>
      (\<exists>s. get_session_state tenant client st = Some s \<and> expired_disconnected_at now ttl s = Some d')"
  proof
    assume "(tenant, client, d') \<in> set (scan_expired_sessions now ttl st)"
    then obtain m s where "(tenant, m) \<in> set (storage_inner st)" "(client, s) \<in> set m"
      "expired_disconnected_at now ttl s = Some d'"
      by (auto simp: scan_expired_sessions_def set_map_filter_iff)
    with o show "\<exists>s. get_session_state tenant client st = Some s \<and> expired_disconnected_at now ttl s = Some d'"
      by (auto simp: get_session_state_def hm_mem_get)
  next
    assume "\<exists>s. get_session_state tenant client st = Some s \<and> expired_disconnected_at now ttl s = Some d'"
    then obtain m s where "hm_get (storage_inner st) tenant = Some m" "hm_get m client = Some s"
      "expired_disconnected_at now ttl s = Some d'"
      by (auto simp: get_session_state_def split: option.splits)
    then show "(tenant, client, d') \<in> set (scan_expired_sessions now ttl st)"
      by (force simp: scan_expired_sessions_def set_map_filter_iff dest!: map_of_SomeD)
  qed
  show "expired_disconnected_at now ttl (state_update_connection (Some d) (Some i) s) =
      (if i \<noteq> - 1 \<and> unat d + unat i \<le> unat now then Some d else None)"
    by (rule expired_after_disconnect [OF assms(2)])
  show "expired_disconnected_at now ttl (state_update_connection None update s) = None"
    by (simp add: expired_disconnected_at_def state_update_connection_def Let_def)
qed

theorem scan_expired_exact_witness:
  "expired_disconnected_at 105 999 (state_update_connection (Some 100) (Some 5)
     (new_with_options 1 (Some V5_0) None)) = Some 100"
  using scan_expired_exact [OF sessions_ok_new(1), of 100 5 _ _ _ 105 999
      "new_with_options 1 (Some V5_0) None"] by simp

text \<open>
  The pending messages of a session come out in the reverse of the order they went in: what is
  popped is the message appended last, while the earlier ones stay.
\<close>

theorem pending_queue_is_lifo:
  assumes "get_session_state tenant client st = Some s"
  shows "\<exists>freed st'. pop_from_pending_queue tenant client (append_to_pending_queue tenant client key st) =
      ((Some key, freed), st') \<and>
    (\<exists>s'. get_session_state tenant client st' = Some s' \<and> pending_messages s' = pending_messages s)"
proof -
  let ?s = "s\<lparr>pending_messages := pending_messages s @ [key]\<rparr>"
  let ?st = "put_session tenant client ?s (inc_ref key (ensure_tenant tenant st))"
  have g: "get_session_state tenant client ?st = Some ?s"
    using assms by (simp add: get_put_session)
  have "append_to_pending_queue tenant client key st = ?st"
    using assms by (simp add: append_to_pending_queue_def)
  with g show ?thesis
    by (simp add: pop_from_pending_queue_def case_prod_unfold Let_def get_put_session)
qed

theorem pending_queue_is_lifo_witness:
  "\<exists>freed st'. pop_from_pending_queue ''t'' ''c'' (append_to_pending_queue ''t'' ''c'' ''k2''
       (append_to_pending_queue ''t'' ''c'' ''k1''
         (create_session_state ''t'' ''c'' 1 None None session_storage_new)))
     = ((Some ''k2'', freed), st')"
proof -
  have "\<exists>s. get_session_state ''t'' ''c'' (append_to_pending_queue ''t'' ''c'' ''k1''
      (create_session_state ''t'' ''c'' 1 None None session_storage_new)) = Some s"
    by (simp add: append_to_pending_queue_def create_session_state_def session_storage_new_def
        ensure_tenant_def put_session_def get_session_state_def hm_modify_def hm_or_insert_def)
  with pending_queue_is_lifo show ?thesis by blast
qed

end
