(* ===== verification/Payload_Store.thy ===== *)
theory Payload_Store
  imports Raft_Common
begin

text \<open>
  The store of message payloads, \<open>broker/src/raft/payload/store.rs\<close> and \<open>rocksdb.rs\<close>: the trait as
  a record of operations with the laws its users rely on, and its implementation on the database.
\<close>

section \<open>The interface\<close>

datatype payload_error =
    PayloadIo string
  | PayloadStorage string
  | PayloadSerialization string
  | PayloadNotFound string

fun display_payload_error :: "payload_error \<Rightarrow> string" where
  "display_payload_error (PayloadIo e) = ''IO error: '' @ e"
| "display_payload_error (PayloadStorage e) = ''Storage error: '' @ e"
| "display_payload_error (PayloadSerialization e) = ''Serialization error: '' @ e"
| "display_payload_error (PayloadNotFound key) = ''Payload not found: '' @ key"

record 'ps payload_store =
  ps_put :: "string \<Rightarrow> bytes \<Rightarrow> (unit, payload_error, 'ps) op"
  ps_get :: "string \<Rightarrow> 'ps \<Rightarrow> (bytes option, payload_error) result"
  ps_delete :: "string \<Rightarrow> (unit, payload_error, 'ps) op"
  ps_contains :: "string \<Rightarrow> 'ps \<Rightarrow> (bool, payload_error) result"
  ps_put_batch :: "(string \<times> bytes) list \<Rightarrow> (unit, payload_error, 'ps) op"

text \<open>
  A call that succeeds does what its name says and a call that fails changes nothing; a batch is
  written as a whole.
\<close>

definition payload_laws :: "'ps payload_store \<Rightarrow> ('ps \<Rightarrow> string \<Rightarrow> bytes option) \<Rightarrow> bool" where
  "payload_laws ps view \<longleftrightarrow>
     (\<forall>k d s r s'. ps_put ps k d s = (r, s') \<longrightarrow>
        view s' = (case r of Ok _ \<Rightarrow> (view s)(k \<mapsto> d) | Err _ \<Rightarrow> view s)) \<and>
     (\<forall>k s r. ps_get ps k s = Ok r \<longrightarrow> r = view s k) \<and>
     (\<forall>k s r s'. ps_delete ps k s = (r, s') \<longrightarrow>
        view s' = (case r of Ok _ \<Rightarrow> (view s)(k := None) | Err _ \<Rightarrow> view s)) \<and>
     (\<forall>k s b. ps_contains ps k s = Ok b \<longrightarrow> (b \<longleftrightarrow> view s k \<noteq> None)) \<and>
     (\<forall>es s r s'. ps_put_batch ps es s = (r, s') \<longrightarrow>
        view s' = (case r of Ok _ \<Rightarrow> view s ++ map_of (rev es) | Err _ \<Rightarrow> view s))"

lemma payload_lawsD:
  assumes "payload_laws ps view"
  shows "ps_put ps k d s = (Ok u, s') \<Longrightarrow> view s' = (view s)(k \<mapsto> d)"
    and "ps_put ps k d s = (Err e, s') \<Longrightarrow> view s' = view s"
    and "ps_get ps k s = Ok r \<Longrightarrow> r = view s k"
    and "ps_delete ps k s = (Ok u, s') \<Longrightarrow> view s' = (view s)(k := None)"
    and "ps_delete ps k s = (Err e, s') \<Longrightarrow> view s' = view s"
    and "ps_contains ps k s = Ok b \<Longrightarrow> b \<longleftrightarrow> view s k \<noteq> None"
    and "ps_put_batch ps es s = (Ok u, s') \<Longrightarrow> view s' = view s ++ map_of (rev es)"
    and "ps_put_batch ps es s = (Err e, s') \<Longrightarrow> view s' = view s"
  using assms by (auto simp: payload_laws_def split: result.splits)

section \<open>The implementation on the database\<close>

definition rocks_put :: "'db kv_store \<Rightarrow> string \<Rightarrow> bytes \<Rightarrow> (unit, payload_error, 'db) op" where
  "rocks_put kv key data = map_err_op PayloadStorage (kv_put kv ''default'' (as_bytes key) data)"

definition rocks_get :: "'db kv_store \<Rightarrow> string \<Rightarrow> 'db \<Rightarrow> (bytes option, payload_error) result" where
  "rocks_get kv key db = map_err PayloadStorage (kv_get kv ''default'' (as_bytes key) db)"

definition rocks_delete :: "'db kv_store \<Rightarrow> string \<Rightarrow> (unit, payload_error, 'db) op" where
  "rocks_delete kv key = map_err_op PayloadStorage (kv_delete kv ''default'' (as_bytes key))"

definition rocks_contains :: "'db kv_store \<Rightarrow> string \<Rightarrow> 'db \<Rightarrow> (bool, payload_error) result" where
  "rocks_contains kv key db =
     and_then (map_err PayloadStorage (kv_get kv ''default'' (as_bytes key) db)) (\<lambda>v. Ok (v \<noteq> None))"

definition rocks_put_batch :: "'db kv_store \<Rightarrow> (string \<times> bytes) list \<Rightarrow> (unit, payload_error, 'db) op" where
  "rocks_put_batch kv entries =
     map_err_op PayloadStorage (kv_write_batch kv ''default'' (map (\<lambda>(key, val). (as_bytes key, val)) entries))"

definition rocks_store :: "'db kv_store \<Rightarrow> 'db payload_store" where
  "rocks_store kv =
     \<lparr>ps_put = rocks_put kv, ps_get = rocks_get kv, ps_delete = rocks_delete kv,
      ps_contains = rocks_contains kv, ps_put_batch = rocks_put_batch kv\<rparr>"

definition rocks_view :: "('db \<Rightarrow> string \<Rightarrow> bytes \<Rightarrow> bytes option) \<Rightarrow> 'db \<Rightarrow> string \<Rightarrow> bytes option" where
  "rocks_view view db key = view db ''default'' (as_bytes key)"

lemma byte_of_char_inject [simp]: "byte_of_char c = byte_of_char d \<longleftrightarrow> c = d"
  by (metis char_of_byte_of_char)

lemma as_bytes_inject [simp]: "as_bytes a = as_bytes b \<longleftrightarrow> a = b"
  by (metis map_char_of_byte_as_bytes)

lemma map_of_as_bytes:
  "map_of (rev (map (\<lambda>(key, val). (as_bytes key, val)) es)) (as_bytes k) = map_of (rev es) k"
  by (induction es) (auto simp: map_add_def split: option.splits)

lemma map_err_op_cases:
  assumes "map_err_op g m s = (r, s')"
  obtains r0 where "m s = (r0, s')" and "r = map_err g r0"
  using assms by (cases "m s") (auto simp: map_err_op_def)

lemma rocks_writes:
  assumes "kv_writes view m f" and "map_err_op PayloadStorage m db = (r, db')"
  shows "rocks_view view db' = (case r of
      Ok _ \<Rightarrow> (\<lambda>key. f (view db) ''default'' (as_bytes key)) | Err _ \<Rightarrow> rocks_view view db)"
proof -
  obtain r0 where "m db = (r0, db')" "r = map_err PayloadStorage r0"
    by (rule map_err_op_cases [OF assms(2)])
  with kv_writesD [OF assms(1)] show ?thesis
    by (cases r0) (auto simp: rocks_view_def fun_eq_iff)
qed

text \<open>The implementation keeps the laws where the database does.\<close>

lemma rocks_payload_laws:
  assumes "kv_laws kv view"
  shows "payload_laws (rocks_store kv) (rocks_view view)"
proof -
  note w = rocks_writes [OF kv_lawsD(2) [OF assms]] rocks_writes [OF kv_lawsD(3) [OF assms]]
    rocks_writes [OF kv_lawsD(11) [OF assms]]
  have "rocks_get kv k s = Ok r \<Longrightarrow> r = rocks_view view s k" for k s r
    using kv_lawsD(1) [OF assms, of "''default''" "as_bytes k" s]
    by (cases "kv_get kv ''default'' (as_bytes k) s") (auto simp: rocks_get_def rocks_view_def)
  moreover have "rocks_contains kv k s = Ok b \<Longrightarrow> b \<longleftrightarrow> rocks_view view s k \<noteq> None" for k s b
    using kv_lawsD(1) [OF assms, of "''default''" "as_bytes k" s]
    by (cases "kv_get kv ''default'' (as_bytes k) s") (auto simp: rocks_contains_def rocks_view_def)
  moreover have "rocks_put kv k d s = (r, s') \<Longrightarrow> rocks_view view s' =
      (case r of Ok _ \<Rightarrow> (rocks_view view s)(k \<mapsto> d) | Err _ \<Rightarrow> rocks_view view s)" for k d s r s'
    using w(1) [of "''default''" "as_bytes k" d s r s']
    by (auto simp: rocks_put_def rocks_view_def fun_eq_iff split: result.splits)
  moreover have "rocks_delete kv k s = (r, s') \<Longrightarrow> rocks_view view s' =
      (case r of Ok _ \<Rightarrow> (rocks_view view s)(k := None) | Err _ \<Rightarrow> rocks_view view s)" for k s r s'
    using w(2) [of "''default''" "as_bytes k" s r s']
    by (auto simp: rocks_delete_def rocks_view_def fun_eq_iff split: result.splits)
  moreover have "rocks_put_batch kv es s = (r, s') \<Longrightarrow> rocks_view view s' =
      (case r of Ok _ \<Rightarrow> rocks_view view s ++ map_of (rev es) | Err _ \<Rightarrow> rocks_view view s)" for es s r s'
    using w(3) [of "''default''" "map (\<lambda>(key, val). (as_bytes key, val)) es" s r s']
    by (auto simp: rocks_put_batch_def rocks_view_def [abs_def] fun_eq_iff map_add_def map_of_as_bytes
        split: result.splits)
  ultimately show ?thesis
    by (simp add: payload_laws_def rocks_store_def)
qed

end
