(* ===== verification/Payload_Transfer.thy ===== *)
theory Payload_Transfer
  imports Payload_Store Hash_Map
begin

text \<open>
  Moving payloads between nodes, \<open>broker/src/raft/payload\<close>: cutting a payload into chunks and putting
  it together again (\<open>transfer.rs\<close>), the service that answers (\<open>service.rs\<close>) and the client that
  replicates and fetches (\<open>client.rs\<close>). The checksum function \<open>crc\<close>, the sizes of the encoded
  messages and the calls over the network are arguments.
\<close>

section \<open>Chunks\<close>

definition CHUNK_SIZE :: nat where "CHUNK_SIZE = 1024 * 1024"

definition RPC_SIZE_LIMIT :: nat where "RPC_SIZE_LIMIT = 4 * 1024 * 1024"

record bulk_sync_chunk =
  chunk_key :: string
  chunk_data :: bytes
  chunk_offset :: u64
  is_last_chunk :: bool
  total_size :: u64
  chunk_checksum :: u32

definition chunk_at :: "(bytes \<Rightarrow> u32) \<Rightarrow> string \<Rightarrow> bytes \<Rightarrow> nat \<Rightarrow> bulk_sync_chunk" where
  "chunk_at crc key data offset =
     (let size = length data; end = min (offset + CHUNK_SIZE) size; last = (end = size) in
      \<lparr>chunk_key = key, chunk_data = take (end - offset) (drop offset data),
       chunk_offset = word_of_nat offset, is_last_chunk = last,
       total_size = (if last then word_of_nat size else 0),
       chunk_checksum = (if last then crc data else 0)\<rparr>)"

function chunks_from :: "(bytes \<Rightarrow> u32) \<Rightarrow> string \<Rightarrow> bytes \<Rightarrow> nat \<Rightarrow> bulk_sync_chunk list" where
  "chunks_from crc key data offset =
     (if offset < max (length data) 1
      then chunk_at crc key data offset # chunks_from crc key data (offset + CHUNK_SIZE)
      else [])"
  by pat_completeness auto
termination
  by (relation "measure (\<lambda>(crc, key, data, offset). max (length data) 1 - offset)")
    (auto simp: CHUNK_SIZE_def)

definition chunks :: "(bytes \<Rightarrow> u32) \<Rightarrow> string \<Rightarrow> bytes \<Rightarrow> bulk_sync_chunk list" where
  "chunks crc key data = chunks_from crc key data 0"

text \<open>The assembler buffers one key at a time.\<close>

type_synonym chunk_assembler = "(string \<times> bytes) option"

definition push_chunk ::
  "(bytes \<Rightarrow> u32) \<Rightarrow> bulk_sync_chunk \<Rightarrow> ((string \<times> bytes) option, string, chunk_assembler) op" where
  "push_chunk crc chunk current =
     (let (key, data) = (case current of Some kd \<Rightarrow> kd | None \<Rightarrow> (chunk_key chunk, [])) in
      if key \<noteq> chunk_key chunk then (Err ''interleaved payload keys'', Some (key, data))
      else if chunk_offset chunk \<noteq> word_of_nat (length data) then (Err ''invalid payload offset'', Some (key, data))
      else if chunk_data chunk = [] \<and> \<not> is_last_chunk chunk
      then (Err ''empty intermediate chunk'', Some (key, data))
      else
        let data = data @ chunk_data chunk in
        if \<not> is_last_chunk chunk then (Ok None, Some (key, data))
        else if total_size chunk \<noteq> word_of_nat (length data) then (Err ''payload size mismatch'', Some (key, data))
        else if chunk_checksum chunk \<noteq> crc data then (Err ''payload checksum mismatch'', Some (key, data))
        else (Ok (Some (key, data)), None))"

definition finish_chunks :: "chunk_assembler \<Rightarrow> (unit, string) result" where
  "finish_chunks current = (if current = None then Ok () else Err ''incomplete payload stream'')"

section \<open>The service\<close>

datatype status = InvalidArgument string | Internal string | StatusNotFound string | Transport string

definition replicate_payload ::
  "'ps payload_store \<Rightarrow> string \<Rightarrow> bytes \<Rightarrow> (bool, status, 'ps) op" where
  "replicate_payload ps key data =
     bind_op (map_err_op (\<lambda>e. Internal (display_payload_error e)) (ps_put ps key data)) (\<lambda>_. pure_op True)"

definition replicate_batch ::
  "'ps payload_store \<Rightarrow> (string \<times> bytes) list \<Rightarrow> (bool, status, 'ps) op" where
  "replicate_batch ps entries =
     bind_op (map_err_op (\<lambda>e. Internal (display_payload_error e)) (ps_put_batch ps entries)) (\<lambda>_. pure_op True)"

text \<open>The loop over the messages of an upload; a message is a chunk or an error of the transport.\<close>

fun upload_loop ::
  "(bytes \<Rightarrow> u32) \<Rightarrow> (string \<times> bytes) option \<Rightarrow> (bulk_sync_chunk, status) result list \<Rightarrow> chunk_assembler \<Rightarrow>
   ((string \<times> bytes) option \<times> chunk_assembler, status) result" where
  "upload_loop crc completed [] current = Ok (completed, current)"
| "upload_loop crc completed (Err e # rest) current = Err e"
| "upload_loop crc completed (Ok chunk # rest) current =
     (if completed \<noteq> None then Err (InvalidArgument ''expected exactly one payload'')
      else case push_chunk crc chunk current of
        (Err e, _) \<Rightarrow> Err (InvalidArgument e)
      | (Ok completed, current) \<Rightarrow> upload_loop crc completed rest current)"

definition replicate_stream ::
  "(bytes \<Rightarrow> u32) \<Rightarrow> 'ps payload_store \<Rightarrow> (bulk_sync_chunk, status) result list \<Rightarrow> (bool, status, 'ps) op" where
  "replicate_stream crc ps stream =
     bind_op (lift_op (upload_loop crc None stream None)) (\<lambda>(completed, current).
     bind_op (lift_op (map_err InvalidArgument (finish_chunks current))) (\<lambda>_.
     case completed of
       None \<Rightarrow> fail_op (InvalidArgument ''empty upload'')
     | Some (key, data) \<Rightarrow>
         bind_op (map_err_op (\<lambda>e. Internal (display_payload_error e)) (ps_put ps key data)) (\<lambda>_. pure_op True)))"

definition fetch_payload ::
  "'ps payload_store \<Rightarrow> string \<Rightarrow> 'ps \<Rightarrow> (bool \<times> bytes, status) result" where
  "fetch_payload ps key s =
     (case ps_get ps key s of
        Ok (Some data) \<Rightarrow> Ok (True, data)
      | Ok None \<Rightarrow> Ok (False, [])
      | Err e \<Rightarrow> Err (Internal (display_payload_error e)))"

fun start_bulk_sync ::
  "'ps payload_store \<Rightarrow> string list \<Rightarrow> 'ps \<Rightarrow> (string list, status) result" where
  "start_bulk_sync ps [] s = Ok []"
| "start_bulk_sync ps (key # manifest) s =
     (case ps_contains ps key s of
        Ok exists \<Rightarrow> and_then (start_bulk_sync ps manifest s) (\<lambda>missing. Ok (if exists then missing else key # missing))
      | Err e \<Rightarrow> Err (Internal (display_payload_error e)))"

fun stream_bulk_data ::
  "(bytes \<Rightarrow> u32) \<Rightarrow> 'ps payload_store \<Rightarrow> string list \<Rightarrow> 'ps \<Rightarrow> (bulk_sync_chunk, status) result list" where
  "stream_bulk_data crc ps [] s = []"
| "stream_bulk_data crc ps (key # keys_to_fetch) s =
     (case ps_get ps key s of
        Ok (Some data) \<Rightarrow> map Ok (chunks crc key data) @ stream_bulk_data crc ps keys_to_fetch s
      | Ok None \<Rightarrow> [Err (StatusNotFound (''payload '' @ key @ '' not found''))]
      | Err e \<Rightarrow> [Err (Internal (display_payload_error e))])"

section \<open>The client\<close>

record replicate_request =
  rr_key :: string
  rr_data :: bytes
  rr_term :: u64

text \<open>The calls to a peer, on a state \<open>'n\<close> of the network and the peers behind it.\<close>

record 'n payload_rpc =
  rpc_channel :: "(unit, string) result"
  rpc_replicate_batch :: "replicate_request list \<Rightarrow> (bool, status, 'n) op"
  rpc_replicate_stream :: "bulk_sync_chunk list \<Rightarrow> (bool, status, 'n) op"
  rpc_stream_bulk_data :: "string list \<Rightarrow> 'n \<Rightarrow> ((bulk_sync_chunk, status) result list, status) result"

datatype payload_client_error = Grpc status | GrpcConnect string | ClientPayloadError string

definition send_batch ::
  "'n payload_rpc \<Rightarrow> replicate_request list \<Rightarrow> (unit, payload_client_error, 'n) op" where
  "send_batch rpc batch =
     bind_op (map_err_op Grpc (rpc_replicate_batch rpc batch)) (\<lambda>success.
     if success then pure_op () else fail_op (ClientPayloadError ''batch rejected''))"

definition send_stream ::
  "(bytes \<Rightarrow> u32) \<Rightarrow> 'n payload_rpc \<Rightarrow> replicate_request \<Rightarrow> (unit, payload_client_error, 'n) op" where
  "send_stream crc rpc entry =
     bind_op (map_err_op Grpc (rpc_replicate_stream rpc (chunks crc (rr_key entry) (rr_data entry)))) (\<lambda>success.
     if success then pure_op () else fail_op (ClientPayloadError ''upload rejected''))"

text \<open>
  \<open>elen\<close> is the encoded length of a request and \<open>dlen\<close> that of its length prefix, as \<open>prost\<close> computes
  them.
\<close>

definition encoded_size :: "(replicate_request \<Rightarrow> nat) \<Rightarrow> (nat \<Rightarrow> nat) \<Rightarrow> replicate_request \<Rightarrow> nat" where
  "encoded_size elen dlen entry = 1 + dlen (elen entry) + elen entry"

fun replicate_loop ::
  "(replicate_request \<Rightarrow> nat) \<Rightarrow> (nat \<Rightarrow> nat) \<Rightarrow> (bytes \<Rightarrow> u32) \<Rightarrow> 'n payload_rpc \<Rightarrow>
   replicate_request list \<Rightarrow> nat \<Rightarrow> replicate_request list \<Rightarrow> (unit, payload_client_error, 'n) op" where
  "replicate_loop elen dlen crc rpc batch batch_size [] =
     (if batch \<noteq> [] then send_batch rpc batch else pure_op ())"
| "replicate_loop elen dlen crc rpc batch batch_size (entry # entries) =
     (let size = encoded_size elen dlen entry in
      bind_op
        (if batch_size + size > RPC_SIZE_LIMIT \<and> batch \<noteq> []
         then bind_op (send_batch rpc batch) (\<lambda>_. pure_op ([], 0))
         else pure_op (batch, batch_size)) (\<lambda>(batch, batch_size).
      if size > RPC_SIZE_LIMIT
      then bind_op (send_stream crc rpc entry) (\<lambda>_. replicate_loop elen dlen crc rpc batch batch_size entries)
      else replicate_loop elen dlen crc rpc (batch @ [entry]) (batch_size + size) entries))"

definition replicate_entries ::
  "(replicate_request \<Rightarrow> nat) \<Rightarrow> (nat \<Rightarrow> nat) \<Rightarrow> (bytes \<Rightarrow> u32) \<Rightarrow> 'n payload_rpc \<Rightarrow>
   replicate_request list \<Rightarrow> (unit, payload_client_error, 'n) op" where
  "replicate_entries elen dlen crc rpc entries =
     bind_op (lift_op (map_err GrpcConnect (rpc_channel rpc))) (\<lambda>_.
     replicate_loop elen dlen crc rpc [] 0 entries)"

definition replicate_key ::
  "(replicate_request \<Rightarrow> nat) \<Rightarrow> (nat \<Rightarrow> nat) \<Rightarrow> (bytes \<Rightarrow> u32) \<Rightarrow> 'n payload_rpc \<Rightarrow>
   'ps payload_store \<Rightarrow> 'ps \<Rightarrow> string \<Rightarrow> u64 \<Rightarrow> (unit, payload_client_error, 'n) op" where
  "replicate_key elen dlen crc rpc ps s key term =
     (case ps_get ps key s of
        Err e \<Rightarrow> fail_op (ClientPayloadError (display_payload_error e))
      | Ok None \<Rightarrow> fail_op (ClientPayloadError (''Payload not found locally: '' @ key))
      | Ok (Some data) \<Rightarrow>
          replicate_entries elen dlen crc rpc [\<lparr>rr_key = key, rr_data = data, rr_term = term\<rparr>])"

text \<open>Fetching: which keys are missing here, the requests for them, and what the peer streams.\<close>

datatype sync_error = SyncStore payload_error | SyncGrpc status | SyncConnect string | SyncFailed string

fun collect_pending ::
  "'ps payload_store \<Rightarrow> 'ps \<Rightarrow> (string \<times> u64 \<times> u32) list \<Rightarrow> (string, u64 \<times> u32) hash_map \<Rightarrow>
   ((string, u64 \<times> u32) hash_map, sync_error) result" where
  "collect_pending ps s [] pending = Ok pending"
| "collect_pending ps s ((key, sz, checksum) # manifest) pending =
     and_then (map_err SyncStore (ps_contains ps key s)) (\<lambda>present.
     collect_pending ps s manifest (if present then pending else hm_insert key (sz, checksum) pending))"

fun build_requests ::
  "(nat \<Rightarrow> nat) \<Rightarrow> nat \<Rightarrow> nat \<Rightarrow> string list \<Rightarrow> nat \<Rightarrow> string list \<Rightarrow> (string list list, sync_error) result" where
  "build_requests dlen id_len base keys_to_fetch request_size [] =
     Ok (if keys_to_fetch = [] then [] else [keys_to_fetch])"
| "build_requests dlen id_len base keys_to_fetch request_size (key # keys) =
     (let size = 1 + dlen (length key) + length key in
      if size + id_len + 2 > RPC_SIZE_LIMIT then Err (SyncFailed ''payload key too large'')
      else if request_size + size > RPC_SIZE_LIMIT
      then and_then (build_requests dlen id_len base [key] (base + size) keys) (\<lambda>requests. Ok (keys_to_fetch # requests))
      else build_requests dlen id_len base (keys_to_fetch @ [key]) (request_size + size) keys)"

fun receive_chunks ::
  "(bytes \<Rightarrow> u32) \<Rightarrow> 'ps payload_store \<Rightarrow> (bulk_sync_chunk, status) result list \<Rightarrow> chunk_assembler \<Rightarrow>
   (string, u64 \<times> u32) hash_map \<Rightarrow> (chunk_assembler \<times> (string, u64 \<times> u32) hash_map, sync_error, 'ps) op" where
  "receive_chunks crc ps [] current pending = pure_op (current, pending)"
| "receive_chunks crc ps (Err e # stream) current pending = fail_op (SyncGrpc e)"
| "receive_chunks crc ps (Ok chunk # stream) current pending =
     (if hm_get pending (chunk_key chunk) = None then fail_op (SyncFailed ''unexpected or duplicate payload key'')
      else case push_chunk crc chunk current of
        (Err e, _) \<Rightarrow> fail_op (SyncFailed e)
      | (Ok None, current) \<Rightarrow> receive_chunks crc ps stream current pending
      | (Ok (Some (key, data)), current) \<Rightarrow>
          (case hm_get pending key of
             None \<Rightarrow> fail_op (SyncFailed ''panic'')
           | Some (sz, checksum) \<Rightarrow>
               if \<not> (sz = 0 \<or> sz = word_of_nat (length data)) then fail_op (SyncFailed ''manifest size mismatch'')
               else if \<not> (checksum = 0 \<or> checksum = crc data) then fail_op (SyncFailed ''manifest checksum mismatch'')
               else
                 bind_op (map_err_op SyncStore (ps_put ps key data)) (\<lambda>_.
                 receive_chunks crc ps stream current (hm_remove key pending))))"

fun receive_all ::
  "(bytes \<Rightarrow> u32) \<Rightarrow> 'ps payload_store \<Rightarrow> (string list \<Rightarrow> ((bulk_sync_chunk, status) result list, status) result) \<Rightarrow>
   string list list \<Rightarrow> (string, u64 \<times> u32) hash_map \<Rightarrow> ((string, u64 \<times> u32) hash_map, sync_error, 'ps) op" where
  "receive_all crc ps fetch [] pending = pure_op pending"
| "receive_all crc ps fetch (request # requests) pending =
     bind_op (lift_op (map_err SyncGrpc (fetch request))) (\<lambda>stream.
     bind_op (receive_chunks crc ps stream None pending) (\<lambda>(current, pending).
     bind_op (lift_op (map_err SyncFailed (finish_chunks current))) (\<lambda>_.
     receive_all crc ps fetch requests pending)))"

text \<open>\<open>base\<close> is the encoded length of a request without keys, \<open>id_len\<close> the length of its session id.\<close>

definition bulk_sync ::
  "(nat \<Rightarrow> nat) \<Rightarrow> nat \<Rightarrow> nat \<Rightarrow> (bytes \<Rightarrow> u32) \<Rightarrow> 'n payload_rpc \<Rightarrow> 'n \<Rightarrow> 'ps payload_store \<Rightarrow>
   (string \<times> u64 \<times> u32) list \<Rightarrow> (unit, sync_error, 'ps) op" where
  "bulk_sync dlen id_len base crc rpc n ps manifest s =
     (case collect_pending ps s manifest [] of
        Err e \<Rightarrow> (Err e, s)
      | Ok pending \<Rightarrow>
          bind_op (lift_op (map_err SyncConnect (rpc_channel rpc))) (\<lambda>_.
          bind_op (lift_op (build_requests dlen id_len base [] base (map fst pending))) (\<lambda>requests.
          bind_op (receive_all crc ps (\<lambda>keys. rpc_stream_bulk_data rpc keys n) requests pending) (\<lambda>pending.
          if pending = [] then pure_op () else fail_op (SyncFailed ''peer omitted requested payloads'')))) s)"

definition fetch_and_store ::
  "(nat \<Rightarrow> nat) \<Rightarrow> nat \<Rightarrow> nat \<Rightarrow> (bytes \<Rightarrow> u32) \<Rightarrow> (sync_error \<Rightarrow> string) \<Rightarrow> 'n payload_rpc \<Rightarrow> 'n \<Rightarrow>
   'ps payload_store \<Rightarrow> string \<Rightarrow> (unit, payload_client_error, 'ps) op" where
  "fetch_and_store dlen id_len base crc to_string rpc n ps key =
     map_err_op (\<lambda>e. ClientPayloadError (to_string e)) (bulk_sync dlen id_len base crc rpc n ps [(key, 0, 0)])"

section \<open>Putting a payload together\<close>

lemma chunk_at_cases:
  "length data \<le> offset + CHUNK_SIZE \<Longrightarrow> chunk_at crc key data offset =
     \<lparr>chunk_key = key, chunk_data = drop offset data, chunk_offset = word_of_nat offset, is_last_chunk = True,
      total_size = word_of_nat (length data), chunk_checksum = crc data\<rparr>"
  "\<not> length data \<le> offset + CHUNK_SIZE \<Longrightarrow> chunk_at crc key data offset =
     \<lparr>chunk_key = key, chunk_data = take CHUNK_SIZE (drop offset data), chunk_offset = word_of_nat offset,
      is_last_chunk = False, total_size = 0, chunk_checksum = 0\<rparr>"
  by (simp_all add: chunk_at_def min_def Let_def)

lemma push_chunk_at:
  assumes "offset < max (length data) 1"
    and "current = Some (key, take offset data) \<or> offset = 0 \<and> current = None"
  shows "push_chunk crc (chunk_at crc key data offset) current =
    (if length data \<le> offset + CHUNK_SIZE then (Ok (Some (key, data)), None)
     else (Ok None, Some (key, take (offset + CHUNK_SIZE) data)))"
proof -
  define c where "c = chunk_at crc key data offset"
  have k: "chunk_key c = key" "chunk_offset c = word_of_nat offset"
    by (simp_all add: c_def chunk_at_def Let_def)
  have cur: "(case current of Some kd \<Rightarrow> kd | None \<Rightarrow> (chunk_key c, [])) = (key, take offset data)"
    using assms(2) k(1) by auto
  have l: "length (take offset data) = offset"
    using assms(1) by (auto simp: max_def split: if_splits)
  show ?thesis
  proof (cases "length data \<le> offset + CHUNK_SIZE")
    case True
    then have "chunk_data c = drop offset data" "is_last_chunk c" "total_size c = word_of_nat (length data)"
      "chunk_checksum c = crc data"
      by (simp_all add: c_def chunk_at_cases)
    with True l k show ?thesis
      unfolding c_def [symmetric] push_chunk_def cur by (simp add: Let_def)
  next
    case False
    then have "chunk_data c = take CHUNK_SIZE (drop offset data)" "\<not> is_last_chunk c"
      by (simp_all add: c_def chunk_at_cases)
    moreover have "take CHUNK_SIZE (drop offset data) \<noteq> []"
      using False by (auto simp: CHUNK_SIZE_def)
    ultimately show ?thesis
      using False l k unfolding c_def [symmetric] push_chunk_def cur by (simp add: Let_def take_add)
  qed
qed

text \<open>
  A receiver that does nothing but push while a payload is incomplete, and \<open>done\<close> when it is
  complete, reaches \<open>done\<close> on the chunks of a payload.
\<close>

lemma chunks_received:
  fixes f :: "(bulk_sync_chunk, status) result list \<Rightarrow> chunk_assembler \<Rightarrow> 'r"
  assumes more: "\<And>c rest a a'. chunk_key c = key \<Longrightarrow> push_chunk crc c a = (Ok None, a') \<Longrightarrow>
      f (Ok c # rest) a = f rest a'"
    and complete: "\<And>c rest a. chunk_key c = key \<Longrightarrow> push_chunk crc c a = (Ok (Some (key, data)), None) \<Longrightarrow>
      f (Ok c # rest) a = g rest"
  shows "f (map Ok (chunks crc key data) @ rest) None = g rest"
proof -
  have k: "chunk_key (chunk_at crc key data offset) = key" for offset
    by (simp add: chunk_at_def Let_def)
  have "f (map Ok (chunks_from crc key data offset) @ rest) current = g rest"
    if "offset < max (length data) 1" "current = Some (key, take offset data) \<or> offset = 0 \<and> current = None"
    for offset current
    using that
  proof (induction "length data - offset" arbitrary: offset current rule: less_induct)
    case less
    note step = chunks_from.simps [of crc key data offset] push_chunk_at [OF less.prems, of crc]
    show ?case
    proof (cases "length data \<le> offset + CHUNK_SIZE")
      case True
      then have "chunks_from crc key data (offset + CHUNK_SIZE) = []"
        by (subst chunks_from.simps) (simp add: CHUNK_SIZE_def)
      with True step less.prems(1) complete [OF k] show ?thesis by simp
    next
      case False
      have "f (map Ok (chunks_from crc key data (offset + CHUNK_SIZE)) @ rest)
          (Some (key, take (offset + CHUNK_SIZE) data)) = g rest"
        by (rule less.hyps) (use False in \<open>auto simp: CHUNK_SIZE_def\<close>)
      with False step less.prems(1) more [OF k] show ?thesis by simp
    qed
  qed
  from this [of 0 None] show ?thesis by (simp add: chunks_def)
qed

lemma upload_chunks:
  "upload_loop crc None (map Ok (chunks crc key data) @ rest) None = upload_loop crc (Some (key, data)) rest None"
  by (rule chunks_received [of key crc "upload_loop crc None"]) simp_all

text \<open>Uploading in chunks is the same as storing the payload at once.\<close>

lemma upload_is_put: "replicate_stream crc ps (map Ok (chunks crc key data)) = replicate_payload ps key data"
  using upload_chunks [of crc key data "[]"]
  by (simp add: replicate_stream_def replicate_payload_def finish_chunks_def fun_eq_iff bind_op_def lift_op_def)

section \<open>Replicating to a peer\<close>

text \<open>
  The calls answered by the service on a peer's store. A message above the size limit is refused by
  the transport.
\<close>

definition service_rpc ::
  "(replicate_request \<Rightarrow> nat) \<Rightarrow> (nat \<Rightarrow> nat) \<Rightarrow> (string list \<Rightarrow> nat) \<Rightarrow> (bytes \<Rightarrow> u32) \<Rightarrow> 'ps payload_store \<Rightarrow> 'ps payload_rpc" where
  "service_rpc elen dlen klen crc ps =
     \<lparr>rpc_channel = Ok (),
      rpc_replicate_batch = \<lambda>requests.
        if sum_list (map (encoded_size elen dlen) requests) > RPC_SIZE_LIMIT
        then fail_op (Transport ''message too large'')
        else replicate_batch ps (map (\<lambda>r. (rr_key r, rr_data r)) requests),
      rpc_replicate_stream = \<lambda>cs. replicate_stream crc ps (map Ok cs),
      rpc_stream_bulk_data = \<lambda>keys s.
        if klen keys > RPC_SIZE_LIMIT then Err (Transport ''message too large'')
        else Ok (stream_bulk_data crc ps keys s)\<rparr>"

text \<open>A store none of whose calls fail.\<close>

definition reliable :: "'ps payload_store \<Rightarrow> bool" where
  "reliable ps \<longleftrightarrow>
     (\<forall>k d s. fst (ps_put ps k d s) = Ok ()) \<and> (\<forall>es s. fst (ps_put_batch ps es s) = Ok ()) \<and>
     (\<forall>k s e. ps_get ps k s \<noteq> Err e) \<and> (\<forall>k s e. ps_contains ps k s \<noteq> Err e)"

lemma reliableD:
  assumes "reliable ps"
  obtains s' where "ps_put ps k d s = (Ok (), s')"
    and "\<And>es. \<exists>s'. ps_put_batch ps es s = (Ok (), s')"
    and "\<exists>d. ps_get ps k s = Ok d" and "\<exists>b. ps_contains ps k s = Ok b"
proof (rule that)
  show "ps_put ps k d s = (Ok (), snd (ps_put ps k d s))"
    using assms unfolding reliable_def by (metis prod.collapse)
  show "\<exists>s'. ps_put_batch ps es s = (Ok (), s')" for es
    using assms unfolding reliable_def by (metis prod.collapse)
  show "\<exists>d. ps_get ps k s = Ok d"
    using assms unfolding reliable_def by (cases "ps_get ps k s") auto
  show "\<exists>b. ps_contains ps k s = Ok b"
    using assms unfolding reliable_def by (cases "ps_contains ps k s") auto
qed

lemma send_batch_service:
  assumes "payload_laws ps view" and "reliable ps" and "sum_list (map (encoded_size elen dlen) batch) \<le> RPC_SIZE_LIMIT"
  shows "\<exists>s'. send_batch (service_rpc elen dlen klen crc ps) batch s = (Ok (), s') \<and>
    view s' = view s ++ map_of (rev (map (\<lambda>r. (rr_key r, rr_data r)) batch))"
proof -
  let ?es = "map (\<lambda>r. (rr_key r, rr_data r)) batch"
  obtain s' where p: "ps_put_batch ps ?es s = (Ok (), s')"
    using assms(2) unfolding reliable_def by (metis prod.collapse)
  with assms(3) have "send_batch (service_rpc elen dlen klen crc ps) batch s = (Ok (), s')"
    by (simp add: send_batch_def service_rpc_def replicate_batch_def bind_op_def map_err_op_def pure_op_def)
  with payload_lawsD(7) [OF assms(1) p] show ?thesis by simp
qed

lemma send_stream_service:
  assumes "payload_laws ps view" and "reliable ps"
  shows "\<exists>s'. send_stream crc (service_rpc elen dlen klen crc ps) r s = (Ok (), s') \<and>
    view s' = (view s)(rr_key r \<mapsto> rr_data r)"
proof -
  obtain s' where p: "ps_put ps (rr_key r) (rr_data r) s = (Ok (), s')"
    using assms(2) unfolding reliable_def by (metis prod.collapse)
  then have "send_stream crc (service_rpc elen dlen klen crc ps) r s = (Ok (), s')"
    by (simp add: send_stream_def service_rpc_def upload_is_put replicate_payload_def bind_op_def
        map_err_op_def pure_op_def)
  with payload_lawsD(1) [OF assms(1) p] show ?thesis by simp
qed

lemma replicate_loop_service:
  assumes "payload_laws ps view" and "reliable ps"
  shows "batch_size = sum_list (map (encoded_size elen dlen) batch) \<Longrightarrow> batch_size \<le> RPC_SIZE_LIMIT \<Longrightarrow>
    \<exists>s'. replicate_loop elen dlen crc (service_rpc elen dlen klen crc ps) batch batch_size entries s = (Ok (), s') \<and>
      view s' = view s ++ map_of (rev (map (\<lambda>r. (rr_key r, rr_data r)) (batch @ entries)))"
proof (induction entries arbitrary: batch batch_size s)
  case Nil
  then show ?case
    using send_batch_service [OF assms, of elen dlen batch klen crc s] by (auto simp: pure_op_def)
next
  case (Cons entry entries)
  let ?kd = "\<lambda>r. (rr_key r, rr_data r)" and ?rpc = "service_rpc elen dlen klen crc ps"
  let ?n = "encoded_size elen dlen entry"
  define flush where "flush \<longleftrightarrow> RPC_SIZE_LIMIT < batch_size + ?n \<and> batch \<noteq> []"
  define batch1 where "batch1 = (if flush then [] else batch)"
  define size1 where "size1 = (if flush then 0 else batch_size)"
  obtain s1 where s1: "(if flush then bind_op (send_batch ?rpc batch) (\<lambda>_. pure_op ([], 0))
        else pure_op (batch, batch_size)) s = (Ok (batch1, size1), s1)"
      "view s1 ++ map_of (rev (map ?kd batch1)) = view s ++ map_of (rev (map ?kd batch))"
  proof (cases flush)
    case True
    with send_batch_service [OF assms, of elen dlen batch klen crc s] Cons.prems that show ?thesis
      by (auto simp: batch1_def size1_def bind_op_def pure_op_def)
  next
    case False
    with that show ?thesis by (auto simp: batch1_def size1_def pure_op_def)
  qed
  have size1: "size1 = sum_list (map (encoded_size elen dlen) batch1)" "size1 \<le> RPC_SIZE_LIMIT"
    using Cons.prems by (auto simp: size1_def batch1_def)
  have e: "replicate_loop elen dlen crc ?rpc batch batch_size (entry # entries) s =
      (if RPC_SIZE_LIMIT < ?n
       then bind_op (send_stream crc ?rpc entry) (\<lambda>_. replicate_loop elen dlen crc ?rpc batch1 size1 entries) s1
       else replicate_loop elen dlen crc ?rpc (batch1 @ [entry]) (size1 + ?n) entries s1)"
    using s1(1) by (simp add: Let_def flush_def bind_op_def)
  show ?case
  proof (cases "RPC_SIZE_LIMIT < ?n")
    case True
    then have b: "batch1 = []"
      by (cases "batch = []") (simp_all add: batch1_def flush_def)
    obtain s2 where s2: "send_stream crc ?rpc entry s1 = (Ok (), s2)" "view s2 = (view s1)(rr_key entry \<mapsto> rr_data entry)"
      using send_stream_service [OF assms] by blast
    obtain s' where s': "replicate_loop elen dlen crc ?rpc batch1 size1 entries s2 = (Ok (), s')"
      "view s' = view s2 ++ map_of (rev (map ?kd (batch1 @ entries)))"
      using Cons.IH [OF size1, of s2] by blast
    have v: "view s1 = view s ++ map_of (rev (map ?kd batch))"
      using s1(2) b by simp
    have "view s' = view s ++ map_of (rev (map ?kd (batch @ entry # entries)))"
      unfolding s'(2) s2(2) v b by simp
    moreover have "replicate_loop elen dlen crc ?rpc batch batch_size (entry # entries) s = (Ok (), s')"
      unfolding e using True s2(1) s'(1) by (simp add: bind_op_def)
    ultimately show ?thesis by blast
  next
    case False
    have "size1 + ?n \<le> RPC_SIZE_LIMIT"
      using False by (cases flush) (auto simp: size1_def flush_def Cons.prems)
    with Cons.IH [of "size1 + ?n" "batch1 @ [entry]" s1] size1(1) s1(2) e False show ?thesis
      by auto
  qed
qed

section \<open>Fetching from a peer\<close>

lemma push_chunk_key:
  assumes "push_chunk crc c a = (Ok (Some (key, data)), a')"
  shows "key = chunk_key c"
  using assms by (auto simp: push_chunk_def Let_def split: option.splits prod.splits if_splits)

text \<open>
  Whatever a peer streams, only payloads still asked for are written, and a key is taken off the
  list only when its payload is stored.
\<close>

definition sync_step ::
  "('ps \<Rightarrow> string \<Rightarrow> bytes option) \<Rightarrow> 'ps \<Rightarrow> (string, 'x) hash_map \<Rightarrow> 'ps \<Rightarrow> (string, 'x) hash_map \<Rightarrow> bool" where
  "sync_step view s pending s' pending' \<longleftrightarrow>
     dom (hm_get pending') \<subseteq> dom (hm_get pending) \<and>
     (\<forall>k. k \<notin> dom (hm_get pending) \<longrightarrow> view s' k = view s k) \<and>
     (\<forall>k \<in> dom (hm_get pending) - dom (hm_get pending'). view s' k \<noteq> None)"

lemma sync_step_refl: "sync_step view s pending s pending"
  by (simp add: sync_step_def)

lemma sync_step_trans:
  "sync_step view s p s1 p1 \<Longrightarrow> sync_step view s1 p1 s2 p2 \<Longrightarrow> sync_step view s p s2 p2"
  unfolding sync_step_def by (metis Diff_iff subset_iff)

lemma sync_step_put:
  assumes "payload_laws ps view" and "ps_put ps key data s = (Ok u, s')" and "hm_get pending key = Some x"
  shows "sync_step view s pending s' (hm_remove key pending)"
  using payload_lawsD(1) [OF assms(1,2)] assms(3) by (auto simp: sync_step_def split: if_splits)

text \<open>One chunk: what is done with it when its key is still pending.\<close>

lemma receive_chunk:
  assumes "hm_get pending (chunk_key c) = Some (sz, checksum)"
  shows "receive_chunks crc ps (Ok c # stream) current pending s =
    (case push_chunk crc c current of
       (Err e, _) \<Rightarrow> (Err (SyncFailed e), s)
     | (Ok None, a) \<Rightarrow> receive_chunks crc ps stream a pending s
     | (Ok (Some (key, data)), a) \<Rightarrow>
         if sz \<noteq> 0 \<and> sz \<noteq> word_of_nat (length data) then (Err (SyncFailed ''manifest size mismatch''), s)
         else if checksum \<noteq> 0 \<and> checksum \<noteq> crc data then (Err (SyncFailed ''manifest checksum mismatch''), s)
         else (case ps_put ps key data s of
             (Ok _, s1) \<Rightarrow> receive_chunks crc ps stream a (hm_remove key pending) s1
           | (Err e, s1) \<Rightarrow> (Err (SyncStore e), s1)))"
  using assms push_chunk_key [of crc c current]
  by (auto simp: fail_op_def bind_op_def map_err_op_def split: prod.splits result.splits option.splits)

lemma receive_chunks_safe:
  assumes "payload_laws ps view"
  shows "receive_chunks crc ps stream current pending s = (r, s') \<Longrightarrow>
    \<exists>pending'. sync_step view s pending s' pending' \<and> (\<forall>a p. r = Ok (a, p) \<longrightarrow> pending' = p)"
proof (induction stream arbitrary: current pending s)
  case Nil
  then show ?case using sync_step_refl [of view s pending] by (auto simp: pure_op_def)
next
  case (Cons m stream)
  have fail: ?case if "s' = s" "r = Err e" for e
    using that sync_step_refl [of view s pending] by auto
  show ?case
  proof (cases m)
    case (Err e)
    with Cons.prems show ?thesis by (intro fail) (auto simp: fail_op_def)
  next
    case (Ok c)
    show ?thesis
    proof (cases "hm_get pending (chunk_key c)")
      case None
      with Cons.prems Ok show ?thesis by (intro fail) (auto simp: fail_op_def)
    next
      case (Some x)
      obtain sz checksum where x: "x = (sz, checksum)" by (cases x)
      note step = receive_chunk [OF Some [unfolded x], of crc ps stream current s]
      obtain r0 a where p: "push_chunk crc c current = (r0, a)" by fastforce
      show ?thesis
      proof (cases r0)
        case (Err e)
        with Cons.prems Ok step p show ?thesis by (intro fail) simp_all
      next
        case o: (Ok out)
        show ?thesis
        proof (cases out)
          case None
          with Cons.prems Ok step p o have "receive_chunks crc ps stream a pending s = (r, s')" by simp
          then show ?thesis by (rule Cons.IH)
        next
          case out: (Some kd)
          obtain key data where kd: "kd = (key, data)" by (cases kd)
          obtain r1 s1 where put: "ps_put ps key data s = (r1, s1)" by fastforce
          have key: "hm_get pending key = Some x"
            using push_chunk_key p o out kd Some by metis
          consider "s' = s" "\<exists>e. r = Err e"
            | "receive_chunks crc ps stream a (hm_remove key pending) s1 = (r, s')" "r1 = Ok ()"
            | e where "r1 = Err e" "r = Err (SyncStore e)" "s' = s1"
            using Cons.prems Ok step p o out kd put by (cases r1) (auto split: if_splits)
          then show ?thesis
          proof cases
            case 1
            with fail show ?thesis by blast
          next
            case 2
            with Cons.IH [OF 2(1)] sync_step_put [OF assms, of key data s "()" s1 pending x] put key
            show ?thesis by (metis sync_step_trans)
          next
            case 3
            with payload_lawsD(2) [OF assms, of key data s e s1] put sync_step_refl [of view s pending]
            show ?thesis by (auto simp: sync_step_def)
          qed
        qed
      qed
    qed
  qed
qed

lemma receive_all_safe:
  assumes "payload_laws ps view"
  shows "receive_all crc ps fetch requests pending s = (r, s') \<Longrightarrow>
    \<exists>pending'. sync_step view s pending s' pending' \<and> (\<forall>p. r = Ok p \<longrightarrow> pending' = p)"
proof (induction requests arbitrary: pending s)
  case Nil
  then show ?case using sync_step_refl [of view s pending] by (auto simp: pure_op_def)
next
  case (Cons request requests)
  show ?case
  proof (cases "fetch request")
    case (Err e)
    with Cons.prems sync_step_refl [of view s pending] show ?thesis
      by (auto simp: bind_op_def lift_op_def)
  next
    case (Ok stream)
    obtain r1 s1 where c: "receive_chunks crc ps stream None pending s = (r1, s1)" by fastforce
    from receive_chunks_safe [OF assms c] obtain p1 where
      p1: "sync_step view s pending s1 p1" "\<forall>a p. r1 = Ok (a, p) \<longrightarrow> p1 = p" by blast
    show ?thesis
    proof (cases "\<exists>p. r1 = Ok (None, p)")
      case True
      with Cons.prems Ok c p1(2) have "receive_all crc ps fetch requests p1 s1 = (r, s')"
        by (auto simp: bind_op_def lift_op_def finish_chunks_def)
      from Cons.IH [OF this] p1(1) show ?thesis by (metis sync_step_trans)
    next
      case False
      with Cons.prems Ok c have "s' = s1" "\<exists>e. r = Err e"
        by (cases r1; auto simp: bind_op_def lift_op_def finish_chunks_def split: prod.splits if_splits)+
      with p1(1) show ?thesis by auto
    qed
  qed
qed

lemma collect_pending_spec:
  assumes "payload_laws ps view"
  shows "collect_pending ps s manifest pending = Ok pending' \<Longrightarrow>
    dom (hm_get pending') = dom (hm_get pending) \<union> {k \<in> fst ` set manifest. view s k = None}"
proof (induction manifest arbitrary: pending)
  case (Cons m manifest)
  obtain key sz ck where m: "m = (key, sz, ck)" by (cases m)
  from Cons.prems obtain b where b: "ps_contains ps key s = Ok b"
    by (cases "ps_contains ps key s") (auto simp: m)
  with payload_lawsD(6) [OF assms b] Cons show ?case
    by (cases b) (auto simp: m split: if_splits)
qed simp

definition delivers ::
  "(bytes \<Rightarrow> u32) \<Rightarrow> (string \<Rightarrow> bytes option) \<Rightarrow> (string \<times> u64 \<times> u32) \<Rightarrow> bool" where
  "delivers crc held m = (case m of (key, sz, checksum) \<Rightarrow>
     (case held key of None \<Rightarrow> False
      | Some data \<Rightarrow> (sz = 0 \<or> sz = word_of_nat (length data)) \<and> (checksum = 0 \<or> checksum = crc data)))"

lemma receive_payload:
  assumes "payload_laws ps view" and "reliable ps"
    and "hm_get pending key = Some v" and "delivers crc held (key, v)" and "held key = Some data"
  shows "\<exists>s1. view s1 = (view s)(key \<mapsto> data) \<and>
    receive_chunks crc ps (map Ok (chunks crc key data) @ rest) None pending s =
    receive_chunks crc ps rest None (hm_remove key pending) s1"
proof -
  obtain sz checksum where v: "v = (sz, checksum)" by (cases v)
  from assms(4,5) v have ok: "sz = 0 \<or> sz = word_of_nat (length data)" "checksum = 0 \<or> checksum = crc data"
    by (simp_all add: delivers_def)
  obtain s1 where p: "ps_put ps key data s = (Ok (), s1)"
    using assms(2) unfolding reliable_def by (metis prod.collapse)
  have "receive_chunks crc ps (map Ok (chunks crc key data) @ rest) None pending s =
      receive_chunks crc ps rest None (hm_remove key pending) s1"
  proof (rule chunks_received [where f = "\<lambda>cs a. receive_chunks crc ps cs a pending s"
        and g = "\<lambda>rest. receive_chunks crc ps rest None (hm_remove key pending) s1"])
    fix c rest a a'
    assume "chunk_key c = key" "push_chunk crc c a = (Ok None, a')"
    with assms(3) v show "receive_chunks crc ps (Ok c # rest) a pending s = receive_chunks crc ps rest a' pending s"
      by (subst receive_chunk) auto
  next
    fix c rest a
    assume "chunk_key c = key" "push_chunk crc c a = (Ok (Some (key, data)), None)"
    with assms(3) v ok p show "receive_chunks crc ps (Ok c # rest) a pending s =
        receive_chunks crc ps rest None (hm_remove key pending) s1"
      by (subst receive_chunk) auto
  qed
  with payload_lawsD(1) [OF assms(1) p] show ?thesis by blast
qed

lemma receive_keys:
  assumes laws: "payload_laws ps view" "reliable ps" "payload_laws peer held" "reliable peer"
  shows "distinct keys \<Longrightarrow> \<forall>k \<in> set keys. \<exists>v. hm_get pending k = Some v \<and> delivers crc (held n) (k, v) \<Longrightarrow>
    \<exists>s'. receive_chunks crc ps (stream_bulk_data crc peer keys n) None pending s =
           (Ok (None, fold hm_remove keys pending), s') \<and>
         view s' = view s ++ (held n |` set keys)"
proof (induction keys arbitrary: pending s)
  case Nil
  then show ?case by (simp add: pure_op_def)
next
  case (Cons key keys)
  from Cons.prems(2) obtain v where v: "hm_get pending key = Some v" "delivers crc (held n) (key, v)" by auto
  then obtain data where d: "held n key = Some data"
    by (auto simp: delivers_def split: option.splits)
  then have get: "ps_get peer key n = Ok (Some data)"
    using reliableD [OF laws(4), of key "[]" n] payload_lawsD(3) [OF laws(3), of key n] by (metis (full_types))
  obtain s1 where s1: "view s1 = (view s)(key \<mapsto> data)"
    "receive_chunks crc ps (stream_bulk_data crc peer (key # keys) n) None pending s =
     receive_chunks crc ps (stream_bulk_data crc peer keys n) None (hm_remove key pending) s1"
    using receive_payload [OF laws(1,2) v d] get by auto
  have "\<forall>k \<in> set keys. \<exists>v. hm_get (hm_remove key pending) k = Some v \<and> delivers crc (held n) (k, v)"
    using Cons.prems by auto
  from Cons.IH [OF _ this, of s1] Cons.prems(1) obtain s' where
    "receive_chunks crc ps (stream_bulk_data crc peer keys n) None (hm_remove key pending) s1 =
       (Ok (None, fold hm_remove keys (hm_remove key pending)), s')"
    "view s' = view s1 ++ (held n |` set keys)" by auto
  moreover have "(view s)(key \<mapsto> data) ++ (held n |` set keys) = view s ++ (held n |` set (key # keys))"
    using d by (auto simp: fun_eq_iff map_add_def restrict_map_def split: option.splits)
  ultimately show ?case using s1 by auto
qed

lemma hm_get_fold_remove:
  "hm_get (fold hm_remove ks m) k = (if k \<in> set ks then None else hm_get m k)"
  by (induction ks arbitrary: m) auto

lemma receive_all_keys:
  assumes laws: "payload_laws ps view" "reliable ps" "payload_laws peer held" "reliable peer"
  shows "distinct (concat requests) \<Longrightarrow> \<forall>r \<in> set requests. fetch r = Ok (stream_bulk_data crc peer r n) \<Longrightarrow>
    \<forall>k \<in> set (concat requests). \<exists>v. hm_get pending k = Some v \<and> delivers crc (held n) (k, v) \<Longrightarrow>
    \<exists>s'. receive_all crc ps fetch requests pending s =
           (Ok (fold hm_remove (concat requests) pending), s') \<and>
         view s' = view s ++ (held n |` set (concat requests))"
proof (induction requests arbitrary: pending s)
  case Nil
  then show ?case by (simp add: pure_op_def)
next
  case (Cons r requests)
  let ?p = "fold hm_remove r pending"
  obtain s1 where s1: "receive_chunks crc ps (stream_bulk_data crc peer r n) None pending s = (Ok (None, ?p), s1)"
    "view s1 = view s ++ (held n |` set r)"
    using receive_keys [OF laws, of r pending crc n s] Cons.prems by auto
  have "\<forall>k \<in> set (concat requests). \<exists>v. hm_get ?p k = Some v \<and> delivers crc (held n) (k, v)"
    using Cons.prems(1,3) by (auto simp: hm_get_fold_remove)
  from Cons.IH [OF _ _ this, of s1] Cons.prems(1,2) obtain s' where s':
    "receive_all crc ps fetch requests ?p s1 = (Ok (fold hm_remove (concat requests) ?p), s')"
    "view s' = view s1 ++ (held n |` set (concat requests))" by auto
  have "view s' = view s ++ (held n |` set (concat (r # requests)))"
    unfolding s' s1(2) by (auto simp: fun_eq_iff map_add_def restrict_map_def split: option.splits)
  with s1(1) s'(1) Cons.prems(2) show ?case
    by (auto simp: bind_op_def lift_op_def finish_chunks_def)
qed

lemma build_requests_ok:
  fixes dlen :: "nat \<Rightarrow> nat"
  defines "sz \<equiv> \<lambda>key. 1 + dlen (length key) + length key"
  assumes "base \<le> id_len + 2"
  shows "request_size = base + sum_list (map sz keys_to_fetch) \<Longrightarrow> request_size \<le> RPC_SIZE_LIMIT \<Longrightarrow>
    \<forall>k \<in> set keys. sz k + id_len + 2 \<le> RPC_SIZE_LIMIT \<Longrightarrow>
    \<exists>rs. build_requests dlen id_len base keys_to_fetch request_size keys = Ok rs \<and>
      concat rs = keys_to_fetch @ keys \<and> (\<forall>r \<in> set rs. base + sum_list (map sz r) \<le> RPC_SIZE_LIMIT)"
proof (induction keys arbitrary: keys_to_fetch request_size)
  case Nil
  then show ?case by simp
next
  case (Cons key keys)
  have k: "\<not> sz key + id_len + 2 > RPC_SIZE_LIMIT" and ks: "\<forall>k \<in> set keys. sz k + id_len + 2 \<le> RPC_SIZE_LIMIT"
    using Cons.prems(3) by auto
  show ?case
  proof (cases "request_size + sz key > RPC_SIZE_LIMIT")
    case True
    obtain rs where "build_requests dlen id_len base [key] (base + sz key) keys = Ok rs"
      "concat rs = key # keys" "\<forall>r \<in> set rs. base + sum_list (map sz r) \<le> RPC_SIZE_LIMIT"
      using Cons.IH [of "base + sz key" "[key]"] k ks assms(2) by auto
    with True k Cons.prems(1,2) show ?thesis by (simp add: sz_def Let_def)
  next
    case False
    obtain rs where "build_requests dlen id_len base (keys_to_fetch @ [key]) (request_size + sz key) keys = Ok rs"
      "concat rs = keys_to_fetch @ key # keys" "\<forall>r \<in> set rs. base + sum_list (map sz r) \<le> RPC_SIZE_LIMIT"
      using Cons.IH [of "request_size + sz key" "keys_to_fetch @ [key]"] False ks Cons.prems(1) by auto
    with False k show ?thesis by (simp add: sz_def Let_def)
  qed
qed

lemma collect_pending_ok:
  assumes "payload_laws ps view" and "reliable ps"
  shows "hm_ok pending \<Longrightarrow> \<exists>p. collect_pending ps s manifest pending = Ok p \<and> hm_ok p \<and>
    (\<forall>k v. hm_get p k = Some v \<longrightarrow> hm_get pending k = Some v \<or> (k, v) \<in> set manifest)"
proof (induction manifest arbitrary: pending)
  case (Cons m manifest)
  obtain key sz ck where m: "m = (key, sz, ck)" by (cases m)
  obtain b where b: "ps_contains ps key s = Ok b"
    by (rule reliableD [OF assms(2), of key "[]" s]) auto
  let ?p = "if b then pending else hm_insert key (sz, ck) pending"
  have "hm_ok ?p" using Cons.prems by simp
  from Cons.IH [OF this] obtain p where p: "collect_pending ps s manifest ?p = Ok p" "hm_ok p"
    "\<forall>k v. hm_get p k = Some v \<longrightarrow> hm_get ?p k = Some v \<or> (k, v) \<in> set manifest" by blast
  have "collect_pending ps s (m # manifest) pending = Ok p"
    using b p(1) by (simp add: m)
  moreover have "hm_get pending k = Some v \<or> (k, v) \<in> set (m # manifest)" if "hm_get p k = Some v" for k v
    using p(3) [rule_format, OF that] by (auto simp: m split: if_splits)
  ultimately show ?case using p(2) by blast
qed simp

lemma fold_remove_keys:
  assumes "set (map fst m) \<subseteq> set ks"
  shows "fold hm_remove ks m = []"
proof -
  have "fold hm_remove ks m = filter (\<lambda>e. fst e \<notin> set ks) m"
    by (induction ks arbitrary: m) (auto simp: hm_remove_def AList.delete_eq case_prod_unfold conj_commute eq_commute intro: filter_cong)
  with assms show ?thesis by (auto simp: filter_empty_conv)
qed

section \<open>Fetching from any peer\<close>

lemma bulk_sync_effect:
  assumes "payload_laws ps view" and "bulk_sync dlen id_len base crc rpc n ps manifest s = (r, s')"
  shows "(\<forall>k. k \<notin> fst ` set manifest \<or> view s k \<noteq> None \<longrightarrow> view s' k = view s k) \<and>
    (r = Ok () \<longrightarrow> (\<forall>k \<in> fst ` set manifest. view s' k \<noteq> None))"
proof (cases "collect_pending ps s manifest []")
  case (Err e)
  with assms(2) show ?thesis by (auto simp: bulk_sync_def)
next
  case (Ok pending)
  have dom: "dom (hm_get pending) = {k \<in> fst ` set manifest. view s k = None}"
    using collect_pending_spec [OF assms(1) Ok] by simp
  have "\<exists>p. sync_step view s pending s' p \<and> (r = Ok () \<longrightarrow> p = [])"
  proof (cases "map_err SyncConnect (rpc_channel rpc)")
    case (Err e)
    with assms(2) Ok sync_step_refl [of view s pending] show ?thesis
      by (auto simp: bulk_sync_def bind_op_def lift_op_def)
  next
    case ch: (Ok u)
    show ?thesis
    proof (cases "build_requests dlen id_len base [] base (map fst pending)")
      case (Err e)
      with assms(2) Ok ch sync_step_refl [of view s pending] show ?thesis
        by (auto simp: bulk_sync_def bind_op_def lift_op_def)
    next
      case br: (Ok rs)
      obtain r1 s1 where ra: "receive_all crc ps (\<lambda>keys. rpc_stream_bulk_data rpc keys n) rs pending s = (r1, s1)"
        by fastforce
      with assms(2) Ok ch br have "s' = s1" "r = Ok () \<Longrightarrow> r1 = Ok []"
        by (auto simp: bulk_sync_def bind_op_def lift_op_def pure_op_def fail_op_def split: result.splits if_splits)
      with receive_all_safe [OF assms(1) ra] show ?thesis by auto
    qed
  qed
  then obtain p where p: "sync_step view s pending s' p" "r = Ok () \<longrightarrow> p = []" by blast
  have same: "view s' k = view s k" if "k \<notin> dom (hm_get pending)" for k
    using p(1) that by (simp add: sync_step_def)
  have new: "view s' k \<noteq> None" if "r = Ok ()" "k \<in> dom (hm_get pending)" for k
    using p that by (simp add: sync_step_def)
  show ?thesis
    using same new unfolding dom by fastforce
qed

section \<open>Properties\<close>

text \<open>
  Uploading a payload in chunks has the effect, and the answer, of sending it in one request: the
  service reassembles exactly the bytes sent, whatever their number, and stores them under the key.
\<close>

theorem chunked_upload_is_put:
  "replicate_stream crc ps (map Ok (chunks crc key data)) = replicate_payload ps key data"
  by (rule upload_is_put)

text \<open>
  Replicating payloads to a peer whose store accepts them succeeds, however large they are and
  although the peer refuses every message above the size limit: batches never exceed the limit, an
  entry that does is sent in chunks, and afterwards the peer's store is as if the entries had been
  put one after the other.
\<close>

theorem replicate_entries_reaches_peer:
  assumes "payload_laws ps view" and "reliable ps"
  shows "\<exists>s'. replicate_entries elen dlen crc (service_rpc elen dlen klen crc ps) entries s = (Ok (), s') \<and>
    view s' = view s ++ map_of (rev (map (\<lambda>r. (rr_key r, rr_data r)) entries))"
  using replicate_loop_service [OF assms, where elen = elen and dlen = dlen and batch = "[]" and batch_size = 0 and
      klen = klen and crc = crc and entries = entries and s = s]
  by (simp add: replicate_entries_def service_rpc_def bind_op_def lift_op_def)

text \<open>
  Whatever a peer sends, a bulk fetch writes only payloads of the manifest that were missing, and
  when it reports success every key of the manifest is in the store.
\<close>

theorem bulk_sync_safe:
  assumes "payload_laws ps view" and "bulk_sync dlen id_len base crc rpc n ps manifest s = (r, s')"
  shows "(\<forall>k. k \<notin> fst ` set manifest \<or> view s k \<noteq> None \<longrightarrow> view s' k = view s k) \<and>
    (r = Ok () \<longrightarrow> (\<forall>k \<in> fst ` set manifest. view s' k \<noteq> None))"
  by (rule bulk_sync_effect [OF assms])

text \<open>
  C16: A bulk fetch from a peer that holds the missing payloads succeeds and copies exactly them: if
  sizes and checksums of the manifest are those of the peer's payloads or zero, and every key fits in
  a request, then no request exceeds the size limit, the fetch returns \<open>Ok\<close>, and the local store is
  as before with the peer's payloads under the keys that were missing.
\<close>

theorem bulk_sync_copies:
  assumes "payload_laws ps view" "reliable ps" "payload_laws peer held" "reliable peer"
    and "\<forall>m \<in> set manifest. delivers crc (held n) m"
    and "\<forall>m \<in> set manifest. 1 + dlen (length (fst m)) + length (fst m) + id_len + 2 \<le> RPC_SIZE_LIMIT"
    and "base \<le> id_len + 2" and "base \<le> RPC_SIZE_LIMIT"
    and "\<And>keys. klen keys = base + sum_list (map (\<lambda>k. 1 + dlen (length k) + length k) keys)"
  shows "\<exists>s'. bulk_sync dlen id_len base crc (service_rpc elen dlen klen crc peer) n ps manifest s = (Ok (), s') \<and>
    view s' = view s ++ (held n |` {k \<in> fst ` set manifest. view s k = None})"
proof -
  obtain p where p: "collect_pending ps s manifest [] = Ok p" "hm_ok p"
    "\<And>k v. hm_get p k = Some v \<Longrightarrow> (k, v) \<in> set manifest"
    using collect_pending_ok [OF assms(1,2), of "[]" s manifest] by auto
  have keys: "set (map fst p) = {k \<in> fst ` set manifest. view s k = None}"
    using collect_pending_spec [OF assms(1) p(1)] by (simp add: dom_map_of_conv_image_fst)
  have small: "\<forall>k \<in> set (map fst p). 1 + dlen (length k) + length k + id_len + 2 \<le> RPC_SIZE_LIMIT"
    unfolding keys using assms(6) by auto
  obtain rs where rs: "build_requests dlen id_len base [] base (map fst p) = Ok rs" "concat rs = map fst p"
    "\<forall>r \<in> set rs. base + sum_list (map (\<lambda>k. 1 + dlen (length k) + length k) r) \<le> RPC_SIZE_LIMIT"
    using build_requests_ok [OF assms(7), where dlen = dlen and request_size = base and keys_to_fetch = "[]" and
        keys = "map fst p"] assms(8) small by auto
  let ?rpc = "service_rpc elen dlen klen crc peer"
  have fetch: "rpc_stream_bulk_data ?rpc r n = Ok (stream_bulk_data crc peer r n)" if "r \<in> set rs" for r
    using rs(3) that assms(9) [of r] by (auto simp: service_rpc_def)
  have "\<exists>v. hm_get p k = Some v \<and> delivers crc (held n) (k, v)" if k: "k \<in> set (concat rs)" for k
  proof -
    obtain v where "(k, v) \<in> set p" using k rs(2) by auto
    with p(2) have "hm_get p k = Some v" by (simp add: hm_mem_get)
    with p(3) assms(5) show ?thesis by blast
  qed
  then obtain s' where s': "receive_all crc ps (\<lambda>keys. rpc_stream_bulk_data ?rpc keys n) rs p s =
      (Ok (fold hm_remove (concat rs) p), s')" "view s' = view s ++ (held n |` set (concat rs))"
    using receive_all_keys [OF assms(1-4), of rs "\<lambda>keys. rpc_stream_bulk_data ?rpc keys n" crc n p s] fetch
      p(2) rs(2) by (auto simp: hm_ok_def)
  have "fold hm_remove (concat rs) p = []"
    by (rule fold_remove_keys) (simp add: rs(2))
  with s' p(1) rs(1,2) keys show ?thesis
    by (simp add: bulk_sync_def service_rpc_def bind_op_def lift_op_def pure_op_def)
qed

section \<open>Witnesses\<close>

text \<open>The store on the in-memory database, a toy checksum and a message encoding of constant overhead.\<close>

abbreviation mem_store :: "(string \<Rightarrow> (bytes, bytes) rbt) payload_store" where
  "mem_store \<equiv> rocks_store mem_kv"

abbreviation mem_held :: "(string \<Rightarrow> (bytes, bytes) rbt) \<Rightarrow> string \<Rightarrow> bytes option" where
  "mem_held \<equiv> rocks_view mem_view"

definition sum_crc :: "bytes \<Rightarrow> u32" where "sum_crc data = ucast (sum_list data)"

definition peer_db :: "string \<Rightarrow> (bytes, bytes) rbt" where
  "peer_db = (\<lambda>_. RBT.insert (as_bytes ''k'') [7, 8] RBT.empty)"

lemma mem_store_laws: "payload_laws mem_store mem_held"
  by (rule rocks_payload_laws [OF mem_kv_laws])

lemma mem_store_reliable: "reliable mem_store"
  by (auto simp: reliable_def rocks_store_def rocks_put_def rocks_get_def rocks_contains_def
      rocks_put_batch_def mem_kv_def map_err_op_def op_defs)

lemma peer_db_held: "mem_held peer_db = [''k'' \<mapsto> [7, 8]]"
  by (auto simp: rocks_view_def mem_view_def peer_db_def fun_eq_iff)

lemma empty_db_held: "mem_held (\<lambda>_. RBT.empty) = Map.empty"
  by (simp add: rocks_view_def mem_view_def fun_eq_iff)

theorem replicate_entries_reaches_peer_witness:
  "\<exists>s'. replicate_entries (\<lambda>r. length (rr_data r)) (\<lambda>_. 1) sum_crc
       (service_rpc (\<lambda>r. length (rr_data r)) (\<lambda>_. 1) (\<lambda>_. 0) sum_crc mem_store)
       [\<lparr>rr_key = ''k'', rr_data = [1], rr_term = 1\<rparr>, \<lparr>rr_key = ''j'', rr_data = [2], rr_term = 1\<rparr>,
        \<lparr>rr_key = ''k'', rr_data = [3], rr_term = 1\<rparr>] peer_db = (Ok (), s') \<and>
     mem_held s' ''k'' = Some [3] \<and> mem_held s' ''j'' = Some [2]"
proof -
  obtain s' where "replicate_entries (\<lambda>r. length (rr_data r)) (\<lambda>_. 1) sum_crc
       (service_rpc (\<lambda>r. length (rr_data r)) (\<lambda>_. 1) (\<lambda>_. 0) sum_crc mem_store)
       [\<lparr>rr_key = ''k'', rr_data = [1], rr_term = 1\<rparr>, \<lparr>rr_key = ''j'', rr_data = [2], rr_term = 1\<rparr>,
        \<lparr>rr_key = ''k'', rr_data = [3], rr_term = 1\<rparr>] peer_db = (Ok (), s')"
    "mem_held s' = mem_held peer_db ++ map_of (rev [(''k'', [1]), (''j'', [2]), (''k'', [3])])"
    using replicate_entries_reaches_peer [OF mem_store_laws mem_store_reliable, of _ _ sum_crc _
      "[\<lparr>rr_key = ''k'', rr_data = [1], rr_term = 1\<rparr>, \<lparr>rr_key = ''j'', rr_data = [2], rr_term = 1\<rparr>,
        \<lparr>rr_key = ''k'', rr_data = [3], rr_term = 1\<rparr>]" peer_db] by fastforce
  then show ?thesis by auto
qed

text \<open>A peer that streams a payload nobody asked for.\<close>

definition intruder_rpc :: "unit payload_rpc" where
  "intruder_rpc =
     \<lparr>rpc_channel = Ok (), rpc_replicate_batch = \<lambda>_. pure_op True, rpc_replicate_stream = \<lambda>_. pure_op True,
      rpc_stream_bulk_data = \<lambda>keys n.
        Ok [Ok \<lparr>chunk_key = ''x'', chunk_data = [9], chunk_offset = 0, is_last_chunk = True,
                total_size = 1, chunk_checksum = sum_crc [9]\<rparr>]\<rparr>"

lemma intruder_refused:
  "bulk_sync (\<lambda>_. 1) 0 0 sum_crc intruder_rpc () mem_store [(''k'', 0, 0), (''j'', 0, 0)] peer_db =
     (Err (SyncFailed ''unexpected or duplicate payload key''), peer_db)"
  by (simp add: bulk_sync_def intruder_rpc_def rocks_store_def rocks_contains_def mem_kv_def peer_db_def
      op_defs bind_op_def RPC_SIZE_LIMIT_def)

theorem bulk_sync_safe_witness:
  "bulk_sync (\<lambda>_. 1) 0 0 sum_crc intruder_rpc () mem_store [(''k'', 0, 0), (''j'', 0, 0)] peer_db =
     (Err (SyncFailed ''unexpected or duplicate payload key''), peer_db) \<and>
   mem_held peer_db ''x'' = None \<and> mem_held peer_db ''k'' = Some [7, 8]"
  using bulk_sync_safe [OF mem_store_laws intruder_refused] intruder_refused
  by (auto simp: peer_db_held)

theorem bulk_sync_copies_witness:
  "\<exists>s'. bulk_sync (\<lambda>_. 1) 0 0 sum_crc
       (service_rpc (\<lambda>r. length (rr_data r)) (\<lambda>_. 1) (\<lambda>keys. sum_list (map (\<lambda>k. 2 + length k) keys)) sum_crc mem_store)
       peer_db mem_store [(''k'', 2, 15)] (\<lambda>_. RBT.empty) = (Ok (), s') \<and>
     mem_held s' = [''k'' \<mapsto> [7, 8]]"
proof -
  have "\<forall>m \<in> set [(''k'', 2, 15)]. delivers sum_crc (mem_held peer_db) m"
    by (simp add: delivers_def peer_db_held sum_crc_def)
  then show ?thesis
    using bulk_sync_copies [OF mem_store_laws mem_store_reliable mem_store_laws mem_store_reliable, where
      n = peer_db and crc = sum_crc and manifest = "[(''k'', 2, 15)]" and dlen = "\<lambda>_. 1" and id_len = 0 and base = 0 and s = "\<lambda>_. RBT.empty" and
      klen = "\<lambda>keys. sum_list (map (\<lambda>k. 2 + length k) keys)" and elen = "\<lambda>r. length (rr_data r)"]
    by (simp add: RPC_SIZE_LIMIT_def empty_db_held peer_db_held)
qed

end
