(* ===== verification/Session_State_Machine.thy ===== *)
theory Session_State_Machine
  imports Session_State Raft_Log Payload_Transfer
begin

text \<open>
  The replicated state machine over the session states, \<open>broker/src/raft/session_state/types.rs\<close> and
  the first half of \<open>store.rs\<close>: the requests, applying committed entries, and scheduling the payloads
  no session refers to any more for removal. A request that stores a message names the payload by
  its key; the payloads themselves are in the payload store.
\<close>

section \<open>Requests and the node\<close>

datatype session_state_request =
    CreateSessionState string string u64 "protocol_version option" "u32 option"
  | DeleteSessionState string string "u64 option"
  | InflightRegisterRxPacket string string u16 u8 string
  | InflightRegisterTxPacket string string u16 u8 string bool
  | InflightStartDelivery string string u16 string
  | InflightDiscardUnsent string string u16 string
  | InflightGetCurrentPacket string string u16
  | InflightNextState string string u16
  | InflightCleanFinishItems string string
  | AppendToPendingQueue string string string
  | PopFromPendingQueue string string
  | SubscribeTopic string string string u8 bool bool
  | UnsubscribeTopic string string string
  | UpdateSessionConnectionState string string "u64 option" "u32 option"

datatype session_state_response =
    InflightStartDeliveryResult bool
  | InflightGetCurrentPacketResult "string option"
  | InflightRegisterTxPacketResponse "(unit, session_state_storage_error) result"
  | InflightRegisterRxPacketResponse "(unit, session_state_storage_error) result"
  | PopFromPendingQueueResult "string option" "bytes option"
  | NoResponse

record payload_gc_item =
  delete_after_log_index :: u64
  gc_key :: string
  payload_deleted :: bool

text \<open>
  What the log store and the state machine of a node share: the state machine's data, the queue of
  payloads to remove, the database and the payload store. The source shares them behind locks.
\<close>

record ('l, 'm, 'db, 'ps) session_node =
  applied_log_id :: "'l option"
  applied_membership :: "'l option \<times> 'm"
  session_storage :: session_state_storage
  payload_gc_queue :: "payload_gc_item list"
  node_db :: 'db
  node_payloads :: 'ps
  is_ready :: bool

definition on_db :: "('a, 'e, 'db) op \<Rightarrow> ('a, 'e, ('l, 'm, 'db, 'ps) session_node) op" where
  "on_db m node = (case m (node_db node) of (r, db) \<Rightarrow> (r, node\<lparr>node_db := db\<rparr>))"

definition on_payloads :: "('a, 'e, 'ps) op \<Rightarrow> ('a, 'e, ('l, 'm, 'db, 'ps) session_node) op" where
  "on_payloads m node = (case m (node_payloads node) of (r, s) \<Rightarrow> (r, node\<lparr>node_payloads := s\<rparr>))"

section \<open>Applying the log\<close>

text \<open>
  One request on the session states: the reply, the keys whose last reference is gone and the new
  states, or nothing where the handler panics (a QoS above 2). \<open>now\<close> is the clock of the node at
  that moment; \<open>lookup\<close> reads a payload.
\<close>

fun apply_session_request ::
  "(string \<Rightarrow> (bytes option, payload_error) result) \<Rightarrow> u64 \<Rightarrow> session_state_request \<Rightarrow>
   session_state_storage \<Rightarrow> (session_state_response \<times> string list \<times> session_state_storage) option" where
  "apply_session_request lookup now (InflightRegisterRxPacket tenant client pid q key) st =
     (let (freed, st) = inflight_register_rx_packet now tenant client pid q key st in
      Some (InflightRegisterRxPacketResponse (Ok ()), case freed of Some k \<Rightarrow> [k] | None \<Rightarrow> [], st))"
| "apply_session_request lookup now (InflightRegisterTxPacket tenant client pid q key deferred) st =
     (case inflight_register_tx_packet now tenant client pid q key deferred st of
        (Ok freed, st) \<Rightarrow>
          Some (InflightRegisterTxPacketResponse (Ok ()), case freed of Some k \<Rightarrow> [k] | None \<Rightarrow> [], st)
      | (Err e, st) \<Rightarrow> Some (InflightRegisterTxPacketResponse (Err e), [], st))"
| "apply_session_request lookup now (InflightStartDelivery tenant client pid key) st =
     (let (started, st) = inflight_start_delivery tenant client pid key st in
      Some (InflightStartDeliveryResult started, [], st))"
| "apply_session_request lookup now (InflightDiscardUnsent tenant client pid key) st =
     (let (freed, st) = inflight_discard_unsent tenant client pid key st in
      Some (NoResponse, case freed of Some k \<Rightarrow> [k] | None \<Rightarrow> [], st))"
| "apply_session_request lookup now (InflightGetCurrentPacket tenant client pid) st =
     Some (InflightGetCurrentPacketResult (inflight_get_current_packet_key tenant client pid st), [], st)"
| "apply_session_request lookup now (InflightNextState tenant client pid) st =
     (let (freed, st) = inflight_next_state now tenant client pid st in
      Some (NoResponse, case freed of Some k \<Rightarrow> [k] | None \<Rightarrow> [], st))"
| "apply_session_request lookup now (InflightCleanFinishItems tenant client) st =
     (let (freed, st) = inflight_clean_finished_items tenant client st in Some (NoResponse, freed, st))"
| "apply_session_request lookup now (AppendToPendingQueue tenant client key) st =
     Some (NoResponse, [], append_to_pending_queue tenant client key st)"
| "apply_session_request lookup now (PopFromPendingQueue tenant client) st =
     (let ((key, freed), st) = pop_from_pending_queue tenant client st in
      case freed of
        Some k \<Rightarrow> Some (PopFromPendingQueueResult key (case lookup k of Ok data \<Rightarrow> data | Err _ \<Rightarrow> None), [k], st)
      | None \<Rightarrow> Some (PopFromPendingQueueResult key None, [], st))"
| "apply_session_request lookup now (SubscribeTopic tenant client topic q nl rap) st =
     (case qos_from_u8 q of
        None \<Rightarrow> None
      | Some q \<Rightarrow> Some (NoResponse, [], subscribe_topic_with_options tenant client topic q nl rap st))"
| "apply_session_request lookup now (UnsubscribeTopic tenant client topic) st =
     Some (NoResponse, [], session_unsubscribe_topic tenant client topic st)"
| "apply_session_request lookup now (CreateSessionState tenant client duration version expiry) st =
     Some (NoResponse, [], create_session_state tenant client duration version expiry st)"
| "apply_session_request lookup now (DeleteSessionState tenant client expected) st =
     (let should_delete =
        (case expected of
           None \<Rightarrow> True
         | Some d \<Rightarrow> (case get_session_state tenant client st of
             None \<Rightarrow> False | Some s \<Rightarrow> disconnected_at s = Some d)) in
      if should_delete
      then (let (freed, st) = delete_session_state tenant client st in Some (NoResponse, freed, st))
      else Some (NoResponse, [], st))"
| "apply_session_request lookup now (UpdateSessionConnectionState tenant client disconnected update) st =
     Some (NoResponse, [], update_connection_state tenant client disconnected update st)"

definition payload_gc_record_key :: "u64 \<Rightarrow> string \<Rightarrow> bytes" where
  "payload_gc_record_key index key = id_to_bin index @ as_bytes key"

text \<open>The record in the database is written on a best effort basis: a failure is only logged.\<close>

definition schedule_payload_gc ::
  "'db kv_store \<Rightarrow> u64 \<Rightarrow> string \<Rightarrow> ('l, 'm, 'db, 'ps) session_node \<Rightarrow> ('l, 'm, 'db, 'ps) session_node" where
  "schedule_payload_gc kv index key node =
     (let node = node\<lparr>payload_gc_queue := payload_gc_queue node @
        [\<lparr>delete_after_log_index = index, gc_key = key, payload_deleted = False\<rparr>]\<rparr> in
      snd (on_db (kv_put kv ''payload_gc'' (payload_gc_record_key index key) (as_bytes key)) node))"

type_synonym session_store_error = "unit storage_error"

text \<open>\<open>clock\<close> gives the time at which the node applies an entry.\<close>

fun session_apply ::
  "'db kv_store \<Rightarrow> 'ps payload_store \<Rightarrow> ('l \<Rightarrow> u64) \<Rightarrow> ('l \<Rightarrow> u64) \<Rightarrow>
   ('l, session_state_request, 'm) entry list \<Rightarrow> ('l, 'm, 'db, 'ps) session_node \<Rightarrow>
   ('l, 'm, 'db, 'ps) session_node \<times> (session_state_response list, session_store_error) result" where
  "session_apply kv ps index clock [] node = (node, Ok [])"
| "session_apply kv ps index clock (ent # rest) node =
     (let node = node\<lparr>applied_log_id := Some (entry_log_id ent)\<rparr> in
      case entry_payload ent of
        Blank \<Rightarrow> replies_then [NoResponse] (session_apply kv ps index clock rest node)
      | Normal req \<Rightarrow>
          (case apply_session_request (\<lambda>k. ps_get ps k (node_payloads node)) (clock (entry_log_id ent)) req
              (session_storage node) of
             None \<Rightarrow> (node, Err Panicked)
           | Some (response, freed, st) \<Rightarrow>
               replies_then [response] (session_apply kv ps index clock rest
                 (fold (schedule_payload_gc kv (index (entry_log_id ent))) freed
                   (node\<lparr>session_storage := st\<rparr>))))
      | Membership m \<Rightarrow>
          replies_then [NoResponse] (session_apply kv ps index clock rest
            (node\<lparr>applied_membership := (Some (entry_log_id ent), m)\<rparr>)))"

section \<open>References along the log\<close>

text \<open>The payload a request refers to for the first time.\<close>

fun request_payload_key :: "session_state_request \<Rightarrow> string option" where
  "request_payload_key (InflightRegisterRxPacket tenant client pid q key) = Some key"
| "request_payload_key (InflightRegisterTxPacket tenant client pid q key deferred) = Some key"
| "request_payload_key (AppendToPendingQueue tenant client key) = Some key"
| "request_payload_key _ = None"

definition entry_payload_key :: "('l, session_state_request, 'm) entry \<Rightarrow> string option" where
  "entry_payload_key ent =
     (case entry_payload ent of Normal req \<Rightarrow> request_payload_key req | _ \<Rightarrow> None)"

text \<open>
  What a request needs for the counts to stay exact: messages are registered with QoS 1 or 2, and no
  session is created over an existing one.
\<close>

fun exact_request :: "session_state_request \<Rightarrow> session_state_storage \<Rightarrow> bool" where
  "exact_request (InflightRegisterRxPacket tenant client pid q key) st \<longleftrightarrow> q = 1 \<or> q = 2"
| "exact_request (InflightRegisterTxPacket tenant client pid q key deferred) st \<longleftrightarrow> q = 1 \<or> q = 2"
| "exact_request (CreateSessionState tenant client duration version expiry) st \<longleftrightarrow>
     get_session_state tenant client st = None"
| "exact_request _ st \<longleftrightarrow> True"

definition lax :: "(nat \<Rightarrow> nat \<Rightarrow> bool) \<Rightarrow> bool" where
  "lax R \<longleftrightarrow> (\<forall>m n. R m n \<longrightarrow> R m (Suc n)) \<and> (\<forall>m m' n. R m n \<and> m' \<le> m \<longrightarrow> R m' n)"

context ref_discipline
begin

lemma apply_request_step:
  assumes "refs_inv R st" and "lax R \<or> exact_request req st"
    and "apply_session_request lookup now req st = Some (response, freed, st')"
  shows "refs_step R st st' (case request_payload_key req of Some k \<Rightarrow> [k] | None \<Rightarrow> []) freed"
proof (cases req)
  case (CreateSessionState tenant client duration version expiry)
  then show ?thesis
    using assms create_step [OF assms(1), of tenant client duration version expiry] by (auto simp: lax_def)
next
  case (DeleteSessionState tenant client expected)
  then consider "delete_session_state tenant client st = (freed, st')" | "freed = []" "st' = st"
    using assms(3) by (auto simp: Let_def split: if_splits prod.splits)
  then show ?thesis
    using delete_step [OF assms(1)] refl_step [OF assms(1)] DeleteSessionState by cases auto
next
  case (InflightRegisterRxPacket tenant client pid q key)
  obtain f where r: "inflight_register_rx_packet now tenant client pid q key st = (f, st')"
    and f: "freed = (case f of Some k \<Rightarrow> [k] | None \<Rightarrow> [])"
    using assms(3) InflightRegisterRxPacket by (auto simp: Let_def split: prod.splits)
  from register_rx_step [OF assms(1) r] assms(2) InflightRegisterRxPacket show ?thesis
    by (auto simp: lax_def f)
next
  case (InflightRegisterTxPacket tenant client pid q key deferred)
  obtain r where r: "inflight_register_tx_packet now tenant client pid q key deferred st = (r, st')"
    and f: "freed = (case r of Ok (Some k) \<Rightarrow> [k] | _ \<Rightarrow> [])"
    using assms(3) InflightRegisterTxPacket by (auto split: prod.splits result.splits option.splits)
  from register_tx_step [OF assms(1) r] assms(2) InflightRegisterTxPacket show ?thesis
    by (auto simp: lax_def f)
next
  case (InflightStartDelivery tenant client pid key)
  then show ?thesis
    using assms(3) start_delivery_step [OF assms(1), of tenant client pid key]
    by (auto simp: Let_def split: prod.splits)
next
  case (InflightDiscardUnsent tenant client pid key)
  then show ?thesis
    using assms(3) discard_unsent_step [OF assms(1), of tenant client pid key] by (auto simp: Let_def split: prod.splits)
next
  case (InflightGetCurrentPacket tenant client pid)
  then show ?thesis
    using assms(3) refl_step [OF assms(1)] by auto
next
  case (InflightNextState tenant client pid)
  moreover have "fst (inflight_next_state now tenant client pid st) = None"
    by (simp add: inflight_next_state_def split: option.splits)
  ultimately show ?thesis
    using assms(3) next_state_step [OF assms(1), of now tenant client pid] by (auto simp: Let_def split: prod.splits)
next
  case (InflightCleanFinishItems tenant client)
  then show ?thesis
    using assms(3) clean_finished_step [OF assms(1), of tenant client] by (auto simp: Let_def split: prod.splits)
next
  case (AppendToPendingQueue tenant client key)
  then show ?thesis
    using assms(3) append_pending_step [OF assms(1), of tenant client key] by auto
next
  case (PopFromPendingQueue tenant client)
  obtain k f where p: "pop_from_pending_queue tenant client st = ((k, f), st')"
    and f: "freed = (case f of Some k \<Rightarrow> [k] | None \<Rightarrow> [])"
    using assms(3) PopFromPendingQueue by (auto simp: Let_def split: prod.splits option.splits)
  from pop_pending_step [OF assms(1) p] PopFromPendingQueue show ?thesis by (simp add: f)
next
  case (SubscribeTopic tenant client topic q nl rap)
  then show ?thesis
    using assms(3) subscribe_step [OF assms(1), of tenant client topic] by (auto split: option.splits)
next
  case (UnsubscribeTopic tenant client topic)
  then show ?thesis
    using assms(3) unsubscribe_step [OF assms(1), of tenant client topic] by auto
next
  case (UpdateSessionConnectionState tenant client disconnected update)
  then show ?thesis
    using assms(3) update_connection_step [OF assms(1), of tenant client disconnected update] by auto
qed

end

section \<open>The queue of payloads to remove\<close>

definition gc_keys :: "('l, 'm, 'db, 'ps) session_node \<Rightarrow> string set" where
  "gc_keys node = gc_key ` set (payload_gc_queue node)"

lemma schedule_payload_gc_simps [simp]:
  "session_storage (schedule_payload_gc kv i k node) = session_storage node"
  "node_payloads (schedule_payload_gc kv i k node) = node_payloads node"
  "payload_gc_queue (schedule_payload_gc kv i k node) =
     payload_gc_queue node @ [\<lparr>delete_after_log_index = i, gc_key = k, payload_deleted = False\<rparr>]"
  by (simp_all add: schedule_payload_gc_def on_db_def Let_def split: prod.split)

lemma schedule_all_simps [simp]:
  "session_storage (fold (schedule_payload_gc kv i) ks node) = session_storage node"
  "node_payloads (fold (schedule_payload_gc kv i) ks node) = node_payloads node"
  "payload_gc_queue (fold (schedule_payload_gc kv i) ks node) =
     payload_gc_queue node @ map (\<lambda>k. \<lparr>delete_after_log_index = i, gc_key = k, payload_deleted = False\<rparr>) ks"
  by (induction ks arbitrary: node) simp_all

lemma session_apply_append:
  "session_apply kv ps index clock es node = (node', Ok rs) \<Longrightarrow>
   session_apply kv ps index clock (es @ es') node = replies_then rs (session_apply kv ps index clock es' node')"
proof (induction es arbitrary: node rs)
  case (Cons ent rest)
  then show ?case
    by (auto simp: Let_def replies_then_Ok split: entry_payload.splits option.splits)
qed simp

lemma session_apply_payloads [simp]:
  "node_payloads (fst (session_apply kv ps index clock es node)) = node_payloads node"
proof (induction es arbitrary: node)
  case (Cons ent rest)
  then show ?case
    by (auto simp: Let_def split: entry_payload.split option.split)
qed simp

lemma session_apply_queue:
  "\<exists>items. payload_gc_queue (fst (session_apply kv ps index clock es node)) = payload_gc_queue node @ items \<and>
     (\<forall>item\<in>set items. \<exists>e\<in>set es. delete_after_log_index item = index (entry_log_id e))"
proof (induction es arbitrary: node)
  case (Cons ent rest)
  let ?n = "node\<lparr>applied_log_id := Some (entry_log_id ent)\<rparr>"
  show ?case
  proof (cases "entry_payload ent")
    case Blank
    then show ?thesis using Cons [of ?n] by fastforce
  next
    case (Normal req)
    show ?thesis
    proof (cases "apply_session_request (\<lambda>k. ps_get ps k (node_payloads node)) (clock (entry_log_id ent)) req
        (session_storage node)")
      case None
      with Normal show ?thesis by simp
    next
      case (Some x)
      obtain response freed st where x: "x = (response, freed, st)" by (cases x)
      let ?n1 = "fold (schedule_payload_gc kv (index (entry_log_id ent))) freed (?n\<lparr>session_storage := st\<rparr>)"
      obtain items where "payload_gc_queue (fst (session_apply kv ps index clock rest ?n1)) = payload_gc_queue ?n1 @ items"
        "\<forall>item\<in>set items. \<exists>e\<in>set rest. delete_after_log_index item = index (entry_log_id e)"
        using Cons [of ?n1] by blast
      with Normal Some x show ?thesis
        by (intro exI [of _ "map (\<lambda>k. \<lparr>delete_after_log_index = index (entry_log_id ent), gc_key = k,
            payload_deleted = False\<rparr>) freed @ items"]) auto
    qed
  next
    case (Membership m)
    then show ?thesis using Cons [of "?n\<lparr>applied_membership := (Some (entry_log_id ent), m)\<rparr>"] by fastforce
  qed
qed simp

text \<open>
  The invariant: the counts bound the references, and what is in the queue is referred to by no
  session. It is kept by entries that register payloads under keys that were never given up; the
  broker draws a new random key for every payload.
\<close>

definition gc_ok :: "nat \<Rightarrow> ('l, 'm, 'db, 'ps) session_node \<Rightarrow> bool" where
  "gc_ok n node \<longleftrightarrow>
     sessions_ok (session_storage node) \<and> covered (\<le>) (total_refs (session_storage node)) (session_storage node) \<and>
     (\<forall>k. ref_count (session_storage node) k \<le> n) \<and>
     (\<forall>k\<in>gc_keys node. k \<notin># total_refs (session_storage node))"

fun fresh_keys ::
  "'db kv_store \<Rightarrow> 'ps payload_store \<Rightarrow> ('l \<Rightarrow> u64) \<Rightarrow> ('l \<Rightarrow> u64) \<Rightarrow>
   ('l, session_state_request, 'm) entry list \<Rightarrow> ('l, 'm, 'db, 'ps) session_node \<Rightarrow> bool" where
  "fresh_keys kv ps index clock [] node \<longleftrightarrow> True"
| "fresh_keys kv ps index clock (ent # rest) node \<longleftrightarrow>
     (case entry_payload_key ent of Some k \<Rightarrow> k \<notin> gc_keys node | None \<Rightarrow> True) \<and>
     fresh_keys kv ps index clock rest (fst (session_apply kv ps index clock [ent] node))"

lemma lax_le: "lax (\<le>)"
  by (auto simp: lax_def)

lemma gc_ok_entry:
  assumes "gc_ok n node" and "Suc n < 2 ^ 64"
    and "case entry_payload_key ent of Some k \<Rightarrow> k \<notin> gc_keys node | None \<Rightarrow> True"
  shows "gc_ok (Suc n) (fst (session_apply kv ps index clock [ent] node))"
proof (cases "entry_payload ent")
  case (Normal req)
  let ?st = "session_storage node"
  show ?thesis
  proof (cases "apply_session_request (\<lambda>k. ps_get ps k (node_payloads node)) (clock (entry_log_id ent)) req ?st")
    case None
    with Normal assms(1) show ?thesis by (auto simp: gc_ok_def gc_keys_def intro: le_SucI)
  next
    case (Some x)
    obtain response freed st where x: "x = (response, freed, st)" by (cases x)
    have "refs_inv (\<le>) ?st"
      using assms(1,2) by (auto simp: gc_ok_def refs_inv_def intro: le_less_trans)
    from bounding.apply_request_step [OF this disjI1 [OF lax_le] Some [unfolded x]]
    have s: "sessions_ok st" "covered (\<le>) (total_refs st) st" "\<And>k. ref_count st k \<le> Suc (ref_count ?st k)"
      "\<And>k. k \<in> set freed \<Longrightarrow> k \<notin># total_refs st"
      "\<And>k. k \<in># total_refs st \<Longrightarrow> k \<in># total_refs ?st \<or> request_payload_key req = Some k"
      by (auto simp: refs_step_def split: option.splits)
    have "ref_count st k \<le> Suc n" for k
      using s(3) [of k] assms(1) by (auto simp: gc_ok_def intro: order_trans)
    moreover have "k \<notin># total_refs st" if "k \<in> gc_keys node" for k
      using that s(5) [of k] assms(1,3) Normal by (auto simp: gc_ok_def entry_payload_key_def split: option.splits)
    ultimately show ?thesis
      using Normal Some x s(1,2,4) by (auto simp: gc_ok_def gc_keys_def)
  qed
qed (use assms(1) in \<open>auto simp: gc_ok_def gc_keys_def intro: le_SucI\<close>)

lemma session_apply_Cons:
  "session_apply kv ps index clock (ent # rest) node =
     (case session_apply kv ps index clock [ent] node of
        (node', Ok rs) \<Rightarrow> replies_then rs (session_apply kv ps index clock rest node')
      | (node', Err e) \<Rightarrow> (node', Err e))"
  by (auto simp: Let_def replies_then_def split: entry_payload.split option.split)

lemma gc_ok_log:
  "gc_ok n node \<Longrightarrow> n + length es < 2 ^ 64 \<Longrightarrow> fresh_keys kv ps index clock es node \<Longrightarrow>
   \<exists>n'\<le>n + length es. gc_ok n' (fst (session_apply kv ps index clock es node))"
proof (induction es arbitrary: n node)
  case (Cons ent rest)
  obtain node1 r where e: "session_apply kv ps index clock [ent] node = (node1, r)" by fastforce
  have ok: "gc_ok (Suc n) node1"
    using gc_ok_entry [OF Cons.prems(1), of ent kv ps index clock] Cons.prems(2,3) e by simp
  show ?case
  proof (cases r)
    case (Ok rs)
    obtain n' where "n' \<le> Suc n + length rest" "gc_ok n' (fst (session_apply kv ps index clock rest node1))"
      using Cons.IH [OF ok] Cons.prems(2,3) e by auto
    then show ?thesis
      using e Ok by (subst session_apply_Cons) auto
  next
    case (Err x)
    then show ?thesis
      using e ok by (subst session_apply_Cons) (auto intro!: exI [of _ "Suc n"])
  qed
qed auto

section \<open>Exact counts\<close>

text \<open>Whether every request of a log keeps the counts exact at the moment it is applied.\<close>

fun exact_log ::
  "'db kv_store \<Rightarrow> 'ps payload_store \<Rightarrow> ('l \<Rightarrow> u64) \<Rightarrow> ('l \<Rightarrow> u64) \<Rightarrow>
   ('l, session_state_request, 'm) entry list \<Rightarrow> ('l, 'm, 'db, 'ps) session_node \<Rightarrow> bool" where
  "exact_log kv ps index clock [] node \<longleftrightarrow> True"
| "exact_log kv ps index clock (ent # rest) node \<longleftrightarrow>
     (case entry_payload ent of Normal req \<Rightarrow> exact_request req (session_storage node) | _ \<Rightarrow> True) \<and>
     exact_log kv ps index clock rest (fst (session_apply kv ps index clock [ent] node))"

definition exact_ok :: "nat \<Rightarrow> ('l, 'm, 'db, 'ps) session_node \<Rightarrow> bool" where
  "exact_ok n node \<longleftrightarrow>
     sessions_ok (session_storage node) \<and>
     (\<forall>k. ref_count (session_storage node) k = count (total_refs (session_storage node)) k) \<and>
     (\<forall>k. ref_count (session_storage node) k \<le> n)"

text \<open>The keys a session referred to are still in use or in the queue.\<close>

definition accounted :: "('l, 'm, 'db, 'ps) session_node \<Rightarrow> ('l, 'm, 'db, 'ps) session_node \<Rightarrow> bool" where
  "accounted node node' \<longleftrightarrow>
     set_mset (total_refs (session_storage node)) \<union> gc_keys node \<subseteq>
     set_mset (total_refs (session_storage node')) \<union> gc_keys node'"

lemma accounted_refl: "accounted node node"
  by (simp add: accounted_def)

lemma accounted_trans: "accounted a b \<Longrightarrow> accounted b c \<Longrightarrow> accounted a c"
  unfolding accounted_def by blast

lemma exact_ok_entry:
  assumes "exact_ok n node" and "Suc n < 2 ^ 64"
    and "case entry_payload ent of Normal req \<Rightarrow> exact_request req (session_storage node) | _ \<Rightarrow> True"
  shows "exact_ok (Suc n) (fst (session_apply kv ps index clock [ent] node)) \<and>
    accounted node (fst (session_apply kv ps index clock [ent] node))"
proof (cases "entry_payload ent")
  case (Normal req)
  let ?st = "session_storage node"
  show ?thesis
  proof (cases "apply_session_request (\<lambda>k. ps_get ps k (node_payloads node)) (clock (entry_log_id ent)) req ?st")
    case None
    with Normal assms(1) show ?thesis by (auto simp: exact_ok_def accounted_def gc_keys_def intro: le_SucI)
  next
    case (Some x)
    obtain response freed st where x: "x = (response, freed, st)" by (cases x)
    have "refs_inv (=) ?st"
      using assms(1,2) by (auto simp: exact_ok_def refs_inv_def covered_def) (meson le_less_trans)
    moreover have "exact_request req ?st"
      using assms(3) Normal by simp
    ultimately have "refs_step (=) ?st st (case request_payload_key req of Some k \<Rightarrow> [k] | None \<Rightarrow> []) freed"
      using exact.apply_request_step Some [unfolded x] by blast
    then have s: "sessions_ok st" "\<And>k. count (total_refs st) k = ref_count st k"
      "\<And>k. ref_count st k \<le> Suc (ref_count ?st k)" "\<And>k. ref_count st k = 0 \<Longrightarrow> ref_count ?st k = 0 \<or> k \<in> set freed"
      by (auto simp: refs_step_def covered_def)
    have "ref_count st k \<le> Suc n" for k
      using s(3) [of k] assms(1) by (auto simp: exact_ok_def intro: order_trans)
    moreover have "k \<in># total_refs st \<or> k \<in> set freed" if "k \<in># total_refs ?st" for k
    proof -
      have "count (total_refs ?st) k \<noteq> 0" using that by simp
      then have "ref_count ?st k \<noteq> 0" using assms(1) by (simp add: exact_ok_def)
      with s(4) [of k] s(2) [of k] show ?thesis
        by (metis count_eq_zero_iff)
    qed
    ultimately show ?thesis
      using Normal Some x s(1,2) by (auto simp: exact_ok_def accounted_def gc_keys_def image_Un image_image)
  qed
qed (use assms(1) in \<open>auto simp: exact_ok_def accounted_def gc_keys_def intro: le_SucI\<close>)

lemma exact_ok_log:
  "exact_ok n node \<Longrightarrow> n + length es < 2 ^ 64 \<Longrightarrow> exact_log kv ps index clock es node \<Longrightarrow>
   (\<exists>n'\<le>n + length es. exact_ok n' (fst (session_apply kv ps index clock es node))) \<and>
   accounted node (fst (session_apply kv ps index clock es node))"
proof (induction es arbitrary: n node)
  case (Cons ent rest)
  obtain node1 r where e: "session_apply kv ps index clock [ent] node = (node1, r)" by fastforce
  have ok: "exact_ok (Suc n) node1" "accounted node node1"
    using exact_ok_entry [OF Cons.prems(1), of ent kv ps index clock] Cons.prems(2,3) e by simp_all
  show ?case
  proof (cases r)
    case (Ok rs)
    have "(\<exists>n'\<le>Suc n + length rest. exact_ok n' (fst (session_apply kv ps index clock rest node1))) \<and>
        accounted node1 (fst (session_apply kv ps index clock rest node1))"
      using Cons.IH [OF ok(1)] Cons.prems(2,3) e by simp
    then show ?thesis
      using e Ok accounted_trans [OF ok(2)] by (subst (1 2) session_apply_Cons) auto
  next
    case (Err x)
    then show ?thesis
      using e ok by (subst (1 2) session_apply_Cons) (auto intro!: exI [of _ "Suc n"])
  qed
qed (auto simp: accounted_refl)

section \<open>Clocks\<close>

text \<open>Session states without the modification times, the only thing the clock of a node enters.\<close>

definition untime_item :: "inflight_item \<Rightarrow> inflight_item" where
  "untime_item item = item\<lparr>last_modified := 0\<rparr>"

definition untime_inflight :: "inflight \<Rightarrow> inflight" where
  "untime_inflight i = i\<lparr>inflight_inner := hm_map untime_item (inflight_inner i)\<rparr>"

definition untime_session :: "session_state \<Rightarrow> session_state" where
  "untime_session s = s\<lparr>session_inflight := untime_inflight (session_inflight s)\<rparr>"

definition untime :: "session_state_storage \<Rightarrow> session_state_storage" where
  "untime st = st\<lparr>storage_inner := hm_map (hm_map untime_session) (storage_inner st)\<rparr>"

lemma untime_item_simps [simp]:
  "packet_key (untime_item item) = packet_key item" "item_state (untime_item item) = item_state item"
  "delivery_started (untime_item item) = delivery_started item"
  "item_packet_identifier (untime_item item) = item_packet_identifier item"
  by (simp_all add: untime_item_def)

lemma untime_inflight_simps [simp]:
  "inflight_inner (untime_inflight i) = hm_map untime_item (inflight_inner i)"
  "untime_inflight (inflight_new d) = inflight_new d"
  by (simp_all add: untime_inflight_def inflight_new_def)

lemma untime_insert_item:
  "insert_item (untime_item item) (untime_inflight i) =
     (fst (insert_item item i), untime_inflight (snd (insert_item item i)))"
  by (auto simp: insert_item_def untime_inflight_def split: option.splits)

lemma untime_mk [simp]:
  "untime_item \<lparr>item_packet_identifier = p, item_state = s, packet_key = k, last_modified = t, delivery_started = d\<rparr> =
     \<lparr>item_packet_identifier = p, item_state = s, packet_key = k, last_modified = 0, delivery_started = d\<rparr>"
  by (simp add: untime_item_def)

lemma untime_register_rx:
  "register_with_rx_packet 0 pid q key (untime_inflight i) =
     map_prod id untime_inflight (register_with_rx_packet now pid q key i)"
  using untime_insert_item [of "\<lparr>item_packet_identifier = pid, item_state = WaitPubrel, packet_key = Some key,
      last_modified = now, delivery_started = True\<rparr>" i]
    untime_insert_item [of "\<lparr>item_packet_identifier = pid, item_state = Finish, packet_key = Some key,
      last_modified = now, delivery_started = True\<rparr>" i]
  by (simp add: register_with_rx_packet_def map_prod_def split: prod.split)

lemma untime_register_tx:
  "register_with_tx_packet 0 pid q key (untime_inflight i) =
     and_then (register_with_tx_packet now pid q key i) (\<lambda>(old, i). Ok (old, untime_inflight i))"
  using untime_insert_item [of "\<lparr>item_packet_identifier = pid, item_state = WaitPubrec, packet_key = Some key,
      last_modified = now, delivery_started = True\<rparr>" i]
    untime_insert_item [of "\<lparr>item_packet_identifier = pid, item_state = WaitPuback, packet_key = Some key,
      last_modified = now, delivery_started = True\<rparr>" i]
  by (simp add: register_with_tx_packet_def packet_id_exists_def map_prod_def split: prod.split)

lemma untime_next_state:
  "next_state 0 pid (untime_inflight i) = map_prod id untime_inflight (next_state now pid i)"
  by (auto simp: next_state_def to_next_def Let_def untime_inflight_def untime_item_def split: option.splits)

lemma untime_mark_delivery:
  "mark_delivery_started pid key (untime_inflight i) = map_prod id untime_inflight (mark_delivery_started pid key i)"
proof -
  have "untime_item (item\<lparr>delivery_started := True\<rparr>) = (untime_item item)\<lparr>delivery_started := True\<rparr>" for item
    by (cases item) (simp add: untime_item_def)
  then show ?thesis
    by (auto simp: mark_delivery_started_def untime_inflight_def split: option.splits)
qed

lemma untime_discard:
  "discard_unsent pid key (untime_inflight i) = map_prod id untime_inflight (discard_unsent pid key i)"
  by (auto simp: discard_unsent_def untime_inflight_def split: option.splits)

lemma untime_clean:
  "clean_finished_items (untime_inflight i) = map_prod id untime_inflight (clean_finished_items i)"
  by (auto simp: clean_finished_items_def untime_inflight_def hm_map_def map_filter_map_pairs filter_map_pairs
      cong: if_cong)

lemma untime_set_delivery:
  "(untime_inflight i)\<lparr>inflight_inner := hm_modify pid (delivery_started_update f) (hm_map untime_item (inflight_inner i))\<rparr> =
     untime_inflight (i\<lparr>inflight_inner := hm_modify pid (delivery_started_update f) (inflight_inner i)\<rparr>)"
proof -
  have "untime_item (delivery_started_update f item) = delivery_started_update f (untime_item item)" for item
    by (cases item) (simp add: untime_item_def)
  then show ?thesis by (simp add: untime_inflight_def hm_map_modify)
qed

lemma untime_all_keys: "get_all_packet_keys (untime_inflight i) = get_all_packet_keys i"
  by (simp add: get_all_packet_keys_def hm_map_def map_filter_map_pairs)

lemma untime_session_simps [simp]:
  "pending_messages (untime_session s) = pending_messages s"
  "session_inflight (untime_session s) = untime_inflight (session_inflight s)"
  "session_subscriptions (untime_session s) = session_subscriptions s"
  "disconnected_at (untime_session s) = disconnected_at s"
  "untime_session (new_with_options d v e) = new_with_options d v e"
  "(untime_session s)\<lparr>session_inflight := untime_inflight i\<rparr> = untime_session (s\<lparr>session_inflight := i\<rparr>)"
  "(untime_session s)\<lparr>pending_messages := ps\<rparr> = untime_session (s\<lparr>pending_messages := ps\<rparr>)"
  "(untime_session s)\<lparr>session_subscriptions := m\<rparr> = untime_session (s\<lparr>session_subscriptions := m\<rparr>)"
  by (simp_all add: untime_session_def new_with_options_def)

lemma untime_update_connection:
  "state_update_connection d u (untime_session s) = untime_session (state_update_connection d u s)"
  by (simp add: state_update_connection_def untime_session_def Let_def split: option.split)

lemma untime_simps [simp]:
  "ref_counts (untime st) = ref_counts st"
  "storage_inner (untime st) = hm_map (hm_map untime_session) (storage_inner st)"
  "get_session_state tenant client (untime st) = map_option untime_session (get_session_state tenant client st)"
  "inc_ref key (untime st) = untime (inc_ref key st)"
  "ensure_tenant tenant (untime st) = untime (ensure_tenant tenant st)"
  by (auto simp: untime_def get_session_state_def inc_ref_def ensure_tenant_def split: option.split)

lemma untime_put [simp]:
  "put_session tenant client (untime_session s) (untime st) = untime (put_session tenant client s st)"
  by (simp add: untime_def put_session_def hm_map_modify)

lemma untime_dec_ref: "dec_ref key (untime st) = map_prod id untime (dec_ref key st)"
  by (auto simp: dec_ref_def untime_def Let_def split: option.split)

lemma untime_dec_refs: "dec_refs keys (untime st) = map_prod id untime (dec_refs keys st)"
  by (induction keys arbitrary: st) (auto simp: untime_dec_ref Let_def split: prod.split option.split)

lemma untime_dec_ref_option: "dec_ref_option key (untime st) = map_prod id untime (dec_ref_option key st)"
  by (simp add: dec_ref_option_def untime_dec_ref split: option.split)

text \<open>Every request commutes with forgetting the times.\<close>

lemma untime_apply_request:
  "apply_session_request lookup 0 req (untime st) =
     map_option (\<lambda>(response, freed, st). (response, freed, untime st)) (apply_session_request lookup now req st)"
proof (cases req)
  case (CreateSessionState tenant client duration version expiry)
  then show ?thesis using untime_put [of tenant client "new_with_options duration version expiry" "ensure_tenant tenant st"]
    by (simp add: create_session_state_def)
next
  case (DeleteSessionState tenant client expected)
  have "delete_session_state tenant client (untime st) = map_prod id untime (delete_session_state tenant client st)"
  proof (cases "get_session_state tenant client st")
    case (Some s)
    have "(untime st)\<lparr>storage_inner := hm_modify tenant (hm_remove client) (storage_inner (untime st))\<rparr> =
        untime (st\<lparr>storage_inner := hm_modify tenant (hm_remove client) (storage_inner st)\<rparr>)"
      by (simp add: untime_def hm_map_modify)
    with Some show ?thesis
      by (simp add: delete_session_state_def untime_dec_refs untime_all_keys Let_def split: prod.split)
  qed (simp add: delete_session_state_def)
  with DeleteSessionState show ?thesis
    by (auto simp: Let_def split: option.split prod.split)
next
  case (InflightRegisterRxPacket tenant client pid q key)
  then show ?thesis
    by (auto simp: inflight_register_rx_packet_def Let_def untime_register_rx [of pid q key _ now] untime_dec_ref_option
        split: option.split prod.split)
next
  case (InflightRegisterTxPacket tenant client pid q key deferred)
  then show ?thesis
    by (auto simp: inflight_register_tx_packet_def Let_def untime_register_tx [of pid q key _ now] untime_dec_ref_option
        untime_set_delivery split: option.split prod.split result.split)
next
  case (InflightStartDelivery tenant client pid key)
  then show ?thesis
    by (auto simp: inflight_start_delivery_def Let_def untime_mark_delivery split: option.split prod.split)
next
  case (InflightDiscardUnsent tenant client pid key)
  then show ?thesis
    by (auto simp: inflight_discard_unsent_def Let_def untime_discard untime_dec_ref_option split: option.split prod.split)
next
  case (InflightGetCurrentPacket tenant client pid)
  then show ?thesis
    by (auto simp: inflight_get_current_packet_key_def get_current_packet_key_def split: option.split)
next
  case (InflightNextState tenant client pid)
  then show ?thesis
    by (auto simp: inflight_next_state_def Let_def untime_next_state [of pid _ now] split: option.split prod.split)
next
  case (InflightCleanFinishItems tenant client)
  then show ?thesis
    by (auto simp: inflight_clean_finished_items_def Let_def untime_clean untime_dec_refs split: option.split prod.split)
next
  case (AppendToPendingQueue tenant client key)
  then show ?thesis
    by (auto simp: append_to_pending_queue_def Let_def split: option.split)
next
  case (PopFromPendingQueue tenant client)
  then show ?thesis
    by (auto simp: pop_from_pending_queue_def Let_def untime_dec_ref split: option.split prod.split)
next
  case (SubscribeTopic tenant client topic q nl rap)
  then show ?thesis
    by (auto simp: subscribe_topic_with_options_def Let_def split: option.split)
next
  case (UnsubscribeTopic tenant client topic)
  then show ?thesis
    by (auto simp: session_unsubscribe_topic_def split: option.split)
next
  case (UpdateSessionConnectionState tenant client disconnected update)
  then show ?thesis
    by (auto simp: update_connection_state_def untime_update_connection split: option.split)
qed

definition untime_node :: "('l, 'm, 'db, 'ps) session_node \<Rightarrow> ('l, 'm, 'db, 'ps) session_node" where
  "untime_node node = node\<lparr>session_storage := untime (session_storage node)\<rparr>"

lemma untime_schedule_one:
  "schedule_payload_gc kv i k (untime_node node) = untime_node (schedule_payload_gc kv i k node)"
  by (cases node) (simp add: schedule_payload_gc_def untime_node_def on_db_def Let_def split: prod.split)

lemma untime_schedule:
  "fold (schedule_payload_gc kv i) ks (untime_node node) = untime_node (fold (schedule_payload_gc kv i) ks node)"
  by (induction ks arbitrary: node) (simp_all add: untime_schedule_one)

lemma untime_apply:
  "session_apply kv ps index (\<lambda>_. 0) es (untime_node node) =
     (case session_apply kv ps index clock es node of (node', r) \<Rightarrow> (untime_node node', r))"
proof (induction es arbitrary: node)
  case (Cons ent rest)
  have e: "(untime_node node)\<lparr>applied_log_id := i\<rparr> = untime_node (node\<lparr>applied_log_id := i\<rparr>)"
    "(untime_node node)\<lparr>applied_membership := m\<rparr> = untime_node (node\<lparr>applied_membership := m\<rparr>)"
    "(untime_node node)\<lparr>session_storage := untime st\<rparr> = untime_node (node\<lparr>session_storage := st\<rparr>)"
    "node_payloads (untime_node node) = node_payloads node"
    "session_storage (untime_node node) = untime (session_storage node)" for i m st and node :: "('a, 'b, 'c, 'd) session_node"
    by (simp_all add: untime_node_def)
  show ?case
  proof (cases "entry_payload ent")
    case (Normal req)
    let ?n = "node\<lparr>applied_log_id := Some (entry_log_id ent)\<rparr>"
    show ?thesis
    proof (cases "apply_session_request (\<lambda>k. ps_get ps k (node_payloads node)) (clock (entry_log_id ent)) req
        (session_storage node)")
      case None
      with Normal show ?thesis
        by (simp add: e untime_apply_request [of _ _ _ "clock (entry_log_id ent)"])
    next
      case (Some x)
      obtain response freed st where "x = (response, freed, st)" by (cases x)
      with Normal Some show ?thesis
        by (simp add: e untime_apply_request [of _ _ _ "clock (entry_log_id ent)"] untime_schedule Cons
            replies_then_def split: prod.split)
    qed
  qed (simp_all add: e Cons replies_then_def split: prod.split)
qed simp

section \<open>Properties\<close>

lemma exact_log_append:
  "session_apply kv ps index clock es node = (node', Ok rs) \<Longrightarrow>
   exact_log kv ps index clock (es @ es') node \<longleftrightarrow>
     exact_log kv ps index clock es node \<and> exact_log kv ps index clock es' node'"
proof (induction es arbitrary: node rs)
  case (Cons ent rest)
  obtain node1 r where e: "session_apply kv ps index clock [ent] node = (node1, r)" by fastforce
  with Cons.prems obtain rs1 rs2 where "r = Ok rs1" "session_apply kv ps index clock rest node1 = (node', Ok rs2)"
    by (subst (asm) session_apply_Cons) (cases r; auto simp: replies_then_Ok)
  with Cons.IH e show ?case by simp
qed simp

lemma fresh_keys_append:
  "session_apply kv ps index clock es node = (node', Ok rs) \<Longrightarrow>
   fresh_keys kv ps index clock (es @ es') node \<longleftrightarrow>
     fresh_keys kv ps index clock es node \<and> fresh_keys kv ps index clock es' node'"
proof (induction es arbitrary: node rs)
  case (Cons ent rest)
  obtain node1 r where e: "session_apply kv ps index clock [ent] node = (node1, r)" by fastforce
  with Cons.prems obtain rs1 rs2 where "r = Ok rs1" "session_apply kv ps index clock rest node1 = (node', Ok rs2)"
    by (subst (asm) session_apply_Cons) (cases r; auto simp: replies_then_Ok)
  with Cons.IH e show ?case by simp
qed simp

text \<open>
  C17: No payload is lost track of: when messages are registered with QoS 1 or 2 and no session is
  created over an existing one, then after any log the count kept for a key is the number of times
  the sessions refer to it, and a payload some session referred to at an earlier point of the log is
  still referred to or waits in the queue for its removal.
\<close>

theorem payloads_accounted:
  assumes "session_storage node = session_storage_new" and "length (es @ es') < 2 ^ 64"
    and "exact_log kv ps index clock (es @ es') node"
    and "session_apply kv ps index clock es node = (node1, Ok rs)"
    and "session_apply kv ps index clock (es @ es') node = (node2, r)"
  shows "(\<forall>k. ref_count (session_storage node2) k = count (total_refs (session_storage node2)) k) \<and>
    set_mset (total_refs (session_storage node1)) \<subseteq>
      set_mset (total_refs (session_storage node2)) \<union> gc_keys node2"
proof -
  have x: "exact_log kv ps index clock es node" "exact_log kv ps index clock es' node1"
    using assms(3) exact_log_append [OF assms(4)] by auto
  have "exact_ok 0 node" using assms(1) by (simp add: exact_ok_def)
  with exact_ok_log [OF _ _ x(1)] assms(2,4) obtain n where n: "n \<le> length es" "exact_ok n node1"
    by fastforce
  have "node2 = fst (session_apply kv ps index clock es' node1)"
    using session_apply_append [OF assms(4), of es'] assms(5) by (simp add: replies_then_def)
  with exact_ok_log [OF n(2) _ x(2)] assms(2) n(1)
  have "\<exists>m. exact_ok m node2" "accounted node1 node2" by auto
  then show ?thesis by (auto simp: exact_ok_def accounted_def)
qed

text \<open>
  C30: Replicas agree although every node enters the times of its own clock: two nodes that apply the
  same log from states that differ only in modification times give the same replies and reach states
  that differ only in modification times.
\<close>

theorem replicas_agree_up_to_clocks:
  assumes "untime_node node = untime_node node'"
    and "session_apply kv ps index clock es node = (node1, r)"
    and "session_apply kv ps index clock' es node' = (node1', r')"
  shows "r = r' \<and> untime_node node1 = untime_node node1'"
  using untime_apply [of kv ps index es node clock] untime_apply [of kv ps index es node' clock'] assms by simp


section \<open>Witnesses\<close>

abbreviation log_entry :: "u64 \<Rightarrow> session_state_request \<Rightarrow> (u64, session_state_request, unit) entry" where
  "log_entry i req \<equiv> \<lparr>entry_log_id = i, entry_payload = Normal req\<rparr>"

definition example_node :: "(u64, unit, string \<Rightarrow> (bytes, bytes) rbt, string \<Rightarrow> (bytes, bytes) rbt) session_node" where
  "example_node =
     \<lparr>applied_log_id = None, applied_membership = (None, ()), session_storage = session_storage_new,
      payload_gc_queue = [], node_db = \<lambda>_. RBT.empty, node_payloads = \<lambda>_. RBT.empty, is_ready = True\<rparr>"

text \<open>A message is queued for a client that is away, and taken out again.\<close>

definition example_queued :: "(u64, session_state_request, unit) entry list" where
  "example_queued =
     [log_entry 1 (CreateSessionState ''t'' ''c'' 30 None None), log_entry 2 (AppendToPendingQueue ''t'' ''c'' ''k'')]"

definition example_popped :: "(u64, session_state_request, unit) entry list" where
  "example_popped = [log_entry 3 (PopFromPendingQueue ''t'' ''c'')]"

definition example_state :: session_state where
  "example_state = (new_with_options 30 None None)\<lparr>pending_messages := [''k'']\<rparr>"

definition example_storage :: session_state_storage where
  "example_storage = \<lparr>storage_inner = [(''t'', [(''c'', example_state)])], ref_counts = [(''k'', 1)]\<rparr>"

lemmas session_op_defs = session_storage_new_def create_session_state_def append_to_pending_queue_def
  pop_from_pending_queue_def put_session_def ensure_tenant_def get_session_state_def inc_ref_def dec_ref_def
  hm_modify_def hm_or_insert_def

lemma example_queued_applied:
  "session_apply mem_kv mem_store id clock example_queued example_node =
     (example_node\<lparr>applied_log_id := Some 2, session_storage := example_storage\<rparr>, Ok [NoResponse, NoResponse])"
  by (simp add: example_queued_def example_node_def session_op_defs replies_then_def example_storage_def
      example_state_def new_with_options_def)

lemma mem_store_get: "ps_get mem_store k db = Ok (mem_held db k)"
  by (simp add: rocks_store_def rocks_get_def rocks_view_def mem_view_def mem_kv_def)

lemma example_popped_applied:
  "session_apply mem_kv mem_store id clock example_popped
     (example_node\<lparr>applied_log_id := Some 2, session_storage := example_storage\<rparr>) =
     (schedule_payload_gc mem_kv 3 ''k'' (example_node\<lparr>applied_log_id := Some 3,
        session_storage := \<lparr>storage_inner = [(''t'', [(''c'', new_with_options 30 None None)])], ref_counts = []\<rparr>\<rparr>),
      Ok [PopFromPendingQueueResult (Some ''k'') None])"
  by (simp add: example_popped_def example_node_def session_op_defs replies_then_def example_storage_def
      example_state_def new_with_options_def mem_store_get empty_db_held Let_def)

lemma example_log_applied:
  "session_apply mem_kv mem_store id clock (example_queued @ example_popped) example_node =
     (schedule_payload_gc mem_kv 3 ''k'' (example_node\<lparr>applied_log_id := Some 3,
        session_storage := \<lparr>storage_inner = [(''t'', [(''c'', new_with_options 30 None None)])], ref_counts = []\<rparr>\<rparr>),
      Ok [NoResponse, NoResponse, PopFromPendingQueueResult (Some ''k'') None])"
  using session_apply_append [OF example_queued_applied [of clock], of example_popped] example_popped_applied [of clock]
  by (simp add: replies_then_def)

lemma example_exact: "exact_log mem_kv mem_store id clock (example_queued @ example_popped) example_node"
  unfolding exact_log_append [OF example_queued_applied [of clock]]
  by (simp add: example_queued_def example_popped_def example_node_def session_storage_new_def get_session_state_def)

theorem payloads_accounted_witness:
  "session_apply mem_kv mem_store id (\<lambda>_. 0) example_queued example_node =
     (example_node\<lparr>applied_log_id := Some 2, session_storage := example_storage\<rparr>, Ok [NoResponse, NoResponse]) \<and>
   ''k'' \<in># total_refs example_storage \<and>
   ''k'' \<in> gc_keys (fst (session_apply mem_kv mem_store id (\<lambda>_. 0) (example_queued @ example_popped) example_node))"
proof -
  have k: "''k'' \<in># total_refs example_storage"
    by (simp add: total_refs_def example_storage_def example_state_def session_refs_def)
  have "total_refs \<lparr>storage_inner = [(''t'', [(''c'', new_with_options 30 None None)])], ref_counts = []\<rparr> = {#}"
    by (simp add: total_refs_def session_refs_def new_with_options_def)
  moreover have n: "session_storage example_node = session_storage_new"
    "length (example_queued @ example_popped) < 2 ^ 64"
    by (simp_all add: example_node_def example_queued_def example_popped_def)
  ultimately have "''k'' \<in> gc_keys (fst (session_apply mem_kv mem_store id (\<lambda>_. 0) (example_queued @ example_popped) example_node))"
    using payloads_accounted [OF n example_exact [of "\<lambda>_. 0"] example_queued_applied [of "\<lambda>_. 0"]
      example_log_applied [of "\<lambda>_. 0"]] k
    unfolding example_log_applied fst_conv by auto
  with k example_queued_applied show ?thesis by simp
qed

theorem replicas_agree_up_to_clocks_witness:
  "snd (session_apply mem_kv mem_store id (\<lambda>_. 5) example_queued example_node) =
     snd (session_apply mem_kv mem_store id (\<lambda>_. 9) example_queued example_node) \<and>
   untime_node (fst (session_apply mem_kv mem_store id (\<lambda>_. 5) example_queued example_node)) =
     untime_node (fst (session_apply mem_kv mem_store id (\<lambda>_. 9) example_queued example_node))"
  using replicas_agree_up_to_clocks [OF refl example_queued_applied [of "\<lambda>_. 5"] example_queued_applied [of "\<lambda>_. 9"]]
  by (simp add: example_queued_applied)


end
