(* ===== verification/Utf8_Lossy.thy ===== *)
theory Utf8_Lossy
  imports Broker_Prelude
begin

text \<open>
  Reading bytes as text where they may not be UTF-8, as the standard library does it.
\<close>

text \<open>
  \<open>String::from_utf8_lossy\<close>: every maximal piece of an ill-formed sequence becomes one replacement
  character.
\<close>

abbreviation replacement_character :: bytes where
  "replacement_character \<equiv> [0xEF, 0xBF, 0xBD]"

fun utf8_lossy :: "bytes \<Rightarrow> bytes" where
  "utf8_lossy [] = []"
| "utf8_lossy (b # bs) =
     (if b < 0x80 then b # utf8_lossy bs
      else if 0xC2 \<le> b \<and> b \<le> 0xDF then
        (case bs of
           c # r \<Rightarrow> if utf8_cont c then b # c # utf8_lossy r else replacement_character @ utf8_lossy bs
         | [] \<Rightarrow> replacement_character)
      else if 0xE0 \<le> b \<and> b \<le> 0xEF then
        (case bs of
           c # r \<Rightarrow>
             if \<not> utf8_second3 b c then replacement_character @ utf8_lossy bs
             else (case r of
               d # r' \<Rightarrow> if utf8_cont d then b # c # d # utf8_lossy r' else replacement_character @ utf8_lossy r
             | [] \<Rightarrow> replacement_character)
         | [] \<Rightarrow> replacement_character)
      else
        (case bs of
           c # r \<Rightarrow>
             if \<not> utf8_second4 b c then replacement_character @ utf8_lossy bs
             else (case r of
               d # r' \<Rightarrow>
                 if \<not> utf8_cont d then replacement_character @ utf8_lossy r
                 else (case r' of
                   e # r'' \<Rightarrow>
                     if utf8_cont e then b # c # d # e # utf8_lossy r'' else replacement_character @ utf8_lossy r'
                 | [] \<Rightarrow> replacement_character)
             | [] \<Rightarrow> replacement_character)
         | [] \<Rightarrow> replacement_character))"

definition from_utf8_lossy :: "bytes \<Rightarrow> string" where
  "from_utf8_lossy bs = map char_of_byte (utf8_lossy bs)"

declare utf8_lossy.simps(2) [simp del]

lemma utf8_lossy_valid: "utf8_valid bs \<Longrightarrow> utf8_lossy bs = bs"
proof (induction bs rule: measure_induct_rule [where f = length])
  case (less bs)
  show ?case
  proof (cases bs)
    case (Cons b r)
    consider "b < 0x80" "utf8_valid r"
      | c r1 where "\<not> b < 0x80" "0xC2 \<le> b \<and> b \<le> 0xDF" "r = c # r1" "utf8_cont c" "utf8_valid r1"
      | c d r2 where "\<not> b < 0x80" "\<not> (0xC2 \<le> b \<and> b \<le> 0xDF)" "0xE0 \<le> b \<and> b \<le> 0xEF" "r = c # d # r2"
          "utf8_second3 b c" "utf8_cont d" "utf8_valid r2"
      | c d e r3 where "\<not> b < 0x80" "\<not> (0xC2 \<le> b \<and> b \<le> 0xDF)" "\<not> (0xE0 \<le> b \<and> b \<le> 0xEF)"
          "r = c # d # e # r3" "utf8_second4 b c" "utf8_cont d" "utf8_cont e" "utf8_valid r3"
      using less.prems unfolding Cons utf8_valid.simps(2) by (auto simp del: utf8_valid.simps split: if_splits list.splits)
    then show ?thesis
    proof cases
      case 1
      then show ?thesis using less.IH [of r] unfolding Cons by (subst utf8_lossy.simps(2)) simp
    next
      case 2
      then show ?thesis using less.IH [of r1] unfolding Cons by (subst utf8_lossy.simps(2)) simp
    next
      case 3
      then show ?thesis using less.IH [of r2] unfolding Cons by (subst utf8_lossy.simps(2)) auto
    next
      case 4
      then show ?thesis using less.IH [of r3] unfolding Cons by (subst utf8_lossy.simps(2)) auto
    qed
  qed simp
qed

lemma from_utf8_lossy_valid: "valid_str s \<Longrightarrow> from_utf8_lossy (as_bytes s) = s"
  by (simp add: from_utf8_lossy_def utf8_lossy_valid valid_str_def)

end
