(* ===== verification/Session_Store.thy ===== *)
theory Session_Store
  imports Session_State_Machine Utf8_Lossy
begin

text \<open>
  The persistent side of the replicated session states, the second half of
  \<open>broker/src/raft/session_state/store.rs\<close> and the integrity check of
  \<open>session_state_raft_actor.rs\<close>: the log that refuses entries whose payload is missing, the removal of
  payloads when the log is purged, restarting, and snapshots with the payloads they refer to.
\<close>

section \<open>Appending behind the payload barrier\<close>

text \<open>
  The loop waits up to five times for the payload; \<open>others\<close> is what concurrent tasks do to the payload
  store during one wait.
\<close>

fun wait_payload ::
  "'ps payload_store \<Rightarrow> ('ps \<Rightarrow> 'ps) \<Rightarrow> nat \<Rightarrow> string \<Rightarrow> 'ps \<Rightarrow> bool \<times> 'ps" where
  "wait_payload ps others 0 key s = (False, s)"
| "wait_payload ps others (Suc n) key s =
     (case ps_contains ps key s of
        Ok True \<Rightarrow> (True, s)
      | _ \<Rightarrow> wait_payload ps others n key (others s))"

text \<open>\<open>term_of\<close> is the term of the leader that wrote an entry.\<close>

definition need_payload_check ::
  "'db kv_store \<Rightarrow> ('l, session_state_request, 'm) log_codec \<Rightarrow> ('l \<Rightarrow> u64) \<Rightarrow> u64 \<Rightarrow>
   ('l, session_state_request, 'm) entry \<Rightarrow> 'db \<Rightarrow> (bool, session_store_error) result" where
  "need_payload_check kv cd term_of last_persisted ent db =
     (let i = log_index cd (entry_log_id ent) in
      if i > last_persisted then Ok True
      else
        and_then (try_get_log_entries kv cd (Included i, Included i) db) (\<lambda>existing.
        Ok (case existing of
              e # _ \<Rightarrow> term_of (entry_log_id e) \<noteq> term_of (entry_log_id ent)
            | [] \<Rightarrow> True)))"

text \<open>Of the error's message the part with the index and the term is left out.\<close>

definition payload_barrier ::
  "'ps payload_store \<Rightarrow> ('ps \<Rightarrow> 'ps) \<Rightarrow> ('l, session_state_request, 'm) entry \<Rightarrow>
   (unit, session_store_error, ('l, 'm, 'db, 'ps) session_node) op" where
  "payload_barrier ps others ent node =
     (case entry_payload_key ent of
        None \<Rightarrow> (Ok (), node)
      | Some key \<Rightarrow>
          (let (found, s) = wait_payload ps others 5 key (node_payloads node);
               node = node\<lparr>node_payloads := s\<rparr> in
           if found then (Ok (), node) else (Err (IoError (''Payload missing for key: '' @ key)), node)))"

definition session_append_entry ::
  "'db kv_store \<Rightarrow> ('l, session_state_request, 'm) log_codec \<Rightarrow> ('l \<Rightarrow> u64) \<Rightarrow> 'ps payload_store \<Rightarrow> ('ps \<Rightarrow> 'ps) \<Rightarrow>
   u64 \<Rightarrow> ('l, session_state_request, 'm) entry \<Rightarrow> (unit, session_store_error, ('l, 'm, 'db, 'ps) session_node) op" where
  "session_append_entry kv cd term_of ps others last_persisted ent =
     bind_op (read_op (\<lambda>node. need_payload_check kv cd term_of last_persisted ent (node_db node))) (\<lambda>need.
     bind_op (if need then payload_barrier ps others ent else pure_op ()) (\<lambda>_.
     bind_op (lift_op (map_err SerdeError (enc_entry cd ent))) (\<lambda>bs.
     on_db (map_err_op DbError (kv_put kv ''logs'' (id_to_bin (log_index cd (entry_log_id ent))) bs)))))"

definition session_append ::
  "'db kv_store \<Rightarrow> ('l, session_state_request, 'm) log_codec \<Rightarrow> ('l \<Rightarrow> u64) \<Rightarrow> 'ps payload_store \<Rightarrow> ('ps \<Rightarrow> 'ps) \<Rightarrow>
   ('l, session_state_request, 'm) entry list \<Rightarrow> (unit, session_store_error, ('l, 'm, 'db, 'ps) session_node) op" where
  "session_append kv cd term_of ps others entries =
     (if entries = [] then pure_op ()
      else
        bind_op (read_op (\<lambda>node. get_log_state kv cd (node_db node))) (\<lambda>log_state.
        let last_persisted = (case last_log_id log_state of Some l \<Rightarrow> log_index cd l | None \<Rightarrow> 0) in
        for_op (session_append_entry kv cd term_of ps others last_persisted) entries))"

section \<open>Purging and the removal of payloads\<close>

definition requeue :: "payload_gc_item \<Rightarrow> ('l, 'm, 'db, 'ps) session_node \<Rightarrow> ('l, 'm, 'db, 'ps) session_node" where
  "requeue item node = node\<lparr>payload_gc_queue := payload_gc_queue node @ [item]\<rparr>"

definition gc_payload ::
  "'db kv_store \<Rightarrow> 'ps payload_store \<Rightarrow> payload_gc_item \<Rightarrow> ('l, 'm, 'db, 'ps) session_node \<Rightarrow>
   ('l, 'm, 'db, 'ps) session_node" where
  "gc_payload kv ps item node =
     (let (deleted, node) =
        (if payload_deleted item then (True, node)
         else case on_payloads (ps_delete ps (gc_key item)) node of
           (Ok _, node) \<Rightarrow> (True, node)
         | (Err (PayloadNotFound _), node) \<Rightarrow> (True, node)
         | (Err _, node) \<Rightarrow> (False, node)) in
      if \<not> deleted then requeue item node
      else
        let item = item\<lparr>payload_deleted := True\<rparr> in
        (case on_db (kv_delete kv ''payload_gc''
            (payload_gc_record_key (delete_after_log_index item) (gc_key item))) node of
           (Ok _, node) \<Rightarrow> node
         | (Err _, node) \<Rightarrow> requeue item node))"

definition session_purge ::
  "'db kv_store \<Rightarrow> ('l, session_state_request, 'm) log_codec \<Rightarrow> 'ps payload_store \<Rightarrow> 'l \<Rightarrow>
   (unit, session_store_error, ('l, 'm, 'db, 'ps) session_node) op" where
  "session_purge kv cd ps log_id =
     bind_op (on_db (log_purge kv cd log_id)) (\<lambda>_.
     modify_op (\<lambda>node.
       let due = filter (\<lambda>item. delete_after_log_index item \<le> log_index cd log_id) (payload_gc_queue node);
           keep = filter (\<lambda>item. \<not> delete_after_log_index item \<le> log_index cd log_id) (payload_gc_queue node) in
       fold (gc_payload kv ps) due (node\<lparr>payload_gc_queue := keep\<rparr>)))"

section \<open>Starting\<close>

fun restore_gc_queue :: "(bytes \<times> bytes, string) result list \<Rightarrow> payload_gc_item list" where
  "restore_gc_queue [] = []"
| "restore_gc_queue (Err e # rest) = restore_gc_queue rest"
| "restore_gc_queue (Ok (k, v) # rest) =
     (if length k < 8 then restore_gc_queue rest
      else case bin_to_id (take 8 k) of
        Ok index \<Rightarrow>
          \<lparr>delete_after_log_index = index, gc_key = from_utf8_lossy v, payload_deleted = False\<rparr> # restore_gc_queue rest
      | Err _ \<Rightarrow> restore_gc_queue rest)"

type_synonym ('l, 'm) session_codec = "(serializable_session_state_storage, 'l, 'm) snapshot_codec"

definition session_update_state_machine ::
  "('l, 'm) session_codec \<Rightarrow> ('l, 'm) stored_snapshot \<Rightarrow>
   (unit, session_store_error, ('l, 'm, 'db, 'ps) session_node) op" where
  "session_update_state_machine sc snapshot node =
     (case unwrap sc (snap_data snapshot) of
        Err e \<Rightarrow> (Err (SerdeError e), node)
      | Ok data \<Rightarrow>
          let node = node\<lparr>applied_log_id := meta_last_log_id (snap_meta snapshot),
                          applied_membership := meta_last_membership (snap_meta snapshot)\<rparr> in
          (case session_from_snapshot (from_slice sc) data of
             Err e \<Rightarrow> (Err (SerdeError e), node)
           | Ok st \<Rightarrow> (Ok (), node\<lparr>session_storage := st\<rparr>)))"

definition session_new_storage ::
  "'db kv_store \<Rightarrow> ('l, 'm) session_codec \<Rightarrow> 'l option \<times> 'm \<Rightarrow> session_state_storage \<Rightarrow> 'ps \<Rightarrow> 'db \<Rightarrow>
   (('l, 'm, 'db, 'ps) session_node, session_store_error) result" where
  "session_new_storage kv sc membership st payloads db =
     (let node =
        \<lparr>applied_log_id = None, applied_membership = membership, session_storage = st,
         payload_gc_queue = restore_gc_queue (kv_scan kv ''payload_gc'' [] db),
         node_db = db, node_payloads = payloads, is_ready = True\<rparr> in
      and_then (get_current_snapshot kv (dec_snapshot sc) db) (\<lambda>snapshot.
      case snapshot of
        None \<Rightarrow> Ok node
      | Some snap \<Rightarrow>
          (case session_update_state_machine sc snap node of (Ok _, node) \<Rightarrow> Ok node | (Err e, _) \<Rightarrow> Err e)))"

section \<open>Snapshots\<close>

definition session_build_snapshot ::
  "'db kv_store \<Rightarrow> ('l, 'm) session_codec \<Rightarrow>
   (('l, 'm) stored_snapshot, session_store_error, ('l, 'm, 'db, 'ps) session_node) op" where
  "session_build_snapshot kv sc node =
     bind_op (lift_op (map_err SerdeError (session_to_snapshot (to_vec sc) (session_storage node)))) (\<lambda>data.
     bind_op (lift_op (map_err SerdeError (wrap sc data))) (\<lambda>json.
     let snapshot =
       \<lparr>snap_meta = \<lparr>meta_last_log_id = applied_log_id node, meta_last_membership = applied_membership node,
                    meta_snapshot_id = snapshot_id sc (applied_log_id node)\<rparr>,
        snap_data = json\<rparr> in
     bind_op (on_db (set_current_snapshot kv (enc_snapshot sc) snapshot)) (\<lambda>_. pure_op snapshot))) node"

text \<open>
  The cluster as a node sees it: its own identifier, the nodes of a membership with their addresses,
  the calls to an address and the network behind them, and the sizes and checksum of the transfer.
\<close>

record ('m, 'a, 'n) cluster =
  own_node_id :: u64
  membership_nodes :: "'m \<Rightarrow> (u64 \<times> 'a) list"
  node_rpc :: "'a \<Rightarrow> 'n payload_rpc"
  network :: 'n
  delimiter_len :: "nat \<Rightarrow> nat"
  sync_id_len :: nat
  sync_base :: nat
  checksum_of :: "bytes \<Rightarrow> u32"

definition sync_payloads ::
  "('m, 'a, 'n) cluster \<Rightarrow> 'ps payload_store \<Rightarrow> 'a \<Rightarrow> string list \<Rightarrow> (unit, sync_error, 'ps) op" where
  "sync_payloads cl ps addr keys =
     bulk_sync (delimiter_len cl) (sync_id_len cl) (sync_base cl) (checksum_of cl) (node_rpc cl addr) (network cl) ps
       (map (\<lambda>k. (k, 0, 0)) keys)"

fun sync_from_nodes ::
  "('m, 'a, 'n) cluster \<Rightarrow> 'ps payload_store \<Rightarrow> string list \<Rightarrow> (u64 \<times> 'a) list \<Rightarrow> 'ps \<Rightarrow> bool \<times> 'ps" where
  "sync_from_nodes cl ps missing [] s = (False, s)"
| "sync_from_nodes cl ps missing ((node_id, addr) # nodes) s =
     (if node_id = own_node_id cl then sync_from_nodes cl ps missing nodes s
      else case sync_payloads cl ps addr missing s of
        (Ok _, s) \<Rightarrow> (True, s)
      | (Err _, s) \<Rightarrow> sync_from_nodes cl ps missing nodes s)"

definition contains_or_false :: "'ps payload_store \<Rightarrow> string \<Rightarrow> 'ps \<Rightarrow> bool" where
  "contains_or_false ps key s = (case ps_contains ps key s of Ok b \<Rightarrow> b | Err _ \<Rightarrow> False)"

definition snapshot_payload_keys :: "serializable_session_state_storage \<Rightarrow> string list" where
  "snapshot_payload_keys d =
     remdups (concat (map (\<lambda>(_, sessions). concat (map (\<lambda>(_, s).
       pending_messages s @ get_all_packet_keys (session_inflight s)) sessions)) (ser_inner d)))"

definition bring_payloads ::
  "('m, 'a, 'n) cluster \<Rightarrow> 'ps payload_store \<Rightarrow> 'm \<Rightarrow> serializable_session_state_storage \<Rightarrow>
   (unit, session_store_error, ('l, 'm, 'db, 'ps) session_node) op" where
  "bring_payloads cl ps membership d node =
     (let missing = filter (\<lambda>k. \<not> contains_or_false ps k (node_payloads node)) (snapshot_payload_keys d) in
      if missing = [] then (Ok (), node)
      else
        let (synced, s) = sync_from_nodes cl ps missing (membership_nodes cl membership) (node_payloads node);
            node = node\<lparr>node_payloads := s\<rparr> in
        if synced then (Ok (), node) else (Err (IoError ''Payload sync failed''), node))"

definition session_install_snapshot ::
  "'db kv_store \<Rightarrow> ('l, 'm) session_codec \<Rightarrow> ('m, 'a, 'n) cluster \<Rightarrow> 'ps payload_store \<Rightarrow> ('l, 'm) stored_snapshot \<Rightarrow>
   (unit, session_store_error, ('l, 'm, 'db, 'ps) session_node) op" where
  "session_install_snapshot kv sc cl ps snapshot =
     bind_op (modify_op (\<lambda>node. node\<lparr>is_ready := False\<rparr>)) (\<lambda>_.
     bind_op (lift_op (map_err SerdeError (unwrap sc (snap_data snapshot)))) (\<lambda>data.
     bind_op (lift_op (map_err SerdeError (from_slice sc data))) (\<lambda>d.
     bind_op (bring_payloads cl ps (snd (meta_last_membership (snap_meta snapshot))) d) (\<lambda>_.
     bind_op (session_update_state_machine sc snapshot) (\<lambda>_.
     bind_op (on_db (set_current_snapshot kv (enc_snapshot sc) snapshot)) (\<lambda>_.
     modify_op (\<lambda>node. node\<lparr>is_ready := True\<rparr>)))))))"

section \<open>The integrity check\<close>

definition get_active_payload_keys :: "('l, 'm, 'db, 'ps) session_node \<Rightarrow> string list" where
  "get_active_payload_keys node = map fst (ref_counts (session_storage node))"

text \<open>\<open>leader\<close> is the address of the current leader, when there is one among the members.\<close>

definition perform_integrity_check ::
  "('m, 'a, 'n) cluster \<Rightarrow> 'ps payload_store \<Rightarrow> 'a option \<Rightarrow> ('l, 'm, 'db, 'ps) session_node \<Rightarrow>
   ('l, 'm, 'db, 'ps) session_node" where
  "perform_integrity_check cl ps leader node =
     (let missing = filter (\<lambda>k. \<not> contains_or_false ps k (node_payloads node)) (get_active_payload_keys node) in
      if missing = [] then node\<lparr>is_ready := True\<rparr>
      else
        let node = node\<lparr>is_ready := False\<rparr> in
        (case leader of
           None \<Rightarrow> node
         | Some addr \<Rightarrow> node\<lparr>node_payloads := snd (sync_payloads cl ps addr missing (node_payloads node))\<rparr>))"

section \<open>What a purge removes\<close>

lemma requeue_simps [simp]:
  "node_payloads (requeue item node) = node_payloads node"
  "session_storage (requeue item node) = session_storage node"
  "node_db (requeue item node) = node_db node"
  by (simp_all add: requeue_def)

lemma on_db_payloads [simp]:
  "node_payloads (snd (on_db m node)) = node_payloads node"
  "session_storage (snd (on_db m node)) = session_storage node"
  "payload_gc_queue (snd (on_db m node)) = payload_gc_queue node"
  by (simp_all add: on_db_def split: prod.split)

lemma on_db_eq:
  "on_db m node = (r, node') \<Longrightarrow> node_payloads node' = node_payloads node \<and>
     session_storage node' = session_storage node \<and> payload_gc_queue node' = payload_gc_queue node \<and>
     m (node_db node) = (r, node_db node')"
  by (auto simp: on_db_def split: prod.splits)

lemma gc_payload_keeps:
  assumes "payload_laws ps view" and "k \<noteq> gc_key item"
  shows "view (node_payloads (gc_payload kv ps item node)) k = view (node_payloads node) k"
proof -
  obtain r s where d: "ps_delete ps (gc_key item) (node_payloads node) = (r, s)" by fastforce
  have s: "view s k = view (node_payloads node) k"
    using payload_lawsD(4,5) [OF assms(1)] d assms(2) by (cases r) fastforce+
  have e: "on_payloads (ps_delete ps (gc_key item)) node = (r, node\<lparr>node_payloads := s\<rparr>)"
    by (simp add: on_payloads_def d)
  define out where "out =
    (if payload_deleted item then (True, node)
     else case on_payloads (ps_delete ps (gc_key item)) node of
       (Ok _, node) \<Rightarrow> (True, node)
     | (Err (PayloadNotFound _), node) \<Rightarrow> (True, node)
     | (Err _, node) \<Rightarrow> (False, node))"
  have o: "view (node_payloads (snd out)) k = view (node_payloads node) k"
    using s by (auto simp: out_def e split: result.split payload_error.split)
  have "node_payloads (gc_payload kv ps item node) = node_payloads (snd out)"
    unfolding gc_payload_def out_def [symmetric]
    by (cases out) (auto simp: Let_def dest: on_db_eq split: prod.split result.split)
  with o show ?thesis by simp
qed

lemma gc_payloads_keep:
  assumes "payload_laws ps view"
  shows "k \<notin> gc_key ` set items \<Longrightarrow>
    view (node_payloads (fold (gc_payload kv ps) items node)) k = view (node_payloads node) k"
  by (induction items arbitrary: node) (auto simp: gc_payload_keeps [OF assms])

lemma session_purge_keeps:
  assumes "payload_laws ps view" and "session_purge kv cd ps log_id node = (r, node')"
    and "\<And>item. item \<in> set (payload_gc_queue node) \<Longrightarrow> delete_after_log_index item \<le> log_index cd log_id \<Longrightarrow>
      gc_key item \<noteq> k"
  shows "view (node_payloads node') k = view (node_payloads node) k"
proof -
  obtain r1 node1 where p: "on_db (log_purge kv cd log_id :: (_, session_store_error, _) op) node = (r1, node1)" by fastforce
  note q = on_db_eq [OF p]
  have "k \<notin> gc_key ` set (filter (\<lambda>item. delete_after_log_index item \<le> log_index cd log_id) (payload_gc_queue node))"
    using assms(3) by auto
  then show ?thesis
    using assms(2) p q
    by (cases r1) (auto simp: session_purge_def bind_op_def modify_op_def Let_def gc_payloads_keep [OF assms(1)])
qed

section \<open>The records of the queue\<close>

text \<open>A record read back: its key is the index and the payload key, and only those are restored.\<close>

lemma restore_gc_queue_sound:
  assumes "\<forall>e\<in>set kvs. \<exists>item\<in>items. fst e = payload_gc_record_key (delete_after_log_index item) (gc_key item) \<and>
      snd e = as_bytes (gc_key item) \<and> valid_str (gc_key item)"
    and "item' \<in> set (restore_gc_queue (map Ok kvs))"
  shows "\<exists>item\<in>items. delete_after_log_index item' = delete_after_log_index item \<and> gc_key item' = gc_key item"
  using assms
proof (induction kvs)
  case (Cons e kvs)
  obtain item where item: "item \<in> items" "fst e = payload_gc_record_key (delete_after_log_index item) (gc_key item)"
    "snd e = as_bytes (gc_key item)" "valid_str (gc_key item)"
    using Cons.prems(1) by auto
  have "take 8 (fst e) = id_to_bin (delete_after_log_index item)" "\<not> length (fst e) < 8"
    by (simp_all add: item(2) payload_gc_record_key_def)
  then have r: "restore_gc_queue (map Ok (e # kvs)) =
      \<lparr>delete_after_log_index = delete_after_log_index item, gc_key = gc_key item, payload_deleted = False\<rparr> #
      restore_gc_queue (map Ok kvs)"
    using item(3,4) by (cases e) (simp add: from_utf8_lossy_valid)
  show ?case
    using Cons.prems(2) Cons.IH Cons.prems(1) item(1) unfolding r by auto
qed simp

definition gc_records_ok ::
  "('db \<Rightarrow> string \<Rightarrow> bytes \<Rightarrow> bytes option) \<Rightarrow> ('l, 'm, 'db, 'ps) session_node \<Rightarrow> bool" where
  "gc_records_ok view node \<longleftrightarrow>
     (\<forall>k v. view (node_db node) ''payload_gc'' k = Some v \<longrightarrow>
        (\<exists>item\<in>set (payload_gc_queue node).
           k = payload_gc_record_key (delete_after_log_index item) (gc_key item) \<and> v = as_bytes (gc_key item)))"

lemma schedule_records_ok:
  assumes "kv_laws kv view" and "gc_records_ok view node"
  shows "gc_records_ok view (schedule_payload_gc kv i k node)"
proof -
  obtain r db where p: "kv_put kv ''payload_gc'' (payload_gc_record_key i k) (as_bytes k) (node_db node) = (r, db)"
    by fastforce
  have q: "payload_gc_queue (schedule_payload_gc kv i k node) = payload_gc_queue node @
      [\<lparr>delete_after_log_index = i, gc_key = k, payload_deleted = False\<rparr>]" "node_db (schedule_payload_gc kv i k node) = db"
    by (simp_all add: schedule_payload_gc_def on_db_def p Let_def)
  have "view db = (case r of Ok _ \<Rightarrow> (view (node_db node))(''payload_gc'' :=
      (view (node_db node) ''payload_gc'')(payload_gc_record_key i k \<mapsto> as_bytes k)) | Err _ \<Rightarrow> view (node_db node))"
    using kv_writesD [OF kv_lawsD(2) [OF assms(1)]] p by (cases r) auto
  with assms(2) show ?thesis
    unfolding gc_records_ok_def q by (cases r) (auto split: if_splits)
qed

lemma schedule_all_records_ok:
  assumes "kv_laws kv view"
  shows "gc_records_ok view node \<Longrightarrow> gc_records_ok view (fold (schedule_payload_gc kv i) ks node)"
  by (induction ks arbitrary: node) (simp_all add: schedule_records_ok [OF assms])

lemma session_apply_records_ok:
  assumes "kv_laws kv view"
  shows "gc_records_ok view node \<Longrightarrow> gc_records_ok view (fst (session_apply kv ps index clock es node))"
proof (induction es arbitrary: node)
  case (Cons ent rest)
  have "gc_records_ok view (node\<lparr>applied_log_id := i\<rparr>)" "gc_records_ok view (node\<lparr>applied_log_id := i, session_storage := st\<rparr>)"
    "gc_records_ok view (node\<lparr>applied_log_id := i, applied_membership := m\<rparr>)" for i m st
    using Cons.prems by (simp_all add: gc_records_ok_def)
  then show ?case
    by (auto simp: Let_def intro!: Cons.IH schedule_all_records_ok [OF assms]
        split: entry_payload.split option.split)
qed simp

section \<open>Properties of the removal\<close>

text \<open>The queue of a running node, or the one restored from its database.\<close>

definition gc_queue_of ::
  "'db kv_store \<Rightarrow> ('l, 'm, 'db, 'ps) session_node \<Rightarrow> payload_gc_item list \<Rightarrow> bool" where
  "gc_queue_of kv node queue \<longleftrightarrow>
     queue = payload_gc_queue node \<or>
     (\<forall>r\<in>set (kv_scan kv ''payload_gc'' [] (node_db node)). case r of Ok _ \<Rightarrow> True | Err _ \<Rightarrow> False) \<and>
     queue = restore_gc_queue (kv_scan kv ''payload_gc'' [] (node_db node))"

lemma all_Ok_map: "\<forall>r\<in>set rs. case r of Ok _ \<Rightarrow> True | Err _ \<Rightarrow> False \<Longrightarrow> \<exists>xs. rs = map Ok xs"
proof (induction rs)
  case (Cons r rs)
  then obtain x xs where "r = Ok x" "rs = map Ok xs" by (cases r) auto
  then show ?case by (intro exI [of _ "x # xs"]) simp
qed simp

lemma gc_queue_of_sound:
  assumes "kv_laws kv view" and "gc_records_ok view node" and "gc_queue_of kv node queue"
    and "\<forall>item\<in>set (payload_gc_queue node). valid_str (gc_key item)" and "item \<in> set queue"
  shows "\<exists>item'\<in>set (payload_gc_queue node).
    delete_after_log_index item = delete_after_log_index item' \<and> gc_key item = gc_key item'"
proof (cases "queue = payload_gc_queue node")
  case False
  with assms(3) obtain kvs where kvs: "kv_scan kv ''payload_gc'' [] (node_db node) = map Ok kvs"
    "queue = restore_gc_queue (map Ok kvs)"
    unfolding gc_queue_of_def using all_Ok_map by metis
  show ?thesis
  proof (rule restore_gc_queue_sound)
    show "item \<in> set (restore_gc_queue (map Ok kvs))" using assms(5) kvs(2) by simp
    show "\<forall>e\<in>set kvs. \<exists>item\<in>set (payload_gc_queue node).
        fst e = payload_gc_record_key (delete_after_log_index item) (gc_key item) \<and>
        snd e = as_bytes (gc_key item) \<and> valid_str (gc_key item)"
      using kv_lawsD(6) [OF assms(1) kvs(1)] assms(2,4) unfolding gc_records_ok_def by fastforce
  qed
qed (use assms(5) in auto)

text \<open>
  C4: Purging never removes a payload that is still needed. Take a node that applied a log in which
  payloads are registered under fresh keys, and purge it up to some index, with the queue it has or
  with the queue it restores from its database after a restart. Then every payload that the session
  states refer to, at the end of the log or at any earlier point that includes all entries up to the
  purged index (where a snapshot may have been taken, from which the node restarts), is untouched.
\<close>

theorem purge_keeps_needed_payloads:
  assumes "kv_laws kv kview" and "payload_laws ps view"
    and "session_storage node = session_storage_new" and "payload_gc_queue node = []"
    and "kview (node_db node) ''payload_gc'' = Map.empty"
    and "length (es @ es') < 2 ^ 64" and "fresh_keys kv ps (log_index cd) clock (es @ es') node"
    and "session_apply kv ps (log_index cd) clock es node = (node1, Ok rs)"
    and "session_apply kv ps (log_index cd) clock (es @ es') node = (node2, r)"
    and "\<forall>e\<in>set es'. log_index cd log_id < log_index cd (entry_log_id e)"
    and "\<forall>item\<in>set (payload_gc_queue node2). valid_str (gc_key item)" and "gc_queue_of kv node2 queue"
    and "session_purge kv cd ps log_id (node2\<lparr>payload_gc_queue := queue\<rparr>) = (r', node3)"
  shows "\<forall>k. k \<in># total_refs (session_storage node1) \<longrightarrow>
    view (node_payloads node3) k = view (node_payloads node2) k"
proof (intro allI impI)
  fix k assume k: "k \<in># total_refs (session_storage node1)"
  have fresh: "fresh_keys kv ps (log_index cd) clock es node"
    using assms(7) fresh_keys_append [OF assms(8)] by blast
  have "gc_ok 0 node"
    using assms(3,4) by (simp add: gc_ok_def covered_def gc_keys_def)
  then obtain n where "gc_ok n node1"
    using gc_ok_log [OF _ _ fresh, of 0] assms(6,8) by auto
  then have unref: "gc_key item \<noteq> k" if "item \<in> set (payload_gc_queue node1)" for item
    using k that by (auto simp: gc_ok_def gc_keys_def)
  have n2: "node2 = fst (session_apply kv ps (log_index cd) clock es' node1)"
    using session_apply_append [OF assms(8), of es'] assms(9) by (simp add: replies_then_def)
  obtain items where items: "payload_gc_queue node2 = payload_gc_queue node1 @ items"
    "\<forall>item\<in>set items. \<exists>e\<in>set es'. delete_after_log_index item = log_index cd (entry_log_id e)"
    using session_apply_queue [of kv ps "log_index cd" clock es' node1] n2 by auto
  have rec: "gc_records_ok kview node2"
    using session_apply_records_ok [OF assms(1), of node ps "log_index cd" clock "es @ es'"] assms(4,5,9)
    by (simp add: gc_records_ok_def)
  have "gc_key item \<noteq> k" if i: "item \<in> set queue" "delete_after_log_index item \<le> log_index cd log_id" for item
  proof -
    obtain item' where "item' \<in> set (payload_gc_queue node2)"
      "delete_after_log_index item' \<le> log_index cd log_id" "gc_key item = gc_key item'"
      using gc_queue_of_sound [OF assms(1) rec assms(12,11) i(1)] i(2) by auto
    moreover from this have "item' \<notin> set items"
      using items(2) assms(10) by fastforce
    ultimately show ?thesis using items(1) unref by auto
  qed
  then show "view (node_payloads node3) k = view (node_payloads node2) k"
    using session_purge_keeps [OF assms(2,13), of k] by simp
qed

section \<open>Properties of the barrier\<close>

text \<open>Nothing is taken out of the payload store while an append waits.\<close>

definition only_adds :: "('ps \<Rightarrow> string \<Rightarrow> bytes option) \<Rightarrow> ('ps \<Rightarrow> 'ps) \<Rightarrow> bool" where
  "only_adds view others \<longleftrightarrow> (\<forall>s k. view s k \<noteq> None \<longrightarrow> view (others s) k \<noteq> None)"

lemma wait_payload_spec:
  assumes "payload_laws ps view" and "only_adds view others"
  shows "wait_payload ps others n key s = (found, s') \<Longrightarrow>
    (found \<longrightarrow> view s' key \<noteq> None) \<and> (\<forall>k. view s k \<noteq> None \<longrightarrow> view s' k \<noteq> None)"
proof (induction n arbitrary: s)
  case (Suc n)
  show ?case
  proof (cases "ps_contains ps key s = Ok True")
    case True
    with Suc.prems payload_lawsD(6) [OF assms(1) True] show ?thesis by auto
  next
    case False
    then have "wait_payload ps others n key (others s) = (found, s')"
      using Suc.prems by (simp split: result.splits bool.splits)
    from Suc.IH [OF this] assms(2) show ?thesis by (auto simp: only_adds_def)
  qed
qed auto

lemma need_payload_check_False:
  assumes "kv_laws kv view" and "log_ok cd (view db)"
    and "kv_scan kv ''logs'' (id_to_bin (log_index cd (entry_log_id ent))) db = map Ok kvs"
    and "need_payload_check kv cd term_of last_persisted ent db = Ok False"
  shows "\<exists>e. log_at cd (view db) (log_index cd (entry_log_id ent)) = Some e \<and>
    term_of (entry_log_id e) = term_of (entry_log_id ent)"
proof -
  let ?i = "log_index cd (entry_log_id ent)"
  obtain es where es: "try_get_log_entries kv cd (Included ?i, Included ?i) db = (Ok es :: (_, session_store_error) result)"
    "set es = {e. \<exists>i. log_at cd (view db) i = Some e \<and> range_contains (Included ?i, Included ?i) i}"
    using try_get_log_entries_exact [where 'e = unit, OF assms(1,2), of "Included ?i" kvs "Included ?i"] assms(3) by auto
  with assms(4) obtain e rest where e: "es = e # rest" "term_of (entry_log_id e) = term_of (entry_log_id ent)"
    by (auto simp: need_payload_check_def Let_def split: if_splits list.splits)
  then have "e \<in> {e. \<exists>i. log_at cd (view db) i = Some e \<and> range_contains (Included ?i, Included ?i) i}"
    using es(2) by (metis list.set_intros(1))
  then have "log_at cd (view db) ?i = Some e" by auto
  with e(2) show ?thesis by blast
qed

definition barrier_holds ::
  "('l, session_state_request, 'm) log_codec \<Rightarrow> ('l \<Rightarrow> u64) \<Rightarrow> (u64 \<Rightarrow> ('l, session_state_request, 'm) entry option) \<Rightarrow>
   (string \<Rightarrow> bytes option) \<Rightarrow> ('l, session_state_request, 'm) entry \<Rightarrow> bool" where
  "barrier_holds cd term_of log payloads ent \<longleftrightarrow>
     (\<forall>key. entry_payload_key ent = Some key \<longrightarrow>
        payloads key \<noteq> None \<or>
        (\<exists>e. log (log_index cd (entry_log_id ent)) = Some e \<and> term_of (entry_log_id e) = term_of (entry_log_id ent)))"

lemma session_append_entry_spec:
  assumes "kv_laws kv kview" and "payload_laws ps view" and "only_adds view others" and "codec_ok cd"
    and "\<And>a db. \<exists>kvs. kv_scan kv ''logs'' a db = map Ok kvs" and "log_ok cd (kview (node_db node))"
    and "session_append_entry kv cd term_of ps others last_persisted ent node = (r, node')"
  shows "log_ok cd (kview (node_db node')) \<and>
    (\<forall>k. view (node_payloads node) k \<noteq> None \<longrightarrow> view (node_payloads node') k \<noteq> None) \<and>
    (case r of
       Ok _ \<Rightarrow> barrier_holds cd term_of (log_at cd (kview (node_db node))) (view (node_payloads node')) ent \<and>
         log_at cd (kview (node_db node')) = (log_at cd (kview (node_db node)))(log_index cd (entry_log_id ent) \<mapsto> ent)
     | Err _ \<Rightarrow> log_at cd (kview (node_db node')) = log_at cd (kview (node_db node)))"
proof -
  let ?i = "log_index cd (entry_log_id ent)"
  let ?need = "need_payload_check kv cd term_of last_persisted ent (node_db node)"
  let ?mono = "\<lambda>n. \<forall>k. view (node_payloads node) k \<noteq> None \<longrightarrow> view (node_payloads n) k \<noteq> None"
  show ?thesis
  proof (cases ?need)
    case (Err e)
    with assms(6,7) show ?thesis by (auto simp: session_append_entry_def bind_op_def read_op_def)
  next
    case (Ok need)
    obtain r1 node1 where b: "(if need then payload_barrier ps others ent else pure_op ()) node = (r1, node1)" by fastforce
    have n1: "node_db node1 = node_db node" "?mono node1"
      using b wait_payload_spec [OF assms(2,3)]
      by (auto simp: payload_barrier_def pure_op_def Let_def split: if_splits option.splits prod.splits)
    show ?thesis
    proof (cases r1)
      case (Err e)
      with assms(6,7) Ok b n1 show ?thesis by (auto simp: session_append_entry_def bind_op_def read_op_def)
    next
      case r1: (Ok u)
      obtain kvs where kvs: "kv_scan kv ''logs'' (id_to_bin ?i) (node_db node) = map Ok kvs" using assms(5) by blast
      have barrier: "barrier_holds cd term_of (log_at cd (kview (node_db node))) (view (node_payloads node1)) ent"
      proof (cases need)
        case True
        with b r1 wait_payload_spec [OF assms(2,3)] show ?thesis
          by (auto simp: payload_barrier_def barrier_holds_def Let_def split: if_splits option.splits prod.splits)
      next
        case False
        with need_payload_check_False [OF assms(1,6) kvs] Ok show ?thesis
          by (auto simp: barrier_holds_def)
      qed
      show ?thesis
      proof (cases "enc_entry cd ent")
        case (Err e)
        with assms(6,7) Ok b r1 n1 show ?thesis
          by (auto simp: session_append_entry_def bind_op_def read_op_def lift_op_def)
      next
        case (Ok bs)
        have put: "on_db (map_err_op DbError (kv_put kv ''logs'' (id_to_bin ?i) bs)) node1 = (r, node')"
          using assms(7) \<open>?need = Ok need\<close> b r1 Ok
          by (auto simp: session_append_entry_def bind_op_def read_op_def lift_op_def)
        have "append_entry kv cd ent (node_db node) = (r, node_db node')"
          using on_db_eq [OF put] Ok n1(1) by (simp add: append_entry_def bind_op_def lift_op_def)
        from append_entry_refines [OF assms(1,4,6) this] show ?thesis
          using on_db_eq [OF put] n1(2) barrier by (cases r) auto
      qed
    qed
  qed
qed

lemma barrier_mono:
  "barrier_holds cd term_of log p ent \<Longrightarrow> \<forall>k. p k \<noteq> None \<longrightarrow> p' k \<noteq> None \<Longrightarrow> barrier_holds cd term_of log p' ent"
  unfolding barrier_holds_def by blast

lemma barrier_cong:
  "log (log_index cd (entry_log_id ent)) = log' (log_index cd (entry_log_id ent)) \<Longrightarrow>
   barrier_holds cd term_of log p ent \<longleftrightarrow> barrier_holds cd term_of log' p ent"
  by (simp add: barrier_holds_def)

text \<open>What an append that wrote the first \<open>n\<close> entries left behind.\<close>

definition appended ::
  "('l, session_state_request, 'm) log_codec \<Rightarrow> ('l \<Rightarrow> u64) \<Rightarrow> (u64 \<Rightarrow> ('l, session_state_request, 'm) entry option) \<Rightarrow>
   ('l, session_state_request, 'm) entry list \<Rightarrow> (u64 \<Rightarrow> ('l, session_state_request, 'm) entry option) \<Rightarrow>
   (string \<Rightarrow> bytes option) \<Rightarrow> bool" where
  "appended cd term_of log es log' payloads \<longleftrightarrow>
     log' = log ++ map_of (rev (map (\<lambda>e. (log_index cd (entry_log_id e), e)) es)) \<and>
     (\<forall>e\<in>set es. barrier_holds cd term_of log payloads e)"

lemma session_append_loop:
  assumes laws: "kv_laws kv kview" "payload_laws ps view" "only_adds view others" "codec_ok cd"
    "\<And>a db. \<exists>kvs. kv_scan kv ''logs'' a db = map Ok kvs"
  shows "log_ok cd (kview (node_db node)) \<Longrightarrow> distinct (map (\<lambda>e. log_index cd (entry_log_id e)) es) \<Longrightarrow>
    for_op (session_append_entry kv cd term_of ps others last_persisted) es node = (r, node') \<Longrightarrow>
    (\<forall>k. view (node_payloads node) k \<noteq> None \<longrightarrow> view (node_payloads node') k \<noteq> None) \<and>
    (\<exists>n\<le>length es. (r = Ok () \<longrightarrow> n = length es) \<and>
      appended cd term_of (log_at cd (kview (node_db node))) (take n es) (log_at cd (kview (node_db node')))
        (view (node_payloads node')))"
proof (induction es arbitrary: node)
  case (Cons e es)
  let ?log = "\<lambda>n. log_at cd (kview (node_db n))" and ?i = "\<lambda>e. log_index cd (entry_log_id e)"
  obtain r1 node1 where a: "session_append_entry kv cd term_of ps others last_persisted e node = (r1, node1)" by fastforce
  note s = session_append_entry_spec [OF laws Cons.prems(1) a]
  show ?case
  proof (cases r1)
    case (Ok u)
    have l: "?log node1 = (?log node)(?i e \<mapsto> e)" "barrier_holds cd term_of (?log node) (view (node_payloads node1)) e"
      using s Ok by simp_all
    have f: "for_op (session_append_entry kv cd term_of ps others last_persisted) es node1 = (r, node')"
      using Cons.prems(3) a Ok by (simp add: bind_op_def)
    obtain n where mono: "\<forall>k. view (node_payloads node1) k \<noteq> None \<longrightarrow> view (node_payloads node') k \<noteq> None"
      and n: "n \<le> length es" "r = Ok () \<longrightarrow> n = length es"
        "appended cd term_of (?log node1) (take n es) (?log node') (view (node_payloads node'))"
      using Cons.IH [OF _ _ f] s Cons.prems(2) by auto
    have "barrier_holds cd term_of (?log node) (view (node_payloads node')) x" if "x \<in> set (take n es)" for x
    proof -
      have "?i x \<noteq> ?i e"
        using Cons.prems(2) in_set_takeD [OF that] by (force simp: image_iff)
      with l(1) have "?log node1 (?i x) = ?log node (?i x)" by simp
      moreover have "barrier_holds cd term_of (?log node1) (view (node_payloads node')) x"
        using n(3) that by (simp add: appended_def)
      ultimately show ?thesis using barrier_cong by blast
    qed
    then have "appended cd term_of (?log node) (take (Suc n) (e # es)) (?log node') (view (node_payloads node'))"
      using n(3) l barrier_mono [OF l(2) mono] by (auto simp: appended_def)
    with n(1,2) mono s show ?thesis by (intro conjI exI [of _ "Suc n"]) auto
  next
    case (Err x)
    then have "r = Err x" "node' = node1" using Cons.prems(3) a by (auto simp: bind_op_def)
    with s Err show ?thesis by (intro conjI exI [of _ 0]) (auto simp: appended_def)
  qed
qed (auto simp: pure_op_def appended_def)

text \<open>
  C10: No entry enters the log before the payload it refers to is in the node's payload store, except
  one that replaces an entry written by the same leader: however an append ends, a prefix of the
  entries has been written, every one of them with its payload present, and an append that reports
  success has written all. (Other tasks may add payloads while it waits, and the entries of an
  append have different indexes.)
\<close>

theorem append_waits_for_payloads:
  assumes "kv_laws kv kview" and "payload_laws ps view" and "only_adds view others" and "codec_ok cd"
    and "\<forall>a db. \<exists>kvs. kv_scan kv ''logs'' a db = map Ok kvs" and "log_ok cd (kview (node_db node))"
    and "distinct (map (\<lambda>e. log_index cd (entry_log_id e)) es)"
    and "session_append kv cd term_of ps others es node = (r, node')"
  shows "\<exists>n\<le>length es. (r = Ok () \<longrightarrow> n = length es) \<and>
    log_at cd (kview (node_db node')) = log_at cd (kview (node_db node)) ++
      map_of (rev (map (\<lambda>e. (log_index cd (entry_log_id e), e)) (take n es))) \<and>
    (\<forall>e\<in>set (take n es). \<forall>key. entry_payload_key e = Some key \<longrightarrow>
       view (node_payloads node') key \<noteq> None \<or>
       (\<exists>old. log_at cd (kview (node_db node)) (log_index cd (entry_log_id e)) = Some old \<and>
          term_of (entry_log_id old) = term_of (entry_log_id e)))"
proof -
  have "\<exists>n\<le>length es. (r = Ok () \<longrightarrow> n = length es) \<and>
      appended cd term_of (log_at cd (kview (node_db node))) (take n es) (log_at cd (kview (node_db node')))
        (view (node_payloads node'))"
  proof (cases "es = []")
    case True
    with assms(8) show ?thesis by (auto simp: session_append_def pure_op_def appended_def)
  next
    case False
    show ?thesis
    proof (cases "get_log_state kv cd (node_db node) :: (_, session_store_error) result")
      case (Err e)
      with assms(8) False show ?thesis
        by (intro exI [of _ 0]) (auto simp: session_append_def bind_op_def read_op_def appended_def)
    next
      case (Ok state)
      with assms(8) False obtain last where
        "for_op (session_append_entry kv cd term_of ps others last) es node = (r, node')"
        by (auto simp: session_append_def bind_op_def read_op_def Let_def)
      with session_append_loop [OF assms(1-4) assms(5) [rule_format] assms(6,7)] show ?thesis by blast
    qed
  qed
  then show ?thesis by (auto simp: appended_def barrier_holds_def)
qed

section \<open>Snapshots and the payloads they refer to\<close>

lemma set_hm_insert_subset: "set (hm_insert k v m) \<subseteq> insert (k, v) (set m)"
  by (induction m) (auto split: if_splits)

lemma set_hm_collect_subset: "set (hm_collect es) \<subseteq> set es"
proof -
  have "set (foldl (\<lambda>m (k, v). hm_insert k v m) m es) \<subseteq> set m \<union> set es" for m
  proof (induction es arbitrary: m)
    case (Cons e es)
    obtain k v where e: "e = (k, v)" by (cases e)
    show ?case using Cons [of "hm_insert k v m"] set_hm_insert_subset [of k v m] by (auto simp: e)
  qed simp
  from this [of "[]"] show ?thesis by (simp add: hm_collect_def)
qed

lemma total_refs_iff:
  "k \<in># total_refs st \<longleftrightarrow>
     (\<exists>t\<in>set (storage_inner st). \<exists>c\<in>set (snd t). k \<in> set (pending_messages (snd c) @ get_all_packet_keys (session_inflight (snd c))))"
proof -
  have "set_mset (inflight_keys i) = set (get_all_packet_keys i)" for i
    by (metis get_all_packet_keys_mset set_mset_mset)
  then show ?thesis
    by (auto simp: total_refs_def session_refs_def in_Union_mset_iff)
qed

lemma restored_refs:
  assumes "k \<in># total_refs (session_from_serializable d)"
  shows "k \<in> set (snapshot_payload_keys d)"
proof -
  obtain t c where t: "t \<in> set (storage_inner (session_from_serializable d))" "c \<in> set (snd t)"
    "k \<in> set (pending_messages (snd c) @ get_all_packet_keys (session_inflight (snd c)))"
    using assms unfolding total_refs_iff by blast
  obtain t' where t': "t' \<in> set (ser_inner d)" "t = (fst t', hm_collect (snd t'))"
    using t(1) set_hm_collect_subset unfolding session_from_serializable_def by fastforce
  then have "c \<in> set (snd t')"
    using t(2) set_hm_collect_subset by fastforce
  with t(3) t'(1) show ?thesis
    by (auto simp: snapshot_payload_keys_def) (metis (no_types, lifting) prod.collapse Un_iff)+
qed

lemma sync_from_nodes_spec:
  assumes "payload_laws ps view"
  shows "sync_from_nodes cl ps missing nodes s = (synced, s') \<Longrightarrow>
    (\<forall>k. k \<notin> set missing \<or> view s k \<noteq> None \<longrightarrow> view s' k = view s k) \<and>
    (synced \<longrightarrow> (\<forall>k\<in>set missing. view s' k \<noteq> None))"
proof (induction nodes arbitrary: s)
  case (Cons node nodes)
  obtain node_id addr where n: "node = (node_id, addr)" by (cases node)
  show ?case
  proof (cases "node_id = own_node_id cl")
    case True
    then have "sync_from_nodes cl ps missing nodes s = (synced, s')" using Cons.prems n by simp
    then show ?thesis by (rule Cons.IH)
  next
    case False
    obtain r s1 where b: "sync_payloads cl ps addr missing s = (r, s1)" by fastforce
    have e: "(\<forall>k. k \<notin> set missing \<or> view s k \<noteq> None \<longrightarrow> view s1 k = view s k) \<and>
        (r = Ok () \<longrightarrow> (\<forall>k\<in>set missing. view s1 k \<noteq> None))"
      using bulk_sync_effect [OF assms b [unfolded sync_payloads_def]] by (simp add: image_image)
    show ?thesis
    proof (cases r)
      case (Ok u)
      with Cons.prems n False b e show ?thesis by simp
    next
      case (Err x)
      with Cons.prems n False b have "sync_from_nodes cl ps missing nodes s1 = (synced, s')" by simp
      from Cons.IH [OF this] e show ?thesis by metis
    qed
  qed
qed simp

lemma bring_payloads_spec:
  assumes "payload_laws ps view" and "bring_payloads cl ps membership d node = (r, node')"
  shows "is_ready node' = is_ready node \<and>
    (\<forall>k. view (node_payloads node) k \<noteq> None \<longrightarrow> view (node_payloads node') k = view (node_payloads node) k) \<and>
    (r = Ok () \<longrightarrow> (\<forall>k\<in>set (snapshot_payload_keys d). view (node_payloads node') k \<noteq> None))"
proof -
  let ?missing = "filter (\<lambda>k. \<not> contains_or_false ps k (node_payloads node)) (snapshot_payload_keys d)"
  have held: "view (node_payloads node) k \<noteq> None" if "k \<in> set (snapshot_payload_keys d)" "k \<notin> set ?missing" for k
    using that payload_lawsD(6) [OF assms(1), of k "node_payloads node"]
    by (auto simp: contains_or_false_def split: result.splits)
  show ?thesis
  proof (cases "?missing = []")
    case True
    then have "view (node_payloads node) k \<noteq> None" if "k \<in> set (snapshot_payload_keys d)" for k
      using held [OF that] by (metis list.set(1) empty_iff)
    with assms(2) True show ?thesis by (auto simp: bring_payloads_def)
  next
    case False
    obtain synced s where s: "sync_from_nodes cl ps ?missing (membership_nodes cl membership) (node_payloads node) = (synced, s)"
      by fastforce
    note spec = sync_from_nodes_spec [OF assms(1) s]
    have n: "node' = node\<lparr>node_payloads := s\<rparr>" "r = Ok () \<longleftrightarrow> synced"
      using assms(2) False s by (auto simp: bring_payloads_def Let_def split: if_splits)
    have "view s k \<noteq> None" if "synced" "k \<in> set (snapshot_payload_keys d)" for k
      using spec held [of k] that by (cases "k \<in> set ?missing") auto
    with spec n show ?thesis by simp
  qed
qed

lemma session_update_spec:
  assumes "session_update_state_machine sc snapshot node = (r, node')"
    and "unwrap sc (snap_data snapshot) = Ok data" and "from_slice sc data = Ok d"
  shows "r = Ok () \<and> is_ready node' = is_ready node \<and> node_payloads node' = node_payloads node \<and>
    session_storage node' = session_from_serializable d"
  using assms by (auto simp: session_update_state_machine_def session_from_snapshot_def Let_def)

text \<open>
  C11: A snapshot is installed together with its payloads: when the installation succeeds, the session
  states are those of the snapshot, every payload they refer to is in the node's store and the node
  is ready; when it fails for whatever reason, the node is not ready. In no case is a payload the
  node has changed or removed, whatever the other nodes send.
\<close>

theorem install_snapshot_brings_payloads:
  assumes "payload_laws ps view"
    and "session_install_snapshot kv sc cl ps snapshot node = (r, node')"
  shows "(r = Ok () \<longrightarrow> is_ready node' \<and>
      (\<exists>data d. unwrap sc (snap_data snapshot) = Ok data \<and> from_slice sc data = Ok d \<and>
         session_storage node' = session_from_serializable d) \<and>
      (\<forall>k. k \<in># total_refs (session_storage node') \<longrightarrow> view (node_payloads node') k \<noteq> None)) \<and>
    (r \<noteq> Ok () \<longrightarrow> \<not> is_ready node') \<and>
    (\<forall>k. view (node_payloads node) k \<noteq> None \<longrightarrow> view (node_payloads node') k = view (node_payloads node) k)"
proof -
  let ?node = "node\<lparr>is_ready := False\<rparr>"
  show ?thesis
  proof (cases "\<exists>data d. unwrap sc (snap_data snapshot) = Ok data \<and> from_slice sc data = Ok d")
    case False
    then have "node' = ?node \<and> r \<noteq> Ok ()"
    proof (cases "unwrap sc (snap_data snapshot)")
      case (Ok data)
      with False obtain e where "from_slice sc data = Err e" by (cases "from_slice sc data") auto
      with Ok assms(2) show ?thesis
        by (auto simp: session_install_snapshot_def bind_op_def modify_op_def lift_op_def)
    qed (use assms(2) in \<open>auto simp: session_install_snapshot_def bind_op_def modify_op_def lift_op_def\<close>)
    then show ?thesis by simp
  next
    case True
    then obtain data d where d: "unwrap sc (snap_data snapshot) = Ok data" "from_slice sc data = Ok d" by blast
    obtain r1 node1 where b: "bring_payloads cl ps (snd (meta_last_membership (snap_meta snapshot))) d ?node = (r1, node1)"
      by fastforce
    note spec1 = bring_payloads_spec [OF assms(1) b]
    show ?thesis
    proof (cases r1)
      case (Err e)
      with assms(2) d b have "node' = node1 \<and> r \<noteq> Ok ()"
        by (auto simp: session_install_snapshot_def bind_op_def modify_op_def lift_op_def)
      with spec1 show ?thesis by auto
    next
      case (Ok u)
      obtain r2 node2 where u: "session_update_state_machine sc snapshot node1 = (r2, node2)" by fastforce
      note spec2 = session_update_spec [OF u d]
      obtain r3 node3 where p: "on_db (set_current_snapshot kv (enc_snapshot sc) snapshot) node2 = (r3 :: (_, session_store_error) result, node3)"
        by fastforce
      have r3: "is_ready node3 = is_ready node2"
        using p by (auto simp: on_db_def split: prod.splits)
      have n: "(if r3 = Ok () then r = Ok () \<and> node' = node3\<lparr>is_ready := True\<rparr> else r \<noteq> Ok () \<and> node' = node3)"
        using assms(2) d b Ok u spec2 p
        by (cases r3) (auto simp: session_install_snapshot_def bind_op_def modify_op_def lift_op_def)
      have keys: "view (node_payloads node') k \<noteq> None"
        if "r3 = Ok ()" "k \<in># total_refs (session_from_serializable d)" for k
        using restored_refs [OF that(2)] that(1) spec1 spec2 Ok on_db_eq [OF p] n by simp
      show ?thesis
        using n keys d spec1 spec2 r3 on_db_eq [OF p] by (cases "r3 = Ok ()") auto
    qed
  qed
qed

text \<open>
  The integrity check leaves a node ready exactly if it found every counted payload, and never takes
  a payload away.
\<close>

lemma integrity_check_spec:
  assumes "payload_laws ps view" and "perform_integrity_check cl ps leader node = node'"
    and "\<forall>k s. \<exists>b. ps_contains ps k s = Ok b"
  shows "(is_ready node' \<longleftrightarrow> (\<forall>k\<in>set (get_active_payload_keys node). view (node_payloads node) k \<noteq> None)) \<and>
    session_storage node' = session_storage node \<and>
    (\<forall>k. view (node_payloads node) k \<noteq> None \<longrightarrow> view (node_payloads node') k = view (node_payloads node) k)"
proof -
  let ?missing = "filter (\<lambda>k. \<not> contains_or_false ps k (node_payloads node)) (get_active_payload_keys node)"
  have c: "contains_or_false ps k s \<longleftrightarrow> view s k \<noteq> None" for k s
    using assms(3) [rule_format, of k s] payload_lawsD(6) [OF assms(1), of k s] by (auto simp: contains_or_false_def)
  have m: "?missing = [] \<longleftrightarrow> (\<forall>k\<in>set (get_active_payload_keys node). view (node_payloads node) k \<noteq> None)"
    by (simp add: filter_empty_conv c)
  show ?thesis
  proof (cases "?missing = []")
    case True
    with assms(2) m show ?thesis by (auto simp: perform_integrity_check_def)
  next
    case False
    have "view (snd (sync_payloads cl ps addr ?missing (node_payloads node))) k = view (node_payloads node) k"
      if "view (node_payloads node) k \<noteq> None" for addr k
      using bulk_sync_effect [OF assms(1), where s = "node_payloads node"] that
      by (metis prod.collapse sync_payloads_def)
    moreover have "\<not> is_ready node' \<and> session_storage node' = session_storage node \<and>
        (node_payloads node' = node_payloads node \<or>
         (\<exists>addr. node_payloads node' = snd (sync_payloads cl ps addr ?missing (node_payloads node))))"
      using assms(2) False by (cases leader) (auto simp: perform_integrity_check_def Let_def)
    moreover have "\<not> (\<forall>k\<in>set (get_active_payload_keys node). view (node_payloads node) k \<noteq> None)"
      using m False by blast
    ultimately show ?thesis by metis
  qed
qed

section \<open>Witnesses\<close>

text \<open>A codec whose entries are read back by their index, and a node with one payload.\<close>

definition store_codec :: "(u64, session_state_request, unit) log_codec" where
  "store_codec =
     \<lparr>log_index = id, enc_entry = \<lambda>e. if e = log_entry 4 (AppendToPendingQueue ''t'' ''c'' ''k'') then Ok [4] else Err ''other'',
      dec_entry = \<lambda>_. Ok (log_entry 4 (AppendToPendingQueue ''t'' ''c'' ''k'')),
      enc_log_id = \<lambda>_. Ok [], dec_log_id = \<lambda>_. Err ''none''\<rparr>"

definition store_node :: "(u64, unit, string \<Rightarrow> (bytes, bytes) rbt, string \<Rightarrow> (bytes, bytes) rbt) session_node" where
  "store_node = example_node\<lparr>node_payloads := peer_db\<rparr>"

lemma store_codec_ok: "codec_ok store_codec"
  by (auto simp: codec_ok_def store_codec_def split: if_splits)

lemma store_codec_index: "log_index store_codec = id"
  by (simp add: store_codec_def)

lemma store_queued_applied:
  "session_apply mem_kv mem_store id clock example_queued store_node =
     (store_node\<lparr>applied_log_id := Some 2, session_storage := example_storage\<rparr>, Ok [NoResponse, NoResponse])"
  by (simp add: example_queued_def store_node_def example_node_def session_op_defs replies_then_def
      example_storage_def example_state_def new_with_options_def)

lemma store_fresh: "fresh_keys mem_kv mem_store id clock (example_queued @ example_popped) store_node"
  unfolding fresh_keys_append [OF store_queued_applied [of clock]]
  by (simp add: example_queued_def example_popped_def store_node_def example_node_def entry_payload_key_def gc_keys_def)

lemma store_popped_queue:
  "payload_gc_queue (fst (session_apply mem_kv mem_store id clock (example_queued @ example_popped) store_node)) =
     [\<lparr>delete_after_log_index = 3, gc_key = ''k'', payload_deleted = False\<rparr>]"
  using session_apply_append [OF store_queued_applied [of clock], of example_popped]
  by (simp add: replies_then_def example_popped_def store_node_def example_node_def session_op_defs
      example_storage_def example_state_def Let_def)

theorem purge_keeps_needed_payloads_witness:
  "\<exists>node2 r r' node3. session_apply mem_kv mem_store id (\<lambda>_. 0) (example_queued @ example_popped) store_node = (node2, r) \<and>
     session_purge mem_kv store_codec mem_store 2 node2 = (r', node3) \<and>
     ''k'' \<in># total_refs example_storage \<and> mem_held (node_payloads node3) ''k'' = Some [7, 8]"
proof -
  obtain node2 r where n2: "session_apply mem_kv mem_store (log_index store_codec) (\<lambda>_. 0)
      (example_queued @ example_popped) store_node = (node2, r)" by fastforce
  obtain r' node3 where n3: "session_purge mem_kv store_codec mem_store 2 (node2\<lparr>payload_gc_queue := payload_gc_queue node2\<rparr>) = (r', node3)"
    by fastforce
  have s: "session_storage store_node = session_storage_new" "payload_gc_queue store_node = []"
    "mem_view (node_db store_node) ''payload_gc'' = Map.empty" "length (example_queued @ example_popped) < 2 ^ 64"
    by (simp_all add: store_node_def example_node_def mem_view_def fun_eq_iff example_queued_def example_popped_def)
  have k: "''k'' \<in># total_refs example_storage"
    by (simp add: total_refs_def example_storage_def example_state_def session_refs_def)
  have q: "\<forall>e\<in>set example_popped. log_index store_codec 2 < log_index store_codec (entry_log_id e)"
    "\<forall>item\<in>set (payload_gc_queue node2). valid_str (gc_key item)" "gc_queue_of mem_kv node2 (payload_gc_queue node2)"
    using store_popped_queue [of "\<lambda>_. 0"] n2
    by (simp_all add: example_popped_def store_codec_index gc_queue_of_def valid_str_def as_bytes_def byte_of_char_def)
  have "mem_held (node_payloads node2) = mem_held peer_db"
    using session_apply_payloads n2 by (metis fst_conv session_node.select_convs(6) session_node.surjective
      session_node.update_convs(6) store_node_def)
  moreover have "mem_held (node_payloads node3) ''k'' = mem_held (node_payloads node2) ''k''"
    using purge_keeps_needed_payloads [OF mem_kv_laws mem_store_laws s store_fresh [folded store_codec_index]
      store_queued_applied [folded store_codec_index] n2 q n3] k by simp
  ultimately show ?thesis
    using n2 n3 k by (auto simp: store_codec_index peer_db_held)
qed

lemma mem_kv_write:
  "kv_put mem_kv cf k v db = (Ok (), db(cf := RBT.insert k v (db cf)))" "kv_flush mem_kv db = (Ok (), db)"
  by (simp_all add: mem_kv_def)

lemma store_appended:
  "session_append mem_kv store_codec id mem_store id [log_entry 4 (AppendToPendingQueue ''t'' ''c'' ''k'')] store_node =
     (Ok (), store_node\<lparr>node_db := (\<lambda>_. RBT.empty)(''logs'' := RBT.insert (id_to_bin 4) [4] RBT.empty)\<rparr>)"
proof -
  have "ps_contains mem_store ''k'' peer_db = Ok True"
    by (simp add: rocks_store_def rocks_contains_def mem_kv_def peer_db_def)
  moreover have "get_log_state mem_kv store_codec (\<lambda>_. RBT.empty) =
      (Ok \<lparr>last_purged_log_id = None, last_log_id = None\<rparr> :: (_, session_store_error) result)"
    by (simp add: get_log_state_def get_last_purged_def store_get_def mem_kv_def entries_empty)
  moreover have "enc_entry store_codec (log_entry 4 (AppendToPendingQueue ''t'' ''c'' ''k'')) = Ok [4]"
    by (simp add: store_codec_def)
  moreover have "wait_payload mem_store id 5 ''k'' peer_db = (True, peer_db)"
    using calculation(1) by (simp add: eval_nat_numeral)
  ultimately show ?thesis
    by (simp add: session_append_def session_append_entry_def need_payload_check_def payload_barrier_def
        entry_payload_key_def bind_op_def read_op_def lift_op_def pure_op_def on_db_def map_err_op_def
        store_node_def example_node_def store_codec_index mem_kv_write)
qed

theorem append_waits_for_payloads_witness:
  "session_append mem_kv store_codec id mem_store id [log_entry 4 (AppendToPendingQueue ''t'' ''c'' ''k'')] store_node =
     (Ok (), store_node\<lparr>node_db := (\<lambda>_. RBT.empty)(''logs'' := RBT.insert (id_to_bin 4) [4] RBT.empty)\<rparr>) \<and>
   mem_held peer_db ''k'' \<noteq> None"
proof -
  have "only_adds mem_held id" "\<forall>a db. \<exists>kvs. kv_scan mem_kv ''logs'' a db = map Ok kvs"
    "log_ok store_codec (mem_view (node_db store_node))"
    "distinct (map (\<lambda>e. log_index store_codec (entry_log_id e)) [log_entry 4 (AppendToPendingQueue ''t'' ''c'' ''k'')])"
    by (auto simp: only_adds_def mem_kv_def log_ok_def store_node_def example_node_def mem_view_def)
  from append_waits_for_payloads [OF mem_kv_laws mem_store_laws this(1) store_codec_ok this(2-4) store_appended]
  have "mem_held peer_db ''k'' \<noteq> None"
    by (auto simp: entry_payload_key_def store_node_def example_node_def log_at_def mem_view_def)
  with store_appended show ?thesis by simp
qed

definition store_snapshot_codec :: "(u64, unit) session_codec" where
  "store_snapshot_codec =
     \<lparr>to_vec = \<lambda>_. Ok [7], from_slice = \<lambda>_. Ok (session_to_serializable example_storage),
      wrap = Ok, unwrap = Ok, enc_snapshot = \<lambda>_. Ok [9], dec_snapshot = \<lambda>_. Err ''none'', snapshot_id = \<lambda>_. ''s''\<rparr>"

definition lone_cluster :: "(unit, unit, unit) cluster" where
  "lone_cluster =
     \<lparr>own_node_id = 1, membership_nodes = \<lambda>_. [(1, ())], node_rpc = \<lambda>_. intruder_rpc, network = (),
      delimiter_len = \<lambda>_. 1, sync_id_len = 0, sync_base = 0, checksum_of = sum_crc\<rparr>"

definition store_snapshot :: "(u64, unit) stored_snapshot" where
  "store_snapshot =
     \<lparr>snap_meta = \<lparr>meta_last_log_id = Some 2, meta_last_membership = (None, ()), meta_snapshot_id = ''s''\<rparr>, snap_data = [7]\<rparr>"

lemma store_installed:
  "fst (session_install_snapshot mem_kv store_snapshot_codec lone_cluster mem_store store_snapshot store_node) = Ok ()"
proof -
  have "contains_or_false mem_store ''k'' peer_db"
    by (simp add: contains_or_false_def rocks_store_def rocks_contains_def mem_kv_def peer_db_def)
  moreover have "snapshot_payload_keys (session_to_serializable example_storage) = [''k'']"
    by (simp add: snapshot_payload_keys_def session_to_serializable_def example_storage_def example_state_def
        new_with_options_def inflight_new_def get_all_packet_keys_def hm_collect_def map_filter_simps)
  ultimately show ?thesis
    by (simp add: session_install_snapshot_def bring_payloads_def session_update_state_machine_def session_from_snapshot_def
        store_snapshot_codec_def store_snapshot_def store_node_def bind_op_def modify_op_def lift_op_def on_db_def
        set_current_snapshot_def store_put_def map_err_op_def Let_def mem_kv_write)
qed

theorem install_snapshot_brings_payloads_witness:
  "\<exists>node'. session_install_snapshot mem_kv store_snapshot_codec lone_cluster mem_store store_snapshot store_node = (Ok (), node') \<and>
     is_ready node' \<and> mem_held (node_payloads node') ''k'' = Some [7, 8]"
proof -
  obtain node' where i: "session_install_snapshot mem_kv store_snapshot_codec lone_cluster mem_store store_snapshot store_node =
      (Ok (), node')"
    using store_installed by (metis prod.collapse)
  from install_snapshot_brings_payloads [OF mem_store_laws i] show ?thesis
    using i by (auto simp: store_node_def peer_db_held)
qed

end
