(* ===== verification/Grpc_Status.thy ===== *)
theory Grpc_Status
  imports Hash_Map
begin

text \<open>
  How errors travel between brokers, \<open>broker/src/rpc/grpc_status.rs\<close> and the error details of
  \<open>broker/src/raft/mod.rs\<close>: a gRPC status carries the kind of the error and the leader in its
  metadata and the application error in its details. \<open>tonic\<close>, which decides what may stand in the
  metadata, and \<open>prost\<close>, which encodes the details, are the argument \<open>mc\<close>; what is relied on of them
  is \<open>metadata_laws\<close>.
\<close>

section \<open>Decimal numbers\<close>

text \<open>\<open>u64::to_string\<close>, and \<open>str::parse\<close> with its optional sign and its check for overflow.\<close>

definition digit :: "nat \<Rightarrow> char" where
  "digit n = char_of (48 + n)"

fun decimal :: "nat \<Rightarrow> string" where
  "decimal n = (if n < 10 then [digit n] else decimal (n div 10) @ [digit (n mod 10)])"

declare decimal.simps [simp del]

definition u64_to_string :: "u64 \<Rightarrow> string" where
  "u64_to_string n = decimal (unat n)"

definition is_digit :: "char \<Rightarrow> bool" where
  "is_digit c \<longleftrightarrow> 48 \<le> (of_char c :: nat) \<and> (of_char c :: nat) < 58"

definition digits_value :: "string \<Rightarrow> nat" where
  "digits_value s = foldl (\<lambda>a c. 10 * a + (of_char c - 48)) 0 s"

definition parse_u64 :: "string \<Rightarrow> u64 option" where
  "parse_u64 s =
     (let ds = (case s of c # cs \<Rightarrow> if c = CHR ''+'' then cs else s | [] \<Rightarrow> []) in
      if ds \<noteq> [] \<and> list_all is_digit ds \<and> digits_value ds < 2 ^ 64
      then Some (word_of_nat (digits_value ds)) else None)"

lemma of_char_digit: "n < 10 \<Longrightarrow> (of_char (digit n) :: nat) = 48 + n"
  by (simp add: digit_def)

lemma is_digit_digit: "n < 10 \<Longrightarrow> is_digit (digit n)"
  by (simp add: is_digit_def of_char_digit)

lemma decimal_digits: "decimal n \<noteq> [] \<and> list_all is_digit (decimal n) \<and> digits_value (decimal n) = n"
proof (induction n rule: decimal.induct)
  case (1 n)
  show ?case
  proof (cases "n < 10")
    case True
    then show ?thesis
      by (simp add: decimal.simps [of n] is_digit_digit of_char_digit digits_value_def)
  next
    case False
    then have "list_all is_digit (decimal (n div 10))" "digits_value (decimal (n div 10)) = n div 10"
      using 1 by simp_all
    with False show ?thesis
      by (simp add: decimal.simps [of n] is_digit_digit of_char_digit digits_value_def)
  qed
qed

lemma parse_u64_to_string: "parse_u64 (u64_to_string n) = Some n"
proof -
  have d: "decimal (unat n) \<noteq> []" "list_all is_digit (decimal (unat n))"
      "digits_value (decimal (unat n)) = unat n"
    using decimal_digits by blast+
  then obtain c cs where cs: "decimal (unat n) = c # cs"
    by (cases "decimal (unat n)") auto
  with d(2) have "c \<noteq> CHR ''+''"
    by (auto simp: is_digit_def)
  moreover have "unat n < 2 ^ 64"
    using unsigned_less [of n] by simp
  ultimately show ?thesis
    using d cs by (simp add: parse_u64_def u64_to_string_def)
qed

section \<open>Statuses\<close>

datatype grpc_code =
    CodeOk | CodeCancelled | CodeUnknown | CodeInvalidArgument | CodeDeadlineExceeded | CodeNotFound
  | CodeAlreadyExists | CodePermissionDenied | CodeResourceExhausted | CodeFailedPrecondition
  | CodeAborted | CodeOutOfRange | CodeUnimplemented | CodeInternal | CodeUnavailable | CodeDataLoss
  | CodeUnauthenticated

record grpc_status =
  status_code :: grpc_code
  status_message :: string
  status_details :: bytes
  status_metadata :: "(string, string) hash_map"

text \<open>The application errors; \<open>error_code\<close> is the number a code has on the wire.\<close>

datatype error_code =
    ErrUnknown | InternalError | ErrInvalidArgument | ErrNotFound | ErrNotLeader
  | ErrNoLeaderAvailable | ErrNotInitialized | ErrNotReady | ErrServiceUnavailable
  | SerializationError | ErrUnexpectedResponseType | SessionTenantNotFound | SessionNotFound
  | SessionNodeNotFound | SessionTenantAlreadyExists | SessionAlreadyExists | TopicInvalidName
  | TopicInvalidFilter | TopicTenantNotFound | TopicNotFound | SessionStateNotFound
  | PacketIdentifierAlreadyExists | ErrPayloadNotFound | PayloadMissing

definition error_codes :: "(error_code \<times> u32) list" where
  "error_codes =
     [(ErrUnknown, 0), (InternalError, 1), (ErrInvalidArgument, 2), (ErrNotFound, 3),
      (ErrNotLeader, 4), (ErrNoLeaderAvailable, 5), (ErrNotInitialized, 6), (ErrNotReady, 7),
      (ErrServiceUnavailable, 8), (SerializationError, 9), (ErrUnexpectedResponseType, 10),
      (SessionTenantNotFound, 1000), (SessionNotFound, 1001), (SessionNodeNotFound, 1002),
      (SessionTenantAlreadyExists, 1004), (SessionAlreadyExists, 1005), (TopicInvalidName, 2000),
      (TopicInvalidFilter, 2001), (TopicTenantNotFound, 2002), (TopicNotFound, 2003),
      (SessionStateNotFound, 3000), (PacketIdentifierAlreadyExists, 3001),
      (ErrPayloadNotFound, 3002), (PayloadMissing, 3003)]"

definition error_code_number :: "error_code \<Rightarrow> u32" where
  "error_code_number c = the (map_of error_codes c)"

record error_detail =
  detail_code :: u32
  detail_message :: string
  detail_node :: string

text \<open>A number no code has is read as the default.\<close>

definition detail_error_code :: "error_detail \<Rightarrow> error_code" where
  "detail_error_code d =
     (case find (\<lambda>(c, n). n = detail_code d) error_codes of Some (c, _) \<Rightarrow> c | None \<Rightarrow> ErrUnknown)"

lemma error_code_roundtrip:
  "detail_error_code \<lparr>detail_code = error_code_number c, detail_message = m, detail_node = n\<rparr> = c"
  by (cases c) (simp_all add: detail_error_code_def error_code_number_def error_codes_def)

lemma error_code_number_zero: "error_code_number c = 0 \<longleftrightarrow> c = ErrUnknown"
  by (cases c) (simp_all add: error_code_number_def error_codes_def)

record metadata_codec =
  header_ok :: "string \<Rightarrow> bool"
  detail_encode :: "error_detail \<Rightarrow> bytes"
  detail_decode :: "bytes \<Rightarrow> error_detail option"

definition visible_ascii :: "string \<Rightarrow> bool" where
  "visible_ascii s \<longleftrightarrow> list_all (\<lambda>c. 32 \<le> (of_char c :: nat) \<and> (of_char c :: nat) < 127) s"

definition metadata_laws :: "metadata_codec \<Rightarrow> bool" where
  "metadata_laws mc \<longleftrightarrow>
     (\<forall>s. visible_ascii s \<longrightarrow> header_ok mc s) \<and>
     (\<forall>d. valid_str (detail_message d) \<and> valid_str (detail_node d) \<longrightarrow>
        detail_decode mc (detail_encode mc d) = Some d) \<and>
     (\<forall>d. detail_code d \<noteq> 0 \<longrightarrow> detail_encode mc d \<noteq> [])"

section \<open>Encoding an error\<close>

definition ERROR_KIND_KEY :: string where "ERROR_KIND_KEY = ''x-yedmq-error-kind''"
definition LEADER_NODE_ID_KEY :: string where "LEADER_NODE_ID_KEY = ''x-yedmq-leader-node-id''"
definition LEADER_ADDR_KEY :: string where "LEADER_ADDR_KEY = ''x-yedmq-leader-addr''"

definition ERROR_KIND_LEADER_REDIRECT :: string where "ERROR_KIND_LEADER_REDIRECT = ''leader_redirect''"
definition ERROR_KIND_BUSINESS :: string where "ERROR_KIND_BUSINESS = ''business''"
definition ERROR_KIND_NO_LEADER :: string where "ERROR_KIND_NO_LEADER = ''no_leader''"
definition ERROR_KIND_NOT_READY :: string where "ERROR_KIND_NOT_READY = ''not_ready''"
definition ERROR_KIND_FATAL :: string where "ERROR_KIND_FATAL = ''fatal''"

definition metadata_value :: "metadata_codec \<Rightarrow> string \<Rightarrow> string option" where
  "metadata_value mc v = (if header_ok mc v then Some v else None)"

definition insert_header ::
  "string \<Rightarrow> string option \<Rightarrow> (string, string) hash_map \<Rightarrow> (string, string) hash_map" where
  "insert_header key v metadata = (case v of Some v \<Rightarrow> hm_insert key v metadata | None \<Rightarrow> metadata)"

definition status_with_metadata ::
  "metadata_codec \<Rightarrow> grpc_code \<Rightarrow> string \<Rightarrow> string option \<Rightarrow> error_detail option \<Rightarrow> string option \<Rightarrow>
   u64 option \<Rightarrow> grpc_status" where
  "status_with_metadata mc code message error_kind detail leader_addr leader_node_id =
     (let metadata = insert_header ERROR_KIND_KEY (Option.bind error_kind (metadata_value mc)) [];
          metadata = insert_header LEADER_ADDR_KEY (Option.bind leader_addr (metadata_value mc)) metadata;
          metadata = insert_header LEADER_NODE_ID_KEY
            (Option.bind leader_node_id (\<lambda>n. metadata_value mc (u64_to_string n))) metadata in
      \<lparr>status_code = code, status_message = message,
       status_details = (case detail of Some d \<Rightarrow> detail_encode mc d | None \<Rightarrow> []),
       status_metadata = metadata\<rparr>)"

definition business_detail :: "error_code \<Rightarrow> string \<Rightarrow> string \<Rightarrow> error_detail" where
  "business_detail code message origin =
     \<lparr>detail_code = error_code_number code, detail_message = message, detail_node = origin\<rparr>"

definition business_status :: "metadata_codec \<Rightarrow> grpc_code \<Rightarrow> error_detail \<Rightarrow> grpc_status" where
  "business_status mc code detail =
     status_with_metadata mc code (detail_message detail) (Some ERROR_KIND_BUSINESS) (Some detail) None None"

definition leader_redirect_status ::
  "metadata_codec \<Rightarrow> string \<Rightarrow> string \<Rightarrow> u64 option \<Rightarrow> grpc_status" where
  "leader_redirect_status mc message leader_addr leader_node_id =
     status_with_metadata mc CodeFailedPrecondition message (Some ERROR_KIND_LEADER_REDIRECT) None
       (Some leader_addr) leader_node_id"

definition no_leader_status :: "metadata_codec \<Rightarrow> string \<Rightarrow> grpc_status" where
  "no_leader_status mc message =
     status_with_metadata mc CodeUnavailable message (Some ERROR_KIND_NO_LEADER) None None None"

definition not_ready_status :: "metadata_codec \<Rightarrow> string \<Rightarrow> grpc_status" where
  "not_ready_status mc message =
     status_with_metadata mc CodeUnavailable message (Some ERROR_KIND_NOT_READY) None None None"

definition fatal_status :: "metadata_codec \<Rightarrow> grpc_code \<Rightarrow> string \<Rightarrow> grpc_status" where
  "fatal_status mc code message =
     status_with_metadata mc code message (Some ERROR_KIND_FATAL) None None None"

definition invalid_argument_status :: "metadata_codec \<Rightarrow> string \<Rightarrow> string \<Rightarrow> grpc_status" where
  "invalid_argument_status mc message origin =
     business_status mc CodeInvalidArgument (business_detail ErrInvalidArgument message origin)"

definition not_found_status :: "metadata_codec \<Rightarrow> string \<Rightarrow> string \<Rightarrow> grpc_status" where
  "not_found_status mc message origin =
     business_status mc CodeNotFound (business_detail ErrNotFound message origin)"

text \<open>\<open>Status::new\<close> and the shorthands of \<open>tonic\<close> for it.\<close>

definition plain_status :: "grpc_code \<Rightarrow> string \<Rightarrow> grpc_status" where
  "plain_status code message =
     \<lparr>status_code = code, status_message = message, status_details = [], status_metadata = []\<rparr>"

section \<open>Decoding it\<close>

record parsed_status =
  error_kind :: "string option"
  leader_node_id :: "u64 option"
  leader_addr :: "string option"
  parsed_detail :: "error_detail option"

definition decode_status :: "metadata_codec \<Rightarrow> grpc_status \<Rightarrow> parsed_status" where
  "decode_status mc status =
     \<lparr>error_kind = hm_get (status_metadata status) ERROR_KIND_KEY,
      leader_node_id = Option.bind (hm_get (status_metadata status) LEADER_NODE_ID_KEY) parse_u64,
      leader_addr = hm_get (status_metadata status) LEADER_ADDR_KEY,
      parsed_detail = (if status_details status = [] then None else detail_decode mc (status_details status))\<rparr>"

record grpc_business_error =
  business_grpc_code :: grpc_code
  business_code :: error_code
  business_message :: string
  business_node :: string

definition grpc_business_error_new :: "grpc_code \<Rightarrow> error_detail \<Rightarrow> grpc_business_error" where
  "grpc_business_error_new code detail =
     \<lparr>business_grpc_code = code, business_code = detail_error_code detail,
      business_message = detail_message detail, business_node = detail_node detail\<rparr>"

lemmas kind_defs = ERROR_KIND_KEY_def LEADER_NODE_ID_KEY_def LEADER_ADDR_KEY_def
  ERROR_KIND_LEADER_REDIRECT_def ERROR_KIND_BUSINESS_def ERROR_KIND_NO_LEADER_def
  ERROR_KIND_NOT_READY_def ERROR_KIND_FATAL_def

lemma visible_decimal: "visible_ascii (decimal n)"
proof -
  have "list_all is_digit (decimal n)"
    using decimal_digits by blast
  then show ?thesis
    unfolding visible_ascii_def by (rule list.pred_mono_strong) (auto simp: is_digit_def)
qed

lemma visible_u64: "visible_ascii (u64_to_string n)"
  by (simp add: u64_to_string_def visible_decimal)

lemma insert_header_get [simp]:
  "hm_get (insert_header k v m) k' = (if k' = k \<and> v \<noteq> None then v else hm_get m k')"
  by (auto simp: insert_header_def hm_insert_def update_conv' split: option.splits)

lemma metadata_value_visible [simp]:
  "metadata_laws mc \<Longrightarrow> visible_ascii v \<Longrightarrow> metadata_value mc v = Some v"
  by (simp add: metadata_laws_def metadata_value_def)

lemma visible_kinds [simp]:
  "visible_ascii ERROR_KIND_LEADER_REDIRECT" "visible_ascii ERROR_KIND_BUSINESS"
  "visible_ascii ERROR_KIND_NO_LEADER" "visible_ascii ERROR_KIND_NOT_READY"
  "visible_ascii ERROR_KIND_FATAL"
  by (simp_all add: visible_ascii_def kind_defs)

lemma distinct_headers [simp]:
  "ERROR_KIND_KEY \<noteq> LEADER_ADDR_KEY" "LEADER_ADDR_KEY \<noteq> ERROR_KIND_KEY"
  "ERROR_KIND_KEY \<noteq> LEADER_NODE_ID_KEY" "LEADER_NODE_ID_KEY \<noteq> ERROR_KIND_KEY"
  "LEADER_ADDR_KEY \<noteq> LEADER_NODE_ID_KEY" "LEADER_NODE_ID_KEY \<noteq> LEADER_ADDR_KEY"
  by (simp_all add: kind_defs)

text \<open>What is read from a status is what was written into it.\<close>

lemma decode_status_with_metadata:
  assumes "metadata_laws mc" and "visible_ascii kind"
    and "\<forall>a. addr = Some a \<longrightarrow> visible_ascii a"
    and "\<forall>d. detail = Some d \<longrightarrow> valid_str (detail_message d) \<and> valid_str (detail_node d) \<and> detail_code d \<noteq> 0"
  shows "decode_status mc (status_with_metadata mc code message (Some kind) detail addr ident) =
    \<lparr>error_kind = Some kind, leader_node_id = ident, leader_addr = addr, parsed_detail = detail\<rparr>"
proof -
  have "detail = Some d \<Longrightarrow> detail_encode mc d \<noteq> [] \<and> detail_decode mc (detail_encode mc d) = Some d" for d
    using assms(1,4) by (simp add: metadata_laws_def)
  then show ?thesis
    using assms(1-3)
    by (cases detail; cases addr; cases ident)
      (auto simp: decode_status_def status_with_metadata_def visible_u64 parse_u64_to_string)
qed

end
