(* ===== verification/Session_Service.thy ===== *)
theory Session_Service
  imports Session_State_Machine Grpc_Status
begin

text \<open>
  Writes to the replicated session states, \<open>broker/src/raft/session_state/session_state_raft_actor.rs\<close>,
  the session part of \<open>broker/src/rpc/raft_service.rs\<close> and \<open>broker/src/session/session_state_service.rs\<close>.
  A node that is not the leader sends the payload a request refers to and then the request itself to
  the leader, whose answer comes back as JSON or as a gRPC status. \<open>openraft\<close>, the transport and the
  JSON codecs are fields of \<open>session_platform\<close>; what is relied on of them is \<open>cluster_laws\<close>.
\<close>

section \<open>Errors\<close>

record cluster_node =
  node_ident :: "u64 option"
  rpc_addr :: string
  api_addr :: string

text \<open>Errors of \<open>openraft\<close> are kept as their text.\<close>

datatype session_raft_error =
    NotLeader "cluster_node option"
  | RaftClientWriteError string
  | RaftAppendEntriesError string
  | RaftInstallSnapshotError string
  | RaftNetworkError string
  | RaftInitializationError string
  | RaftFatalError string
  | RaftStorageError string
  | GRPC grpc_status
  | GRPCConnect string
  | GRPCBusiness grpc_business_error
  | RaftSerialize string
  | NotInitialized
  | NotReady string
  | ServiceUnavailable string
  | NoLeaderAvailable
  | UnexpectedResponseType string
  | RaftSessionStateNotExisted string
  | RaftInflightError inflight_error

text \<open>On the leader: the status an error is answered with. \<open>shown\<close> is the \<open>Display\<close> of an error.\<close>

fun map_session_state_raft_error ::
  "metadata_codec \<Rightarrow> (session_raft_error \<Rightarrow> string) \<Rightarrow> string \<Rightarrow> session_raft_error \<Rightarrow> grpc_status" where
  "map_session_state_raft_error mc shown action (NotLeader (Some leader)) =
     leader_redirect_status mc (action @ '' requires leader handling at '' @ rpc_addr leader)
       (rpc_addr leader) (node_ident leader)"
| "map_session_state_raft_error mc shown action (NotLeader None) =
     no_leader_status mc (action @ '' failed: no leader available'')"
| "map_session_state_raft_error mc shown action NoLeaderAvailable =
     no_leader_status mc (action @ '' failed: no leader available'')"
| "map_session_state_raft_error mc shown action NotInitialized =
     not_ready_status mc (action @ '' failed: session state raft not initialized'')"
| "map_session_state_raft_error mc shown action (NotReady message) =
     not_ready_status mc (action @ '' failed: '' @ message)"
| "map_session_state_raft_error mc shown action (ServiceUnavailable message) =
     plain_status CodeUnavailable (action @ '' failed: '' @ message)"
| "map_session_state_raft_error mc shown action (GRPCConnect message) =
     plain_status CodeUnavailable (action @ '' failed: '' @ message)"
| "map_session_state_raft_error mc shown action (RaftSessionStateNotExisted message) =
     business_status mc CodeNotFound (business_detail SessionStateNotFound message ''session_state_raft'')"
| "map_session_state_raft_error mc shown action (RaftInflightError PacketIdentifierHasExisted) =
     business_status mc CodeAlreadyExists
       (business_detail PacketIdentifierAlreadyExists ''packet identifier has existed'' ''session_state_raft'')"
| "map_session_state_raft_error mc shown action (GRPCBusiness err) =
     business_status mc (business_grpc_code err)
       (business_detail (business_code err) (business_message err) (business_node err))"
| "map_session_state_raft_error mc shown action (GRPC status) = status"
| "map_session_state_raft_error mc shown action other =
     fatal_status mc CodeInternal (action @ '' failed: '' @ shown other)"

text \<open>On the node that asked: the error a status stands for.\<close>

definition leader_node_from_status :: "parsed_status \<Rightarrow> cluster_node option" where
  "leader_node_from_status parsed =
     map_option (\<lambda>addr. \<lparr>node_ident = leader_node_id parsed, rpc_addr = addr, api_addr = ''''\<rparr>)
       (leader_addr parsed)"

definition map_remote_business_error :: "grpc_code \<Rightarrow> error_detail \<Rightarrow> session_raft_error" where
  "map_remote_business_error code detail =
     (case detail_error_code detail of
        SessionStateNotFound \<Rightarrow> RaftSessionStateNotExisted (detail_message detail)
      | PacketIdentifierAlreadyExists \<Rightarrow> RaftInflightError PacketIdentifierHasExisted
      | _ \<Rightarrow> GRPCBusiness (grpc_business_error_new code detail))"

definition map_remote_status :: "metadata_codec \<Rightarrow> grpc_status \<Rightarrow> session_raft_error" where
  "map_remote_status mc status =
     (let parsed = decode_status mc status in
      if error_kind parsed = Some ERROR_KIND_LEADER_REDIRECT
      then NotLeader (leader_node_from_status parsed)
      else if error_kind parsed = Some ERROR_KIND_BUSINESS \<and> parsed_detail parsed \<noteq> None
      then map_remote_business_error (status_code status) (the (parsed_detail parsed))
      else if error_kind parsed = Some ERROR_KIND_NO_LEADER then NoLeaderAvailable
      else if error_kind parsed = Some ERROR_KIND_NOT_READY then NotReady (status_message status)
      else if status_code status = CodeUnavailable then ServiceUnavailable (status_message status)
      else GRPC status)"

section \<open>Writing through the log\<close>

datatype client_write_error = ForwardToLeader "cluster_node option" | WriteFailed string

record ('w, 'ps) session_platform =
  client_write :: "session_state_request \<Rightarrow> (session_state_response, client_write_error, 'w) op"
  raft_term :: "'w \<Rightarrow> u64"
  rpc_connect :: "string \<Rightarrow> (unit, string) result"
  rpc_write :: "string \<Rightarrow> string \<Rightarrow> (string, grpc_status, 'w) op"
  request_to_json :: "session_state_request \<Rightarrow> (string, string) result"
  request_of_json :: "string \<Rightarrow> (session_state_request, string) result"
  response_to_json :: "session_state_response \<Rightarrow> (string, string) result"
  response_of_json :: "string \<Rightarrow> (session_state_response, string) result"
  status_codec :: metadata_codec
  payload_peer :: "string \<Rightarrow> 'w payload_rpc"
  request_len :: "replicate_request \<Rightarrow> nat"
  delimiter_len :: "nat \<Rightarrow> nat"
  crc32 :: "bytes \<Rightarrow> u32"
  payload_ops :: "'ps payload_store"
  show_raft_error :: "session_raft_error \<Rightarrow> string"
  show_payload_client_error :: "payload_client_error \<Rightarrow> string"

datatype actor_state = Initializing | Running | Failed session_raft_error | Stopped

datatype raft_message =
    StoreOfflineMessage string string string
  | PopOfflineMessage string string
  | CreateSessionStateMessage string string "protocol_version option" "u32 option"
  | DeleteSessionStateMessage string string "u64 option"
  | UpdateSessionConnectionStateMessage string string "u64 option" "u32 option"
  | SubscribeTopicMessage string string string u8 bool bool
  | UnsubscribeTopicMessage string string string
  | RegisterInflightRxPacketMessage string string u16 u8 string
  | RegisterInflightTxPacketMessage string string u16 u8 string
  | AdvanceInflightStateMessage string string u16
  | InflightCleanFinishedItemsMessage string string
  | DirectWriteToRaft session_state_request

text \<open>
  The state a node's session code works on: the raft actor, the other nodes (with the consensus
  protocol, the network and their payload stores), and the payload store of the node.
\<close>

record ('w, 'ps) broker_env =
  raft_mailbox :: "(unit, string) result"
  raft_actor_state :: actor_state
  raft_instance :: bool
  inflight_retry_interval_secs :: "u64 option"
  raft_pending_messages :: "raft_message list"
  actor_has_payload_store :: bool
  env_world :: 'w
  env_payloads :: 'ps

definition on_world :: "('a, 'e, 'w) op \<Rightarrow> ('a, 'e, ('w, 'ps, 'z) broker_env_scheme) op" where
  "on_world m env = (case m (env_world env) of (r, w) \<Rightarrow> (r, env\<lparr>env_world := w\<rparr>))"

definition on_store :: "('a, 'e, 'ps) op \<Rightarrow> ('a, 'e, ('w, 'ps, 'z) broker_env_scheme) op" where
  "on_store m env = (case m (env_payloads env) of (r, s) \<Rightarrow> (r, env\<lparr>env_payloads := s\<rparr>))"

definition try_local_write ::
  "('w, 'ps, 'y) session_platform_scheme \<Rightarrow> session_state_request \<Rightarrow>
   (session_state_response, session_raft_error, ('w, 'ps, 'z) broker_env_scheme) op" where
  "try_local_write pf request =
     map_err_op (\<lambda>e. case e of ForwardToLeader leader \<Rightarrow> NotLeader leader | WriteFailed e \<Rightarrow> RaftClientWriteError e)
       (on_world (client_write pf request))"

text \<open>A reply that carries an error of the state machine becomes that error, two of the four kinds excepted.\<close>

fun check_response :: "session_state_response \<Rightarrow> (session_state_response, session_raft_error) result" where
  "check_response (InflightRegisterRxPacketResponse (Err (SessionInflightError e))) = Err (RaftInflightError e)"
| "check_response (InflightRegisterTxPacketResponse (Err (SessionInflightError e))) = Err (RaftInflightError e)"
| "check_response (InflightRegisterTxPacketResponse (Err (SessionStateNotExisted client))) =
     Err (RaftSessionStateNotExisted (''Session state not existed for client_id: '' @ client))"
| "check_response r = Ok r"

definition send_to_remote_actor ::
  "('w, 'ps, 'y) session_platform_scheme \<Rightarrow> string \<Rightarrow> session_state_request \<Rightarrow>
   (session_state_response, session_raft_error, ('w, 'ps, 'z) broker_env_scheme) op" where
  "send_to_remote_actor pf addr request =
     bind_op (lift_op (map_err GRPCConnect (rpc_connect pf addr))) (\<lambda>_.
     bind_op (lift_op (map_err RaftSerialize (request_to_json pf request))) (\<lambda>data.
     bind_op (map_err_op (map_remote_status (status_codec pf)) (on_world (rpc_write pf addr data))) (\<lambda>answer.
     lift_op (map_err RaftSerialize (response_of_json pf answer)))))"

definition push_payload_to_leader ::
  "('w, 'ps, 'y) session_platform_scheme \<Rightarrow> cluster_node \<Rightarrow> session_state_request \<Rightarrow>
   (unit, session_raft_error, ('w, 'ps, 'z) broker_env_scheme) op" where
  "push_payload_to_leader pf leader request env =
     (case request_payload_key request of
        Some key \<Rightarrow>
          if actor_has_payload_store env
          then map_err_op (\<lambda>e. ServiceUnavailable (''push payload error '' @ show_payload_client_error pf e))
            (on_world (replicate_key (request_len pf) (delimiter_len pf) (crc32 pf)
               (payload_peer pf (rpc_addr leader)) (payload_ops pf) (env_payloads env) key
               (raft_term pf (env_world env)))) env
          else (Ok (), env)
      | None \<Rightarrow> (Ok (), env))"

definition handle_raft_write ::
  "('w, 'ps, 'y) session_platform_scheme \<Rightarrow> session_state_request \<Rightarrow>
   (session_state_response, session_raft_error, ('w, 'ps, 'z) broker_env_scheme) op" where
  "handle_raft_write pf request =
     bind_op (try_op (try_local_write pf request)) (\<lambda>r. case r of
        Ok response \<Rightarrow> lift_op (check_response response)
      | Err (NotLeader (Some leader)) \<Rightarrow>
          bind_op (push_payload_to_leader pf leader request) (\<lambda>_.
          send_to_remote_actor pf (rpc_addr leader) request)
      | Err (NotLeader None) \<Rightarrow> fail_op NoLeaderAvailable
      | Err e \<Rightarrow> fail_op e)"

section \<open>The actor's messages\<close>

text \<open>
  What the handlers share: while the actor starts a message is kept for later and refused, once it
  runs the command is written.
\<close>

definition write_when_running ::
  "('w, 'ps, 'y) session_platform_scheme \<Rightarrow> session_state_request \<Rightarrow>
   (session_state_response, session_raft_error, ('w, 'ps, 'z) broker_env_scheme) op" where
  "write_when_running pf request env =
     (if raft_instance env then handle_raft_write pf request env else (Err NotInitialized, env))"

definition keep_message ::
  "raft_message \<Rightarrow> ('w, 'ps, 'z) broker_env_scheme \<Rightarrow> ('w, 'ps, 'z) broker_env_scheme" where
  "keep_message msg env = env\<lparr>raft_pending_messages := raft_pending_messages env @ [msg]\<rparr>"

definition handle_command ::
  "('w, 'ps, 'y) session_platform_scheme \<Rightarrow> raft_message \<Rightarrow> session_state_request \<Rightarrow>
   (unit, session_raft_error, ('w, 'ps, 'z) broker_env_scheme) op" where
  "handle_command pf msg request env =
     (case raft_actor_state env of
        Initializing \<Rightarrow> (Err (NotReady ''Initializing''), keep_message msg env)
      | Running \<Rightarrow> bind_op (write_when_running pf request) (\<lambda>_. pure_op ()) env
      | Failed e \<Rightarrow> (Err (ServiceUnavailable (show_raft_error pf e)), env)
      | Stopped \<Rightarrow> (Err (NotReady ''Actor is stopped''), env))"

definition handle_store_offline_message where
  "handle_store_offline_message pf tenant client key =
     handle_command pf (StoreOfflineMessage tenant client key) (AppendToPendingQueue tenant client key)"

definition handle_pop_offline_message ::
  "('w, 'ps, 'y) session_platform_scheme \<Rightarrow> string \<Rightarrow> string \<Rightarrow>
   (string option \<times> bytes option, session_raft_error, ('w, 'ps, 'z) broker_env_scheme) op" where
  "handle_pop_offline_message pf tenant client env =
     (case raft_actor_state env of
        Initializing \<Rightarrow> (Err (NotReady ''Initializing''), env)
      | Running \<Rightarrow>
          bind_op (write_when_running pf (PopFromPendingQueue tenant client)) (\<lambda>response. case response of
             PopFromPendingQueueResult key data \<Rightarrow> pure_op (key, data)
           | _ \<Rightarrow> fail_op (UnexpectedResponseType ''pop from pending queue error, unexpected response'')) env
      | Failed e \<Rightarrow> (Err (ServiceUnavailable (show_raft_error pf e)), env)
      | Stopped \<Rightarrow> (Err (NotReady ''Actor is stopped''), env))"

definition handle_create_session_state ::
  "('w, 'ps, 'y) session_platform_scheme \<Rightarrow> string \<Rightarrow> string \<Rightarrow> protocol_version option \<Rightarrow> u32 option \<Rightarrow>
   (unit, session_raft_error, ('w, 'ps, 'z) broker_env_scheme) op" where
  "handle_create_session_state pf tenant client version expiry env =
     (case (raft_actor_state env, inflight_retry_interval_secs env) of
        (Running, None) \<Rightarrow> (Err NotInitialized, env)
      | (_, duration) \<Rightarrow>
          handle_command pf (CreateSessionStateMessage tenant client version expiry)
            (CreateSessionState tenant client (case duration of Some d \<Rightarrow> d | None \<Rightarrow> 0) version expiry) env)"

definition handle_delete_session_state where
  "handle_delete_session_state pf tenant client expected =
     handle_command pf (DeleteSessionStateMessage tenant client expected) (DeleteSessionState tenant client expected)"

definition handle_update_session_connection_state where
  "handle_update_session_connection_state pf tenant client disconnected expiry =
     handle_command pf (UpdateSessionConnectionStateMessage tenant client disconnected expiry)
       (UpdateSessionConnectionState tenant client disconnected expiry)"

definition handle_subscribe_topic where
  "handle_subscribe_topic pf tenant client topic q nl rap =
     handle_command pf (SubscribeTopicMessage tenant client topic q nl rap) (SubscribeTopic tenant client topic q nl rap)"

definition handle_unsubscribe_topic where
  "handle_unsubscribe_topic pf tenant client topic =
     handle_command pf (UnsubscribeTopicMessage tenant client topic) (UnsubscribeTopic tenant client topic)"

definition handle_register_inflight_rx_packet where
  "handle_register_inflight_rx_packet pf tenant client pid q key =
     handle_command pf (RegisterInflightRxPacketMessage tenant client pid q key)
       (InflightRegisterRxPacket tenant client pid q key)"

definition handle_register_inflight_tx_packet where
  "handle_register_inflight_tx_packet pf tenant client pid q key =
     handle_command pf (RegisterInflightTxPacketMessage tenant client pid q key)
       (InflightRegisterTxPacket tenant client pid q key False)"

definition handle_advance_inflight_state where
  "handle_advance_inflight_state pf tenant client pid =
     handle_command pf (AdvanceInflightStateMessage tenant client pid) (InflightNextState tenant client pid)"

text \<open>Cleaning is the one message reported as done while the actor starts.\<close>

definition handle_inflight_clean_finished_items ::
  "('w, 'ps, 'y) session_platform_scheme \<Rightarrow> string \<Rightarrow> string \<Rightarrow>
   (unit, session_raft_error, ('w, 'ps, 'z) broker_env_scheme) op" where
  "handle_inflight_clean_finished_items pf tenant client env =
     (if raft_actor_state env = Initializing
      then (Ok (), keep_message (InflightCleanFinishedItemsMessage tenant client) env)
      else handle_command pf (InflightCleanFinishedItemsMessage tenant client)
        (InflightCleanFinishItems tenant client) env)"

definition handle_direct_write_to_raft ::
  "('w, 'ps, 'y) session_platform_scheme \<Rightarrow> session_state_request \<Rightarrow>
   (session_state_response, session_raft_error, ('w, 'ps, 'z) broker_env_scheme) op" where
  "handle_direct_write_to_raft pf command env =
     (case raft_actor_state env of
        Initializing \<Rightarrow> (Err (NotReady ''Initializing''), keep_message (DirectWriteToRaft command) env)
      | Running \<Rightarrow>
          if raft_instance env then handle_raft_write pf command env
          else (Err (NotReady ''Initializing''), env)
      | Stopped \<Rightarrow> (Err (NotReady ''Stopped''), env)
      | Failed e \<Rightarrow> (Err e, env))"

text \<open>
  Once the actor runs, the kept messages are handled again, nobody waiting for the answers; those of
  a type that is not looked for are dropped.
\<close>

fun replay_message ::
  "('w, 'ps, 'y) session_platform_scheme \<Rightarrow> raft_message \<Rightarrow>
   ('w, 'ps, 'z) broker_env_scheme \<Rightarrow> ('w, 'ps, 'z) broker_env_scheme" where
  "replay_message pf (StoreOfflineMessage tenant client key) env =
     snd (handle_store_offline_message pf tenant client key env)"
| "replay_message pf (PopOfflineMessage tenant client) env = snd (handle_pop_offline_message pf tenant client env)"
| "replay_message pf (CreateSessionStateMessage tenant client version expiry) env =
     snd (handle_create_session_state pf tenant client version expiry env)"
| "replay_message pf (RegisterInflightRxPacketMessage tenant client pid q key) env =
     snd (handle_register_inflight_rx_packet pf tenant client pid q key env)"
| "replay_message pf (RegisterInflightTxPacketMessage tenant client pid q key) env =
     snd (handle_register_inflight_tx_packet pf tenant client pid q key env)"
| "replay_message pf (AdvanceInflightStateMessage tenant client pid) env =
     snd (handle_advance_inflight_state pf tenant client pid env)"
| "replay_message pf (DeleteSessionStateMessage tenant client expected) env =
     snd (handle_delete_session_state pf tenant client expected env)"
| "replay_message pf (SubscribeTopicMessage tenant client topic q nl rap) env =
     snd (handle_subscribe_topic pf tenant client topic q nl rap env)"
| "replay_message pf (UnsubscribeTopicMessage tenant client topic) env =
     snd (handle_unsubscribe_topic pf tenant client topic env)"
| "replay_message pf _ env = env"

definition process_pending_messages ::
  "('w, 'ps, 'y) session_platform_scheme \<Rightarrow>
   ('w, 'ps, 'z) broker_env_scheme \<Rightarrow> ('w, 'ps, 'z) broker_env_scheme" where
  "process_pending_messages pf env =
     fold (replay_message pf) (raft_pending_messages env) (env\<lparr>raft_pending_messages := []\<rparr>)"

definition initialization_complete ::
  "('w, 'ps, 'y) session_platform_scheme \<Rightarrow> (unit, session_raft_error) result \<Rightarrow>
   ('w, 'ps, 'z) broker_env_scheme \<Rightarrow> ('w, 'ps, 'z) broker_env_scheme" where
  "initialization_complete pf outcome env =
     (case outcome of
        Ok _ \<Rightarrow> process_pending_messages pf (env\<lparr>raft_instance := True, raft_actor_state := Running\<rparr>)
      | Err e \<Rightarrow> env\<lparr>raft_actor_state := Failed e\<rparr>)"

text \<open>The leader's side of a forwarded write, \<open>RaftService::write\<close> for the session states.\<close>

definition raft_service_write ::
  "('w, 'ps, 'y) session_platform_scheme \<Rightarrow> string \<Rightarrow>
   (string, grpc_status, ('w, 'ps, 'z) broker_env_scheme) op" where
  "raft_service_write pf data =
     bind_op (lift_op (map_err (\<lambda>e. invalid_argument_status (status_codec pf) (''Invalid JSON data: '' @ e) ''raft_service'')
       (request_of_json pf data))) (\<lambda>command.
     bind_op (read_op (\<lambda>env. map_err (\<lambda>e. plain_status CodeInternal (''Write to session state raft error '' @ e))
       (raft_mailbox env))) (\<lambda>_.
     bind_op (map_err_op (map_session_state_raft_error (status_codec pf) (show_raft_error pf) ''session state write'')
       (handle_direct_write_to_raft pf command)) (\<lambda>response.
     lift_op (map_err (\<lambda>e. plain_status CodeInternal (''WriteResponse serialization error: '' @ e))
       (response_to_json pf response)))))"

section \<open>The service\<close>

text \<open>The service hands a call to the actor; a mailbox that is full or closed refuses it.\<close>

definition via_mailbox ::
  "('a, session_raft_error, ('w, 'ps, 'z) broker_env_scheme) op \<Rightarrow>
   ('a, session_raft_error, ('w, 'ps, 'z) broker_env_scheme) op" where
  "via_mailbox m env = (case raft_mailbox env of Ok _ \<Rightarrow> m env | Err e \<Rightarrow> (Err (ServiceUnavailable e), env))"

definition store_offline_message where
  "store_offline_message pf tenant client key = via_mailbox (handle_store_offline_message pf tenant client key)"

definition pop_offline_message where
  "pop_offline_message pf tenant client = via_mailbox (handle_pop_offline_message pf tenant client)"

definition service_create_session_state where
  "service_create_session_state pf tenant client version expiry =
     via_mailbox (handle_create_session_state pf tenant client version expiry)"

definition service_delete_session_state where
  "service_delete_session_state pf tenant client expected =
     via_mailbox (handle_delete_session_state pf tenant client expected)"

definition update_session_connection_state where
  "update_session_connection_state pf tenant client disconnected expiry =
     via_mailbox (handle_update_session_connection_state pf tenant client disconnected expiry)"

definition service_subscribe_topic_with_options where
  "service_subscribe_topic_with_options pf tenant client topic q nl rap =
     via_mailbox (handle_subscribe_topic pf tenant client topic q nl rap)"

definition service_subscribe_topic where
  "service_subscribe_topic pf tenant client topic q =
     service_subscribe_topic_with_options pf tenant client topic q False False"

definition service_unsubscribe_topic where
  "service_unsubscribe_topic pf tenant client topic = via_mailbox (handle_unsubscribe_topic pf tenant client topic)"

definition register_inflight_rx_packet where
  "register_inflight_rx_packet pf tenant client pid q key =
     via_mailbox (handle_register_inflight_rx_packet pf tenant client pid q key)"

definition advance_inflight_state where
  "advance_inflight_state pf tenant client pid = via_mailbox (handle_advance_inflight_state pf tenant client pid)"

definition clean_finished_inflight_items where
  "clean_finished_inflight_items pf tenant client =
     via_mailbox (handle_inflight_clean_finished_items pf tenant client)"

definition write_delivery_command where
  "write_delivery_command pf command = via_mailbox (handle_direct_write_to_raft pf command)"

definition register_inflight_tx_packet ::
  "('w, 'ps, 'y) session_platform_scheme \<Rightarrow> string \<Rightarrow> string \<Rightarrow> u16 \<Rightarrow> u8 \<Rightarrow> string \<Rightarrow> bool \<Rightarrow>
   (unit, session_raft_error, ('w, 'ps, 'z) broker_env_scheme) op" where
  "register_inflight_tx_packet pf tenant client pid q key deferred =
     bind_op (write_delivery_command pf (InflightRegisterTxPacket tenant client pid q key deferred)) (\<lambda>_. pure_op ())"

definition start_inflight_delivery ::
  "('w, 'ps, 'y) session_platform_scheme \<Rightarrow> string \<Rightarrow> string \<Rightarrow> u16 \<Rightarrow> string \<Rightarrow>
   (bool, session_raft_error, ('w, 'ps, 'z) broker_env_scheme) op" where
  "start_inflight_delivery pf tenant client pid key =
     bind_op (write_delivery_command pf (InflightStartDelivery tenant client pid key))
       (\<lambda>response. pure_op (response = InflightStartDeliveryResult True))"

definition discard_unsent_inflight ::
  "('w, 'ps, 'y) session_platform_scheme \<Rightarrow> string \<Rightarrow> string \<Rightarrow> u16 \<Rightarrow> string \<Rightarrow>
   (unit, session_raft_error, ('w, 'ps, 'z) broker_env_scheme) op" where
  "discard_unsent_inflight pf tenant client pid key =
     bind_op (write_delivery_command pf (InflightDiscardUnsent tenant client pid key)) (\<lambda>_. pure_op ())"

section \<open>Errors across the network\<close>

text \<open>What the node that asked makes of an error of the leader.\<close>

lemma distinct_kinds [simp]:
  "ERROR_KIND_BUSINESS \<noteq> ERROR_KIND_LEADER_REDIRECT" "ERROR_KIND_NO_LEADER \<noteq> ERROR_KIND_LEADER_REDIRECT"
  "ERROR_KIND_NOT_READY \<noteq> ERROR_KIND_LEADER_REDIRECT" "ERROR_KIND_NOT_READY \<noteq> ERROR_KIND_NO_LEADER"
  "ERROR_KIND_FATAL \<noteq> ERROR_KIND_LEADER_REDIRECT" "ERROR_KIND_FATAL \<noteq> ERROR_KIND_NO_LEADER"
  "ERROR_KIND_FATAL \<noteq> ERROR_KIND_NOT_READY"
  by (simp_all add: kind_defs)

lemma status_with_metadata_simps [simp]:
  "status_code (status_with_metadata mc code message kind detail addr ident) = code"
  "status_message (status_with_metadata mc code message kind detail addr ident) = message"
  by (simp_all add: status_with_metadata_def Let_def)

lemma remote_business_error:
  assumes "metadata_laws mc" and "valid_str message" and "valid_str origin" and "code \<noteq> ErrUnknown"
  shows "map_remote_status mc (business_status mc status (business_detail code message origin)) =
    map_remote_business_error status (business_detail code message origin)"
  using assms
  by (simp add: map_remote_status_def business_status_def business_detail_def decode_status_with_metadata
      error_code_number_zero Let_def)

lemma remote_kind:
  assumes "metadata_laws mc" and "visible_ascii kind" and "kind \<noteq> ERROR_KIND_LEADER_REDIRECT"
  shows "map_remote_status mc (status_with_metadata mc code message (Some kind) None None None) =
    (if kind = ERROR_KIND_NO_LEADER then NoLeaderAvailable
     else if kind = ERROR_KIND_NOT_READY then NotReady message
     else if code = CodeUnavailable then ServiceUnavailable message
     else GRPC (status_with_metadata mc code message (Some kind) None None None))"
  using assms
  by (simp add: map_remote_status_def decode_status_with_metadata Let_def)

lemma remote_redirect:
  assumes "metadata_laws mc" and "visible_ascii addr"
  shows "map_remote_status mc (leader_redirect_status mc message addr ident) =
    NotLeader (Some \<lparr>node_ident = ident, rpc_addr = addr, api_addr = ''''\<rparr>)"
  using assms
  by (simp add: map_remote_status_def leader_redirect_status_def decode_status_with_metadata Let_def
      leader_node_from_status_def)

lemma remote_plain:
  "map_remote_status mc (plain_status CodeUnavailable message) = ServiceUnavailable message"
  by (simp add: map_remote_status_def plain_status_def decode_status_def)

lemma valid_origin [simp]: "valid_str ''session_state_raft''" "valid_str ''packet identifier has existed''"
  by (simp_all add: valid_str_def as_bytes_def byte_of_char_def)

section \<open>Operations on one part of the state\<close>

lemma on_store_bind: "on_store (bind_op m f) = bind_op (on_store m) (\<lambda>a. on_store (f a))"
  by (rule ext) (auto simp: on_store_def bind_op_def split: prod.split result.split)

lemma on_store_simps [simp]:
  "on_store (pure_op a) = pure_op a" "on_store (fail_op e) = fail_op e"
  "on_store (lift_op r) = lift_op r"
  by (simp_all add: on_store_def op_defs fun_eq_iff)

lemma on_store_map_err: "on_store (map_err_op g m) = map_err_op g (on_store m)"
  by (rule ext) (auto simp: on_store_def map_err_op_def split: prod.split)

lemma on_world_eq: "on_world m env = (r, env') \<longleftrightarrow>
    (\<exists>w. m (env_world env) = (r, w) \<and> env' = env\<lparr>env_world := w\<rparr>)"
  by (auto simp: on_world_def split: prod.splits)

text \<open>The payload service of a node, as its peers reach it.\<close>

definition node_rpc ::
  "'ps payload_rpc \<Rightarrow> ('w, 'ps, 'z) broker_env_scheme payload_rpc" where
  "node_rpc rpc =
     \<lparr>rpc_channel = rpc_channel rpc,
      rpc_replicate_batch = \<lambda>rs. on_store (rpc_replicate_batch rpc rs),
      rpc_replicate_stream = \<lambda>cs. on_store (rpc_replicate_stream rpc cs),
      rpc_stream_bulk_data = \<lambda>keys env. rpc_stream_bulk_data rpc keys (env_payloads env)\<rparr>"

lemma send_node_rpc:
  "send_batch (node_rpc rpc) batch = on_store (send_batch rpc batch)"
  "send_stream crc (node_rpc rpc) entry = on_store (send_stream crc rpc entry)"
  by (simp_all add: send_batch_def send_stream_def node_rpc_def on_store_bind on_store_map_err
      if_distrib [of on_store] cong: if_cong)

lemma replicate_loop_node_rpc:
  "replicate_loop elen dlen crc (node_rpc rpc) batch n entries = on_store (replicate_loop elen dlen crc rpc batch n entries)"
proof (induction entries arbitrary: batch n)
  case Nil
  show ?case by (simp add: send_node_rpc)
next
  case (Cons e es)
  show ?case
    by (simp add: Cons.IH on_store_bind send_node_rpc if_distrib [of on_store] Let_def split_def cong: if_cong)
qed

lemma replicate_entries_node_rpc:
  "replicate_entries elen dlen crc (node_rpc rpc) entries = on_store (replicate_entries elen dlen crc rpc entries)"
  by (simp add: replicate_entries_def on_store_bind replicate_loop_node_rpc) (simp add: node_rpc_def)

section \<open>Forwarded writes\<close>

text \<open>
  What a node relies on when it forwards to \<open>leader\<close>, whose node state is the world seen from here:
  \<open>openraft\<close> names the leader and leaves the cluster as it is, the transport reaches the services of
  the leader, and JSON that was written can be read.
\<close>

definition follows ::
  "(('w, 'ps, 'z) broker_env_scheme, 'qs, 'x) session_platform_scheme \<Rightarrow>
   ('w, 'ps, 'y) session_platform_scheme \<Rightarrow> (string list \<Rightarrow> nat) \<Rightarrow> cluster_node \<Rightarrow> bool" where
  "follows pf pfl klen leader \<longleftrightarrow>
     (\<forall>request w. client_write pf request w = (Err (ForwardToLeader (Some leader)), w)) \<and>
     rpc_connect pf (rpc_addr leader) = Ok () \<and>
     rpc_write pf (rpc_addr leader) = raft_service_write pfl \<and>
     payload_peer pf (rpc_addr leader) =
       node_rpc (service_rpc (request_len pf) (delimiter_len pf) klen (crc32 pf) (payload_ops pfl)) \<and>
     status_codec pfl = status_codec pf \<and>
     (\<forall>request data. request_to_json pf request = Ok data \<longrightarrow> request_of_json pfl data = Ok request) \<and>
     (\<forall>response data. response_to_json pfl response = Ok data \<longrightarrow> response_of_json pf data = Ok response)"

text \<open>What the node that asked makes of the leader's error, and of its outcome.\<close>

definition relayed_error ::
  "metadata_codec \<Rightarrow> (session_raft_error \<Rightarrow> string) \<Rightarrow> session_raft_error \<Rightarrow> session_raft_error" where
  "relayed_error mc shown e =
     map_remote_status mc (map_session_state_raft_error mc shown ''session state write'' e)"

definition relayed ::
  "metadata_codec \<Rightarrow> (session_raft_error \<Rightarrow> string) \<Rightarrow> (session_state_response \<Rightarrow> (string, string) result) \<Rightarrow>
   (session_state_response, session_raft_error) result \<Rightarrow> (session_state_response, session_raft_error) result" where
  "relayed mc shown json r =
     (case r of
        Ok response \<Rightarrow>
          (case json response of
             Ok _ \<Rightarrow> Ok response
           | Err e \<Rightarrow> Err (map_remote_status mc (plain_status CodeInternal (''WriteResponse serialization error: '' @ e))))
      | Err e \<Rightarrow> Err (relayed_error mc shown e))"

lemma push_payload_reaches_leader:
  assumes "follows pf pfl klen leader" and "payload_laws (payload_ops pfl) view" and "reliable (payload_ops pfl)"
    and "actor_has_payload_store env"
    and "\<forall>key. request_payload_key request = Some key \<longrightarrow>
          ps_get (payload_ops pf) key (env_payloads env) = Ok (Some (data key))"
  shows "\<exists>P. view P = view (env_payloads (env_world env)) ++
        (case request_payload_key request of Some key \<Rightarrow> [key \<mapsto> data key] | None \<Rightarrow> Map.empty) \<and>
      push_payload_to_leader pf leader request env =
        (Ok (), env\<lparr>env_world := (env_world env)\<lparr>env_payloads := P\<rparr>\<rparr>)"
proof (cases "request_payload_key request")
  case None
  then show ?thesis
    by (intro exI [of _ "env_payloads (env_world env)"]) (simp add: push_payload_to_leader_def)
next
  case (Some key)
  let ?r = "\<lparr>rr_key = key, rr_data = data key, rr_term = raft_term pf (env_world env)\<rparr>"
  let ?rpc = "service_rpc (request_len pf) (delimiter_len pf) klen (crc32 pf) (payload_ops pfl)"
  obtain P where P: "replicate_loop (request_len pf) (delimiter_len pf) (crc32 pf) ?rpc [] 0 [?r]
        (env_payloads (env_world env)) = (Ok (), P)"
      "view P = (view (env_payloads (env_world env)))(key \<mapsto> data key)"
    using replicate_loop_service [OF assms(2,3), where elen = "request_len pf" and dlen = "delimiter_len pf" and
      batch = "[]" and batch_size = 0 and klen = klen and crc = "crc32 pf" and entries = "[?r]" and
      s = "env_payloads (env_world env)"] by auto
  have "replicate_entries (request_len pf) (delimiter_len pf) (crc32 pf) ?rpc [?r]
      (env_payloads (env_world env)) = (Ok (), P)"
    using P(1) by (simp add: replicate_entries_def service_rpc_def bind_op_def lift_op_def)
  then have "push_payload_to_leader pf leader request env =
      (Ok (), env\<lparr>env_world := (env_world env)\<lparr>env_payloads := P\<rparr>\<rparr>)"
    using assms(1,4,5) Some
    by (simp add: push_payload_to_leader_def follows_def replicate_key_def replicate_entries_node_rpc
        map_err_op_def on_world_def on_store_def)
  with P(2) Some show ?thesis by auto
qed

lemma raft_service_write_relayed:
  assumes "follows pf pfl klen leader" and "request_to_json pf request = Ok data"
    and "raft_mailbox L = Ok ()" and "raft_actor_state L = Running" and "raft_instance L"
    and "env_world env = L" and "handle_raft_write pfl request L = (r, L')"
  shows "send_to_remote_actor pf (rpc_addr leader) request env =
    (relayed (status_codec pf) (show_raft_error pfl) (response_to_json pfl) r, env\<lparr>env_world := L'\<rparr>)"
proof -
  have f: "rpc_connect pf (rpc_addr leader) = Ok ()" "rpc_write pf (rpc_addr leader) = raft_service_write pfl"
      "request_of_json pfl data = Ok request" "status_codec pfl = status_codec pf"
      "\<And>x s. response_to_json pfl x = Ok s \<Longrightarrow> response_of_json pf s = Ok x"
    using assms(1,2) by (auto simp: follows_def)
  have d: "handle_direct_write_to_raft pfl request L = (r, L')"
    using assms(4,5,7) by (simp add: handle_direct_write_to_raft_def)
  show ?thesis
  proof (cases r)
    case (Ok x)
    then show ?thesis
      using f d assms(2,3,6)
      by (cases "response_to_json pfl x")
        (auto simp: send_to_remote_actor_def raft_service_write_def relayed_def bind_op_def map_err_op_def
          op_defs on_world_def)
  next
    case (Err e)
    then show ?thesis
      using f d assms(2,3,6)
      by (auto simp: send_to_remote_actor_def raft_service_write_def relayed_def relayed_error_def bind_op_def
          map_err_op_def op_defs on_world_def)
  qed
qed

lemma remote_inflight_error:
  assumes "metadata_laws mc"
  shows "relayed_error mc shown (RaftInflightError e) = RaftInflightError e"
  using assms
  by (cases e) (simp add: relayed_error_def remote_business_error,
      simp add: map_remote_business_error_def business_detail_def error_code_roundtrip)

lemma remote_not_existed:
  assumes "metadata_laws mc" and "valid_str message"
  shows "relayed_error mc shown (RaftSessionStateNotExisted message) = RaftSessionStateNotExisted message"
  using assms
  by (simp add: relayed_error_def remote_business_error)
    (simp add: map_remote_business_error_def business_detail_def error_code_roundtrip)

lemma remote_business:
  assumes "metadata_laws mc" and "valid_str (business_message err)" and "valid_str (business_node err)"
    and "business_code err \<notin> {ErrUnknown, SessionStateNotFound, PacketIdentifierAlreadyExists}"
  shows "relayed_error mc shown (GRPCBusiness err) = GRPCBusiness err"
proof (cases err)
  case (fields code bcode message origin)
  then have "relayed_error mc shown (GRPCBusiness err) =
      map_remote_business_error code (business_detail bcode message origin)"
    using assms by (simp add: relayed_error_def remote_business_error)
  also have "\<dots> = GRPCBusiness err"
    using assms(4) fields
    by (cases bcode) (simp_all add: map_remote_business_error_def business_detail_def
        error_code_roundtrip grpc_business_error_new_def)
  finally show ?thesis .
qed

section \<open>Properties\<close>

text \<open>
  C5: A write on a node that is not the leader has the effect and the outcome of the same write on the
  leader. The payload the request refers to is in the leader's store before the leader handles the
  request; then the leader handles it as one of its own, and the answer, or the leader's error as it
  travels in a gRPC status, is what the node returns.
\<close>

theorem forwarded_write_is_leaders_write:
  assumes "follows pf pfl klen leader" and "payload_laws (payload_ops pfl) view" and "reliable (payload_ops pfl)"
    and "actor_has_payload_store env"
    and "\<forall>key. request_payload_key request = Some key \<longrightarrow>
          ps_get (payload_ops pf) key (env_payloads env) = Ok (Some (data key))"
    and "request_to_json pf request = Ok json"
    and "raft_mailbox (env_world env) = Ok ()" and "raft_actor_state (env_world env) = Running"
    and "raft_instance (env_world env)"
  shows "\<exists>P r L'.
    view P = view (env_payloads (env_world env)) ++
      (case request_payload_key request of Some key \<Rightarrow> [key \<mapsto> data key] | None \<Rightarrow> Map.empty) \<and>
    handle_raft_write pfl request ((env_world env)\<lparr>env_payloads := P\<rparr>) = (r, L') \<and>
    handle_raft_write pf request env =
      (relayed (status_codec pf) (show_raft_error pfl) (response_to_json pfl) r, env\<lparr>env_world := L'\<rparr>)"
proof -
  obtain P where P: "view P = view (env_payloads (env_world env)) ++
        (case request_payload_key request of Some key \<Rightarrow> [key \<mapsto> data key] | None \<Rightarrow> Map.empty)"
      "push_payload_to_leader pf leader request env =
        (Ok (), env\<lparr>env_world := (env_world env)\<lparr>env_payloads := P\<rparr>\<rparr>)"
    using push_payload_reaches_leader [OF assms(1-5)] by blast
  obtain r L' where r: "handle_raft_write pfl request ((env_world env)\<lparr>env_payloads := P\<rparr>) = (r, L')"
    by (cases "handle_raft_write pfl request ((env_world env)\<lparr>env_payloads := P\<rparr>)")
  have "client_write pf request (env_world env) = (Err (ForwardToLeader (Some leader)), env_world env)"
    using assms(1) by (simp add: follows_def)
  then have "handle_raft_write pf request env =
      send_to_remote_actor pf (rpc_addr leader) request (env\<lparr>env_world := (env_world env)\<lparr>env_payloads := P\<rparr>\<rparr>)"
    using P(2) by (simp add: handle_raft_write_def try_local_write_def bind_op_def op_defs on_world_def)
  also have "\<dots> = (relayed (status_codec pf) (show_raft_error pfl) (response_to_json pfl) r, env\<lparr>env_world := L'\<rparr>)"
    using raft_service_write_relayed [OF assms(1,6), of "(env_world env)\<lparr>env_payloads := P\<rparr>"
        "env\<lparr>env_world := (env_world env)\<lparr>env_payloads := P\<rparr>\<rparr>" r L'] assms(7-9) r by simp
  finally show ?thesis
    using P(1) r by blast
qed

text \<open>
  The errors a caller acts on survive the way back from the leader. A packet identifier in use and
  a missing session arrive as they were raised, so does every other application error, a redirect
  names the leader, and the errors of a node without a leader or not ready arrive as such.
\<close>

theorem forwarded_errors_survive:
  assumes "metadata_laws mc" and "valid_str message" and "visible_ascii (rpc_addr leader)"
    and "valid_str (business_message err)" and "valid_str (business_node err)"
    and "business_code err \<notin> {ErrUnknown, SessionStateNotFound, PacketIdentifierAlreadyExists}"
  shows "relayed_error mc shown (RaftInflightError e) = RaftInflightError e \<and>
    relayed_error mc shown (RaftSessionStateNotExisted message) = RaftSessionStateNotExisted message \<and>
    relayed_error mc shown (GRPCBusiness err) = GRPCBusiness err \<and>
    relayed_error mc shown (NotLeader (Some leader)) = NotLeader (Some (leader\<lparr>api_addr := ''''\<rparr>)) \<and>
    relayed_error mc shown (NotLeader None) = NoLeaderAvailable \<and>
    relayed_error mc shown NoLeaderAvailable = NoLeaderAvailable \<and>
    relayed_error mc shown (NotReady message) = NotReady (''session state write failed: '' @ message) \<and>
    relayed_error mc shown (ServiceUnavailable message) =
      ServiceUnavailable (''session state write failed: '' @ message)"
  using remote_inflight_error [OF assms(1)] remote_not_existed [OF assms(1,2)]
    remote_business [OF assms(1,4-6)] remote_redirect [OF assms(1,3)] assms(1)
  by (simp add: relayed_error_def remote_plain remote_kind no_leader_status_def not_ready_status_def)

text \<open>
  A node that is still starting keeps the messages it cannot handle yet, but not all of them are
  handled later. A request to clean finished exchanges is answered with success and then dropped: after
  the start the node and the cluster are as if it had not been sent. A registration is refused, and yet
  performed after the start.
\<close>

theorem startup_messages:
  assumes "raft_actor_state env = Initializing" and "raft_pending_messages env = []"
  shows "fst (handle_inflight_clean_finished_items pf tenant client env) = Ok () \<and>
    initialization_complete pf (Ok ()) (snd (handle_inflight_clean_finished_items pf tenant client env)) =
      initialization_complete pf (Ok ()) env \<and>
    fst (handle_register_inflight_tx_packet pf tenant client pid q key env) = Err (NotReady ''Initializing'') \<and>
    initialization_complete pf (Ok ()) (snd (handle_register_inflight_tx_packet pf tenant client pid q key env)) =
      snd (handle_raft_write pf (InflightRegisterTxPacket tenant client pid q key False)
        (initialization_complete pf (Ok ()) env))"
  using assms
  by (simp add: handle_inflight_clean_finished_items_def handle_register_inflight_tx_packet_def
      handle_command_def keep_message_def initialization_complete_def process_pending_messages_def
      write_when_running_def bind_op_def pure_op_def split: prod.split result.split)

section \<open>Examples\<close>

text \<open>A codec of details: the code, the length of the message in unary, then both texts.\<close>

definition unary_codec :: metadata_codec where
  "unary_codec =
     \<lparr>header_ok = visible_ascii,
      detail_encode = \<lambda>d. be32 (detail_code d) @ replicate (length (detail_message d)) 1 @ [0] @
        as_bytes (detail_message d) @ as_bytes (detail_node d),
      detail_decode = \<lambda>bs. case bs of
         a # b # c # d # rest \<Rightarrow>
           (let n = length (takeWhile (\<lambda>x. x = 1) rest); texts = drop (Suc n) rest in
            Some \<lparr>detail_code = from_be32 a b c d, detail_message = map char_of_byte (take n texts),
                  detail_node = map char_of_byte (drop n texts)\<rparr>)
       | _ \<Rightarrow> None\<rparr>"

lemma unary_codec_laws: "metadata_laws unary_codec"
proof -
  have "takeWhile (\<lambda>x. x = (1::u8)) (replicate n 1 @ 0 # xs) = replicate n 1" for n xs
    by (induction n) auto
  moreover have "drop (Suc n) (replicate n (1::u8) @ 0 # xs) = xs" for n xs
    by simp
  ultimately show ?thesis
    by (auto simp: metadata_laws_def unary_codec_def be32_def from_be32_be32 [simplified] Let_def)
qed

type_synonym mem_db = "string \<Rightarrow> (bytes, bytes) rbt"

definition no_peer :: "'n payload_rpc" where
  "no_peer =
     \<lparr>rpc_channel = Err ''no route'', rpc_replicate_batch = \<lambda>_. fail_op (Transport ''no route''),
      rpc_replicate_stream = \<lambda>_. fail_op (Transport ''no route''),
      rpc_stream_bulk_data = \<lambda>_ _. Err (Transport ''no route'')\<rparr>"

text \<open>
  A leader whose cluster is its own copy of the session states, and a node that follows it. The
  leader has one persistent session; the follower holds the payload of the request.
\<close>

definition leader_platform :: "(session_state_storage, mem_db) session_platform" where
  "leader_platform =
     \<lparr>client_write = \<lambda>request st. case apply_session_request (\<lambda>_. Ok None) 0 request st of
        Some (response, _, st') \<Rightarrow> (Ok response, st') | None \<Rightarrow> (Err (WriteFailed ''panic''), st),
      raft_term = \<lambda>_. 1, rpc_connect = \<lambda>_. Ok (), rpc_write = \<lambda>_ _ st. (Ok '''', st),
      request_to_json = \<lambda>_. Err '''',
      request_of_json = \<lambda>_. Ok (InflightRegisterTxPacket ''t'' ''c'' 1 1 ''k'' False),
      response_to_json = \<lambda>r. if r = InflightRegisterTxPacketResponse (Ok ()) then Ok ''ok'' else Err ''json'',
      response_of_json = \<lambda>_. Err '''', status_codec = unary_codec,
      payload_peer = \<lambda>_. no_peer, request_len = \<lambda>_. 1, delimiter_len = \<lambda>_. 1, crc32 = sum_crc,
      payload_ops = mem_store, show_raft_error = \<lambda>_. '''', show_payload_client_error = \<lambda>_. ''''\<rparr>"

definition follower_platform :: "((session_state_storage, mem_db) broker_env, mem_db) session_platform" where
  "follower_platform =
     \<lparr>client_write = \<lambda>request env.
        (Err (ForwardToLeader (Some \<lparr>node_ident = Some 1, rpc_addr = ''a'', api_addr = ''b''\<rparr>)), env),
      raft_term = \<lambda>_. 1, rpc_connect = \<lambda>_. Ok (), rpc_write = \<lambda>_. raft_service_write leader_platform,
      request_to_json = \<lambda>r. if r = InflightRegisterTxPacket ''t'' ''c'' 1 1 ''k'' False then Ok ''q'' else Err '''',
      request_of_json = \<lambda>_. Err '''', response_to_json = \<lambda>_. Err '''',
      response_of_json = \<lambda>_. Ok (InflightRegisterTxPacketResponse (Ok ())), status_codec = unary_codec,
      payload_peer = \<lambda>_. node_rpc (service_rpc (\<lambda>_. 1) (\<lambda>_. 1) (\<lambda>_. 0) sum_crc mem_store),
      request_len = \<lambda>_. 1, delimiter_len = \<lambda>_. 1, crc32 = sum_crc,
      payload_ops = mem_store, show_raft_error = \<lambda>_. '''', show_payload_client_error = \<lambda>_. ''''\<rparr>"

definition leader_env :: "(session_state_storage, mem_db) broker_env" where
  "leader_env =
     \<lparr>raft_mailbox = Ok (), raft_actor_state = Running, raft_instance = True,
      inflight_retry_interval_secs = Some 5, raft_pending_messages = [], actor_has_payload_store = True,
      env_world = create_session_state ''t'' ''c'' 5 (Some V5_0) None session_storage_new,
      env_payloads = (\<lambda>_. RBT.empty)\<rparr>"

definition follower_env :: "((session_state_storage, mem_db) broker_env, mem_db) broker_env" where
  "follower_env =
     \<lparr>raft_mailbox = Ok (), raft_actor_state = Running, raft_instance = True,
      inflight_retry_interval_secs = Some 5, raft_pending_messages = [], actor_has_payload_store = True,
      env_world = leader_env, env_payloads = peer_db\<rparr>"

lemma follower_follows:
  "follows follower_platform leader_platform (\<lambda>_. 0) \<lparr>node_ident = Some 1, rpc_addr = ''a'', api_addr = ''b''\<rparr>"
  by (simp add: follows_def follower_platform_def leader_platform_def)

lemma follower_world: "env_world follower_env = leader_env"
  by (simp add: follower_env_def)

lemma peer_db_get: "ps_get mem_store ''k'' peer_db = Ok (Some [7, 8])"
  by (simp add: rocks_store_def rocks_get_def mem_kv_def peer_db_def)

lemma leader_write:
  "handle_raft_write leader_platform (InflightRegisterTxPacket ''t'' ''c'' 1 1 ''k'' False) (leader_env\<lparr>env_payloads := P\<rparr>) =
     (r, L') \<Longrightarrow> r = Ok (InflightRegisterTxPacketResponse (Ok ())) \<and> env_payloads L' = P \<and>
     inflight_get_packet_state ''t'' ''c'' 1 (env_world L') = Some WaitPuback"
  by (auto simp: handle_raft_write_def try_local_write_def on_world_def bind_op_def op_defs leader_platform_def
      leader_env_def inflight_register_tx_packet_def create_session_state_def session_storage_new_def
      new_with_options_def ensure_tenant_def put_session_def get_session_state_def hm_or_insert_def hm_insert_def
      hm_modify_def register_with_tx_packet_def packet_id_exists_def inflight_new_def insert_item_def
      inc_ref_def dec_ref_option_def inflight_get_packet_state_def get_inflight_current_state_def Let_def)

theorem forwarded_write_is_leaders_write_witness:
  "\<exists>L'. handle_raft_write follower_platform (InflightRegisterTxPacket ''t'' ''c'' 1 1 ''k'' False) follower_env =
      (Ok (InflightRegisterTxPacketResponse (Ok ())), follower_env\<lparr>env_world := L'\<rparr>) \<and>
    mem_held (env_payloads L') ''k'' = Some [7, 8] \<and>
    inflight_get_packet_state ''t'' ''c'' 1 (env_world L') = Some WaitPuback"
proof -
  let ?q = "InflightRegisterTxPacket ''t'' ''c'' 1 1 ''k'' False"
  have "\<exists>P r L'. mem_held P = mem_held (env_payloads (env_world follower_env)) ++
        (case request_payload_key ?q of Some key \<Rightarrow> [key \<mapsto> [7, 8]] | None \<Rightarrow> Map.empty) \<and>
      handle_raft_write leader_platform ?q ((env_world follower_env)\<lparr>env_payloads := P\<rparr>) = (r, L') \<and>
      handle_raft_write follower_platform ?q follower_env =
        (relayed (status_codec follower_platform) (show_raft_error leader_platform)
          (response_to_json leader_platform) r, follower_env\<lparr>env_world := L'\<rparr>)"
    by (rule forwarded_write_is_leaders_write [OF follower_follows, where view = mem_held and json = "''q''"])
      (simp_all add: leader_platform_def follower_platform_def follower_env_def leader_env_def mem_store_laws
        mem_store_reliable peer_db_get)
  then obtain P r L' where *: "mem_held P = mem_held (env_payloads leader_env) ++ [''k'' \<mapsto> [7, 8]]"
      "handle_raft_write leader_platform ?q (leader_env\<lparr>env_payloads := P\<rparr>) = (r, L')"
      "handle_raft_write follower_platform ?q follower_env =
        (relayed (status_codec follower_platform) (show_raft_error leader_platform)
          (response_to_json leader_platform) r, follower_env\<lparr>env_world := L'\<rparr>)"
    unfolding follower_world request_payload_key.simps option.case by blast
  with leader_write [OF *(2)] show ?thesis
    by (auto simp: relayed_def leader_platform_def)
qed

theorem forwarded_errors_survive_witness:
  "relayed_error unary_codec (\<lambda>_. '''') (RaftInflightError PacketIdentifierHasExisted) =
     RaftInflightError PacketIdentifierHasExisted"
  using forwarded_errors_survive [OF unary_codec_laws, of "''gone''"
      "\<lparr>node_ident = Some 1, rpc_addr = ''a'', api_addr = ''b''\<rparr>"
      "\<lparr>business_grpc_code = CodeNotFound, business_code = TopicNotFound, business_message = ''m'', business_node = ''n''\<rparr>"
      "\<lambda>_. ''''" PacketIdentifierHasExisted]
  by (simp add: valid_str_def as_bytes_def byte_of_char_def visible_ascii_def)

theorem startup_messages_witness:
  "fst (handle_inflight_clean_finished_items leader_platform ''t'' ''c'' (leader_env\<lparr>raft_actor_state := Initializing\<rparr>)) = Ok () \<and>
   fst (handle_register_inflight_tx_packet leader_platform ''t'' ''c'' 1 1 ''k'' (leader_env\<lparr>raft_actor_state := Initializing\<rparr>)) =
     Err (NotReady ''Initializing'')"
  using startup_messages [of "leader_env\<lparr>raft_actor_state := Initializing\<rparr>" leader_platform "''t''" "''c''" 1 1 "''k''"]
  by (simp add: leader_env_def)

end
