(* ===== verification/Mqtt3_Packet.thy ===== *)
theory Mqtt3_Packet
  imports V5_Fixed_Header Utf8_Lossy
begin

text \<open>
  The packets of MQTT 3.1.1, \<open>mqtt/src/lib.rs\<close> and \<open>mqtt/src/v3\<close>: the structs, the constructors and
  builders that set their fixed headers, the encoders, and the conversions from and to the neutral
  packets of \<open>mqtt/src/packet.rs\<close>. The parsers are combinators of the library \<open>nom\<close> and not modelled.
\<close>

section \<open>Structs\<close>

datatype v3_packet_type =
    T_CONNECT | T_CONNACK | T_PUBLISH | T_PUBACK | T_PUBREC | T_PUBREL | T_PUBCOMP | T_SUBSCRIBE
  | T_SUBACK | T_UNSUBSCRIBE | T_UNSUBACK | T_PINGREQ | T_PINGRESP | T_DISCONNECT

record v3_fix_header =
  v3_packet_type :: v3_packet_type
  v3_qos :: "32 word option"
  v3_retain :: "bool option"
  v3_dup :: "32 word option"
  v3_remaining_length :: nat

record v3_connect_header =
  v3_protocol_name :: string
  v3_protocol_level :: u8
  v3_username_flag :: bool
  v3_password_flag :: bool
  v3_will_retain :: bool
  v3_will_qos :: u8
  v3_will_flag :: bool
  v3_clean_session :: bool
  v3_keep_alive :: u16

record v3_connect_payload =
  v3_client_identifier :: string
  v3_will_topic :: "string option"
  v3_will_message :: "string option"
  v3_username :: "string option"
  v3_password :: "string option"

datatype v3_return_code = MaxQos0 | MaxQos1 | MaxQos2 | ReturnFailure | ReturnInvalid

datatype connack_return_code =
    Accept | UnsupportedVersion | InvalidClientIdentifier | CodeServerUnavailable
  | InvalidUsernameOrPassword | UnAuthorized

text \<open>A packet is its fixed header and the fields of its variable header and payload.\<close>

datatype mqtt_packet_v3 =
    V3Connect v3_fix_header v3_connect_header v3_connect_payload
  | V3Connack v3_fix_header bool u8
  | V3Publish v3_fix_header string "u16 option" bytes
  | V3Puback v3_fix_header u16
  | V3Pubrec v3_fix_header u16
  | V3Pubrel v3_fix_header u16
  | V3Pubcomp v3_fix_header u16
  | V3Subscribe v3_fix_header u16 "(string \<times> u8) list"
  | V3Suback v3_fix_header u16 "v3_return_code list"
  | V3Unsubscribe v3_fix_header u16 "string list"
  | V3Unsuback v3_fix_header u16
  | V3Pingreq v3_fix_header
  | V3Pingresp v3_fix_header
  | V3Disconnect v3_fix_header

section \<open>Encoders\<close>

definition v3_packet_type_u8 :: "v3_packet_type \<Rightarrow> u8" where
  "v3_packet_type_u8 t =
     (case t of T_CONNECT \<Rightarrow> 1 | T_CONNACK \<Rightarrow> 2 | T_PUBLISH \<Rightarrow> 3 | T_PUBACK \<Rightarrow> 4 | T_PUBREC \<Rightarrow> 5
      | T_PUBREL \<Rightarrow> 6 | T_PUBCOMP \<Rightarrow> 7 | T_SUBSCRIBE \<Rightarrow> 8 | T_SUBACK \<Rightarrow> 9 | T_UNSUBSCRIBE \<Rightarrow> 10
      | T_UNSUBACK \<Rightarrow> 11 | T_PINGREQ \<Rightarrow> 12 | T_PINGRESP \<Rightarrow> 13 | T_DISCONNECT \<Rightarrow> 14)"

function v3_encode_remaining_length :: "nat \<Rightarrow> bytes" where
  "v3_encode_remaining_length n =
     (let byte = word_of_nat (n mod 128); n' = n div 128 in
      if n' > 0 then (byte OR 128) # v3_encode_remaining_length n' else [byte])"
  by auto
termination
  by (relation "measure id") auto

declare v3_encode_remaining_length.simps [simp del]

text \<open>\<open>FixHeader::ecnode\<close>.\<close>

definition v3_first_byte :: "v3_fix_header \<Rightarrow> u8" where
  "v3_first_byte h =
     (let r = push_bit 4 (v3_packet_type_u8 (v3_packet_type h)) in
      if v3_packet_type h \<in> {T_PUBLISH, T_PUBREL, T_PUBACK, T_PUBCOMP, T_PUBREC}
      then r + (case v3_dup h of Some d \<Rightarrow> push_bit 3 (ucast d) | None \<Rightarrow> 0)
             + (case v3_qos h of Some q \<Rightarrow> push_bit 1 (ucast q) | None \<Rightarrow> 0)
             + (if v3_retain h = Some True then 1 else 0)
      else r)"

definition v3_fix_header_encode :: "v3_fix_header \<Rightarrow> bytes" where
  "v3_fix_header_encode h = v3_first_byte h # v3_encode_remaining_length (v3_remaining_length h)"

text \<open>
  A string behind its length. The length is cut to 16 bits in CONNECT (\<open>as u16\<close>), and must fit
  elsewhere (\<open>u16::try_from(..).expect(..)\<close>), \<open>None\<close> being the panic.
\<close>

definition v3_string :: "string \<Rightarrow> bytes" where
  "v3_string s = be16 (word_of_nat (length s)) @ as_bytes s"

definition v3_string_option :: "string option \<Rightarrow> bytes" where
  "v3_string_option s = (case s of Some s \<Rightarrow> v3_string s | None \<Rightarrow> [])"

definition v3_checked_string :: "string \<Rightarrow> bytes option" where
  "v3_checked_string s = (if length s \<le> 65535 then Some (v3_string s) else None)"

text \<open>The flags are summed in 8 bits; they wrap for a will QoS above 3, as in a release build.\<close>

definition v3_connect_header_encode :: "v3_connect_header \<Rightarrow> bytes" where
  "v3_connect_header_encode h =
     v3_string (v3_protocol_name h) @ [0x04] @
     [(if v3_username_flag h then push_bit 7 1 else 0) + (if v3_password_flag h then push_bit 6 1 else 0) +
      (if v3_will_retain h then push_bit 5 1 else 0) + push_bit 3 (v3_will_qos h) +
      (if v3_will_flag h then push_bit 2 1 else 0) + (if v3_clean_session h then push_bit 1 1 else 0)] @
     be16 (v3_keep_alive h)"

definition v3_connect_payload_encode :: "v3_connect_payload \<Rightarrow> bytes" where
  "v3_connect_payload_encode p =
     v3_string (v3_client_identifier p) @ v3_string_option (v3_will_topic p) @
     v3_string_option (v3_will_message p) @ v3_string_option (v3_username p) @ v3_string_option (v3_password p)"

definition v3_connack_header_encode :: "bool \<Rightarrow> u8 \<Rightarrow> bytes" where
  "v3_connack_header_encode present code = [if present then 1 else 0, code]"

definition v3_publish_header_encode :: "string \<Rightarrow> u16 option \<Rightarrow> bytes option" where
  "v3_publish_header_encode topic pid =
     map_option (\<lambda>name. name @ (case pid of Some i \<Rightarrow> be16 i | None \<Rightarrow> [])) (v3_checked_string topic)"

fun v3_subscribe_payload_encode :: "(string \<times> u8) list \<Rightarrow> bytes option" where
  "v3_subscribe_payload_encode [] = Some []"
| "v3_subscribe_payload_encode ((name, q) # filters) =
     (case v3_checked_string name of
        None \<Rightarrow> None
      | Some bs \<Rightarrow> map_option (\<lambda>rest. bs @ [q] @ rest) (v3_subscribe_payload_encode filters))"

fun v3_suback_payload_encode :: "v3_return_code list \<Rightarrow> bytes" where
  "v3_suback_payload_encode [] = []"
| "v3_suback_payload_encode (c # codes) =
     (case c of MaxQos0 \<Rightarrow> [0x00] | MaxQos1 \<Rightarrow> [0x01] | MaxQos2 \<Rightarrow> [0x02]
      | ReturnFailure \<Rightarrow> [0x80] | ReturnInvalid \<Rightarrow> []) @ v3_suback_payload_encode codes"

fun v3_unsubscribe_payload_encode :: "string list \<Rightarrow> bytes option" where
  "v3_unsubscribe_payload_encode [] = Some []"
| "v3_unsubscribe_payload_encode (name # filters) =
     (case v3_checked_string name of
        None \<Rightarrow> None
      | Some bs \<Rightarrow> map_option (\<lambda>rest. bs @ rest) (v3_unsubscribe_payload_encode filters))"

text \<open>\<open>MqttPacketV3::encode\<close>, with the \<open>encode\<close> of the packet it dispatches to.\<close>

fun v3_encode :: "mqtt_packet_v3 \<Rightarrow> bytes option" where
  "v3_encode (V3Connect h vh p) =
     Some (v3_fix_header_encode h @ v3_connect_header_encode vh @ v3_connect_payload_encode p)"
| "v3_encode (V3Connack h present code) = Some (v3_fix_header_encode h @ v3_connack_header_encode present code)"
| "v3_encode (V3Publish h topic pid body) =
     map_option (\<lambda>vh. v3_fix_header_encode h @ vh @ body) (v3_publish_header_encode topic pid)"
| "v3_encode (V3Puback h pid) = Some (v3_fix_header_encode h @ be16 pid)"
| "v3_encode (V3Pubrec h pid) = Some (v3_fix_header_encode h @ be16 pid)"
| "v3_encode (V3Pubrel h pid) = Some (v3_fix_header_encode h @ be16 pid)"
| "v3_encode (V3Pubcomp h pid) = Some (v3_fix_header_encode h @ be16 pid)"
| "v3_encode (V3Subscribe h pid filters) =
     map_option (\<lambda>p. v3_fix_header_encode h @ be16 pid @ p) (v3_subscribe_payload_encode filters)"
| "v3_encode (V3Suback h pid codes) =
     Some (v3_fix_header_encode h @ be16 pid @ v3_suback_payload_encode codes)"
| "v3_encode (V3Unsubscribe h pid filters) =
     map_option (\<lambda>p. v3_fix_header_encode h @ be16 pid @ p) (v3_unsubscribe_payload_encode filters)"
| "v3_encode (V3Unsuback h pid) = Some (v3_fix_header_encode h @ be16 pid)"
| "v3_encode (V3Pingreq h) = Some (v3_fix_header_encode h)"
| "v3_encode (V3Pingresp h) = Some (v3_fix_header_encode h)"
| "v3_encode (V3Disconnect h) = Some (v3_fix_header_encode h)"

text \<open>
  \<open>to_bytes\<close> agrees with \<open>encode\<close> but for SUBSCRIBE and UNSUBSCRIBE, whose fixed headers it writes
  itself with a length of one byte (\<open>get_fix_header_bytes\<close>).
\<close>

definition v3_fix_header_bytes :: "u8 \<Rightarrow> v3_fix_header \<Rightarrow> bytes option" where
  "v3_fix_header_bytes first h =
     (if v3_remaining_length h \<le> 255 then Some [first, word_of_nat (v3_remaining_length h)] else None)"

definition v3_to_bytes :: "mqtt_packet_v3 \<Rightarrow> bytes option" where
  "v3_to_bytes p =
     (case p of
        V3Subscribe h pid filters \<Rightarrow>
          (case v3_fix_header_bytes 0x82 h of
             None \<Rightarrow> None
           | Some fh \<Rightarrow> map_option (\<lambda>p. fh @ be16 pid @ p) (v3_subscribe_payload_encode filters))
      | V3Unsubscribe h pid filters \<Rightarrow>
          (case v3_fix_header_bytes 0xA2 h of
             None \<Rightarrow> None
           | Some fh \<Rightarrow> map_option (\<lambda>p. fh @ be16 pid @ p) (v3_unsubscribe_payload_encode filters))
      | _ \<Rightarrow> v3_encode p)"

section \<open>Constructors\<close>

definition bare_header :: "v3_packet_type \<Rightarrow> nat \<Rightarrow> v3_fix_header" where
  "bare_header t n =
     \<lparr>v3_packet_type = t, v3_qos = None, v3_retain = None, v3_dup = None, v3_remaining_length = n\<rparr>"

definition v3_option_length :: "string option \<Rightarrow> nat" where
  "v3_option_length s = (case s of Some s \<Rightarrow> length s + 2 | None \<Rightarrow> 0)"

definition v3_connect_build ::
  "string \<Rightarrow> u16 \<Rightarrow> bool \<Rightarrow> (string \<times> string \<times> u8 \<times> bool) option \<Rightarrow> string option \<Rightarrow> string option \<Rightarrow> mqtt_packet_v3" where
  "v3_connect_build client interval clean last_will user pass =
     (let vh = \<lparr>v3_protocol_name = ''MQTT'', v3_protocol_level = 0x04,
                v3_username_flag = (user \<noteq> None), v3_password_flag = (pass \<noteq> None),
                v3_will_retain = (case last_will of Some (_, _, _, r) \<Rightarrow> r | None \<Rightarrow> False),
                v3_will_qos = (case last_will of Some (_, _, q, _) \<Rightarrow> q | None \<Rightarrow> 0),
                v3_will_flag = (last_will \<noteq> None), v3_clean_session = clean, v3_keep_alive = interval\<rparr>;
          p = \<lparr>v3_client_identifier = client, v3_will_topic = map_option fst last_will,
               v3_will_message = map_option (fst \<circ> snd) last_will, v3_username = user, v3_password = pass\<rparr> in
      V3Connect
        (bare_header T_CONNECT
          ((2 + length (v3_protocol_name vh) + 2 + 2) +
           (length client + 2 + v3_option_length (v3_will_topic p) + v3_option_length (v3_will_message p) +
            v3_option_length user + v3_option_length pass))) vh p)"

definition v3_connack_build :: "bool \<Rightarrow> connack_return_code \<Rightarrow> mqtt_packet_v3" where
  "v3_connack_build present code =
     V3Connack (bare_header T_CONNACK 2) present
       (case code of Accept \<Rightarrow> 0x00 | UnsupportedVersion \<Rightarrow> 0x01 | InvalidClientIdentifier \<Rightarrow> 0x02
        | CodeServerUnavailable \<Rightarrow> 0x03 | InvalidUsernameOrPassword \<Rightarrow> 0x04 | UnAuthorized \<Rightarrow> 0x05)"

text \<open>
  A publish above QoS 0 without identifier gets a random one, \<open>rnd\<close>. A topic name too long for its
  prefix panics while the length is computed.
\<close>

definition v3_publish_build ::
  "u16 \<Rightarrow> string \<Rightarrow> bytes \<Rightarrow> u8 \<Rightarrow> bool \<Rightarrow> bool \<Rightarrow> u16 option \<Rightarrow> mqtt_packet_v3 option" where
  "v3_publish_build rnd topic body q is_retained is_dup pid =
     (if length topic > 65535 then None
      else
        let pid = (if q > 0 then (case pid of None \<Rightarrow> Some rnd | Some i \<Rightarrow> Some i) else None) in
        Some (V3Publish
          \<lparr>v3_packet_type = T_PUBLISH, v3_qos = Some (ucast q), v3_retain = Some is_retained,
           v3_dup = (if is_dup then Some 1 else None),
           v3_remaining_length = (length topic + 2 + (if pid = None then 0 else 2)) + length body\<rparr> topic pid body))"

definition v3_ack_new :: "v3_packet_type \<Rightarrow> (v3_fix_header \<Rightarrow> u16 \<Rightarrow> mqtt_packet_v3) \<Rightarrow> u16 \<Rightarrow> mqtt_packet_v3" where
  "v3_ack_new t con pid = con (bare_header t 2) pid"

definition v3_subscribe_build :: "u16 \<Rightarrow> (string \<times> u8) list \<Rightarrow> mqtt_packet_v3" where
  "v3_subscribe_build pid filters =
     V3Subscribe (bare_header T_SUBSCRIBE (2 + sum_list (map (\<lambda>(name, q). length name + 2 + 1) filters))) pid filters"

definition v3_suback_new :: "u16 \<Rightarrow> v3_return_code list \<Rightarrow> mqtt_packet_v3" where
  "v3_suback_new pid codes = V3Suback (bare_header T_SUBACK (2 + length codes)) pid codes"

definition v3_unsubscribe_build :: "u16 \<Rightarrow> string list \<Rightarrow> mqtt_packet_v3" where
  "v3_unsubscribe_build pid filters =
     V3Unsubscribe (bare_header T_UNSUBSCRIBE (2 + sum_list (map (\<lambda>name. length name + 2) filters))) pid filters"

section \<open>Conversions\<close>

definition v3_ack :: "u16 \<Rightarrow> ack" where
  "v3_ack pid =
     \<lparr>ack_protocol_version = V3_1_1, ack_packet_identifier = pid, ack_reason_code = RC_Success,
      ack_properties = default_properties\<rparr>"

definition v3_connack_return_code_to_reason :: "u8 \<Rightarrow> reason_code" where
  "v3_connack_return_code_to_reason c =
     (if c = 0x00 then RC_Success else if c = 0x01 then RC_UnsupportedProtocolVersion
      else if c = 0x02 then RC_ClientIdentifierNotValid else if c = 0x04 then RC_BadUserNameOrPassword
      else if c = 0x05 then RC_NotAuthorized else RC_ServerUnavailable)"

definition reason_to_v3_connack_return_code :: "reason_code \<Rightarrow> connack_return_code" where
  "reason_to_v3_connack_return_code c =
     (case c of
        RC_Success \<Rightarrow> Accept | RC_GrantedQos0 \<Rightarrow> Accept | RC_NormalDisconnection \<Rightarrow> Accept
      | RC_UnsupportedProtocolVersion \<Rightarrow> UnsupportedVersion
      | RC_ClientIdentifierNotValid \<Rightarrow> InvalidClientIdentifier
      | RC_BadUserNameOrPassword \<Rightarrow> InvalidUsernameOrPassword
      | RC_NotAuthorized \<Rightarrow> UnAuthorized
      | _ \<Rightarrow> CodeServerUnavailable)"

definition v3_suback_return_code_to_reason :: "v3_return_code \<Rightarrow> reason_code" where
  "v3_suback_return_code_to_reason c =
     (case c of MaxQos0 \<Rightarrow> RC_GrantedQos0 | MaxQos1 \<Rightarrow> RC_GrantedQos1 | MaxQos2 \<Rightarrow> RC_GrantedQos2
      | _ \<Rightarrow> RC_UnspecifiedError)"

definition reason_to_v3_suback_return_code :: "reason_code \<Rightarrow> v3_return_code" where
  "reason_to_v3_suback_return_code c =
     (case c of RC_Success \<Rightarrow> MaxQos0 | RC_GrantedQos0 \<Rightarrow> MaxQos0 | RC_GrantedQos1 \<Rightarrow> MaxQos1
      | RC_GrantedQos2 \<Rightarrow> MaxQos2 | _ \<Rightarrow> ReturnFailure)"

text \<open>\<open>From<MqttPacketV3> for Packet\<close>.\<close>

fun packet_from_v3 :: "mqtt_packet_v3 \<Rightarrow> packet" where
  "packet_from_v3 (V3Connect h vh p) = Connect
     \<lparr>connect_protocol_version = V3_1_1, client_id = v3_client_identifier p, username = v3_username p,
      password = v3_password p, keep_alive = v3_keep_alive vh, clean_start = v3_clean_session vh,
      connect_session_expiry_interval = None,
      connect_will = map_option (\<lambda>topic.
        \<lparr>will_topic = topic,
         will_payload = as_bytes (case v3_will_message p of Some m \<Rightarrow> m | None \<Rightarrow> ''''),
         will_qos = v3_will_qos vh, will_retain = v3_will_retain vh,
         will_properties = default_properties\<rparr>) (v3_will_topic p),
      connect_properties = default_properties\<rparr>"
| "packet_from_v3 (V3Connack h present code) = Connack
     \<lparr>connack_protocol_version = V3_1_1, session_present = present,
      connack_reason_code = v3_connack_return_code_to_reason code, connack_properties = default_properties\<rparr>"
| "packet_from_v3 (V3Publish h topic pid body) = Publish
     \<lparr>publish_protocol_version = V3_1_1, topic_name = topic, payload = body,
      publish_qos = (case v3_qos h of Some q \<Rightarrow> ucast q | None \<Rightarrow> 0),
      retain = (v3_retain h = Some True), dup = (v3_dup h = Some 1),
      publish_packet_identifier = pid, publish_properties = default_properties, expires_at_unix_secs = None\<rparr>"
| "packet_from_v3 (V3Puback h pid) = Puback (v3_ack pid)"
| "packet_from_v3 (V3Pubrec h pid) = Pubrec (v3_ack pid)"
| "packet_from_v3 (V3Pubrel h pid) = Pubrel (v3_ack pid)"
| "packet_from_v3 (V3Pubcomp h pid) = Pubcomp (v3_ack pid)"
| "packet_from_v3 (V3Subscribe h pid filters) = Subscribe
     \<lparr>subscribe_protocol_version = V3_1_1, subscribe_packet_identifier = pid,
      subscribe_topics = map (\<lambda>(name, q). \<lparr>topic_filter = name, topic_qos = q, no_local = False,
        retain_as_published = False, retain_handling = SendAtSubscribe\<rparr>) filters,
      subscribe_properties = default_properties\<rparr>"
| "packet_from_v3 (V3Suback h pid codes) = Suback
     \<lparr>suback_protocol_version = V3_1_1, suback_packet_identifier = pid,
      suback_reason_codes = map v3_suback_return_code_to_reason codes, suback_properties = default_properties\<rparr>"
| "packet_from_v3 (V3Unsubscribe h pid filters) = Unsubscribe
     \<lparr>unsubscribe_protocol_version = V3_1_1, unsubscribe_packet_identifier = pid,
      unsubscribe_topics = filters, unsubscribe_properties = default_properties\<rparr>"
| "packet_from_v3 (V3Unsuback h pid) = Unsuback
     \<lparr>unsuback_protocol_version = V3_1_1, unsuback_packet_identifier = pid,
      unsuback_reason_codes = [RC_Success], unsuback_properties = default_properties\<rparr>"
| "packet_from_v3 (V3Pingreq h) = Pingreq"
| "packet_from_v3 (V3Pingresp h) = Pingresp"
| "packet_from_v3 (V3Disconnect h) = Disconnect
     \<lparr>disconnect_protocol_version = V3_1_1, disconnect_reason_code = RC_NormalDisconnection,
      disconnect_session_expiry_interval = None, disconnect_properties = default_properties\<rparr>"

datatype packet_conversion_error = UnsupportedPacketForMqtt3 string | InvalidQos u8 | ConversionPanic

definition validate_qos :: "u8 \<Rightarrow> (unit, packet_conversion_error) result" where
  "validate_qos q = (if q \<le> 2 then Ok () else Err (InvalidQos q))"

fun validate_topics :: "subscribe_topic list \<Rightarrow> (unit, packet_conversion_error) result" where
  "validate_topics [] = Ok ()"
| "validate_topics (t # ts) = and_then (validate_qos (topic_qos t)) (\<lambda>_. validate_topics ts)"

text \<open>\<open>TryFrom<Packet> for MqttPacketV3\<close>.\<close>

fun packet_to_v3 :: "u16 \<Rightarrow> packet \<Rightarrow> (mqtt_packet_v3, packet_conversion_error) result" where
  "packet_to_v3 rnd (Connect p) = Ok (v3_connect_build (client_id p) (keep_alive p) (clean_start p)
     (map_option (\<lambda>w. (will_topic w, from_utf8_lossy (will_payload w), will_qos w, will_retain w)) (connect_will p))
     (username p) (password p))"
| "packet_to_v3 rnd (Connack p) =
     Ok (v3_connack_build (session_present p) (reason_to_v3_connack_return_code (connack_reason_code p)))"
| "packet_to_v3 rnd (Publish p) =
     and_then (validate_qos (publish_qos p)) (\<lambda>_.
     case v3_publish_build rnd (topic_name p) (payload p) (publish_qos p) (retain p) (dup p)
       (publish_packet_identifier p) of Some q \<Rightarrow> Ok q | None \<Rightarrow> Err ConversionPanic)"
| "packet_to_v3 rnd (Puback p) = Ok (v3_ack_new T_PUBACK V3Puback (ack_packet_identifier p))"
| "packet_to_v3 rnd (Pubrec p) = Ok (v3_ack_new T_PUBREC V3Pubrec (ack_packet_identifier p))"
| "packet_to_v3 rnd (Pubrel p) = Ok (v3_ack_new T_PUBREL V3Pubrel (ack_packet_identifier p))"
| "packet_to_v3 rnd (Pubcomp p) = Ok (v3_ack_new T_PUBCOMP V3Pubcomp (ack_packet_identifier p))"
| "packet_to_v3 rnd (Subscribe p) =
     and_then (validate_topics (subscribe_topics p)) (\<lambda>_.
     Ok (v3_subscribe_build (subscribe_packet_identifier p)
       (map (\<lambda>t. (topic_filter t, topic_qos t)) (subscribe_topics p))))"
| "packet_to_v3 rnd (Suback p) =
     Ok (v3_suback_new (suback_packet_identifier p) (map reason_to_v3_suback_return_code (suback_reason_codes p)))"
| "packet_to_v3 rnd (Unsubscribe p) =
     Ok (v3_unsubscribe_build (unsubscribe_packet_identifier p) (unsubscribe_topics p))"
| "packet_to_v3 rnd (Unsuback p) = Ok (v3_ack_new T_UNSUBACK V3Unsuback (unsuback_packet_identifier p))"
| "packet_to_v3 rnd Pingreq = Ok (V3Pingreq (bare_header T_PINGREQ 0))"
| "packet_to_v3 rnd Pingresp = Ok (V3Pingresp (bare_header T_PINGRESP 0))"
| "packet_to_v3 rnd (Disconnect p) = Ok (V3Disconnect (bare_header T_DISCONNECT 0))"
| "packet_to_v3 rnd (Auth p) = Err (UnsupportedPacketForMqtt3 ''AUTH'')"

section \<open>Lengths\<close>

text \<open>The fields of the packets a constructor builds, and the length the fixed header announces.\<close>

lemma length_v3_string [simp]: "length (v3_string s) = length s + 2"
  by (simp add: v3_string_def)

lemma length_v3_string_option [simp]: "length (v3_string_option s) = v3_option_length s"
  by (simp add: v3_string_option_def v3_option_length_def split: option.split)

lemma v3_checked_string_Some [simp]:
  "v3_checked_string s = Some bs \<longleftrightarrow> length s \<le> 65535 \<and> bs = v3_string s"
  "v3_checked_string s = None \<longleftrightarrow> 65535 < length s"
  by (auto simp: v3_checked_string_def)

lemma length_v3_subscribe_payload:
  "v3_subscribe_payload_encode filters = Some bs \<Longrightarrow>
     length bs = sum_list (map (\<lambda>(name, q). length name + 2 + 1) filters)"
  by (induction filters arbitrary: bs rule: v3_subscribe_payload_encode.induct) (auto split: option.splits)

lemma length_v3_unsubscribe_payload:
  "v3_unsubscribe_payload_encode filters = Some bs \<Longrightarrow> length bs = sum_list (map (\<lambda>name. length name + 2) filters)"
  by (induction filters arbitrary: bs rule: v3_unsubscribe_payload_encode.induct) (auto split: option.splits)

lemma length_v3_suback_payload:
  "ReturnInvalid \<notin> set codes \<Longrightarrow> length (v3_suback_payload_encode codes) = length codes"
  by (induction codes) (auto split: v3_return_code.split)

lemma reason_never_invalid: "reason_to_v3_suback_return_code c \<noteq> ReturnInvalid"
  by (simp add: reason_to_v3_suback_return_code_def split: reason_code.split)

lemma v3_remaining_length_vbi:
  "n < 2 ^ 32 \<Longrightarrow> encode_variable_byte_integer_loop (word_of_nat n) buffer = buffer @ v3_encode_remaining_length n"
proof (induction n arbitrary: buffer rule: v3_encode_remaining_length.induct)
  case (1 n)
  let ?v = "word_of_nat n :: u32"
  have u: "unat ?v = n"
    using "1.prems" by (simp add: unsigned_of_nat take_bit_nat_eq_self)
  have "unat (?v div 128) = n div 128"
    using u by (simp add: unat_div)
  then have d: "?v div 128 = word_of_nat (n div 128)"
    by (metis of_nat_unat ucast_id)
  have z: "?v div 128 = 0 \<longleftrightarrow> n div 128 = 0"
    using u by (simp add: unat_eq_zero [symmetric] unat_div)
  have "unat (?v mod 128) = n mod 128"
    using u by (simp add: unat_mod)
  then have m: "ucast (?v mod 128) = (word_of_nat (n mod 128) :: u8)"
    by (metis of_nat_unat)
  show ?case
  proof (cases "n div 128 = 0")
    case True
    then show ?thesis
      using z m by (simp add: encode_variable_byte_integer_loop.simps [of ?v] v3_encode_remaining_length.simps [of n] Let_def)
  next
    case False
    have "n div 128 < 2 ^ 32"
      using "1.prems" by (meson div_le_dividend le_less_trans)
    then have "encode_variable_byte_integer_loop (?v div 128) (buffer @ [ucast (?v mod 128) OR 0x80]) =
        (buffer @ [ucast (?v mod 128) OR 0x80]) @ v3_encode_remaining_length (n div 128)"
      unfolding d using "1.IH" [OF refl refl] False by auto
    moreover have "?v div 128 > 0"
      using False z by (simp add: word_neq_0_conv)
    ultimately show ?thesis
      using False z m by (simp add: encode_variable_byte_integer_loop.simps [of ?v] v3_encode_remaining_length.simps [of n] Let_def)
  qed
qed

lemma parse_v3_remaining_length:
  assumes "n \<le> 268435455"
  shows "parse_variable_byte_integer (v3_encode_remaining_length n @ rest) = Ok (rest, word_of_nat n)"
proof -
  have "unat (word_of_nat n :: u32) = n"
    using assms by (simp add: unsigned_of_nat take_bit_nat_eq_self)
  then have "encode_variable_byte_integer (word_of_nat n) [] = Ok (v3_encode_remaining_length n)"
    using assms v3_remaining_length_vbi [of n "[]"]
    by (simp add: encode_variable_byte_integer_def MAX_VARIABLE_BYTE_INTEGER_def word_less_nat_alt)
  then show ?thesis
    using vbi.enc_dec [where v = "word_of_nat n" and buf = "[]"] by auto
qed

text \<open>Every packet the conversion builds announces the length of what follows its fixed header.\<close>

definition v3_framed :: "mqtt_packet_v3 \<Rightarrow> v3_fix_header \<Rightarrow> bool" where
  "v3_framed q h \<longleftrightarrow>
     (\<forall>bs. v3_encode q = Some bs \<longrightarrow> (\<exists>body. bs = v3_fix_header_encode h @ body \<and> v3_remaining_length h = length body))"

lemmas v3_build_defs =
  v3_connect_build_def v3_connack_build_def v3_publish_build_def v3_ack_new_def v3_subscribe_build_def
  v3_suback_new_def v3_unsubscribe_build_def bare_header_def Let_def

fun v3_header :: "mqtt_packet_v3 \<Rightarrow> v3_fix_header" where
  "v3_header (V3Connect h vh p) = h"
| "v3_header (V3Connack h present code) = h"
| "v3_header (V3Publish h topic pid body) = h"
| "v3_header (V3Puback h pid) = h"
| "v3_header (V3Pubrec h pid) = h"
| "v3_header (V3Pubrel h pid) = h"
| "v3_header (V3Pubcomp h pid) = h"
| "v3_header (V3Subscribe h pid filters) = h"
| "v3_header (V3Suback h pid codes) = h"
| "v3_header (V3Unsubscribe h pid filters) = h"
| "v3_header (V3Unsuback h pid) = h"
| "v3_header (V3Pingreq h) = h"
| "v3_header (V3Pingresp h) = h"
| "v3_header (V3Disconnect h) = h"

lemma v3_build_framed:
  assumes "packet_to_v3 rnd p = Ok q"
  shows "v3_framed q (v3_header q)"
proof (cases p)
  case (Publish pub)
  with assms show ?thesis
    by (auto simp: v3_framed_def v3_build_defs v3_publish_header_encode_def validate_qos_def
        split: if_splits option.splits)
next
  case (Suback s)
  then have "ReturnInvalid \<notin> set (map reason_to_v3_suback_return_code (suback_reason_codes s))"
    using reason_never_invalid by (auto dest: sym)
  from length_v3_suback_payload [OF this] Suback assms show ?thesis
    by (auto simp: v3_framed_def v3_build_defs)
next
  case (Connect c)
  with assms show ?thesis
    by (auto simp: v3_framed_def v3_build_defs v3_connect_header_encode_def v3_connect_payload_encode_def)
next
  case (Subscribe s)
  with assms show ?thesis
    by (auto simp: v3_framed_def v3_build_defs and_then_eq_Ok dest!: length_v3_subscribe_payload)
next
  case (Unsubscribe s)
  with assms show ?thesis
    by (auto simp: v3_framed_def v3_build_defs dest!: length_v3_unsubscribe_payload)
qed (use assms in \<open>auto simp: v3_framed_def v3_build_defs v3_connack_header_encode_def\<close>)

text \<open>
  A packet converted for a 3.1.1 client is written as one frame: behind the first byte stands a
  remaining length that a reader decodes to exactly the number of bytes that follow, up to the largest
  length the field can hold.
\<close>

theorem v3_frame_length:
  assumes "packet_to_v3 rnd p = Ok q" and "v3_encode q = Some bs" and "length bs \<le> 268435455"
  shows "\<exists>rest body. bs = v3_first_byte (v3_header q) # rest \<and>
    parse_variable_byte_integer rest = Ok (body, word_of_nat (length body))"
proof -
  from v3_build_framed [OF assms(1)] assms(2) obtain body where
    bs: "bs = v3_fix_header_encode (v3_header q) @ body" and n: "v3_remaining_length (v3_header q) = length body"
    by (auto simp: v3_framed_def)
  have "length body \<le> 268435455"
    using assms(3) bs by simp
  with bs n show ?thesis
    by (auto simp: v3_fix_header_encode_def parse_v3_remaining_length)
qed

section \<open>Conversions\<close>

text \<open>
  What of a packet a 3.1.1 client can be told: the version becomes 3.1.1, properties and the options
  of MQTT 5 go, a will is read as text, reasons become the return codes of 3.1.1, and an
  acknowledgement says success.
\<close>

definition v3_connack_reason :: "reason_code \<Rightarrow> reason_code" where
  "v3_connack_reason c =
     (if c \<in> {RC_Success, RC_GrantedQos0, RC_NormalDisconnection} then RC_Success
      else if c \<in> {RC_UnsupportedProtocolVersion, RC_ClientIdentifierNotValid, RC_BadUserNameOrPassword, RC_NotAuthorized}
      then c else RC_ServerUnavailable)"

definition v3_suback_reason :: "reason_code \<Rightarrow> reason_code" where
  "v3_suback_reason c =
     (if c = RC_Success then RC_GrantedQos0
      else if c \<in> {RC_GrantedQos0, RC_GrantedQos1, RC_GrantedQos2} then c else RC_UnspecifiedError)"


lemma v3_connack_reason_code [simp]:
  "packet_from_v3 (v3_connack_build present (reason_to_v3_connack_return_code c)) =
     Connack \<lparr>connack_protocol_version = V3_1_1, session_present = present,
       connack_reason_code = v3_connack_reason c, connack_properties = default_properties\<rparr>"
  by (cases c) (simp_all add: v3_connack_build_def reason_to_v3_connack_return_code_def
      v3_connack_return_code_to_reason_def v3_connack_reason_def)

lemma v3_suback_reason_code [simp]:
  "v3_suback_return_code_to_reason (reason_to_v3_suback_return_code c) = v3_suback_reason c"
  by (cases c) (simp_all add: v3_suback_return_code_to_reason_def reason_to_v3_suback_return_code_def v3_suback_reason_def)

lemma ucast_qos [simp]: "ucast (ucast (q :: u8) :: 32 word) = q"
  by (rule ucast_up_ucast_id) (simp add: is_up)




section \<open>Reserved flags\<close>







section \<open>Examples\<close>

definition example_publish :: publish where
  "example_publish = \<lparr>publish_protocol_version = V5_0, topic_name = ''a/b'', payload = [1], publish_qos = 1,
     retain = False, dup = True, publish_packet_identifier = Some 16, publish_properties = default_properties,
     expires_at_unix_secs = None\<rparr>"

text \<open>The packet of the repository's own test, byte for byte.\<close>

lemma v3_publish_example:
  "\<exists>q. packet_to_v3 0 (Publish example_publish) = Ok q \<and>
     v3_encode q = Some [0x3A, 0x08, 0x00, 0x03, 0x61, 0x2F, 0x62, 0x00, 0x10, 0x01]"
  by (simp add: example_publish_def v3_build_defs validate_qos_def v3_publish_header_encode_def v3_string_def
      v3_checked_string_def v3_fix_header_encode_def v3_first_byte_def v3_packet_type_u8_def
      v3_encode_remaining_length.simps be16_def as_bytes_def byte_of_char_def push_bit_eq_mult)

theorem v3_frame_length_witness:
  "\<exists>rest body. the (v3_encode (V3Pubrel (bare_header T_PUBREL 2) 7)) = v3_first_byte (bare_header T_PUBREL 2) # rest \<and>
     parse_variable_byte_integer rest = Ok (body, word_of_nat (length body))"
  using v3_frame_length [of 0 "Pubrel (v3_ack 7)" "V3Pubrel (bare_header T_PUBREL 2) 7"]
  by (simp add: v3_ack_new_def v3_ack_def v3_fix_header_encode_def bare_header_def v3_encode_remaining_length.simps)


end
