(* ===== verification/Session_Delivery.thy ===== *)
theory Session_Delivery
  imports Session_Service Message_Expiry Mqtt3_Packet
begin

text \<open>
  Delivery of messages to a client, the functions of \<open>broker/src/session/session_actor.rs\<close> that do not
  need the actor, and \<open>broker/src/stored_packet.rs\<close>: a publish above QoS 0 is stored, registered as
  in flight, and written to the connection; until it is acknowledged it is written again from the
  store. Each call reads the clock as its argument \<open>now\<close>.
\<close>

section \<open>Stored packets\<close>

text \<open>
  What a session needs beyond the services: the connection's answer to a packet, after the packets
  already written to it, the generator of keys, and the JSON codecs of packets.
\<close>

datatype conn_answer = Written | MailboxClosed string | WriteRefused string

record ('w, 'ps) actor_platform = "('w, 'ps) session_platform" +
  conn_answer :: "packet list \<Rightarrow> packet \<Rightarrow> conn_answer"
  new_uuid :: "nat \<Rightarrow> string"
  packet_to_json :: "packet \<Rightarrow> (bytes, string) result"
  packet_of_json :: "bytes \<Rightarrow> (packet, string) result"
  packet_v3_of_json :: "bytes \<Rightarrow> (mqtt_packet_v3, string) result"

definition serialize_stored_packet ::
  "('w, 'ps, 'y) actor_platform_scheme \<Rightarrow> packet \<Rightarrow> (bytes, string) result" where
  "serialize_stored_packet pf packet = packet_to_json pf packet"

text \<open>Older releases stored packets of MQTT 3.1.1.\<close>

definition deserialize_stored_packet ::
  "('w, 'ps, 'y) actor_platform_scheme \<Rightarrow> bytes \<Rightarrow> (packet, string) result" where
  "deserialize_stored_packet pf data =
     (case packet_of_json pf data of
        Ok packet \<Rightarrow> Ok packet
      | Err packet_error \<Rightarrow>
          (case packet_v3_of_json pf data of
             Ok packet \<Rightarrow> Ok (packet_from_v3 packet)
           | Err _ \<Rightarrow> Err packet_error))"

section \<open>State\<close>

text \<open>
  The environment of a session: its state, which the source shares behind a lock, the packets written
  to its connection, and the number of keys drawn.
\<close>

record ('w, 'ps) session_env = "('w, 'ps) broker_env" +
  sess_state :: session_state
  conn_sent :: "packet list"
  uuids_drawn :: nat

datatype session_actor_error =
    PluginExecutionError string
  | ConnectionActorError string
  | ConnectionNotSet
  | DeliveryError string

datatype activity_state = Active | Inactive

record delivery_context =
  ctx_tenant_id :: string
  ctx_client_id :: string
  ctx_clean_session :: bool
  ctx_protocol_version :: protocol_version
  ctx_activity_state :: activity_state
  ctx_has_store :: bool
  ctx_has_conn :: bool
  ctx_defer_delivery :: bool

datatype outbound_delivery_status = Sent | NotSent | Deferred publish

definition display_inflight_error :: "inflight_error \<Rightarrow> string" where
  "display_inflight_error e = (case e of PacketIdentifierHasExisted \<Rightarrow> ''packet identifier has existed'')"

section \<open>Steps shared by the operations\<close>

definition ack_with_reason :: "u16 \<Rightarrow> reason_code \<Rightarrow> ack" where
  "ack_with_reason pid reason =
     \<lparr>ack_protocol_version = V3_1_1, ack_packet_identifier = pid, ack_reason_code = reason,
      ack_properties = default_properties\<rparr>"

definition success_ack :: "u16 \<Rightarrow> ack" where
  "success_ack pid = ack_with_reason pid RC_Success"

text \<open>\<open>conn.send(WritePacketToClient(packet)).await\<close>, its answer as a value.\<close>

definition write_packet ::
  "('w, 'ps, 'y) actor_platform_scheme \<Rightarrow> packet \<Rightarrow> (conn_answer, 'e, ('w, 'ps, 'z) session_env_scheme) op" where
  "write_packet pf packet env =
     (let answer = conn_answer pf (conn_sent env) packet in
      (Ok answer, if answer = Written then env\<lparr>conn_sent := conn_sent env @ [packet]\<rparr> else env))"

definition write_checked ::
  "('w, 'ps, 'y) actor_platform_scheme \<Rightarrow> packet \<Rightarrow>
   (unit, session_actor_error, ('w, 'ps, 'z) session_env_scheme) op" where
  "write_checked pf packet =
     bind_op (write_packet pf packet) (\<lambda>answer. case answer of
        Written \<Rightarrow> pure_op ()
      | MailboxClosed e \<Rightarrow> fail_op (ConnectionActorError e)
      | WriteRefused e \<Rightarrow> fail_op (DeliveryError e))"

definition draw_uuid ::
  "('w, 'ps, 'y) actor_platform_scheme \<Rightarrow> (string, 'e, ('w, 'ps, 'z) session_env_scheme) op" where
  "draw_uuid pf env = (Ok (new_uuid pf (uuids_drawn env)), env\<lparr>uuids_drawn := uuids_drawn env + 1\<rparr>)"

definition store_packet ::
  "('w, 'ps, 'y) actor_platform_scheme \<Rightarrow> string \<Rightarrow> packet \<Rightarrow>
   (unit, session_actor_error, ('w, 'ps, 'z) session_env_scheme) op" where
  "store_packet pf key packet =
     bind_op (lift_op (map_err DeliveryError (serialize_stored_packet pf packet))) (\<lambda>data.
     map_err_op (\<lambda>e. DeliveryError (display_payload_error e)) (on_store (ps_put (payload_ops pf) key data)))"

definition env_inflight :: "('w, 'ps, 'z) session_env_scheme \<Rightarrow> inflight" where
  "env_inflight env = session_inflight (sess_state env)"

definition set_inflight :: "inflight \<Rightarrow> ('w, 'ps, 'z) session_env_scheme \<Rightarrow> ('w, 'ps, 'z) session_env_scheme" where
  "set_inflight i env = env\<lparr>sess_state := (sess_state env)\<lparr>session_inflight := i\<rparr>\<rparr>"

definition on_inflight ::
  "(inflight \<Rightarrow> 'a \<times> inflight) \<Rightarrow> ('a, 'e, ('w, 'ps, 'z) session_env_scheme) op" where
  "on_inflight f env = (case f (env_inflight env) of (a, i) \<Rightarrow> (Ok a, set_inflight i env))"

definition allocate_id :: "(u16, session_actor_error, ('w, 'ps, 'z) session_env_scheme) op" where
  "allocate_id env =
     (case allocate_packet_id (env_inflight env) of
        Some pid \<Rightarrow> (Ok pid, env)
      | None \<Rightarrow> (Err (DeliveryError ''failed to allocate new inflight packet id''), env))"

definition register_local ::
  "u64 \<Rightarrow> u16 \<Rightarrow> u8 \<Rightarrow> string \<Rightarrow> (unit, inflight_error, ('w, 'ps, 'z) session_env_scheme) op" where
  "register_local now pid q key env =
     (case register_with_tx_packet now pid q key (env_inflight env) of
        Ok (_, i) \<Rightarrow> (Ok (), set_inflight i env)
      | Err e \<Rightarrow> (Err e, env))"

abbreviation delivery_error :: "(unit, inflight_error, 's) op \<Rightarrow> (unit, session_actor_error, 's) op" where
  "delivery_error \<equiv> map_err_op (\<lambda>e. DeliveryError (display_inflight_error e))"

section \<open>Delivery\<close>

text \<open>
  Registration for a clean session: an identifier already in use is replaced by a free one, and the
  stored packet is then to be written again (the flag of the result).
\<close>

definition register_clean ::
  "u64 \<Rightarrow> string \<Rightarrow> publish \<Rightarrow> (publish \<times> bool, session_actor_error, ('w, 'ps, 'z) session_env_scheme) op" where
  "register_clean now key p =
     bind_op (try_op (register_local now (the (publish_packet_identifier p)) (publish_qos p) key)) (\<lambda>r. case r of
        Ok _ \<Rightarrow> pure_op (p, False)
      | Err PacketIdentifierHasExisted \<Rightarrow>
          bind_op allocate_id (\<lambda>new_id.
          bind_op (delivery_error (register_local now new_id (publish_qos p) key)) (\<lambda>_.
          pure_op (p\<lparr>publish_packet_identifier := Some new_id\<rparr>, True))))"

text \<open>
  Registration for a persistent session: through the service, with the packet stored again before a
  second attempt under another identifier, then in the local state if the identifier is free there.
\<close>

definition register_remote ::
  "('w, 'ps, 'y) actor_platform_scheme \<Rightarrow> delivery_context \<Rightarrow> string \<Rightarrow> publish \<Rightarrow>
   (publish, session_actor_error, ('w, 'ps, 'z) session_env_scheme) op" where
  "register_remote pf c key p =
     bind_op (try_op (register_inflight_tx_packet pf (ctx_tenant_id c) (ctx_client_id c)
       (the (publish_packet_identifier p)) (publish_qos p) key (ctx_defer_delivery c))) (\<lambda>r. case r of
        Ok _ \<Rightarrow> pure_op p
      | Err (RaftInflightError PacketIdentifierHasExisted) \<Rightarrow>
          bind_op allocate_id (\<lambda>new_id.
          bind_op (store_packet pf key (Publish (p\<lparr>publish_packet_identifier := Some new_id\<rparr>))) (\<lambda>_.
          bind_op (map_err_op (\<lambda>e. DeliveryError (show_raft_error pf e))
            (register_inflight_tx_packet pf (ctx_tenant_id c) (ctx_client_id c) new_id (publish_qos p) key
              (ctx_defer_delivery c))) (\<lambda>_.
          pure_op (p\<lparr>publish_packet_identifier := Some new_id\<rparr>))))
      | Err e \<Rightarrow> fail_op (DeliveryError (show_raft_error pf e)))"

definition mirror_local ::
  "u64 \<Rightarrow> string \<Rightarrow> u16 \<Rightarrow> u8 \<Rightarrow> (unit, session_actor_error, ('w, 'ps, 'z) session_env_scheme) op" where
  "mirror_local now key pid q env =
     (if get_inflight_current_state pid (env_inflight env) = None
      then delivery_error (register_local now pid q key) env
      else (Ok (), env))"

definition register_persistent ::
  "('w, 'ps, 'y) actor_platform_scheme \<Rightarrow> u64 \<Rightarrow> delivery_context \<Rightarrow> string \<Rightarrow> publish \<Rightarrow>
   (publish, session_actor_error, ('w, 'ps, 'z) session_env_scheme) op" where
  "register_persistent pf now c key p =
     bind_op (register_remote pf c key p) (\<lambda>p.
     bind_op (mirror_local now key (the (publish_packet_identifier p)) (publish_qos p)) (\<lambda>_.
     pure_op p))"

definition hold_delivery :: "u16 \<Rightarrow> inflight \<Rightarrow> unit \<times> inflight" where
  "hold_delivery pid i =
     ((), i\<lparr>inflight_inner := hm_modify pid (\<lambda>item. item\<lparr>delivery_started := False\<rparr>) (inflight_inner i)\<rparr>)"

text \<open>Once registered, the packet is written to the connection or held back.\<close>

definition transmit ::
  "('w, 'ps, 'y) actor_platform_scheme \<Rightarrow> delivery_context \<Rightarrow> string \<Rightarrow> publish \<times> bool \<Rightarrow>
   (outbound_delivery_status, session_actor_error, ('w, 'ps, 'z) session_env_scheme) op" where
  "transmit pf c key =
     (\<lambda>(p, refresh).
        bind_op (if refresh then store_packet pf key (Publish p) else pure_op ()) (\<lambda>_.
        if ctx_defer_delivery c
        then bind_op (on_inflight (hold_delivery (the (publish_packet_identifier p)))) (\<lambda>_. pure_op (Deferred p))
        else bind_op (write_checked pf (Publish p)) (\<lambda>_. pure_op Sent)))"

definition register_publish ::
  "('w, 'ps, 'y) actor_platform_scheme \<Rightarrow> u64 \<Rightarrow> delivery_context \<Rightarrow> string \<Rightarrow> publish \<Rightarrow>
   (publish \<times> bool, session_actor_error, ('w, 'ps, 'z) session_env_scheme) op" where
  "register_publish pf now c key p =
     (if ctx_clean_session c then register_clean now key p
      else bind_op (register_persistent pf now c key p) (\<lambda>p. pure_op (p, False)))"

definition identify :: "publish \<Rightarrow> (publish, session_actor_error, ('w, 'ps, 'z) session_env_scheme) op" where
  "identify p =
     (case publish_packet_identifier p of
        None \<Rightarrow> bind_op allocate_id (\<lambda>pid. pure_op (p\<lparr>publish_packet_identifier := Some pid\<rparr>))
      | Some _ \<Rightarrow> pure_op p)"

definition deliver_active ::
  "('w, 'ps, 'y) actor_platform_scheme \<Rightarrow> u64 \<Rightarrow> delivery_context \<Rightarrow> publish \<Rightarrow>
   (outbound_delivery_status, session_actor_error, ('w, 'ps, 'z) session_env_scheme) op" where
  "deliver_active pf now c p =
     (if \<not> ctx_has_conn c then fail_op ConnectionNotSet
      else if publish_qos p = 0 then bind_op (write_checked pf (Publish p)) (\<lambda>_. pure_op Sent)
      else
        bind_op (identify p) (\<lambda>p.
        if \<not> ctx_has_store c then fail_op (DeliveryError ''payload store missing'')
        else
          bind_op (draw_uuid pf) (\<lambda>key.
          bind_op (store_packet pf key (Publish p)) (\<lambda>_.
          bind_op (register_publish pf now c key p) (transmit pf c key)))))"

definition push_pending :: "string \<Rightarrow> ('w, 'ps, 'z) session_env_scheme \<Rightarrow> ('w, 'ps, 'z) session_env_scheme" where
  "push_pending key env = env\<lparr>sess_state := (sess_state env)\<lparr>pending_messages := pending_messages (sess_state env) @ [key]\<rparr>\<rparr>"

definition deliver_inactive ::
  "('w, 'ps, 'y) actor_platform_scheme \<Rightarrow> delivery_context \<Rightarrow> publish \<Rightarrow>
   (outbound_delivery_status, session_actor_error, ('w, 'ps, 'z) session_env_scheme) op" where
  "deliver_inactive pf c p =
     (if publish_qos p = 0 then pure_op NotSent
      else if \<not> ctx_has_store c then fail_op (DeliveryError ''payload store missing'')
      else
        bind_op (draw_uuid pf) (\<lambda>key.
        bind_op (store_packet pf key (Publish p)) (\<lambda>_.
        bind_op (if \<not> ctx_clean_session c
                 then bind_op (map_err_op (\<lambda>e. DeliveryError (show_raft_error pf e))
                        (store_offline_message pf (ctx_tenant_id c) (ctx_client_id c) key)) (\<lambda>_.
                      modify_op (push_pending key))
                 else map_err_op (\<lambda>e. DeliveryError (display_payload_error e)) (on_store (ps_delete (payload_ops pf) key)))
        (\<lambda>_. pure_op NotSent))))"

definition deliver_outbound_publish ::
  "('w, 'ps, 'y) actor_platform_scheme \<Rightarrow> u64 \<Rightarrow> publish \<Rightarrow> delivery_context \<Rightarrow>
   (outbound_delivery_status, session_actor_error, ('w, 'ps, 'z) session_env_scheme) op" where
  "deliver_outbound_publish pf now p c =
     (case prepare_publish_for_delivery p (ctx_protocol_version c) now of
        (deliver, p) \<Rightarrow>
          if \<not> deliver then pure_op NotSent
          else if ctx_activity_state c = Active then deliver_active pf now c p
          else deliver_inactive pf c p)"

section \<open>Postponed messages\<close>

definition context_discard_unsent ::
  "('w, 'ps, 'y) actor_platform_scheme \<Rightarrow> delivery_context \<Rightarrow> u16 \<Rightarrow> string \<Rightarrow>
   (unit, session_actor_error, ('w, 'ps, 'z) session_env_scheme) op" where
  "context_discard_unsent pf c pid key =
     bind_op (if \<not> ctx_clean_session c
              then map_err_op (\<lambda>e. DeliveryError (show_raft_error pf e))
                (discard_unsent_inflight pf (ctx_tenant_id c) (ctx_client_id c) pid key)
              else pure_op ()) (\<lambda>_.
     bind_op (on_inflight (discard_unsent pid key)) (\<lambda>removed.
     if ctx_clean_session c \<and> ctx_has_store c
     then (case removed of
             Some key \<Rightarrow> map_err_op (\<lambda>e. DeliveryError (display_payload_error e)) (on_store (ps_delete (payload_ops pf) key))
           | None \<Rightarrow> pure_op ())
     else pure_op ()))"

definition stored_expired ::
  "('w, 'ps, 'y) actor_platform_scheme \<Rightarrow> u64 \<Rightarrow> string \<Rightarrow> 'ps \<Rightarrow> bool" where
  "stored_expired pf now key ps =
     (case ps_get (payload_ops pf) key ps of
        Ok (Some data) \<Rightarrow>
          (case deserialize_stored_packet pf data of Ok packet \<Rightarrow> is_packet_expired packet now | Err _ \<Rightarrow> False)
      | _ \<Rightarrow> False)"

text \<open>The loop of \<open>cleanup_expired_unsent\<close> over the entries read at its start.\<close>

fun cleanup_unsent_loop ::
  "('w, 'ps, 'y) actor_platform_scheme \<Rightarrow> u64 \<Rightarrow> delivery_context \<Rightarrow> inflight_item list \<Rightarrow> u16 list \<Rightarrow>
   ('w, 'ps, 'z) session_env_scheme \<Rightarrow> u16 list \<times> ('w, 'ps, 'z) session_env_scheme" where
  "cleanup_unsent_loop pf now c [] removed env = (removed, env)"
| "cleanup_unsent_loop pf now c (item # items) removed env =
     (case packet_key item of
        None \<Rightarrow> cleanup_unsent_loop pf now c items removed env
      | Some key \<Rightarrow>
          if stored_expired pf now key (env_payloads env)
          then (case context_discard_unsent pf c (item_packet_identifier item) key env of
                  (Ok _, env) \<Rightarrow> cleanup_unsent_loop pf now c items (removed @ [item_packet_identifier item]) env
                | (Err _, env) \<Rightarrow> cleanup_unsent_loop pf now c items removed env)
          else cleanup_unsent_loop pf now c items removed env)"

definition cleanup_expired_unsent ::
  "('w, 'ps, 'y) actor_platform_scheme \<Rightarrow> u64 \<Rightarrow> delivery_context \<Rightarrow> ('w, 'ps, 'z) session_env_scheme \<Rightarrow>
   u16 list \<times> ('w, 'ps, 'z) session_env_scheme" where
  "cleanup_expired_unsent pf now c env =
     (if ctx_has_store c
      then cleanup_unsent_loop pf now c
        (filter (\<lambda>item. \<not> delivery_started item) (map snd (inflight_inner (env_inflight env)))) [] env
      else ([], env))"

text \<open>The publish is updated also where the call then fails; it is returned beside the result.\<close>

definition prepare_registered_publish ::
  "('w, 'ps, 'y) actor_platform_scheme \<Rightarrow> u64 \<Rightarrow> delivery_context \<Rightarrow> publish \<Rightarrow> ('w, 'ps, 'z) session_env_scheme \<Rightarrow>
   publish \<times> (bool, session_actor_error) result \<times> ('w, 'ps, 'z) session_env_scheme" where
  "prepare_registered_publish pf now c p env =
     (case publish_packet_identifier p of
        None \<Rightarrow> (p, Ok False, env)
      | Some pid \<Rightarrow>
          (case hm_get (inflight_inner (env_inflight env)) pid of
             None \<Rightarrow> (p, Ok False, env)
           | Some item \<Rightarrow>
               (case packet_key item of
                  None \<Rightarrow> (p, Ok False, env)
                | Some key \<Rightarrow>
                    (case prepare_publish_for_delivery p (ctx_protocol_version c) now of
                       (deliver, p) \<Rightarrow>
                         (p,
                          if \<not> deliver
                          then bind_op (if \<not> delivery_started item then context_discard_unsent pf c pid key else pure_op ())
                            (\<lambda>_. pure_op False) env
                          else if delivery_started item then (Ok True, env)
                          else
                            bind_op (if ctx_clean_session c then pure_op True
                                     else map_err_op (\<lambda>e. DeliveryError (show_raft_error pf e))
                                       (start_inflight_delivery pf (ctx_tenant_id c) (ctx_client_id c) pid key)) (\<lambda>started.
                            if \<not> started then pure_op False
                            else bind_op (on_inflight (mark_delivery_started pid key)) (\<lambda>_. pure_op True)) env)))))"

section \<open>Retransmission\<close>

definition retry_packet ::
  "('w, 'ps, 'y) actor_platform_scheme \<Rightarrow> u64 \<Rightarrow> bool \<Rightarrow> 'ps \<Rightarrow> u16 \<times> string \<times> inflight_state \<Rightarrow> packet option" where
  "retry_packet pf now has_store ps =
     (\<lambda>(pid, key, st). case st of
        WaitPubcomp \<Rightarrow> Some (Pubrel (success_ack pid))
      | WaitPubrel \<Rightarrow> Some (Pubrec (success_ack pid))
      | Finish \<Rightarrow> None
      | _ \<Rightarrow>
          if \<not> has_store then None
          else
            (case ps_get (payload_ops pf) key ps of
               Ok (Some data) \<Rightarrow>
                 (case deserialize_stored_packet pf data of
                    Ok packet \<Rightarrow> if is_packet_expired packet now then None else Some (set_dup 1 packet)
                  | Err _ \<Rightarrow> None)
             | _ \<Rightarrow> None))"

definition collect_inflight_retry_packets ::
  "('w, 'ps, 'y) actor_platform_scheme \<Rightarrow> u64 \<Rightarrow> (u16 \<times> string \<times> inflight_state) list \<Rightarrow> bool \<Rightarrow> 'ps \<Rightarrow> packet list" where
  "collect_inflight_retry_packets pf now entries has_store ps = List.map_filter (retry_packet pf now has_store ps) entries"

fun write_inflight_retry_packets ::
  "('w, 'ps, 'y) actor_platform_scheme \<Rightarrow> packet list \<Rightarrow> ('w, 'ps, 'z) session_env_scheme \<Rightarrow> ('w, 'ps, 'z) session_env_scheme" where
  "write_inflight_retry_packets pf [] env = env"
| "write_inflight_retry_packets pf (packet # packets) env =
     write_inflight_retry_packets pf packets
       (snd (write_packet pf packet env :: (conn_answer, session_actor_error) result \<times> _))"

section \<open>What the services leave alone\<close>

text \<open>A call of the session service changes nothing of a session's own state, nor of the local payloads.\<close>

definition service_frame :: "('w, 'ps, 'z) broker_env_scheme \<Rightarrow> ('w, 'ps, 'z) broker_env_scheme \<Rightarrow> bool" where
  "service_frame env env' \<longleftrightarrow> (\<exists>w ms. env' = env\<lparr>env_world := w, raft_pending_messages := ms\<rparr>)"

definition frames :: "('a, 'e, ('w, 'ps, 'z) broker_env_scheme) op \<Rightarrow> bool" where
  "frames m \<longleftrightarrow> (\<forall>env r env'. m env = (r, env') \<longrightarrow> service_frame env env')"

lemma service_frame_refl [simp]: "service_frame env env"
  unfolding service_frame_def by (rule exI [of _ "env_world env"], rule exI [of _ "raft_pending_messages env"]) simp

lemma service_frame_trans: "service_frame a b \<Longrightarrow> service_frame b c \<Longrightarrow> service_frame a c"
proof -
  assume "service_frame a b" and "service_frame b c"
  then obtain w ms w' ms' where "b = a\<lparr>env_world := w, raft_pending_messages := ms\<rparr>"
    and "c = b\<lparr>env_world := w', raft_pending_messages := ms'\<rparr>"
    by (auto simp: service_frame_def)
  then have "c = a\<lparr>env_world := w', raft_pending_messages := ms'\<rparr>"
    by simp
  then show ?thesis
    unfolding service_frame_def by blast
qed

lemma service_frame_keep [simp]: "service_frame env (keep_message m env)"
  unfolding service_frame_def keep_message_def
  by (rule exI [of _ "env_world env"], rule exI [of _ "raft_pending_messages env @ [m]"]) simp

lemma framesD: "frames m \<Longrightarrow> m env = (r, env') \<Longrightarrow> service_frame env env'"
  by (simp add: frames_def)

named_theorems frame_intro \<open>operations that leave the session's own state alone\<close>

lemma frames_basic [frame_intro]:
  "frames (pure_op a)" "frames (fail_op e)" "frames (lift_op r)" "frames (read_op h)"
  by (auto simp: frames_def op_defs)

lemma frames_bind [frame_intro]: "frames m \<Longrightarrow> (\<And>a. frames (f a)) \<Longrightarrow> frames (bind_op m f)"
  unfolding frames_def bind_op_def
  by (fastforce split: prod.splits result.splits intro: service_frame_trans)

lemma frames_map_err [frame_intro]: "frames m \<Longrightarrow> frames (map_err_op g m)"
  by (auto simp: frames_def map_err_op_def split: prod.splits)

lemma frames_try [frame_intro]: "frames m \<Longrightarrow> frames (try_op m)"
  by (auto simp: frames_def try_op_def split: prod.splits)

lemma frames_on_world [frame_intro]: "frames (on_world m)"
proof -
  have "service_frame env (env\<lparr>env_world := w\<rparr>)" for env :: "('a, 'b, 'c) broker_env_scheme" and w
    unfolding service_frame_def by (rule exI [of _ w], rule exI [of _ "raft_pending_messages env"]) simp
  then show ?thesis
    by (auto simp: frames_def on_world_def split: prod.splits)
qed

lemma frames_push [frame_intro]: "frames (push_payload_to_leader pf leader request)"
  unfolding frames_def push_payload_to_leader_def
  by (auto split: option.splits if_splits intro!: framesD [OF frames_map_err [OF frames_on_world]])

lemma frames_raft_write [frame_intro]: "frames (handle_raft_write pf request)"
  unfolding handle_raft_write_def try_local_write_def send_to_remote_actor_def
  by (auto intro!: frame_intro split: result.split session_raft_error.split option.split)

lemma frames_command:
  "frames (handle_command pf msg request)" "frames (handle_direct_write_to_raft pf request)"
proof -
  have w: "frames (write_when_running pf request)"
    using frames_raft_write [of pf request] by (auto simp: frames_def write_when_running_def)
  have b: "frames (bind_op (write_when_running pf request) (\<lambda>_. pure_op ()))"
    by (intro frames_bind w frames_basic)
  show "frames (handle_command pf msg request)"
    using b unfolding frames_def handle_command_def by (auto split: actor_state.splits)
  show "frames (handle_direct_write_to_raft pf request)"
    using frames_raft_write [of pf request] unfolding frames_def handle_direct_write_to_raft_def
    by (auto split: actor_state.splits if_splits)
qed

lemma frames_mailbox: "frames m \<Longrightarrow> frames (via_mailbox m)"
  by (auto simp: frames_def via_mailbox_def split: result.splits)

lemma frames_service [frame_intro]:
  "frames (write_delivery_command pf command)"
  "frames (store_offline_message pf tenant client key)"
  "frames (advance_inflight_state pf tenant client pid)"
  "frames (register_inflight_rx_packet pf tenant client pid q key)"
  "frames (update_session_connection_state pf tenant client d expiry)"
  "frames (service_delete_session_state pf tenant client expected)"
  "frames (service_subscribe_topic_with_options pf tenant client topic q nl rap)"
  "frames (service_unsubscribe_topic pf tenant client topic)"
  unfolding write_delivery_command_def store_offline_message_def advance_inflight_state_def
    register_inflight_rx_packet_def update_session_connection_state_def service_delete_session_state_def
    service_subscribe_topic_with_options_def service_unsubscribe_topic_def
    handle_store_offline_message_def handle_advance_inflight_state_def handle_register_inflight_rx_packet_def
    handle_update_session_connection_state_def handle_delete_session_state_def handle_subscribe_topic_def
    handle_unsubscribe_topic_def
  by (intro frames_mailbox frames_command)+

lemma frames_clean [frame_intro]: "frames (clean_finished_inflight_items pf tenant client)"
proof -
  have "frames (handle_inflight_clean_finished_items pf tenant client)"
    unfolding frames_def handle_inflight_clean_finished_items_def
    by (auto split: if_splits intro!: framesD [OF frames_command(1)])
  then show ?thesis
    unfolding clean_finished_inflight_items_def by (rule frames_mailbox)
qed

lemma frames_delivery [frame_intro]:
  "frames (register_inflight_tx_packet pf tenant client pid q key d)"
  "frames (start_inflight_delivery pf tenant client pid key)"
  "frames (discard_unsent_inflight pf tenant client pid key)"
  unfolding register_inflight_tx_packet_def start_inflight_delivery_def discard_unsent_inflight_def
  by (intro frame_intro)+

lemma frames_session:
  assumes "frames m" and "m env = (r, env')"
  shows "sess_state env' = sess_state env" and "conn_sent env' = conn_sent env"
    and "uuids_drawn env' = uuids_drawn env" and "env_payloads env' = env_payloads env"
    and "session_env.more env' = session_env.more env"
proof -
  obtain w ms where "env' = env\<lparr>env_world := w, raft_pending_messages := ms\<rparr>"
    using framesD [OF assms] by (auto simp: service_frame_def)
  then show "sess_state env' = sess_state env" and "conn_sent env' = conn_sent env"
    and "uuids_drawn env' = uuids_drawn env" and "env_payloads env' = env_payloads env"
    and "session_env.more env' = session_env.more env"
    by simp_all
qed

section \<open>Sending\<close>

text \<open>What is relied on of the JSON codec: a stored packet is read back as it was.\<close>

definition packet_json_ok :: "('w, 'ps, 'y) actor_platform_scheme \<Rightarrow> bool" where
  "packet_json_ok pf \<longleftrightarrow> (\<forall>p d. packet_to_json pf p = Ok d \<longrightarrow> packet_of_json pf d = Ok p)"

lemma stored_packet_roundtrip:
  "packet_json_ok pf \<Longrightarrow> serialize_stored_packet pf p = Ok d \<Longrightarrow> deserialize_stored_packet pf d = Ok p"
  by (simp add: packet_json_ok_def serialize_stored_packet_def deserialize_stored_packet_def)

lemma map_err_eq_Ok: "map_err g r = Ok x \<longleftrightarrow> r = Ok x"
  by (cases r) auto

lemma on_store_eq:
  "on_store m env = (r, env') \<longleftrightarrow> (\<exists>ps'. m (env_payloads env) = (r, ps') \<and> env' = env\<lparr>env_payloads := ps'\<rparr>)"
  by (auto simp: on_store_def split: prod.splits)

lemma env_inflight_simps [simp]:
  "env_inflight (set_inflight i env) = i"
  "env_inflight (env\<lparr>env_payloads := ps\<rparr>) = env_inflight env"
  "env_inflight (env\<lparr>uuids_drawn := n\<rparr>) = env_inflight env"
  "env_inflight (env\<lparr>conn_sent := xs\<rparr>) = env_inflight env"
  "conn_sent (set_inflight i env) = conn_sent env"
  "env_payloads (set_inflight i env) = env_payloads env"
  "uuids_drawn (set_inflight i env) = uuids_drawn env"
  "session_env.more (set_inflight i env) = session_env.more env"
  by (simp_all add: env_inflight_def set_inflight_def)

text \<open>The store holds a packet under a key.\<close>

definition holds ::
  "('w, 'ps, 'y) actor_platform_scheme \<Rightarrow> ('ps \<Rightarrow> string \<Rightarrow> bytes option) \<Rightarrow> 'ps \<Rightarrow> string \<Rightarrow> packet \<Rightarrow> bool" where
  "holds pf view ps key packet \<longleftrightarrow>
     (\<exists>data. view ps key = Some data \<and> deserialize_stored_packet pf data = Ok packet)"

lemma store_packet_Ok:
  assumes "payload_laws (payload_ops pf) view" and "packet_json_ok pf"
    and "store_packet pf key packet env = (Ok u, env')"
  shows "\<exists>ps'. env' = env\<lparr>env_payloads := ps'\<rparr> \<and> holds pf view ps' key packet"
proof -
  from assms(3) obtain data ps' where d: "serialize_stored_packet pf packet = Ok data"
    and p: "ps_put (payload_ops pf) key data (env_payloads env) = (Ok u, ps')" and e: "env' = env\<lparr>env_payloads := ps'\<rparr>"
    by (auto simp: store_packet_def bind_op_eq_Ok map_err_eq_Ok on_store_eq)
  have "view ps' = (view (env_payloads env))(key \<mapsto> data)"
    using payload_lawsD(1) [OF assms(1) p] .
  then have "holds pf view ps' key packet"
    using stored_packet_roundtrip [OF assms(2) d] by (simp add: holds_def)
  with e show ?thesis by blast
qed

lemma write_checked_Ok:
  "write_checked pf packet env = (Ok u, env') \<longleftrightarrow>
     conn_answer pf (conn_sent env) packet = Written \<and> env' = env\<lparr>conn_sent := conn_sent env @ [packet]\<rparr>"
  by (cases "conn_answer pf (conn_sent env) packet")
    (auto simp: write_checked_def write_packet_def bind_op_def op_defs Let_def)

text \<open>The entry of a packet waiting for its first acknowledgement.\<close>

definition awaiting :: "u64 \<Rightarrow> u16 \<Rightarrow> u8 \<Rightarrow> string \<Rightarrow> inflight_item" where
  "awaiting now pid q key =
     \<lparr>item_packet_identifier = pid, item_state = (if q = 2 then WaitPubrec else WaitPuback), packet_key = Some key,
      last_modified = now, delivery_started = True\<rparr>"

lemma register_local_cases:
  assumes "q = 1 \<or> q = 2"
  shows "register_local now pid q key env =
    (if packet_id_exists pid (env_inflight env) then (Err PacketIdentifierHasExisted, env)
     else (Ok (), set_inflight ((env_inflight env)\<lparr>inflight_inner :=
       hm_insert pid (awaiting now pid q key) (inflight_inner (env_inflight env))\<rparr>) env))"
  using assms by (auto simp: register_local_def register_with_tx_packet_def insert_item_def awaiting_def)

lemma allocate_packet_id_free: "allocate_packet_id i = Some pid \<Longrightarrow> hm_get (inflight_inner i) pid = None"
  by (auto simp: allocate_packet_id_def dest: allocate_from_Some)

lemma allocate_id_Ok:
  "allocate_id env = (Ok pid, env') \<Longrightarrow> env' = env \<and> \<not> packet_id_exists pid (env_inflight env)"
  using allocate_packet_id_free by (auto simp: allocate_id_def packet_id_exists_def split: option.splits)

lemma register_clean_Ok:
  assumes "register_clean now key p env = (Ok (q, refresh), env')" and "publish_qos p = 1 \<or> publish_qos p = 2"
    and "publish_packet_identifier p = Some pid0"
  shows "\<exists>pid. q = p\<lparr>publish_packet_identifier := Some pid\<rparr> \<and> \<not> packet_id_exists pid (env_inflight env) \<and>
    (refresh \<or> q = p) \<and>
    env' = set_inflight ((env_inflight env)\<lparr>inflight_inner :=
      hm_insert pid (awaiting now pid (publish_qos p) key) (inflight_inner (env_inflight env))\<rparr>) env"
proof (cases "packet_id_exists pid0 (env_inflight env)")
  case False
  then have "q = p" and "env' = set_inflight ((env_inflight env)\<lparr>inflight_inner :=
      hm_insert pid0 (awaiting now pid0 (publish_qos p) key) (inflight_inner (env_inflight env))\<rparr>) env"
    using assms(1,3) register_local_cases [OF assms(2), of now pid0 key env]
    by (auto simp: register_clean_def bind_op_def try_op_def op_defs)
  with False assms(3) show ?thesis
    by (intro exI [of _ pid0]) simp
next
  case True
  then have "try_op (register_local now pid0 (publish_qos p) key) env =
      (Ok (Err PacketIdentifierHasExisted) :: (_, session_actor_error) result, env)"
    using register_local_cases [OF assms(2), of now pid0 key env] by (simp add: try_op_def)
  with assms(1,3) obtain pid env1 where a: "allocate_id env = (Ok pid, env1)"
    and r: "register_local now pid (publish_qos p) key env1 = (Ok (), env')"
    and q: "q = p\<lparr>publish_packet_identifier := Some pid\<rparr>" "refresh"
    by (auto simp: register_clean_def bind_op_eq_Ok)
  with allocate_id_Ok [OF a] register_local_cases [OF assms(2), of now pid key env] show ?thesis
    by auto
qed

lemma same_identifier: "publish_packet_identifier p = Some i \<Longrightarrow> p\<lparr>publish_packet_identifier := Some i\<rparr> = p"
  for p :: publish
  by (cases p) simp

lemma mirror_local_Ok:
  assumes "mirror_local now key pid q env = (Ok u, env')" and "q = 1 \<or> q = 2"
  shows "conn_sent env' = conn_sent env" and "session_env.more env' = session_env.more env"
    and "env_payloads env' = env_payloads env"
    and "hm_get (inflight_inner (env_inflight env')) pid =
      (case hm_get (inflight_inner (env_inflight env)) pid of
         Some item \<Rightarrow> Some item | None \<Rightarrow> Some (awaiting now pid q key))"
  using assms(1) register_local_cases [OF assms(2), of now pid key env]
  by (auto simp: mirror_local_def get_inflight_current_state_def packet_id_exists_def map_err_op_def
      split: option.splits if_splits)

lemma register_remote_Ok:
  fixes env :: "('w, 'ps, 'z) session_env_scheme"
  assumes "payload_laws (payload_ops pf) view" and "packet_json_ok pf"
    and "register_remote pf c key p env = (Ok q, env')"
    and "publish_packet_identifier p = Some pid0" and "holds pf view (env_payloads env) key (Publish p)"
  shows "\<exists>pid. q = p\<lparr>publish_packet_identifier := Some pid\<rparr> \<and> holds pf view (env_payloads env') key (Publish q) \<and>
    conn_sent env' = conn_sent env \<and> session_env.more env' = session_env.more env \<and>
    sess_state env' = sess_state env \<and>
    (\<exists>env1 env2. register_inflight_tx_packet pf (ctx_tenant_id c) (ctx_client_id c) pid (publish_qos p) key
       (ctx_defer_delivery c) env1 = (Ok () :: (unit, session_raft_error) result, env2 :: ('w, 'ps, 'z) session_env_scheme))"
proof -
  let ?reg = "\<lambda>pid. register_inflight_tx_packet pf (ctx_tenant_id c) (ctx_client_id c) pid (publish_qos p) key (ctx_defer_delivery c)"
  obtain r env1 where r: "?reg pid0 env = (r, env1)" by fastforce
  note fr = frames_session [OF frames_delivery(1) r]
  consider (ok) "r = Ok ()" | (taken) "r = Err (RaftInflightError PacketIdentifierHasExisted)"
    | (other) e where "r = Err e" "e \<noteq> RaftInflightError PacketIdentifierHasExisted"
    by (cases r) auto
  then show ?thesis
  proof cases
    case ok
    then have "q = p" and "env' = env1"
      using r assms(3,4) by (auto simp: register_remote_def bind_op_def try_op_def op_defs)
    with ok r assms(4,5) fr show ?thesis
      by (intro exI [of _ pid0]) auto
  next
    case taken
    with r assms(3,4) obtain pid env2 env3 where a: "allocate_id env1 = (Ok pid, env2)"
      and s: "store_packet pf key (Publish (p\<lparr>publish_packet_identifier := Some pid\<rparr>)) env2 = (Ok (), env3)"
      and g: "?reg pid env3 = (Ok (), env')" and q: "q = p\<lparr>publish_packet_identifier := Some pid\<rparr>"
      by (auto simp: register_remote_def bind_op_eq_Ok try_op_def)
    from store_packet_Ok [OF assms(1,2) s] obtain ps where e3: "env3 = env2\<lparr>env_payloads := ps\<rparr>"
      and h: "holds pf view ps key (Publish q)" using q by blast
    with q g fr frames_session [OF frames_delivery(1) g] allocate_id_Ok [OF a] show ?thesis
      by (intro exI [of _ pid]) auto
  next
    case other
    then show ?thesis
      using r assms(3,4) by (auto simp: register_remote_def bind_op_def try_op_def op_defs
          split: session_raft_error.splits inflight_error.splits)
  qed
qed

lemma register_persistent_Ok:
  fixes env :: "('w, 'ps, 'z) session_env_scheme"
  assumes "payload_laws (payload_ops pf) view" and "packet_json_ok pf"
    and "register_persistent pf now c key p env = (Ok q, env')" and "publish_qos p = 1 \<or> publish_qos p = 2"
    and "publish_packet_identifier p = Some pid0" and "holds pf view (env_payloads env) key (Publish p)"
  shows "\<exists>pid. q = p\<lparr>publish_packet_identifier := Some pid\<rparr> \<and> holds pf view (env_payloads env') key (Publish q) \<and>
    conn_sent env' = conn_sent env \<and> session_env.more env' = session_env.more env \<and>
    (\<exists>env1 env2. register_inflight_tx_packet pf (ctx_tenant_id c) (ctx_client_id c) pid (publish_qos p) key
       (ctx_defer_delivery c) env1 = (Ok () :: (unit, session_raft_error) result, env2 :: ('w, 'ps, 'z) session_env_scheme)) \<and>
    hm_get (inflight_inner (env_inflight env')) pid =
      (case hm_get (inflight_inner (env_inflight env)) pid of
         Some item \<Rightarrow> Some item | None \<Rightarrow> Some (awaiting now pid (publish_qos p) key))"
proof -
  from assms(3) obtain env1 where r: "register_remote pf c key p env = (Ok q, env1)"
    and m: "mirror_local now key (the (publish_packet_identifier q)) (publish_qos q) env1 = (Ok (), env')"
    by (auto simp: register_persistent_def bind_op_eq_Ok)
  from register_remote_Ok [OF assms(1,2) r assms(5,6)] obtain pid where
    q: "q = p\<lparr>publish_packet_identifier := Some pid\<rparr>" and "holds pf view (env_payloads env1) key (Publish q)"
    and "conn_sent env1 = conn_sent env" "session_env.more env1 = session_env.more env" "sess_state env1 = sess_state env"
    and "\<exists>env1 env2. register_inflight_tx_packet pf (ctx_tenant_id c) (ctx_client_id c) pid (publish_qos p) key
       (ctx_defer_delivery c) env1 = (Ok () :: (unit, session_raft_error) result, env2 :: ('w, 'ps, 'z) session_env_scheme)"
    by blast
  moreover have "mirror_local now key pid (publish_qos p) env1 = (Ok (), env')"
    using m q by simp
  note mirror_local_Ok [OF this assms(4)]
  ultimately show ?thesis
    by (intro exI [of _ pid]) (simp add: env_inflight_def)
qed

lemma identify_Ok:
  assumes "identify p env = (Ok q, env')"
  obtains pid where "q = p\<lparr>publish_packet_identifier := Some pid\<rparr>" and "env' = env"
proof (cases "publish_packet_identifier p")
  case None
  with assms show ?thesis
    using that by (auto simp: identify_def bind_op_eq_Ok dest: allocate_id_Ok)
next
  case (Some i)
  with assms show ?thesis
    using that [of i] same_identifier [OF Some] by (simp add: identify_def)
qed

lemma sent_with_identifier:
  fixes env :: "('w, 'ps, 'z) session_env_scheme"
  assumes "payload_laws (payload_ops pf) view" and "packet_json_ok pf"
    and "deliver_active pf now c p env = (Ok Sent, env')" and "publish_qos p = 1 \<or> publish_qos p = 2"
  shows "\<exists>pid key q. q = p\<lparr>publish_packet_identifier := Some pid\<rparr> \<and>
    conn_sent env' = conn_sent env @ [Publish q] \<and>
    holds pf view (env_payloads env') key (Publish q) \<and>
    (if packet_id_exists pid (env_inflight env)
     then \<not> ctx_clean_session c
     else hm_get (inflight_inner (env_inflight env')) pid = Some (awaiting now pid (publish_qos p) key)) \<and>
    (ctx_clean_session c \<or>
     (\<exists>env1 env2. register_inflight_tx_packet pf (ctx_tenant_id c) (ctx_client_id c) pid (publish_qos p) key
        False env1 = (Ok () :: (unit, session_raft_error) result, env2 :: ('w, 'ps, 'z) session_env_scheme)))"
proof -
  let ?key = "new_uuid pf (uuids_drawn env)"
  have q0: "publish_qos p \<noteq> 0" using assms(4) by auto
  from assms(3) q0 obtain p1 env1 where i: "identify p env = (Ok p1, env1)" and "ctx_has_store c"
    and rest: "bind_op (draw_uuid pf) (\<lambda>key. bind_op (store_packet pf key (Publish p1)) (\<lambda>_.
          bind_op (register_publish pf now c key p1) (transmit pf c key))) env1 = (Ok Sent, env')"
    by (auto simp: deliver_active_def bind_op_eq_Ok [of "identify p"] split: if_splits)
  from i obtain pid1 where p1: "p1 = p\<lparr>publish_packet_identifier := Some pid1\<rparr>" and e1: "env1 = env"
    by (rule identify_Ok)
  from rest e1 obtain env2 q refresh env3 where
    s: "store_packet pf ?key (Publish p1) (env\<lparr>uuids_drawn := uuids_drawn env + 1\<rparr>) = (Ok (), env2)"
    and r: "register_publish pf now c ?key p1 env2 = (Ok (q, refresh), env3)"
    and t: "transmit pf c ?key (q, refresh) env3 = (Ok Sent, env')"
    by (auto simp: bind_op_eq_Ok draw_uuid_def)
  from t obtain env4 where f: "(if refresh then store_packet pf ?key (Publish q) else pure_op ()) env3 = (Ok (), env4)"
    and nd: "\<not> ctx_defer_delivery c" and w: "write_checked pf (Publish q) env4 = (Ok (), env')"
    by (auto simp: transmit_def bind_op_eq_Ok split: if_splits)
  from store_packet_Ok [OF assms(1,2) s] obtain ps where
    e2: "env2 = env\<lparr>uuids_drawn := uuids_drawn env + 1, env_payloads := ps\<rparr>" and h: "holds pf view ps ?key (Publish p1)"
    by auto
  from w have w': "env' = env4\<lparr>conn_sent := conn_sent env4 @ [Publish q]\<rparr>"
    by (simp add: write_checked_Ok)
  show ?thesis
  proof (cases "ctx_clean_session c")
    case True
    with r p1 assms(4) register_clean_Ok [of now ?key p1 env2 q refresh env3 pid1] obtain pid where
      q: "q = p1\<lparr>publish_packet_identifier := Some pid\<rparr>" and fresh: "\<not> packet_id_exists pid (env_inflight env2)"
      and same: "refresh \<or> q = p1"
      and e3: "env3 = set_inflight ((env_inflight env2)\<lparr>inflight_inner :=
        hm_insert pid (awaiting now pid (publish_qos p1) ?key) (inflight_inner (env_inflight env2))\<rparr>) env2"
      by (auto simp: register_publish_def)
    have "\<exists>ps'. env4 = env3\<lparr>env_payloads := ps'\<rparr> \<and> holds pf view ps' ?key (Publish q)"
    proof (cases refresh)
      case True
      then show ?thesis using f store_packet_Ok [OF assms(1,2)] by fastforce
    next
      case False
      then show ?thesis using f same h e2 e3 by (intro exI [of _ ps]) (auto simp: set_inflight_def)
    qed
    then obtain ps' where "env4 = env3\<lparr>env_payloads := ps'\<rparr>" and "holds pf view ps' ?key (Publish q)" by blast
    with True fresh q p1 e2 e3 w' show ?thesis
      by (intro exI [of _ pid] exI [of _ ?key] exI [of _ q]) auto
  next
    case False
    with r obtain rp: "register_persistent pf now c ?key p1 env2 = (Ok q, env3)" and nr: "\<not> refresh"
      by (auto simp: register_publish_def bind_op_eq_Ok)
    from register_persistent_Ok [OF assms(1,2) rp, of pid1] p1 assms(4) h e2 obtain pid where
      q: "q = p1\<lparr>publish_packet_identifier := Some pid\<rparr>" and hq: "holds pf view (env_payloads env3) ?key (Publish q)"
      and cs: "conn_sent env3 = conn_sent env2"
      and reg: "\<exists>env1 env2. register_inflight_tx_packet pf (ctx_tenant_id c) (ctx_client_id c) pid (publish_qos p) ?key
         (ctx_defer_delivery c) env1 = (Ok () :: (unit, session_raft_error) result, env2 :: ('w, 'ps, 'z) session_env_scheme)"
      and item: "hm_get (inflight_inner (env_inflight env3)) pid =
        (case hm_get (inflight_inner (env_inflight env2)) pid of
           Some item \<Rightarrow> Some item | None \<Rightarrow> Some (awaiting now pid (publish_qos p1) ?key))"
      by auto
    from f nr have "env4 = env3" by simp
    with False q p1 hq cs reg item nd e2 w' show ?thesis
      by (intro exI [of _ pid] exI [of _ ?key] exI [of _ q]) (auto simp: packet_id_exists_def)
  qed
qed

lemma prepare_deliverable:
  "fst (prepare_publish_for_delivery p v now) \<Longrightarrow>
     prepare_publish_for_delivery p v now = (True, snd (prepare_publish_for_delivery p v now))"
  by (cases "prepare_publish_for_delivery p v now") auto

lemma deliver_active_eq:
  "deliver_outbound_publish pf now p c env =
     (if is_publish_expired p now then (Ok NotSent, env)
      else (if ctx_activity_state c = Active then deliver_active pf now c else deliver_inactive pf c)
        (snd (prepare_publish_for_delivery p (ctx_protocol_version c) now)) env)"
  using prepare_expired [of p "ctx_protocol_version c" now]
  by (cases "prepare_publish_for_delivery p (ctx_protocol_version c) now")
    (auto simp: deliver_outbound_publish_def pure_op_def)

lemma retry_stored:
  assumes "payload_laws (payload_ops pf) view" and "reliable (payload_ops pf)"
    and "holds pf view ps key packet" and "st \<in> {WaitPuback, WaitPubrec}" and "\<not> is_packet_expired packet now"
  shows "retry_packet pf now True ps (pid, key, st) = Some (set_dup 1 packet)"
proof -
  obtain r where r: "ps_get (payload_ops pf) key ps = Ok r"
    using assms(2) by (cases "ps_get (payload_ops pf) key ps") (auto simp: reliable_def)
  with payload_lawsD(3) [OF assms(1) r] assms(3) obtain data where
    "r = Some data" and "deserialize_stored_packet pf data = Ok packet"
    by (auto simp: holds_def)
  with r assms(4,5) show ?thesis
    by (auto simp: retry_packet_def)
qed

text \<open>
  C7: When a publish above QoS 0 is reported as sent to a connected client, one packet was written: the
  publish, with only its remaining lifetime updated and a packet identifier. The store holds that
  packet under a key; the session has the identifier waiting for its acknowledgement with that key,
  unless a persistent session already had it; and a persistent session has registered it through the
  replicated log. While it waits and has not expired, the retransmission is that packet with DUP set.
\<close>

theorem sent_publish_is_recoverable:
  fixes env :: "('w, 'ps, 'z) session_env_scheme"
  assumes "payload_laws (payload_ops pf) view" and "reliable (payload_ops pf)" and "packet_json_ok pf"
    and "deliver_outbound_publish pf now p c env = (Ok Sent, env')" and "publish_qos p = 1 \<or> publish_qos p = 2"
  shows "\<exists>pid key q.
    q = (snd (prepare_publish_for_delivery p (ctx_protocol_version c) now))\<lparr>publish_packet_identifier := Some pid\<rparr> \<and>
    conn_sent env' = conn_sent env @ [Publish q] \<and>
    holds pf view (env_payloads env') key (Publish q) \<and>
    (if packet_id_exists pid (env_inflight env)
     then \<not> ctx_clean_session c
     else hm_get (inflight_inner (env_inflight env')) pid = Some (awaiting now pid (publish_qos p) key)) \<and>
    (ctx_clean_session c \<or>
     (\<exists>env1 env2. register_inflight_tx_packet pf (ctx_tenant_id c) (ctx_client_id c) pid (publish_qos p) key
        False env1 = (Ok () :: (unit, session_raft_error) result, env2 :: ('w, 'ps, 'z) session_env_scheme))) \<and>
    (\<forall>later st. st \<in> {WaitPuback, WaitPubrec} \<and> \<not> is_publish_expired q later \<longrightarrow>
       retry_packet pf later True (env_payloads env') (pid, key, st) = Some (Publish (q\<lparr>dup := True\<rparr>)))"
proof -
  let ?p = "snd (prepare_publish_for_delivery p (ctx_protocol_version c) now)"
  obtain d where "prepare_publish_for_delivery p (ctx_protocol_version c) now = (d, ?p)"
    by (metis prod.collapse)
  then have qos: "publish_qos ?p = publish_qos p"
    by (rule prepare_keeps)
  from assms(4) have a: "ctx_activity_state c = Active" and d: "deliver_active pf now c ?p env = (Ok Sent, env')"
    by (auto simp: deliver_active_eq deliver_inactive_def bind_op_eq_Ok split: if_splits)
  from sent_with_identifier [OF assms(1,3) d] assms(5) obtain pid key where
    "conn_sent env' = conn_sent env @ [Publish (?p\<lparr>publish_packet_identifier := Some pid\<rparr>)]"
    and h: "holds pf view (env_payloads env') key (Publish (?p\<lparr>publish_packet_identifier := Some pid\<rparr>))"
    and "if packet_id_exists pid (env_inflight env) then \<not> ctx_clean_session c
       else hm_get (inflight_inner (env_inflight env')) pid = Some (awaiting now pid (publish_qos p) key)"
    and "ctx_clean_session c \<or>
     (\<exists>env1 env2. register_inflight_tx_packet pf (ctx_tenant_id c) (ctx_client_id c) pid (publish_qos p) key
        False env1 = (Ok () :: (unit, session_raft_error) result, env2 :: ('w, 'ps, 'z) session_env_scheme))"
    unfolding qos by metis
  moreover have "retry_packet pf later True (env_payloads env') (pid, key, st) =
      Some (Publish (?p\<lparr>publish_packet_identifier := Some pid, dup := True\<rparr>))"
    if "st \<in> {WaitPuback, WaitPubrec}" "\<not> is_publish_expired (?p\<lparr>publish_packet_identifier := Some pid\<rparr>) later" for later st
    using retry_stored [OF assms(1,2) h that(1)] that(2) by (simp add: is_packet_expired_def)
  ultimately show ?thesis
    by (intro exI [of _ pid] exI [of _ key] exI [of _ "?p\<lparr>publish_packet_identifier := Some pid\<rparr>"]) simp
qed

text \<open>
  C14: A message above QoS 0 for a persistent session whose client is away is not lost: unless it has
  expired, accepting it means that the store holds it under a key, that the replicated queue of the
  session took the key, and that the session remembers the key as its last pending message. Nothing
  is written to a connection.
\<close>

theorem offline_publish_is_queued:
  fixes env :: "('w, 'ps, 'z) session_env_scheme"
  assumes "payload_laws (payload_ops pf) view" and "packet_json_ok pf"
    and "deliver_outbound_publish pf now p c env = (Ok status, env')" and "publish_qos p \<noteq> 0"
    and "ctx_activity_state c = Inactive" and "\<not> ctx_clean_session c" and "\<not> is_publish_expired p now"
  shows "status = NotSent \<and> conn_sent env' = conn_sent env \<and>
    (\<exists>key. pending_messages (sess_state env') = pending_messages (sess_state env) @ [key] \<and>
      holds pf view (env_payloads env') key
        (Publish (snd (prepare_publish_for_delivery p (ctx_protocol_version c) now))) \<and>
      (\<exists>env1 env2. store_offline_message pf (ctx_tenant_id c) (ctx_client_id c) key env1 =
        (Ok () :: (unit, session_raft_error) result, env2 :: ('w, 'ps, 'z) session_env_scheme)))"
proof -
  let ?p = "snd (prepare_publish_for_delivery p (ctx_protocol_version c) now)"
  let ?key = "new_uuid pf (uuids_drawn env)"
  obtain d where "prepare_publish_for_delivery p (ctx_protocol_version c) now = (d, ?p)"
    by (metis prod.collapse)
  then have "publish_qos ?p = publish_qos p"
    by (rule prepare_keeps)
  with assms(3-7) obtain env2 env3 where
    s: "store_packet pf ?key (Publish ?p) (env\<lparr>uuids_drawn := uuids_drawn env + 1\<rparr>) = (Ok (), env2)"
    and q: "store_offline_message pf (ctx_tenant_id c) (ctx_client_id c) ?key env2 = (Ok (), env3)"
    and e: "env' = push_pending ?key env3" and "status = NotSent"
    by (auto simp: deliver_active_eq deliver_inactive_def bind_op_eq_Ok draw_uuid_def split: if_splits)
  from store_packet_Ok [OF assms(1,2) s] obtain ps where
    "env2 = env\<lparr>uuids_drawn := uuids_drawn env + 1, env_payloads := ps\<rparr>" and "holds pf view ps ?key (Publish ?p)"
    by auto
  with frames_session [OF frames_service(2) q] e q \<open>status = NotSent\<close> show ?thesis
    by (auto simp: push_pending_def)
qed

lemma identify_total:
  assumes "allocate_packet_id (env_inflight env) = Some i"
  shows "\<exists>pid. identify p env = (Ok (p\<lparr>publish_packet_identifier := Some pid\<rparr>), env)"
proof (cases "publish_packet_identifier p")
  case None
  with assms show ?thesis
    by (auto simp: identify_def bind_op_def allocate_id_def pure_op_def)
next
  case (Some j)
  then show ?thesis
    using same_identifier [OF Some] by (intro exI [of _ j]) (simp add: identify_def pure_op_def)
qed

lemma register_clean_total:
  assumes "publish_packet_identifier p = Some pid" and "allocate_packet_id (env_inflight env) = Some i"
    and "publish_qos p = 1 \<or> publish_qos p = 2"
  shows "\<exists>q refresh env'. register_clean now key p env = (Ok (q, refresh), env')"
proof (cases "packet_id_exists pid (env_inflight env)")
  case False
  then show ?thesis
    using assms(1) register_local_cases [OF assms(3), of now pid key env]
    by (auto simp: register_clean_def bind_op_def try_op_def op_defs)
next
  case True
  moreover have "\<not> packet_id_exists i (env_inflight env)"
    using allocate_packet_id_free [OF assms(2)] by (simp add: packet_id_exists_def)
  ultimately show ?thesis
    using assms(1,2) register_local_cases [OF assms(3), of now _ key env]
    by (auto simp: register_clean_def bind_op_def try_op_def op_defs allocate_id_def)
qed

text \<open>
  C25: Delivery gets through: for a connected client with a clean session, on a store and a connection
  that work and while an identifier is free, a publish above QoS 0 that has not expired is sent.
\<close>

theorem clean_delivery_succeeds:
  fixes env :: "('w, 'ps, 'z) session_env_scheme"
  assumes "reliable (payload_ops pf)" and "\<And>packet. \<exists>d. packet_to_json pf packet = Ok d"
    and "\<And>sent packet. conn_answer pf sent packet = Written"
    and "ctx_has_conn c" and "ctx_has_store c" and "ctx_clean_session c" and "\<not> ctx_defer_delivery c"
    and "ctx_activity_state c = Active" and "allocate_packet_id (env_inflight env) \<noteq> None"
    and "publish_qos p = 1 \<or> publish_qos p = 2" and "\<not> is_publish_expired p now"
  shows "fst (deliver_outbound_publish pf now p c env) = Ok Sent"
proof -
  let ?p = "snd (prepare_publish_for_delivery p (ctx_protocol_version c) now)"
  obtain d where "prepare_publish_for_delivery p (ctx_protocol_version c) now = (d, ?p)"
    by (metis prod.collapse)
  then have qos: "publish_qos ?p = publish_qos p"
    by (rule prepare_keeps)
  have store: "\<exists>ps. store_packet pf key packet e = (Ok (), e\<lparr>env_payloads := ps\<rparr>)"
    for key packet and e :: "('w, 'ps, 'z) session_env_scheme"
  proof -
    obtain data where "packet_to_json pf packet = Ok data" using assms(2) by blast
    moreover obtain ps where "ps_put (payload_ops pf) key data (env_payloads e) = (Ok (), ps)"
      by (rule reliableD [OF assms(1)])
    ultimately show ?thesis
      by (auto simp: store_packet_def serialize_stored_packet_def bind_op_def op_defs on_store_def)
  qed
  obtain i where i: "allocate_packet_id (env_inflight env) = Some i" using assms(9) by auto
  obtain pid where id: "identify ?p env = (Ok (?p\<lparr>publish_packet_identifier := Some pid\<rparr>), env)"
    using identify_total [OF i] by blast
  let ?q = "?p\<lparr>publish_packet_identifier := Some pid\<rparr>" and ?key = "new_uuid pf (uuids_drawn env)"
  obtain ps where s: "store_packet pf ?key (Publish ?q) (env\<lparr>uuids_drawn := uuids_drawn env + 1\<rparr>) =
      (Ok (), env\<lparr>uuids_drawn := uuids_drawn env + 1, env_payloads := ps\<rparr>)"
    using store [of ?key "Publish ?q" "env\<lparr>uuids_drawn := uuids_drawn env + 1\<rparr>"] by auto
  obtain q refresh e' where
    r: "register_clean now ?key ?q (env\<lparr>uuids_drawn := uuids_drawn env + 1, env_payloads := ps\<rparr>) = (Ok (q, refresh), e')"
    using register_clean_total [of ?q pid "env\<lparr>uuids_drawn := uuids_drawn env + 1, env_payloads := ps\<rparr>" i now ?key]
      i assms(10) qos by auto
  obtain ps' where "store_packet pf ?key (Publish q) e' = (Ok (), e'\<lparr>env_payloads := ps'\<rparr>)"
    using store [of ?key "Publish q" e'] by auto
  then have "fst (transmit pf c ?key (q, refresh) e') = Ok Sent"
    using assms(3,7) by (simp add: transmit_def bind_op_def op_defs write_checked_def write_packet_def Let_def)
  moreover have "publish_qos ?p \<noteq> 0"
    using assms(10) qos by auto
  ultimately show ?thesis
    using assms(4-8,11) id s r
    by (simp add: deliver_active_eq deliver_active_def bind_op_def draw_uuid_def register_publish_def)
qed

section \<open>Examples\<close>

text \<open>A session on the node that leads its cluster; the codec knows two packets.\<close>

definition example_update :: publish where
  "example_update = \<lparr>publish_protocol_version = V5_0, topic_name = ''a/b'', payload = [1], publish_qos = 1,
     retain = False, dup = False, publish_packet_identifier = Some 16, publish_properties = default_properties,
     expires_at_unix_secs = None\<rparr>"

definition node_platform :: "(session_state_storage, mem_db) actor_platform" where
  "node_platform = session_platform.extend leader_platform (actor_platform.fields
     (\<lambda>_ _. Written) (\<lambda>n. ''k'')
     (\<lambda>p. if p = Publish example_update then Ok [1] else Err ''json'')
     (\<lambda>d. if d = [1] then Ok (Publish example_update) else Err ''json'') (\<lambda>_. Err ''json''))"

definition node_env :: "(session_state_storage, mem_db) session_env" where
  "node_env = broker_env.extend leader_env (session_env.fields (new_with_options 5 (Some V5_0) None) [] 0)"

definition session_context :: "bool \<Rightarrow> activity_state \<Rightarrow> delivery_context" where
  "session_context clean activity =
     \<lparr>ctx_tenant_id = ''t'', ctx_client_id = ''c'', ctx_clean_session = clean, ctx_protocol_version = V5_0,
      ctx_activity_state = activity, ctx_has_store = True, ctx_has_conn = True, ctx_defer_delivery = False\<rparr>"

lemmas node_defs = node_platform_def node_env_def leader_platform_def leader_env_def
  session_platform.defs actor_platform.defs broker_env.defs session_env.defs

lemma node_platform_simps [simp]:
  "payload_ops node_platform = mem_store" "packet_json_ok node_platform"
  "conn_answer node_platform sent p = Written" "new_uuid node_platform n = ''k''"
  "packet_to_json node_platform (Publish example_update) = Ok [1]"
  by (simp_all add: node_defs packet_json_ok_def)

lemma mem_put: "ps_put mem_store k d db = (Ok (), snd (ps_put mem_store k d db))"
  using mem_store_reliable unfolding reliable_def by (simp only: prod_eq_iff fst_conv snd_conv)

lemma store_example:
  "store_packet node_platform ''k'' (Publish example_update) e =
     (Ok (), e\<lparr>env_payloads := snd (ps_put mem_store ''k'' [1] (env_payloads e))\<rparr>)"
proof -
  obtain db where "ps_put mem_store ''k'' [1] (env_payloads e) = (Ok (), db)"
    using mem_put by blast
  then show ?thesis
    by (simp add: store_packet_def serialize_stored_packet_def bind_op_def op_defs on_store_def)
qed

lemma example_prepare: "prepare_publish_for_delivery example_update V5_0 now = (True, example_update)"
  by (simp add: prepare_publish_for_delivery_def example_update_def)

lemma node_sent:
  "\<exists>env'. deliver_outbound_publish node_platform 0 example_update (session_context True Active) node_env = (Ok Sent, env')"
proof -
  have "publish_qos example_update = 1" "publish_packet_identifier example_update = Some 16"
    by (simp_all add: example_update_def)
  then show ?thesis
    by (simp add: deliver_outbound_publish_def session_context_def example_prepare deliver_active_def identify_def
        register_publish_def register_clean_def bind_op_def try_op_def op_defs draw_uuid_def store_example
        register_local_cases packet_id_exists_def transmit_def write_checked_def write_packet_def Let_def
        node_env_def env_inflight_def new_with_options_def inflight_new_def session_env.defs broker_env.defs)
qed

theorem sent_publish_is_recoverable_witness:
  "\<exists>env' pid key q.
     deliver_outbound_publish node_platform 0 example_update (session_context True Active) node_env = (Ok Sent, env') \<and>
     conn_sent env' = conn_sent node_env @ [Publish q] \<and>
     retry_packet node_platform 9 True (env_payloads env') (pid, key, WaitPuback) = Some (Publish (q\<lparr>dup := True\<rparr>))"
proof -
  obtain env' where d: "deliver_outbound_publish node_platform 0 example_update (session_context True Active) node_env = (Ok Sent, env')"
    using node_sent by blast
  have "publish_qos example_update = 1 \<or> publish_qos example_update = 2"
    by (simp add: example_update_def)
  from sent_publish_is_recoverable [where view = mem_held, OF _ _ _ d this] obtain pid key q where
    "q = (snd (prepare_publish_for_delivery example_update V5_0 0))\<lparr>publish_packet_identifier := Some pid\<rparr>"
    and "conn_sent env' = conn_sent node_env @ [Publish q]"
    and r: "\<forall>later st. st \<in> {WaitPuback, WaitPubrec} \<and> \<not> is_publish_expired q later \<longrightarrow>
       retry_packet node_platform later True (env_payloads env') (pid, key, st) = Some (Publish (q\<lparr>dup := True\<rparr>))"
    by (auto simp: mem_store_laws mem_store_reliable session_context_def)
  moreover from this(1) have "\<not> is_publish_expired q 9"
    by (simp add: example_prepare is_publish_expired_def) (simp add: example_update_def)
  ultimately show ?thesis
    using d by (metis insertI1)
qed

lemma node_takes_offline:
  assumes "raft_mailbox e = Ok ()" and "raft_actor_state e = Running" and "raft_instance e"
  shows "\<exists>e'. store_offline_message node_platform tenant client key e = (Ok (), e')"
proof -
  have "\<exists>r w. client_write node_platform (AppendToPendingQueue tenant client key) (env_world e) = (Ok r, w) \<and> check_response r = Ok r"
    by (auto simp: node_platform_def leader_platform_def session_platform.defs actor_platform.defs split: prod.split)
  then show ?thesis
    using assms by (auto simp: store_offline_message_def via_mailbox_def handle_store_offline_message_def
        handle_command_def write_when_running_def handle_raft_write_def try_local_write_def on_world_def
        bind_op_def op_defs)
qed

lemma node_queued:
  "\<exists>env'. deliver_outbound_publish node_platform 0 example_update (session_context False Inactive) node_env = (Ok NotSent, env')"
proof -
  let ?e = "node_env\<lparr>uuids_drawn := uuids_drawn node_env + 1,
    env_payloads := snd (ps_put mem_store ''k'' [1] (env_payloads node_env))\<rparr>"
  have "raft_mailbox ?e = Ok ()" "raft_actor_state ?e = Running" "raft_instance ?e"
    by (simp_all add: node_env_def leader_env_def session_env.defs broker_env.defs)
  then obtain e' where "store_offline_message node_platform ''t'' ''c'' ''k'' ?e = (Ok (), e')"
    using node_takes_offline by blast
  moreover have "publish_qos example_update = 1"
    by (simp add: example_update_def)
  ultimately show ?thesis
    by (simp add: deliver_outbound_publish_def session_context_def example_prepare deliver_inactive_def
        bind_op_def op_defs draw_uuid_def store_example)
qed

theorem offline_publish_is_queued_witness:
  "\<exists>env' key. deliver_outbound_publish node_platform 0 example_update (session_context False Inactive) node_env = (Ok NotSent, env') \<and>
     pending_messages (sess_state env') = pending_messages (sess_state node_env) @ [key] \<and>
     holds node_platform mem_held (env_payloads env') key (Publish example_update)"
proof -
  obtain env' where d: "deliver_outbound_publish node_platform 0 example_update (session_context False Inactive) node_env = (Ok NotSent, env')"
    using node_queued by blast
  have "publish_qos example_update \<noteq> 0" "\<not> is_publish_expired example_update 0"
    by (simp_all add: example_update_def is_publish_expired_def)
  from offline_publish_is_queued [where view = mem_held, OF _ _ d this(1) _ _ this(2)] show ?thesis
    using d by (auto simp: mem_store_laws session_context_def example_prepare)
qed

text \<open>A platform whose codec and connection never fail.\<close>

definition open_platform :: "(session_state_storage, mem_db) actor_platform" where
  "open_platform = node_platform\<lparr>packet_to_json := \<lambda>_. Ok [1]\<rparr>"

theorem clean_delivery_succeeds_witness:
  "fst (deliver_outbound_publish open_platform 0 example_update (session_context True Active) node_env) = Ok Sent"
proof (rule clean_delivery_succeeds)
  have "hm_get (inflight_inner (env_inflight node_env)) 1 = None"
    by (simp add: node_env_def env_inflight_def new_with_options_def inflight_new_def session_env.defs broker_env.defs)
  then show "allocate_packet_id (env_inflight node_env) \<noteq> None"
    by (simp add: allocate_packet_id_def allocate_from.simps [of "Suc 0"])
qed (simp_all add: open_platform_def mem_store_reliable session_context_def example_update_def is_publish_expired_def)

end
