(* ===== verification/Session_Actor.thy ===== *)
theory Session_Actor
  imports Session_Delivery Topic_Filter
begin

text \<open>
  The actor of a session, \<open>broker/src/session/session_actor.rs\<close>: what it does on the packets of its
  client, on messages for the client, on its timers and when the connection comes and goes. A handler
  is a function on the actor's state. The futures a handler starts run to their end before the next
  message is handled, as \<open>ctx.wait\<close> makes them; those it only spawns run there too. Messages to other
  actors that are not waited for are recorded as effects. Counters of messages are not modelled.
\<close>

section \<open>State\<close>

record will_message =
  wm_topic :: string
  wm_payload :: bytes
  wm_qos :: u8
  wm_retain :: bool
  wm_protocol_version :: protocol_version
  wm_properties :: properties

record deferred_outbound =
  deferred_publish :: publish
  deferred_registered :: bool

datatype disconnect_reason = NormalReason | KeepAliveReason | RateLimitedReason | InternalErrorReason string

datatype lifecycle_message = SessionStarted | SessionActivate | SessionDeactivate | SessionStopped string string

datatype session_effect =
    ToConnection disconnect_reason
  | ToManager lifecycle_message
  | RegisterKeepAliveTimer u64
  | RegisterInflightTimer
  | RefreshKeepAliveTimer
  | RemoveTimers
  | RouteWill string publish
  | SendForceDisconnect
  | ClientDisconnectedHook
  | StopActor

record ('w, 'ps) session_actor = "('w, 'ps) session_env" +
  sa_tenant_id :: string
  sa_client_id :: string
  sa_clean_session :: bool
  sa_protocol_version :: protocol_version
  sa_session_expiry_interval :: "u32 option"
  sa_receive_maximum :: u16
  sa_slots_in_use :: nat
  sa_deferred :: "deferred_outbound list"
  sa_username :: "string option"
  sa_will_message :: "will_message option"
  sa_activity_state :: activity_state
  sa_connected :: bool
  sa_keep_alive :: u64
  sa_keep_alive_expired :: bool
  sa_has_store :: bool
  sa_effects :: "session_effect list"

text \<open>
  What the handlers call besides: the hooks of the plugins, the topic service and the routers. Their
  answers depend on, and change, the rest of the system.
\<close>

datatype auth_action = AuthPublish properties | AuthSubscribe subscribe_topic properties

record authorize_request =
  ar_tenant_id :: string
  ar_client_id :: string
  ar_username :: string
  ar_action :: auth_action
  ar_topic :: string
  ar_qos :: u8

record mqtt_message =
  mm_tenant_id :: string
  mm_client_id :: string
  mm_topic :: string
  mm_payload :: bytes
  mm_qos :: u8
  mm_retain :: bool
  mm_dup :: bool
  mm_properties :: properties

record subscribe_item =
  si_topic :: string
  si_allowed :: bool
  si_granted_qos :: u8

record ('w, 'ps) handler_platform = "('w, 'ps) actor_platform" +
  call_authorize_hook :: "authorize_request \<Rightarrow> (bool, string, 'w) op"
  call_on_message_publish :: "mqtt_message \<Rightarrow> (bool \<times> mqtt_message option, string, 'w) op"
  call_message_published_hook :: "mqtt_message \<Rightarrow> 'w \<Rightarrow> 'w"
  call_on_message_subscribe :: "string \<Rightarrow> subscribe_topic \<Rightarrow> properties \<Rightarrow> (subscribe_item list, string, 'w) op"
  topic_subscribe :: "string \<Rightarrow> string \<Rightarrow> string \<Rightarrow> u8 \<Rightarrow> bool \<Rightarrow> bool \<Rightarrow> (unit, string, 'w) op"
  topic_unsubscribe :: "string \<Rightarrow> string \<Rightarrow> string \<Rightarrow> (unit, string, 'w) op"
  topic_retained :: "string \<Rightarrow> string \<Rightarrow> (packet list, string, 'w) op"
  topic_register_retained :: "string \<Rightarrow> string \<Rightarrow> packet \<Rightarrow> (unit, string, 'w) op"
  topic_clean_retained :: "string \<Rightarrow> string \<Rightarrow> (unit, string, 'w) op"
  route_packet :: "string \<Rightarrow> packet \<Rightarrow> string option \<Rightarrow> (unit, string, 'w) op"

definition add_effect :: "session_effect \<Rightarrow> ('w, 'ps, 'z) session_actor_scheme \<Rightarrow> ('w, 'ps, 'z) session_actor_scheme" where
  "add_effect e s = s\<lparr>sa_effects := sa_effects s @ [e]\<rparr>"

text \<open>A call whose result is dropped.\<close>

definition run_op :: "('a, 'e, 's) op \<Rightarrow> 's \<Rightarrow> 's" where
  "run_op m s = snd (m s)"

text \<open>\<open>conn.do_send(WritePacketToClient(packet))\<close> where there is a connection.\<close>

definition write_if_connected ::
  "('w, 'ps, 'y) actor_platform_scheme \<Rightarrow> packet \<Rightarrow> ('w, 'ps, 'z) session_actor_scheme \<Rightarrow> ('w, 'ps, 'z) session_actor_scheme" where
  "write_if_connected pf packet s =
     (if sa_connected s then snd (write_packet pf packet s :: (conn_answer, session_actor_error) result \<times> _) else s)"

section \<open>Helpers\<close>

definition inbound_publish_ack :: "publish \<Rightarrow> reason_code \<Rightarrow> packet option" where
  "inbound_publish_ack p reason =
     (case publish_packet_identifier p of
        None \<Rightarrow> None
      | Some pid \<Rightarrow>
          if publish_qos p = 1 then Some (Puback (ack_with_reason pid reason))
          else if publish_qos p = 2 then Some (Pubrec (ack_with_reason pid reason))
          else None)"

definition inbound_publish_success_ack :: "publish \<Rightarrow> packet option" where
  "inbound_publish_success_ack p = inbound_publish_ack p RC_Success"

definition updated_session_expiry_interval ::
  "u32 option \<Rightarrow> u32 option \<Rightarrow> (u32 option, reason_code) result" where
  "updated_session_expiry_interval current requested =
     (case (current, requested) of
        (Some c, Some r) \<Rightarrow> if r > c then Err RC_ProtocolError else Ok (Some r)
      | (_, Some r) \<Rightarrow> Ok (Some r)
      | (c, None) \<Rightarrow> Ok c)"

definition granted_qos_reason :: "u8 \<Rightarrow> reason_code" where
  "granted_qos_reason q =
     (if q = 0 then RC_GrantedQos0 else if q = 1 then RC_GrantedQos1 else if q = 2 then RC_GrantedQos2
      else RC_UnspecifiedError)"

definition subscribe_precheck_reason :: "string \<Rightarrow> reason_code option" where
  "subscribe_precheck_reason f =
     (if take 7 f = ''$share/''
      then (case parse_shared_subscription_filter f of Ok _ \<Rightarrow> None | Err _ \<Rightarrow> Some RC_TopicFilterInvalid)
      else None)"

definition build_will_publish :: "will_message \<Rightarrow> u64 \<Rightarrow> publish" where
  "build_will_publish w now =
     stamp_publish_expiry
       \<lparr>publish_protocol_version = wm_protocol_version w, topic_name = wm_topic w, payload = wm_payload w,
        publish_qos = wm_qos w, retain = wm_retain w, dup = False, publish_packet_identifier = None,
        publish_properties = (wm_properties w)\<lparr>will_delay_interval := None\<rparr>, expires_at_unix_secs = None\<rparr> now"

definition mqtt_message_from_publish :: "publish \<Rightarrow> string \<Rightarrow> string \<Rightarrow> mqtt_message" where
  "mqtt_message_from_publish p tenant client =
     \<lparr>mm_tenant_id = tenant, mm_client_id = client, mm_topic = topic_name p, mm_payload = payload p,
      mm_qos = publish_qos p, mm_retain = retain p, mm_dup = dup p, mm_properties = publish_properties p\<rparr>"

definition apply_modified_mqtt_message :: "publish \<Rightarrow> mqtt_message \<Rightarrow> publish" where
  "apply_modified_mqtt_message p m =
     (if mm_topic m = [] then p else p\<lparr>topic_name := mm_topic m\<rparr>)
       \<lparr>payload := mm_payload m, retain := mm_retain m, dup := mm_dup m\<rparr>"

section \<open>The quota of the client\<close>

definition outbound_delivery_context :: "('w, 'ps, 'z) session_actor_scheme \<Rightarrow> delivery_context" where
  "outbound_delivery_context s =
     \<lparr>ctx_tenant_id = sa_tenant_id s, ctx_client_id = sa_client_id s, ctx_clean_session = sa_clean_session s,
      ctx_protocol_version = sa_protocol_version s, ctx_activity_state = sa_activity_state s,
      ctx_has_store = sa_has_store s, ctx_has_conn = sa_connected s, ctx_defer_delivery = False\<rparr>"

definition receive_maximum_limit :: "('w, 'ps, 'z) session_actor_scheme \<Rightarrow> nat" where
  "receive_maximum_limit s = unat (max (sa_receive_maximum s) 1)"

definition outbound_publish_uses_receive_slot :: "('w, 'ps, 'z) session_actor_scheme \<Rightarrow> publish \<Rightarrow> bool" where
  "outbound_publish_uses_receive_slot s p \<longleftrightarrow>
     sa_protocol_version s = V5_0 \<and> sa_activity_state s = Active \<and> publish_qos p > 0"

definition can_reserve_receive_slot :: "('w, 'ps, 'z) session_actor_scheme \<Rightarrow> bool" where
  "can_reserve_receive_slot s \<longleftrightarrow> sa_slots_in_use s < receive_maximum_limit s"

definition reserve_receive_slot :: "('w, 'ps, 'z) session_actor_scheme \<Rightarrow> ('w, 'ps, 'z) session_actor_scheme" where
  "reserve_receive_slot s = s\<lparr>sa_slots_in_use := sa_slots_in_use s + 1\<rparr>"

definition release_slot :: "('w, 'ps, 'z) session_actor_scheme \<Rightarrow> ('w, 'ps, 'z) session_actor_scheme" where
  "release_slot s = s\<lparr>sa_slots_in_use := sa_slots_in_use s - 1\<rparr>"

text \<open>A message already registered: it is marked as started, then written.\<close>

definition send_registered ::
  "('w, 'ps, 'y) actor_platform_scheme \<Rightarrow> u64 \<Rightarrow> publish \<Rightarrow> ('w, 'ps, 'z) session_actor_scheme \<Rightarrow>
   publish \<times> (bool, session_actor_error) result \<times> ('w, 'ps, 'z) session_actor_scheme" where
  "send_registered pf now p s =
     (case prepare_registered_publish pf now (outbound_delivery_context s) p s of
        (p, Ok True, s) \<Rightarrow>
          (p, if sa_connected s then bind_op (write_checked pf (Publish p)) (\<lambda>_. pure_op True) s
              else (Err ConnectionNotSet, s))
      | (p, r, s) \<Rightarrow> (p, r, s))"

text \<open>
  One postponed message, its slot reserved if it needs one: the message to put back, where sending a
  registered one failed, and the state.
\<close>

definition attempt_deferred ::
  "('w, 'ps, 'y) actor_platform_scheme \<Rightarrow> u64 \<Rightarrow> bool \<Rightarrow> deferred_outbound \<Rightarrow> ('w, 'ps, 'z) session_actor_scheme \<Rightarrow>
   publish option \<times> ('w, 'ps, 'z) session_actor_scheme" where
  "attempt_deferred pf now reserved d s =
     (let release = (if reserved then release_slot else id) in
      if deferred_registered d
      then (case send_registered pf now (deferred_publish d) s of
              (_, Ok True, s) \<Rightarrow> (None, s)
            | (_, Ok False, s) \<Rightarrow> (None, release s)
            | (p, Err _, s) \<Rightarrow> (Some p, release s))
      else (case deliver_outbound_publish pf now (deferred_publish d) (outbound_delivery_context s) s of
              (r, s) \<Rightarrow> (None, if r = Ok Sent then s else release s)))"

text \<open>\<open>drain_deferred_outbound_publishes\<close>; the queue it works off is its argument.\<close>

fun drain_queue ::
  "('w, 'ps, 'y) actor_platform_scheme \<Rightarrow> u64 \<Rightarrow> deferred_outbound list \<Rightarrow>
   ('w, 'ps, 'z) session_actor_scheme \<Rightarrow> ('w, 'ps, 'z) session_actor_scheme" where
  "drain_queue pf now [] s = s\<lparr>sa_deferred := []\<rparr>"
| "drain_queue pf now (d # ds) s =
     (let uses = outbound_publish_uses_receive_slot s (deferred_publish d) in
      if uses \<and> \<not> can_reserve_receive_slot s then s\<lparr>sa_deferred := d # ds\<rparr>
      else
        case attempt_deferred pf now uses d (if uses then reserve_receive_slot s else s) of
          (None, s) \<Rightarrow> drain_queue pf now ds s
        | (Some p, s) \<Rightarrow> s\<lparr>sa_deferred := d\<lparr>deferred_publish := p\<rparr> # ds\<rparr>)"

definition drain_deferred_outbound_publishes ::
  "('w, 'ps, 'y) actor_platform_scheme \<Rightarrow> u64 \<Rightarrow> ('w, 'ps, 'z) session_actor_scheme \<Rightarrow> ('w, 'ps, 'z) session_actor_scheme" where
  "drain_deferred_outbound_publishes pf now s =
     (if sa_activity_state s = Inactive then s else drain_queue pf now (sa_deferred s) s)"

definition release_receive_maximum_slot_and_drain ::
  "('w, 'ps, 'y) actor_platform_scheme \<Rightarrow> u64 \<Rightarrow> ('w, 'ps, 'z) session_actor_scheme \<Rightarrow> ('w, 'ps, 'z) session_actor_scheme" where
  "release_receive_maximum_slot_and_drain pf now s = drain_deferred_outbound_publishes pf now (release_slot s)"

text \<open>What follows a delivery: the slot of a message that was not sent is given back.\<close>

definition finish_delivery ::
  "('w, 'ps, 'y) actor_platform_scheme \<Rightarrow> u64 \<Rightarrow> bool \<Rightarrow>
   (outbound_delivery_status, session_actor_error) result \<times> ('w, 'ps, 'z) session_actor_scheme \<Rightarrow>
   (unit, session_actor_error) result \<times> ('w, 'ps, 'z) session_actor_scheme" where
  "finish_delivery pf now reserved =
     (\<lambda>(r, s).
        let release = (if reserved then release_receive_maximum_slot_and_drain pf now else id) in
        (case r of
           Ok Sent \<Rightarrow> (Ok (), s)
         | Ok (Deferred p) \<Rightarrow>
             (Ok (), s\<lparr>sa_deferred := sa_deferred s @ [\<lparr>deferred_publish = p, deferred_registered = True\<rparr>]\<rparr>)
         | Ok NotSent \<Rightarrow> (Ok (), release s)
         | Err e \<Rightarrow> (Err e, release s)))"

definition start_outbound_publish_delivery ::
  "('w, 'ps, 'y) actor_platform_scheme \<Rightarrow> u64 \<Rightarrow> publish \<Rightarrow>
   (unit, session_actor_error, ('w, 'ps, 'z) session_actor_scheme) op" where
  "start_outbound_publish_delivery pf now p s =
     (let uses = outbound_publish_uses_receive_slot s p; defer = uses \<and> \<not> can_reserve_receive_slot s in
      if defer \<and> sa_clean_session s
      then (Ok (), s\<lparr>sa_deferred := sa_deferred s @ [\<lparr>deferred_publish = p, deferred_registered = False\<rparr>]\<rparr>)
      else
        let reserved = uses \<and> \<not> defer; s = (if reserved then reserve_receive_slot s else s) in
        finish_delivery pf now reserved
          (deliver_outbound_publish pf now p ((outbound_delivery_context s)\<lparr>ctx_defer_delivery := defer\<rparr>) s))"

section \<open>Acknowledgements\<close>

text \<open>The keys freed are deleted one by one; an error is only logged.\<close>

definition cleanup_local_finished_items ::
  "('w, 'ps, 'y) actor_platform_scheme \<Rightarrow> ('w, 'ps, 'z) session_actor_scheme \<Rightarrow> ('w, 'ps, 'z) session_actor_scheme" where
  "cleanup_local_finished_items pf s =
     (case clean_finished_items (env_inflight s) of
        (freed, i) \<Rightarrow>
          let s = set_inflight i s in
          if sa_has_store s then fold (\<lambda>key. run_op (on_store (ps_delete (payload_ops pf) key))) freed s else s)"

text \<open>The next state of an exchange, in the local table alone or after the replicated one.\<close>

definition advance_local :: "u64 \<Rightarrow> u16 \<Rightarrow> ('w, 'ps, 'z) session_actor_scheme \<Rightarrow> ('w, 'ps, 'z) session_actor_scheme" where
  "advance_local now pid s = set_inflight (snd (next_state now pid (env_inflight s))) s"

definition clean_local :: "('w, 'ps, 'z) session_actor_scheme \<Rightarrow> ('w, 'ps, 'z) session_actor_scheme" where
  "clean_local s = set_inflight (snd (clean_finished_items (env_inflight s))) s"

definition advance_remote ::
  "('w, 'ps, 'y) actor_platform_scheme \<Rightarrow> u16 \<Rightarrow> (unit, session_raft_error, ('w, 'ps, 'z) session_actor_scheme) op" where
  "advance_remote pf pid s = advance_inflight_state pf (sa_tenant_id s) (sa_client_id s) pid s"

definition clean_remote ::
  "('w, 'ps, 'y) actor_platform_scheme \<Rightarrow> (unit, session_raft_error, ('w, 'ps, 'z) session_actor_scheme) op" where
  "clean_remote pf s = clean_finished_inflight_items pf (sa_tenant_id s) (sa_client_id s) s"

definition handle_pubrel ::
  "('w, 'ps, 'y) actor_platform_scheme \<Rightarrow> u64 \<Rightarrow> ack \<Rightarrow> ('w, 'ps, 'z) session_actor_scheme \<Rightarrow> ('w, 'ps, 'z) session_actor_scheme" where
  "handle_pubrel pf now a s =
     (if \<not> sa_connected s then s
      else
        let pid = ack_packet_identifier a in
        case write_packet pf (Pubcomp (success_ack pid)) s of
          (Ok (MailboxClosed _), s) \<Rightarrow> s
        | (_ :: (conn_answer, session_actor_error) result, s) \<Rightarrow>
            if sa_clean_session s then cleanup_local_finished_items pf (advance_local now pid s)
            else
              (case advance_remote pf pid s of
                 (Ok _, s) \<Rightarrow> clean_local (run_op (clean_remote pf) (advance_local now pid s))
               | (Err _, s) \<Rightarrow> s))"

text \<open>Whether the slot of the packet is to be released, and the state.\<close>

definition handle_pubrec_step ::
  "('w, 'ps, 'y) actor_platform_scheme \<Rightarrow> u64 \<Rightarrow> u16 \<Rightarrow> ('w, 'ps, 'z) session_actor_scheme \<Rightarrow>
   bool \<times> ('w, 'ps, 'z) session_actor_scheme" where
  "handle_pubrec_step pf now pid s =
     (if get_inflight_current_state pid (env_inflight s) \<noteq> Some WaitPubrec then (False, s)
      else
        case write_packet pf (Pubrel (success_ack pid)) s of
          (Ok (MailboxClosed _), s) \<Rightarrow> (True, s)
        | (_ :: (conn_answer, session_actor_error) result, s) \<Rightarrow>
            if sa_clean_session s then (True, advance_local now pid s)
            else
              (case advance_remote pf pid s of
                 (Ok _, s) \<Rightarrow> (True, advance_local now pid s)
               | (Err _, s) \<Rightarrow> (False, s)))"

definition handle_pubrec ::
  "('w, 'ps, 'y) actor_platform_scheme \<Rightarrow> u64 \<Rightarrow> ack \<Rightarrow> ('w, 'ps, 'z) session_actor_scheme \<Rightarrow> ('w, 'ps, 'z) session_actor_scheme" where
  "handle_pubrec pf now a s =
     (if \<not> sa_connected s then s
      else case handle_pubrec_step pf now (ack_packet_identifier a) s of
        (release, s) \<Rightarrow> if release then release_receive_maximum_slot_and_drain pf now s else s)"

text \<open>What \<open>handle_puback\<close> and \<open>handle_pubcomp\<close> do with an exchange that ends.\<close>

definition finish_exchange ::
  "('w, 'ps, 'y) actor_platform_scheme \<Rightarrow> u64 \<Rightarrow> u16 \<Rightarrow> ('w, 'ps, 'z) session_actor_scheme \<Rightarrow>
   bool \<times> ('w, 'ps, 'z) session_actor_scheme" where
  "finish_exchange pf now pid s =
     (if sa_clean_session s then (True, cleanup_local_finished_items pf (advance_local now pid s))
      else
        case advance_remote pf pid s of
          (Ok _, s) \<Rightarrow>
            (case clean_remote pf (advance_local now pid s) of
               (Ok _, s) \<Rightarrow> (True, clean_local s)
             | (Err _, s) \<Rightarrow> (True, s))
        | (Err _, s) \<Rightarrow> (False, s))"

definition handle_puback ::
  "('w, 'ps, 'y) actor_platform_scheme \<Rightarrow> u64 \<Rightarrow> ack \<Rightarrow> ('w, 'ps, 'z) session_actor_scheme \<Rightarrow> ('w, 'ps, 'z) session_actor_scheme" where
  "handle_puback pf now a s =
     (let pid = ack_packet_identifier a in
      if get_inflight_current_state pid (env_inflight s) \<noteq> Some WaitPuback then s
      else case finish_exchange pf now pid s of
        (release, s) \<Rightarrow> if release then release_receive_maximum_slot_and_drain pf now s else s)"

definition handle_pubcomp ::
  "('w, 'ps, 'y) actor_platform_scheme \<Rightarrow> u64 \<Rightarrow> ack \<Rightarrow> ('w, 'ps, 'z) session_actor_scheme \<Rightarrow> ('w, 'ps, 'z) session_actor_scheme" where
  "handle_pubcomp pf now a s = snd (finish_exchange pf now (ack_packet_identifier a) s)"

section \<open>Publishing\<close>

datatype handle_publish_error = PacketIdNotExist | PublishStoreError payload_error | RouteError string

definition authorize_publish ::
  "('w, 'ps, 'y) handler_platform_scheme \<Rightarrow> publish \<Rightarrow> (bool, string, ('w, 'ps, 'z) session_actor_scheme) op" where
  "authorize_publish pf p s =
     on_world (call_authorize_hook pf
       \<lparr>ar_tenant_id = sa_tenant_id s, ar_client_id = sa_client_id s,
        ar_username = (case sa_username s of Some u \<Rightarrow> u | None \<Rightarrow> ''''),
        ar_action = AuthPublish (publish_properties p), ar_topic = topic_name p, ar_qos = publish_qos p\<rparr>) s"

text \<open>
  The exchange of an incoming publish above QoS 0: stored, registered, and replicated for a persistent
  session. The answer, or \<open>None\<close> where the replication failed, after which nothing more is done.
\<close>

definition store_inbound ::
  "('w, 'ps, 'y) handler_platform_scheme \<Rightarrow> u64 \<Rightarrow> bool \<Rightarrow> string \<Rightarrow> string \<Rightarrow> u16 \<Rightarrow> publish \<Rightarrow>
   (packet option, handle_publish_error, ('w, 'ps, 'z) session_env_scheme) op" where
  "store_inbound pf now clean tenant client pid p =
     bind_op (draw_uuid pf) (\<lambda>key.
     bind_op (lift_op (map_err (\<lambda>e. PublishStoreError (PayloadSerialization e))
       (serialize_stored_packet pf (Publish p)))) (\<lambda>data.
     bind_op (map_err_op PublishStoreError (on_store (ps_put (payload_ops pf) key data))) (\<lambda>_.
     bind_op (on_inflight (register_with_rx_packet now pid (publish_qos p) key)) (\<lambda>_.
     bind_op (if clean then pure_op (Ok ())
              else try_op (register_inflight_rx_packet pf tenant client pid (publish_qos p) key)) (\<lambda>r.
     pure_op (case r of
        Ok _ \<Rightarrow> Some (if publish_qos p = 1 then Puback (success_ack pid) else Pubrec (success_ack pid))
      | Err _ \<Rightarrow> None))))))"

definition register_inbound ::
  "('w, 'ps, 'y) handler_platform_scheme \<Rightarrow> u64 \<Rightarrow> publish \<Rightarrow>
   (packet option, handle_publish_error, ('w, 'ps, 'z) session_actor_scheme) op" where
  "register_inbound pf now p s =
     (case publish_packet_identifier p of
        None \<Rightarrow> (Err PacketIdNotExist, s)
      | Some pid \<Rightarrow>
          if \<not> sa_has_store s
          then (Err (PublishStoreError (PayloadStorage ''Payload store not available'')), s)
          else store_inbound pf now (sa_clean_session s) (sa_tenant_id s) (sa_client_id s) pid p s)"

definition update_retained ::
  "('w, 'ps, 'y) handler_platform_scheme \<Rightarrow> publish \<Rightarrow> ('w, 'ps, 'z) session_actor_scheme \<Rightarrow> ('w, 'ps, 'z) session_actor_scheme" where
  "update_retained pf p s =
     (if \<not> retain p then s
      else if payload p = [] then run_op (on_world (topic_clean_retained pf (sa_tenant_id s) (topic_name p))) s
      else run_op (on_world (topic_register_retained pf (sa_tenant_id s) (sa_client_id s) (Publish p))) s)"

definition route_publish ::
  "('w, 'ps, 'y) handler_platform_scheme \<Rightarrow> publish \<Rightarrow> packet option \<Rightarrow>
   (packet option, handle_publish_error, ('w, 'ps, 'z) session_actor_scheme) op" where
  "route_publish pf p answer s =
     bind_op (map_err_op RouteError
       (on_world (route_packet pf (sa_tenant_id s) (Publish p) (Some (sa_client_id s))))) (\<lambda>_. pure_op answer)
       (update_retained pf p s)"

text \<open>\<open>do_handle_publish\<close> from the policy hook on.\<close>

definition accept_publish ::
  "('w, 'ps, 'y) handler_platform_scheme \<Rightarrow> u64 \<Rightarrow> publish \<Rightarrow>
   (packet option, handle_publish_error, ('w, 'ps, 'z) session_actor_scheme) op" where
  "accept_publish pf now p s =
     (case on_world (call_on_message_publish pf (mqtt_message_from_publish p (sa_tenant_id s) (sa_client_id s))) s of
        (Err _, s) \<Rightarrow> (Ok (inbound_publish_success_ack p), s)
      | (Ok (False, _), s) \<Rightarrow> (Ok (inbound_publish_success_ack p), s)
      | (Ok (True, modified), s) \<Rightarrow>
          let p = (case modified of Some m \<Rightarrow> apply_modified_mqtt_message p m | None \<Rightarrow> p);
              s = s\<lparr>env_world := call_message_published_hook pf
                (mqtt_message_from_publish p (sa_tenant_id s) (sa_client_id s)) (env_world s)\<rparr> in
          if publish_qos p > 0
          then bind_op (register_inbound pf now p) (\<lambda>answer.
            case answer of None \<Rightarrow> pure_op None | Some _ \<Rightarrow> route_publish pf p answer) s
          else route_publish pf p None s)"

definition do_handle_publish ::
  "('w, 'ps, 'y) handler_platform_scheme \<Rightarrow> u64 \<Rightarrow> publish \<Rightarrow>
   (packet option, handle_publish_error, ('w, 'ps, 'z) session_actor_scheme) op" where
  "do_handle_publish pf now p s =
     (case authorize_publish pf p s of
        (Err _, s) \<Rightarrow> (Ok (inbound_publish_ack p RC_UnspecifiedError), s)
      | (Ok False, s) \<Rightarrow> (Ok (inbound_publish_ack p RC_NotAuthorized), s)
      | (Ok True, s) \<Rightarrow>
          if is_publish_expired p now
          then (Ok (inbound_publish_success_ack p),
                if retain p \<and> payload p = []
                then run_op (on_world (topic_clean_retained pf (sa_tenant_id s) (topic_name p))) s else s)
          else accept_publish pf now p s)"

definition handle_publish ::
  "('w, 'ps, 'y) handler_platform_scheme \<Rightarrow> u64 \<Rightarrow> publish \<Rightarrow> ('w, 'ps, 'z) session_actor_scheme \<Rightarrow> ('w, 'ps, 'z) session_actor_scheme" where
  "handle_publish pf now p s =
     (case do_handle_publish pf now (stamp_publish_expiry p now) s of
        (Ok None, s) \<Rightarrow> s
      | (Ok (Some packet), s) \<Rightarrow>
          if \<not> sa_connected s then s
          else
            let s = write_if_connected pf packet s in
            (case packet of
               Puback _ \<Rightarrow> if sa_clean_session s then cleanup_local_finished_items pf s else run_op (clean_remote pf) s
             | _ \<Rightarrow> s)
      | (Err PacketIdNotExist, s) \<Rightarrow> add_effect SendForceDisconnect s
      | (Err _, s) \<Rightarrow> s)"

section \<open>Subscriptions\<close>

record retained_delivery =
  rd_packet :: packet
  rd_requested_qos :: u8
  rd_retain_as_published :: bool

record subscribe_progress =
  sp_codes :: "reason_code list"
  sp_succeeded :: "(string \<times> subscription_state) list"
  sp_retained :: "retained_delivery list"

definition authorize_subscribe ::
  "('w, 'ps, 'y) handler_platform_scheme \<Rightarrow> subscribe_topic \<Rightarrow> properties \<Rightarrow> (bool, string, ('w, 'ps, 'z) session_actor_scheme) op" where
  "authorize_subscribe pf t props s =
     on_world (call_authorize_hook pf
       \<lparr>ar_tenant_id = sa_tenant_id s, ar_client_id = sa_client_id s,
        ar_username = (case sa_username s of Some u \<Rightarrow> u | None \<Rightarrow> ''''),
        ar_action = AuthSubscribe t props, ar_topic = topic_filter t, ar_qos = topic_qos t\<rparr>) s"

text \<open>The QoS the policy hook grants for a filter, if it allows it.\<close>

definition subscribe_policy ::
  "('w, 'ps, 'y) handler_platform_scheme \<Rightarrow> subscribe_topic \<Rightarrow> properties \<Rightarrow> (u8 option, string, ('w, 'ps, 'z) session_actor_scheme) op" where
  "subscribe_policy pf t props s =
     (case on_world (call_on_message_subscribe pf (sa_client_id s) t props) s of
        (Ok items, s) \<Rightarrow>
          (Ok (case find (\<lambda>item. si_topic item = topic_filter t) items of
             Some item \<Rightarrow> if si_allowed item then Some (si_granted_qos item) else None | None \<Rightarrow> None), s)
      | (Err e, s) \<Rightarrow> (Ok None, s))"

definition retained_filter :: "string \<Rightarrow> string" where
  "retained_filter f = (case parse_shared_subscription_filter f of Ok (Some shared) \<Rightarrow> shared_topic_filter shared | _ \<Rightarrow> f)"

definition send_retained :: "string list \<Rightarrow> subscribe_topic \<Rightarrow> bool" where
  "send_retained existing t =
     (case retain_handling t of
        SendAtSubscribe \<Rightarrow> True
      | SendAtSubscribeIfNew \<Rightarrow> topic_filter t \<notin> set existing
      | DoNotSend \<Rightarrow> False)"

definition subscribe_granted ::
  "('w, 'ps, 'y) handler_platform_scheme \<Rightarrow> string list \<Rightarrow> subscribe_topic \<Rightarrow> u8 \<Rightarrow> subscribe_progress \<Rightarrow>
   ('w, 'ps, 'z) session_actor_scheme \<Rightarrow> subscribe_progress \<times> ('w, 'ps, 'z) session_actor_scheme" where
  "subscribe_granted pf existing t q sp s =
     (case on_world (topic_subscribe pf (sa_tenant_id s) (sa_client_id s) (topic_filter t) q (no_local t)
        (retain_as_published t)) s of
        (Err _, s) \<Rightarrow> (sp\<lparr>sp_codes := sp_codes sp @ [RC_UnspecifiedError]\<rparr>, s)
      | (Ok _, s) \<Rightarrow>
          let sp = sp\<lparr>sp_codes := sp_codes sp @ [granted_qos_reason q],
                sp_succeeded := sp_succeeded sp @ [(topic_filter t,
                  \<lparr>state_qos = the (qos_from_u8 q), state_no_local = no_local t,
                   state_retain_as_published = retain_as_published t\<rparr>)]\<rparr> in
          if send_retained existing t
          then (case on_world (topic_retained pf (sa_tenant_id s) (retained_filter (topic_filter t))) s of
                  (Ok packets, s) \<Rightarrow>
                    (sp\<lparr>sp_retained := sp_retained sp @ map (\<lambda>packet. \<lparr>rd_packet = packet, rd_requested_qos = q,
                       rd_retain_as_published = retain_as_published t\<rparr>) packets\<rparr>, s)
                | (Err _, s) \<Rightarrow> (sp, s))
          else (sp, s))"

definition subscribe_one ::
  "('w, 'ps, 'y) handler_platform_scheme \<Rightarrow> properties \<Rightarrow> string list \<Rightarrow> subscribe_topic \<Rightarrow>
   subscribe_progress \<times> ('w, 'ps, 'z) session_actor_scheme \<Rightarrow> subscribe_progress \<times> ('w, 'ps, 'z) session_actor_scheme" where
  "subscribe_one pf props existing t =
     (\<lambda>(sp, s).
        case subscribe_precheck_reason (topic_filter t) of
          Some reason \<Rightarrow> (sp\<lparr>sp_codes := sp_codes sp @ [reason]\<rparr>, s)
        | None \<Rightarrow>
            (case authorize_subscribe pf t props s of
               (Ok True, s) \<Rightarrow>
                 (case subscribe_policy pf t props s of
                    (Ok (Some granted), s) \<Rightarrow>
                      subscribe_granted pf existing t (min (min granted (topic_qos t)) 2) sp s
                  | (_, s) \<Rightarrow> (sp\<lparr>sp_codes := sp_codes sp @ [RC_NotAuthorized]\<rparr>, s))
             | (_, s) \<Rightarrow> (sp\<lparr>sp_codes := sp_codes sp @ [RC_NotAuthorized]\<rparr>, s)))"

definition empty_progress :: subscribe_progress where
  "empty_progress = \<lparr>sp_codes = [], sp_succeeded = [], sp_retained = []\<rparr>"

definition do_handle_subscribe ::
  "('w, 'ps, 'y) handler_platform_scheme \<Rightarrow> subscribe \<Rightarrow> string list \<Rightarrow> ('w, 'ps, 'z) session_actor_scheme \<Rightarrow>
   subscribe_progress \<times> ('w, 'ps, 'z) session_actor_scheme" where
  "do_handle_subscribe pf sub existing s =
     (if subscribe_protocol_version sub = V5_0 \<and> subscription_identifiers (subscribe_properties sub) \<noteq> []
      then (empty_progress\<lparr>sp_codes := replicate (length (subscribe_topics sub)) RC_SubscriptionIdentifiersNotSupported\<rparr>, s)
      else fold (subscribe_one pf (subscribe_properties sub) existing) (subscribe_topics sub) (empty_progress, s))"

text \<open>A retained message as it is written to a new subscriber.\<close>

definition retained_for ::
  "u64 \<Rightarrow> protocol_version \<Rightarrow> retained_delivery \<Rightarrow> packet option" where
  "retained_for now version r =
     (case rd_packet r of
        Publish p \<Rightarrow>
          (case prepare_publish_for_delivery p version now of
             (deliver, p) \<Rightarrow>
               if \<not> deliver then None
               else
                 let min_qos = min (publish_qos p) (rd_requested_qos r);
                     p = (if min_qos = 0 \<and> publish_qos p > 0 then p\<lparr>publish_packet_identifier := None\<rparr> else p) in
                 Some (Publish (p\<lparr>publish_qos := min_qos,
                   retain := (case version of V3_1_1 \<Rightarrow> True | V5_0 \<Rightarrow> rd_retain_as_published r \<and> retain p)\<rparr>)))
      | _ \<Rightarrow> None)"

definition insert_subscription ::
  "string \<Rightarrow> subscription_state \<Rightarrow> ('w, 'ps, 'z) session_actor_scheme \<Rightarrow> ('w, 'ps, 'z) session_actor_scheme" where
  "insert_subscription topic st s =
     s\<lparr>sess_state := (sess_state s)\<lparr>session_subscriptions := hm_insert topic st (session_subscriptions (sess_state s))\<rparr>\<rparr>"

definition record_subscription ::
  "('w, 'ps, 'y) handler_platform_scheme \<Rightarrow> string \<times> subscription_state \<Rightarrow> ('w, 'ps, 'z) session_actor_scheme \<Rightarrow> ('w, 'ps, 'z) session_actor_scheme" where
  "record_subscription pf =
     (\<lambda>(topic, st) s.
        if sa_clean_session s then insert_subscription topic st s
        else case service_subscribe_topic_with_options pf (sa_tenant_id s) (sa_client_id s) topic
            (qos_as_u8 (state_qos st)) (state_no_local st) (state_retain_as_published st) s of
          (Ok _, s) \<Rightarrow> insert_subscription topic st s
        | (Err _, s) \<Rightarrow> s)"

definition suback_for :: "subscribe \<Rightarrow> subscribe_progress \<Rightarrow> packet" where
  "suback_for sub sp = Suback
     \<lparr>suback_protocol_version = subscribe_protocol_version sub, suback_packet_identifier = subscribe_packet_identifier sub,
      suback_reason_codes = sp_codes sp, suback_properties = default_properties\<rparr>"

definition handle_subscribe ::
  "('w, 'ps, 'y) handler_platform_scheme \<Rightarrow> u64 \<Rightarrow> subscribe \<Rightarrow> ('w, 'ps, 'z) session_actor_scheme \<Rightarrow> ('w, 'ps, 'z) session_actor_scheme" where
  "handle_subscribe pf now sub s =
     (if \<not> sa_connected s then s
      else
        case do_handle_subscribe pf sub (map fst (session_subscriptions (sess_state s))) s of
          (sp, s) \<Rightarrow>
            let s = fold (write_if_connected pf)
                  (List.map_filter (retained_for now (subscribe_protocol_version sub)) (sp_retained sp)) s;
                s = write_if_connected pf (suback_for sub sp) s in
            fold (record_subscription pf) (sp_succeeded sp) s)"

definition unsubscribe_one ::
  "('w, 'ps, 'y) handler_platform_scheme \<Rightarrow> string \<Rightarrow> ('w, 'ps, 'z) session_actor_scheme \<Rightarrow> ('w, 'ps, 'z) session_actor_scheme" where
  "unsubscribe_one pf topic s =
     (let s = s\<lparr>sess_state := (sess_state s)\<lparr>session_subscriptions := hm_remove topic (session_subscriptions (sess_state s))\<rparr>\<rparr> in
      if sa_clean_session s then s
      else run_op (service_unsubscribe_topic pf (sa_tenant_id s) (sa_client_id s) topic) s)"

definition handle_unsubscribe ::
  "('w, 'ps, 'y) handler_platform_scheme \<Rightarrow> unsubscribe \<Rightarrow> ('w, 'ps, 'z) session_actor_scheme \<Rightarrow> ('w, 'ps, 'z) session_actor_scheme" where
  "handle_unsubscribe pf u s =
     (if \<not> sa_connected s then s
      else
        let topics = unsubscribe_topics u;
            s = fold (\<lambda>topic s. run_op (on_world (topic_unsubscribe pf (sa_tenant_id s) (sa_client_id s) topic)) s) topics s;
            s = fold (unsubscribe_one pf) topics s in
        write_if_connected pf (Unsuback
          \<lparr>unsuback_protocol_version = unsubscribe_protocol_version u,
           unsuback_packet_identifier = unsubscribe_packet_identifier u,
           unsuback_reason_codes = replicate (max (length topics) 1) RC_Success,
           unsuback_properties = default_properties\<rparr>) s)"

section \<open>The life of a session\<close>

text \<open>The keep alive of the client and half of it again, cut to whole seconds as \<open>f64\<close> and \<open>u64\<close> do below \<open>2 ^ 52\<close>.\<close>

definition start_timers :: "('w, 'ps, 'z) session_actor_scheme \<Rightarrow> ('w, 'ps, 'z) session_actor_scheme" where
  "start_timers s =
     add_effect RegisterInflightTimer (add_effect (RegisterKeepAliveTimer (sa_keep_alive s + sa_keep_alive s div 2)) s)"

definition set_state ::
  "('w, 'ps, 'y) actor_platform_scheme \<Rightarrow> u64 \<Rightarrow> activity_state \<Rightarrow> ('w, 'ps, 'z) session_actor_scheme \<Rightarrow> ('w, 'ps, 'z) session_actor_scheme" where
  "set_state pf now activity s =
     (let update = (if sa_protocol_version s = V5_0 then sa_session_expiry_interval s else None);
          s = (if activity = Inactive then add_effect RemoveTimers s else s);
          s = (if sa_clean_session s then s
               else run_op (update_session_connection_state pf (sa_tenant_id s) (sa_client_id s)
                 (if activity = Inactive then Some now else None) update) s) in
      add_effect (ToManager SessionDeactivate) (s\<lparr>sa_activity_state := activity\<rparr>))"

definition force_stop :: "('w, 'ps, 'z) session_actor_scheme \<Rightarrow> ('w, 'ps, 'z) session_actor_scheme" where
  "force_stop s =
     (let s = add_effect RemoveTimers s;
          s = (if sa_connected s then add_effect (ToConnection NormalReason) s else s) in
      add_effect StopActor (add_effect (ToManager (SessionStopped (sa_tenant_id s) (sa_client_id s))) s))"

definition should_delete_session_on_disconnect :: "('w, 'ps, 'z) session_actor_scheme \<Rightarrow> bool" where
  "should_delete_session_on_disconnect s \<longleftrightarrow>
     sa_protocol_version s = V5_0 \<and> sa_session_expiry_interval s = Some 0 \<and> \<not> sa_clean_session s"

definition delete_session_state_and_force_stop ::
  "('w, 'ps, 'y) actor_platform_scheme \<Rightarrow> ('w, 'ps, 'z) session_actor_scheme \<Rightarrow> ('w, 'ps, 'z) session_actor_scheme" where
  "delete_session_state_and_force_stop pf s =
     force_stop (run_op (service_delete_session_state pf (sa_tenant_id s) (sa_client_id s) None) s)"

definition finish_connection_disconnect ::
  "('w, 'ps, 'y) actor_platform_scheme \<Rightarrow> u64 \<Rightarrow> ('w, 'ps, 'z) session_actor_scheme \<Rightarrow> ('w, 'ps, 'z) session_actor_scheme" where
  "finish_connection_disconnect pf now s =
     (if should_delete_session_on_disconnect s then delete_session_state_and_force_stop pf s
      else if \<not> sa_clean_session s then set_state pf now Inactive s
      else force_stop s)"

definition handle_disconnect ::
  "('w, 'ps, 'y) actor_platform_scheme \<Rightarrow> u64 \<Rightarrow> disconnect \<Rightarrow> ('w, 'ps, 'z) session_actor_scheme \<Rightarrow> ('w, 'ps, 'z) session_actor_scheme" where
  "handle_disconnect pf now d s =
     (let s = s\<lparr>sa_will_message := None\<rparr>;
          requested = (case disconnect_session_expiry_interval d of
             Some i \<Rightarrow> Some i | None \<Rightarrow> session_expiry_interval (disconnect_properties d));
          updated = (if disconnect_protocol_version d = V5_0
             then updated_session_expiry_interval (sa_session_expiry_interval s) requested
             else Ok (sa_session_expiry_interval s)) in
      case updated of
        Err reason \<Rightarrow>
          finish_connection_disconnect pf now
            (write_if_connected pf (Disconnect
              \<lparr>disconnect_protocol_version = V5_0, disconnect_reason_code = reason,
               disconnect_session_expiry_interval = None, disconnect_properties = default_properties\<rparr>) s)
      | Ok interval \<Rightarrow>
          let s = s\<lparr>sa_session_expiry_interval := interval\<rparr>;
              s = (if sa_connected s then add_effect (ToConnection NormalReason) s else s) in
          finish_connection_disconnect pf now (add_effect ClientDisconnectedHook s))"

definition send_will_message ::
  "u64 \<Rightarrow> ('w, 'ps, 'z) session_actor_scheme \<Rightarrow> ('w, 'ps, 'z) session_actor_scheme" where
  "send_will_message now s =
     (case sa_will_message s of
        None \<Rightarrow> s
      | Some w \<Rightarrow> add_effect (RouteWill (sa_tenant_id s) (build_will_publish w now)) (s\<lparr>sa_will_message := None\<rparr>))"

section \<open>Retransmission\<close>

definition inflight_entries :: "inflight \<Rightarrow> (u16 \<times> string) list \<Rightarrow> (u16 \<times> string \<times> inflight_state) list" where
  "inflight_entries i = List.map_filter (\<lambda>(pid, key). map_option (\<lambda>st. (pid, key, st)) (get_inflight_current_state pid i))"

text \<open>The timer: packets unanswered for the retry interval are written again, held back ones excepted.\<close>

definition inflight_retry ::
  "('w, 'ps, 'y) actor_platform_scheme \<Rightarrow> u64 \<Rightarrow> ('w, 'ps, 'z) session_actor_scheme \<Rightarrow> ('w, 'ps, 'z) session_actor_scheme" where
  "inflight_retry pf now s =
     (let held = List.map_filter (publish_packet_identifier \<circ> deferred_publish) (filter deferred_registered (sa_deferred s));
          s = add_effect RegisterInflightTimer s in
      case cleanup_expired_unsent pf now (outbound_delivery_context s) s of
        (removed, s) \<Rightarrow>
          (case get_all_expired_packet_keys_and_refresh_expired_time now (env_inflight s) of
             (keys, i) \<Rightarrow>
               let s = set_inflight i s;
                   entries = inflight_entries i (filter (\<lambda>(pid, key). pid \<notin> set held) keys);
                   packets = collect_inflight_retry_packets pf now entries (sa_has_store s) (env_payloads s);
                   s = (if sa_connected s then write_inflight_retry_packets pf packets s else s);
                   keep = (\<lambda>d. case publish_packet_identifier (deferred_publish d) of
                      Some pid \<Rightarrow> pid \<notin> set removed | None \<Rightarrow> True) in
               drain_deferred_outbound_publishes pf now (s\<lparr>sa_deferred := filter keep (sa_deferred s)\<rparr>)))"

definition queue_retry_packet ::
  "('w, 'ps, 'y) actor_platform_scheme \<Rightarrow> packet \<Rightarrow> ('w, 'ps, 'z) session_actor_scheme \<Rightarrow> ('w, 'ps, 'z) session_actor_scheme" where
  "queue_retry_packet pf packet s =
     (case packet of
        Publish p \<Rightarrow> s\<lparr>sa_deferred := sa_deferred s @ [\<lparr>deferred_publish = p, deferred_registered = True\<rparr>]\<rparr>
      | _ \<Rightarrow> write_if_connected pf packet s)"

text \<open>The recovery at the start of a session: everything in flight, by identifier.\<close>

definition all_inflight_retry_immediate ::
  "('w, 'ps, 'y) actor_platform_scheme \<Rightarrow> u64 \<Rightarrow> ('w, 'ps, 'z) session_actor_scheme \<Rightarrow> ('w, 'ps, 'z) session_actor_scheme" where
  "all_inflight_retry_immediate pf now s =
     (case cleanup_expired_unsent pf now (outbound_delivery_context s) s of
        (removed, s) \<Rightarrow>
          (case get_all_packet_keys_and_refresh_expired_time now (env_inflight s) of
             (keys, i) \<Rightarrow>
               let s = set_inflight i s;
                   entries = sort_key fst (inflight_entries i keys);
                   packets = collect_inflight_retry_packets pf now entries (sa_has_store s) (env_payloads s) in
               drain_deferred_outbound_publishes pf now (fold (queue_retry_packet pf) packets s)))"

section \<open>Messages\<close>

record reconnect_info =
  rc_keep_alive :: u64
  rc_clean_session :: bool
  rc_protocol_version :: protocol_version
  rc_session_expiry_interval :: "u32 option"
  rc_receive_maximum :: u16
  rc_username :: "string option"
  rc_will_message :: "will_message option"

datatype session_message =
    InboundPacket packet
  | OutboundMessage packet
  | KeepAliveExpired
  | InflightRetry
  | ForceDisconnect "(unit, string) result"
  | Reconnect reconnect_info
  | UnexpectClientDisconnected
  | ClientDisconnected
  | ForceStop
  | AcceptRoutedPublish packet
  | AllInflightRetryImmediate

definition handle_inbound ::
  "('w, 'ps, 'y) handler_platform_scheme \<Rightarrow> u64 \<Rightarrow> packet \<Rightarrow> ('w, 'ps, 'z) session_actor_scheme \<Rightarrow> ('w, 'ps, 'z) session_actor_scheme" where
  "handle_inbound pf now packet s =
     (let s = add_effect RefreshKeepAliveTimer (s\<lparr>sa_keep_alive_expired := False\<rparr>) in
      case packet of
        Pingreq \<Rightarrow> write_if_connected pf Pingresp s
      | Subscribe p \<Rightarrow> handle_subscribe pf now p s
      | Unsubscribe p \<Rightarrow> handle_unsubscribe pf p s
      | Publish p \<Rightarrow> handle_publish pf now p s
      | Puback p \<Rightarrow> handle_puback pf now p s
      | Pubrec p \<Rightarrow> handle_pubrec pf now p s
      | Pubrel p \<Rightarrow> handle_pubrel pf now p s
      | Pubcomp p \<Rightarrow> handle_pubcomp pf now p s
      | Disconnect p \<Rightarrow> handle_disconnect pf now p s
      | _ \<Rightarrow> s)"

text \<open>
  The answer of the connection to the order to disconnect is part of the message: closed and stopped
  connections count as disconnected (\<open>Ok\<close>), only a timeout does not.
\<close>

definition force_disconnect ::
  "('w, 'ps, 'y) actor_platform_scheme \<Rightarrow> u64 \<Rightarrow> (unit, string) result \<Rightarrow> ('w, 'ps, 'z) session_actor_scheme \<Rightarrow> ('w, 'ps, 'z) session_actor_scheme" where
  "force_disconnect pf now stopped s =
     (if sa_activity_state s = Active \<and> sa_connected s
      then
        let s = add_effect (ToConnection NormalReason) s in
        (case stopped of
           Err _ \<Rightarrow> s
         | Ok _ \<Rightarrow> if \<not> sa_clean_session s then set_state pf now Inactive s else force_stop s)
      else s)"

definition revived_packet ::
  "('w, 'ps, 'y) actor_platform_scheme \<Rightarrow> u64 \<Rightarrow> protocol_version \<Rightarrow> bytes \<Rightarrow> packet option" where
  "revived_packet pf now version data =
     (case deserialize_stored_packet pf data of
        Ok packet \<Rightarrow>
          (case prepare_packet_for_delivery packet version now of
             (deliver, packet) \<Rightarrow> if deliver then Some packet else None)
      | Err _ \<Rightarrow> None)"

definition load_pending ::
  "('w, 'ps, 'y) actor_platform_scheme \<Rightarrow> u64 \<Rightarrow> protocol_version \<Rightarrow> 'ps \<Rightarrow> string \<Rightarrow> packet option" where
  "load_pending pf now version ps key =
     (case ps_get (payload_ops pf) key ps of
        Ok (Some data) \<Rightarrow> revived_packet pf now version data
      | _ \<Rightarrow> None)"

definition renew_subscription ::
  "('w, 'ps, 'y) handler_platform_scheme \<Rightarrow> string \<times> subscription_state \<Rightarrow> ('w, 'ps, 'z) session_actor_scheme \<Rightarrow> ('w, 'ps, 'z) session_actor_scheme" where
  "renew_subscription pf =
     (\<lambda>(topic, st) s. run_op (on_world (topic_subscribe pf (sa_tenant_id s) (sa_client_id s) topic
        (qos_as_u8 (state_qos st)) (state_no_local st) (state_retain_as_published st))) s)"

text \<open>
  A client that comes back: the messages it missed are sent to the actor itself. They are returned
  in the order in which they will be handled.
\<close>

definition reconnect ::
  "('w, 'ps, 'y) handler_platform_scheme \<Rightarrow> u64 \<Rightarrow> reconnect_info \<Rightarrow> ('w, 'ps, 'z) session_actor_scheme \<Rightarrow>
   packet list \<times> ('w, 'ps, 'z) session_actor_scheme" where
  "reconnect pf now r s =
     (let s = s\<lparr>sa_protocol_version := rc_protocol_version r, sa_session_expiry_interval := rc_session_expiry_interval r,
            sa_receive_maximum := rc_receive_maximum r\<rparr>;
          s = set_state pf now Active s;
          s = s\<lparr>sa_connected := True, sa_will_message := rc_will_message r, sa_clean_session := rc_clean_session r,
            sa_keep_alive := rc_keep_alive r, sa_username := rc_username r\<rparr>;
          s = start_timers (add_effect RemoveTimers s);
          missed = (if sa_has_store s
            then List.map_filter (load_pending pf now (sa_protocol_version s) (env_payloads s)) (pending_messages (sess_state s))
            else []);
          s = s\<lparr>sess_state := (sess_state s)\<lparr>pending_messages := []\<rparr>\<rparr>;
          s = fold (renew_subscription pf) (session_subscriptions (sess_state s)) s in
      (missed, s))"

definition outbound_message ::
  "('w, 'ps, 'y) actor_platform_scheme \<Rightarrow> u64 \<Rightarrow> packet \<Rightarrow> ('w, 'ps, 'z) session_actor_scheme \<Rightarrow> ('w, 'ps, 'z) session_actor_scheme" where
  "outbound_message pf now packet s =
     (case packet of Publish p \<Rightarrow> snd (start_outbound_publish_delivery pf now p s) | _ \<Rightarrow> s)"

text \<open>\<open>AcceptRoutedPublish\<close>, the delivery a router waits for.\<close>

definition accept_routed_publish ::
  "('w, 'ps, 'y) actor_platform_scheme \<Rightarrow> u64 \<Rightarrow> packet \<Rightarrow> (unit, session_actor_error, ('w, 'ps, 'z) session_actor_scheme) op" where
  "accept_routed_publish pf now packet s =
     (case packet of
        Publish p \<Rightarrow> start_outbound_publish_delivery pf now p s
      | _ \<Rightarrow> (Err (DeliveryError ''unsupported routed packet''), s))"

text \<open>A message, with the messages the actor then finds in its own mailbox.\<close>

definition handle_message ::
  "('w, 'ps, 'y) handler_platform_scheme \<Rightarrow> u64 \<Rightarrow> session_message \<Rightarrow> ('w, 'ps, 'z) session_actor_scheme \<Rightarrow>
   session_message list \<times> ('w, 'ps, 'z) session_actor_scheme" where
  "handle_message pf now m s =
     (case m of
        InboundPacket packet \<Rightarrow> ([], handle_inbound pf now packet s)
      | OutboundMessage packet \<Rightarrow> ([], outbound_message pf now packet s)
      | KeepAliveExpired \<Rightarrow>
          let s = send_will_message now s in
          ([], if sa_connected s
               then finish_connection_disconnect pf now (add_effect (ToConnection KeepAliveReason) s) else s)
      | InflightRetry \<Rightarrow> ([], inflight_retry pf now s)
      | ForceDisconnect stopped \<Rightarrow> ([], force_disconnect pf now stopped s)
      | Reconnect r \<Rightarrow> (case reconnect pf now r s of (missed, s) \<Rightarrow> (map OutboundMessage missed, s))
      | UnexpectClientDisconnected \<Rightarrow> ([], finish_connection_disconnect pf now (send_will_message now s))
      | ClientDisconnected \<Rightarrow> ([], finish_connection_disconnect pf now s)
      | ForceStop \<Rightarrow> ([], force_stop s)
      | AcceptRoutedPublish packet \<Rightarrow> ([], snd (accept_routed_publish pf now packet s))
      | AllInflightRetryImmediate \<Rightarrow> ([], all_inflight_retry_immediate pf now s))"

section \<open>Start\<close>

text \<open>
  An actor that starts takes the messages kept for its client out of the replicated queue, one at a time
  until there is none or a call fails. The payload comes with the answer or from the local store.
\<close>

definition recovered_packet ::
  "('w, 'ps, 'y) actor_platform_scheme \<Rightarrow> u64 \<Rightarrow> protocol_version \<Rightarrow> bool \<Rightarrow> 'ps \<Rightarrow> string \<Rightarrow> bytes option \<Rightarrow> packet option" where
  "recovered_packet pf now version has_store ps key data =
     (case (case data of
              Some d \<Rightarrow> Some d
            | None \<Rightarrow> if has_store then (case ps_get (payload_ops pf) key ps of Ok r \<Rightarrow> r | Err _ \<Rightarrow> None) else None) of
        None \<Rightarrow> None
      | Some d \<Rightarrow> revived_packet pf now version d)"

fun recover_offline ::
  "('w, 'ps, 'y) actor_platform_scheme \<Rightarrow> u64 \<Rightarrow> nat \<Rightarrow> ('w, 'ps, 'z) session_actor_scheme \<Rightarrow>
   (packet list \<times> ('w, 'ps, 'z) session_actor_scheme) option" where
  "recover_offline pf now 0 s = None"
| "recover_offline pf now (Suc n) s =
     (case pop_offline_message pf (sa_tenant_id s) (sa_client_id s) s of
        (Ok (Some key, data), s) \<Rightarrow>
          (case recover_offline pf now n s of
             None \<Rightarrow> None
           | Some (packets, s') \<Rightarrow>
               Some ((case recovered_packet pf now (sa_protocol_version s) (sa_has_store s) (env_payloads s) key data of
                        Some packet \<Rightarrow> [packet] | None \<Rightarrow> []) @ packets, s'))
      | (_, s) \<Rightarrow> Some ([], s))"

text \<open>
  \<open>started\<close>; whether the manager takes the report of the start is an argument. The messages the actor
  then finds in its mailbox are returned.
\<close>

definition started ::
  "('w, 'ps, 'y) handler_platform_scheme \<Rightarrow> u64 \<Rightarrow> (unit, string) result \<Rightarrow> nat \<Rightarrow> ('w, 'ps, 'z) session_actor_scheme \<Rightarrow>
   (session_message list \<times> ('w, 'ps, 'z) session_actor_scheme) option" where
  "started pf now reported n s =
     (let s = start_timers s in
      case reported of
        Err _ \<Rightarrow> Some ([ForceStop], s)
      | Ok _ \<Rightarrow>
          let s = add_effect (ToManager SessionStarted) s in
          if sa_clean_session s then Some ([AllInflightRetryImmediate], s)
          else
            let subscriptions = session_subscriptions (sess_state s);
                s = run_op (update_session_connection_state pf (sa_tenant_id s) (sa_client_id s) None None) s;
                s = fold (renew_subscription pf) subscriptions s in
            (case recover_offline pf now n s of
               None \<Rightarrow> None
             | Some (packets, s) \<Rightarrow> Some (AllInflightRetryImmediate # map OutboundMessage packets, s)))"

definition stopped :: "('w, 'ps, 'z) session_actor_scheme \<Rightarrow> ('w, 'ps, 'z) session_actor_scheme" where
  "stopped s = add_effect RemoveTimers s"

end
