(* ===== verification/Session_Actor_Correct.thy ===== *)
theory Session_Actor_Correct
  imports Session_Actor
begin

text \<open>
  What holds of the handlers of a session: which parts of its state each of them leaves alone, that the
  receive maximum of the client is kept over any run, that a will is sent at most once, what an
  acknowledgement does to the exchange it ends, how SUBSCRIBE is answered, and that an actor that
  starts recovers the messages kept for its client.
\<close>

section \<open>What the handlers leave alone\<close>

text \<open>Operations on a session's environment keep the fields of the actor.\<close>

definition keeps :: "('a, 'e, ('w, 'ps, 'z) session_env_scheme) op \<Rightarrow> bool" where
  "keeps m \<longleftrightarrow> (\<forall>env r env'. m env = (r, env') \<longrightarrow> session_env.more env' = session_env.more env)"

lemma keepsD: "keeps m \<Longrightarrow> m env = (r, env') \<Longrightarrow> session_env.more env' = session_env.more env"
  by (simp add: keeps_def)

named_theorems keep_intro \<open>operations that keep the fields of the actor\<close>

lemma keeps_basic [keep_intro]:
  "keeps (pure_op a)" "keeps (fail_op e)" "keeps (lift_op r)" "keeps (read_op h)" "keeps get_op"
  by (auto simp: keeps_def op_defs)

lemma keeps_bind [keep_intro]: "keeps m \<Longrightarrow> (\<And>a. keeps (f a)) \<Longrightarrow> keeps (bind_op m f)"
  unfolding keeps_def bind_op_def by (fastforce split: prod.splits result.splits)

lemma keeps_map_err [keep_intro]: "keeps m \<Longrightarrow> keeps (map_err_op g m)"
  by (auto simp: keeps_def map_err_op_def split: prod.splits)

lemma keeps_try [keep_intro]: "keeps m \<Longrightarrow> keeps (try_op m)"
  by (auto simp: keeps_def try_op_def split: prod.splits)

lemma keeps_frames: "frames m \<Longrightarrow> keeps m"
  unfolding keeps_def using frames_session(5) by blast

lemma keeps_service [keep_intro]:
  "keeps (register_inflight_tx_packet pf tenant client pid q key d)"
  "keeps (start_inflight_delivery pf tenant client pid key)"
  "keeps (discard_unsent_inflight pf tenant client pid key)"
  "keeps (store_offline_message pf tenant client key)"
  "keeps (register_inflight_rx_packet pf tenant client pid q key)"
  "keeps (on_world m)"
  by (intro keeps_frames frame_intro)+

lemma keeps_on_store [keep_intro]: "keeps (on_store m)"
  by (auto simp: keeps_def on_store_def split: prod.splits)

lemma keeps_steps [keep_intro]:
  "keeps (write_packet pf packet)" "keeps (draw_uuid pf)" "keeps (on_inflight f)" "keeps allocate_id"
  "keeps (register_local now pid q key)" "keeps (modify_op (push_pending key))"
  by (auto simp: keeps_def write_packet_def draw_uuid_def on_inflight_def allocate_id_def register_local_def
      modify_op_def push_pending_def set_inflight_def Let_def split: prod.splits option.splits result.splits)

lemma keeps_store_packet [keep_intro]: "keeps (store_packet pf key packet)"
  unfolding store_packet_def by (intro keep_intro)

lemma keeps_write_checked [keep_intro]: "keeps (write_checked pf packet)"
  unfolding write_checked_def by (auto intro!: keep_intro split: conn_answer.split)

lemma keeps_mirror [keep_intro]: "keeps (mirror_local now key pid q)"
  unfolding keeps_def mirror_local_def
  by (auto split: if_splits intro!: keepsD [OF keeps_map_err [OF keeps_steps(5)]])

lemma keeps_deliver [keep_intro]: "keeps (deliver_outbound_publish pf now p c)"
  unfolding deliver_outbound_publish_def deliver_active_def deliver_inactive_def transmit_def register_publish_def
    register_clean_def register_persistent_def register_remote_def identify_def
  by (auto intro!: keep_intro split: prod.split option.split result.split inflight_error.split session_raft_error.split)

lemma keeps_discard [keep_intro]: "keeps (context_discard_unsent pf c pid key)"
  unfolding context_discard_unsent_def by (auto intro!: keep_intro split: option.split)

lemma keeps_prepare_registered:
  "prepare_registered_publish pf now c p env = (p', r, env') \<Longrightarrow> session_env.more env' = session_env.more env"
  unfolding prepare_registered_publish_def
  by (auto split: option.splits prod.splits if_splits dest!: keepsD [rotated] intro!: keep_intro)

lemma keeps_cleanup_loop:
  "cleanup_unsent_loop pf now c items removed env = (ids, env') \<Longrightarrow> session_env.more env' = session_env.more env"
proof (induction pf now c items removed env rule: cleanup_unsent_loop.induct)
  case (2 pf now c item items removed env)
  show ?case
  proof (cases "\<exists>key. packet_key item = Some key \<and> stored_expired pf now key (env_payloads env)")
    case True
    then obtain key where key: "packet_key item = Some key" "stored_expired pf now key (env_payloads env)" by blast
    obtain r env1 where d: "context_discard_unsent pf c (item_packet_identifier item) key env = (r, env1)" by fastforce
    have "session_env.more env1 = session_env.more env"
      by (rule keepsD [OF keeps_discard d])
    with "2" key d show ?thesis
      by (cases r) auto
  next
    case False
    with "2" show ?thesis by (auto split: option.splits)
  qed
qed simp

lemma keeps_cleanup:
  "cleanup_expired_unsent pf now c env = (ids, env') \<Longrightarrow> session_env.more env' = session_env.more env"
  by (auto simp: cleanup_expired_unsent_def split: if_splits dest: keeps_cleanup_loop)

lemma actor_fields:
  assumes "session_env.more s' = session_env.more s"
  shows "sa_tenant_id s' = sa_tenant_id s" and "sa_client_id s' = sa_client_id s"
    and "sa_clean_session s' = sa_clean_session s" and "sa_protocol_version s' = sa_protocol_version s"
    and "sa_session_expiry_interval s' = sa_session_expiry_interval s"
    and "sa_receive_maximum s' = sa_receive_maximum s" and "sa_slots_in_use s' = sa_slots_in_use s"
    and "sa_deferred s' = sa_deferred s" and "sa_username s' = sa_username s"
    and "sa_will_message s' = sa_will_message s" and "sa_activity_state s' = sa_activity_state s"
    and "sa_connected s' = sa_connected s" and "sa_keep_alive s' = sa_keep_alive s"
    and "sa_has_store s' = sa_has_store s" and "sa_effects s' = sa_effects s"
  using assms by (cases s; cases s'; simp)+

text \<open>
  Two states of the actor that differ at most in the quota, what waits for it, the flag of the keep
  alive, and effects other than a will sent to the routers.
\<close>

fun is_will :: "session_effect \<Rightarrow> bool" where
  "is_will (RouteWill tenant p) \<longleftrightarrow> True"
| "is_will _ \<longleftrightarrow> False"

definition wills_routed :: "('w, 'ps, 'z) session_actor_scheme \<Rightarrow> nat" where
  "wills_routed s = length (filter is_will (sa_effects s))"

definition same_core :: "('w, 'ps, 'z) session_actor_scheme \<Rightarrow> ('w, 'ps, 'z) session_actor_scheme \<Rightarrow> bool" where
  "same_core s s' \<longleftrightarrow>
     (\<exists>n ds k es. filter is_will es = [] \<and>
        session_env.more s' = session_env.more (s\<lparr>sa_slots_in_use := n, sa_deferred := ds, sa_keep_alive_expired := k,
          sa_effects := sa_effects s @ es\<rparr>))"

lemma same_coreI:
  "filter is_will es = [] \<Longrightarrow>
     session_env.more s' = session_env.more (s\<lparr>sa_slots_in_use := n, sa_deferred := ds, sa_keep_alive_expired := k,
       sa_effects := sa_effects s @ es\<rparr>) \<Longrightarrow>
     same_core s s'"
  unfolding same_core_def by blast

lemma same_core_kept: "session_env.more s' = session_env.more s \<Longrightarrow> same_core s s'"
  by (rule same_coreI [where es = "[]" and n = "sa_slots_in_use s" and ds = "sa_deferred s" and k = "sa_keep_alive_expired s"]) simp_all

lemma same_core_update [simp]:
  "same_core s (s\<lparr>sa_slots_in_use := n\<rparr>)" "same_core s (s\<lparr>sa_deferred := ds\<rparr>)"
  "same_core s (s\<lparr>sa_keep_alive_expired := b\<rparr>)" "\<not> is_will e \<Longrightarrow> same_core s (add_effect e s)"
proof -
  show "same_core s (s\<lparr>sa_keep_alive_expired := b\<rparr>)"
    by (rule same_coreI [where es = "[]" and n = "sa_slots_in_use s" and ds = "sa_deferred s" and k = b]) simp_all
  show "same_core s (s\<lparr>sa_slots_in_use := n\<rparr>)"
    by (rule same_coreI [where es = "[]" and n = n and ds = "sa_deferred s" and k = "sa_keep_alive_expired s"]) simp_all
  show "same_core s (s\<lparr>sa_deferred := ds\<rparr>)"
    by (rule same_coreI [where es = "[]" and n = "sa_slots_in_use s" and ds = ds and k = "sa_keep_alive_expired s"]) simp_all
  show "same_core s (add_effect e s)" if "\<not> is_will e"
    by (rule same_coreI [where es = "[e]" and n = "sa_slots_in_use s" and ds = "sa_deferred s" and k = "sa_keep_alive_expired s"]) (use that in \<open>simp_all add: add_effect_def\<close>)
qed

lemma same_core_trans:
  assumes "same_core a b" and "same_core b c"
  shows "same_core a c"
proof -
  obtain n ds k es n' ds' k' es' where "filter is_will es = []" "filter is_will es' = []"
    and "session_env.more b = session_env.more (a\<lparr>sa_slots_in_use := n, sa_deferred := ds, sa_keep_alive_expired := k,
      sa_effects := sa_effects a @ es\<rparr>)"
    and "session_env.more c = session_env.more (b\<lparr>sa_slots_in_use := n', sa_deferred := ds', sa_keep_alive_expired := k',
      sa_effects := sa_effects b @ es'\<rparr>)"
    using assms by (auto simp: same_core_def)
  then show ?thesis
    by (intro same_coreI [where es = "es @ es'" and n = n' and ds = ds' and k = k']) (cases a; cases b; cases c; simp)+
qed

lemma same_core_refl [simp]: "same_core s s"
  by (rule same_core_kept) simp

lemma same_coreD:
  assumes "same_core s s'"
  shows "sa_tenant_id s' = sa_tenant_id s" and "sa_client_id s' = sa_client_id s"
    and "sa_clean_session s' = sa_clean_session s" and "sa_protocol_version s' = sa_protocol_version s"
    and "sa_receive_maximum s' = sa_receive_maximum s"
    and "sa_will_message s' = sa_will_message s" and "sa_activity_state s' = sa_activity_state s"
    and "sa_connected s' = sa_connected s" and "sa_has_store s' = sa_has_store s"
    and "wills_routed s' = wills_routed s"
  using assms unfolding same_core_def wills_routed_def by (cases s; cases s'; auto)+

section \<open>The quota is kept\<close>

definition within_quota :: "('w, 'ps, 'z) session_actor_scheme \<Rightarrow> bool" where
  "within_quota s \<longleftrightarrow> sa_slots_in_use s \<le> receive_maximum_limit s"

text \<open>A step that changes the actor only in its quota, and does not go beyond the limit.\<close>

definition quota_step :: "('w, 'ps, 'z) session_actor_scheme \<Rightarrow> ('w, 'ps, 'z) session_actor_scheme \<Rightarrow> bool" where
  "quota_step s s' \<longleftrightarrow> same_core s s' \<and> (within_quota s \<longrightarrow> within_quota s')"

lemma limit_core: "same_core s s' \<Longrightarrow> receive_maximum_limit s' = receive_maximum_limit s"
  unfolding receive_maximum_limit_def by (simp only: same_coreD(5))

lemma quota_step_trans: "quota_step a b \<Longrightarrow> quota_step b c \<Longrightarrow> quota_step a c"
  by (auto simp: quota_step_def intro: same_core_trans)

lemma quota_step_refl [simp]: "quota_step s s"
  by (simp add: quota_step_def)

lemma quota_step_kept:
  assumes "session_env.more s' = session_env.more s"
  shows "quota_step s s'"
  using same_core_kept [OF assms] actor_fields(7) [OF assms] limit_core [OF same_core_kept [OF assms]]
  by (simp add: quota_step_def within_quota_def)

lemma quota_step_fewer: "same_core s s' \<Longrightarrow> sa_slots_in_use s' \<le> sa_slots_in_use s \<Longrightarrow> quota_step s s'"
  by (auto simp: quota_step_def within_quota_def limit_core)

lemma send_registered_kept:
  "send_registered pf now p s = (p', r, s') \<Longrightarrow> session_env.more s' = session_env.more s"
proof -
  assume *: "send_registered pf now p s = (p', r, s')"
  obtain p1 r1 s1 where p: "prepare_registered_publish pf now (outbound_delivery_context s) p s = (p1, r1, s1)"
    by (metis prod_cases3)
  have k: "session_env.more s1 = session_env.more s"
    by (rule keeps_prepare_registered [OF p])
  have "keeps (bind_op (write_checked pf (Publish p1)) (\<lambda>_. pure_op True))"
    by (intro keep_intro)
  with * p k show ?thesis
    by (auto simp: send_registered_def split: result.splits bool.splits if_splits dest: keepsD)
qed

lemma reserve_quota:
  "can_reserve_receive_slot s \<Longrightarrow> quota_step s (reserve_receive_slot s)"
  by (simp add: quota_step_def within_quota_def reserve_receive_slot_def can_reserve_receive_slot_def
      receive_maximum_limit_def)

lemma release_quota: "quota_step s (release_slot s)"
  by (rule quota_step_fewer) (simp_all add: release_slot_def)

lemma deferred_quota: "quota_step s (s\<lparr>sa_deferred := ds\<rparr>)"
  by (rule quota_step_fewer) simp_all

lemma maybe_release_quota: "quota_step s ((if reserved then release_slot else id) s)"
  by (simp add: release_quota)

lemma attempt_cases:
  assumes "attempt_deferred pf now reserved d s = (putback, s')"
  shows "\<exists>s2. session_env.more s2 = session_env.more s \<and> (s' = s2 \<or> s' = (if reserved then release_slot else id) s2)"
proof (cases "deferred_registered d")
  case True
  obtain p r s2 where r: "send_registered pf now (deferred_publish d) s = (p, r, s2)"
    by (metis prod_cases3)
  have "s' = s2 \<or> s' = (if reserved then release_slot else id) s2"
    using assms True r by (cases r) (auto simp: attempt_deferred_def Let_def split: bool.splits)
  then show ?thesis
    using send_registered_kept [OF r] by blast
next
  case False
  obtain r s2 where r: "deliver_outbound_publish pf now (deferred_publish d) (outbound_delivery_context s) s = (r, s2)"
    by fastforce
  have "s' = s2 \<or> s' = (if reserved then release_slot else id) s2"
    using assms False r by (auto simp: attempt_deferred_def Let_def)
  then show ?thesis
    using keepsD [OF keeps_deliver r] by blast
qed

lemma attempt_quota:
  assumes "attempt_deferred pf now reserved d s = (putback, s')"
  shows "quota_step s s'"
proof -
  obtain s2 where k: "session_env.more s2 = session_env.more s"
    and "s' = s2 \<or> s' = (if reserved then release_slot else id) s2"
    using attempt_cases [OF assms] by blast
  then consider "s' = s2" | "s' = (if reserved then release_slot else id) s2" by blast
  then show ?thesis
    using quota_step_kept [OF k] quota_step_trans [OF quota_step_kept [OF k] maybe_release_quota] by cases simp_all
qed

lemma effect_quota: "\<not> is_will e \<Longrightarrow> quota_step s (add_effect e s)"
  by (rule quota_step_fewer, simp) (simp add: add_effect_def)

lemma drain_queue_quota: "quota_step s (drain_queue pf now ds s)"
proof (induction ds arbitrary: s)
  case (Cons d ds)
  let ?uses = "outbound_publish_uses_receive_slot s (deferred_publish d)"
  let ?s1 = "if ?uses then reserve_receive_slot s else s"
  obtain putback s2 where a: "attempt_deferred pf now ?uses d ?s1 = (putback, s2)" by fastforce
  show ?case
  proof (cases "?uses \<and> \<not> can_reserve_receive_slot s")
    case True
    then show ?thesis by (simp add: Let_def deferred_quota)
  next
    case False
    then have "quota_step s ?s1"
      by (auto simp: reserve_quota)
    from quota_step_trans [OF this attempt_quota [OF a]] have "quota_step s s2" .
    with False a quota_step_trans [OF this Cons.IH] quota_step_trans [OF this deferred_quota] show ?thesis
      by (cases putback) (auto simp: Let_def)
  qed
qed (simp add: deferred_quota)

lemma drain_quota: "quota_step s (drain_deferred_outbound_publishes pf now s)"
  by (simp add: drain_deferred_outbound_publishes_def drain_queue_quota)

lemma release_drain_quota: "quota_step s (release_receive_maximum_slot_and_drain pf now s)"
  unfolding release_receive_maximum_slot_and_drain_def by (rule quota_step_trans [OF release_quota drain_quota])

lemma finish_quota: "quota_step s (snd (finish_delivery pf now reserved (r, s)))"
  by (auto simp: finish_delivery_def Let_def release_drain_quota deferred_quota
      split: result.split outbound_delivery_status.split)

lemma start_quota: "quota_step s (snd (start_outbound_publish_delivery pf now p s))"
proof -
  let ?uses = "outbound_publish_uses_receive_slot s p"
  let ?defer = "?uses \<and> \<not> can_reserve_receive_slot s"
  let ?s1 = "if ?uses \<and> \<not> ?defer then reserve_receive_slot s else s"
  obtain r s2 where r: "deliver_outbound_publish pf now p
      ((outbound_delivery_context ?s1)\<lparr>ctx_defer_delivery := ?defer\<rparr>) ?s1 = (r, s2)"
    by fastforce
  have "quota_step s ?s1"
    by (auto simp: reserve_quota)
  from quota_step_trans [OF this quota_step_kept [OF keepsD [OF keeps_deliver r]]] have "quota_step s s2" .
  from quota_step_trans [OF this finish_quota [of s2 pf now "?uses \<and> \<not> ?defer" r]]
  have "quota_step s (snd (finish_delivery pf now (?uses \<and> \<not> ?defer) (r, s2)))" .
  with r show ?thesis
    by (simp only: start_outbound_publish_delivery_def Let_def snd_conv deferred_quota split: if_split) blast
qed

lemma run_op_kept: "keeps m \<Longrightarrow> session_env.more (run_op m s) = session_env.more s"
  unfolding run_op_def by (metis keepsD prod.collapse)

lemma fold_kept:
  assumes "\<And>x s. session_env.more (f x s) = session_env.more s"
  shows "session_env.more (fold f xs s) = session_env.more s"
  by (induction xs arbitrary: s) (simp_all add: assms)

lemma write_if_connected_kept [simp]: "session_env.more (write_if_connected pf packet s) = session_env.more s"
  by (simp add: write_if_connected_def write_packet_def Let_def)

lemma more_updates [simp]:
  "session_env.more (set_inflight i s) = session_env.more s"
  "session_env.more (advance_local now pid s) = session_env.more s"
  "session_env.more (clean_local s) = session_env.more s"
  "session_env.more (insert_subscription topic st s) = session_env.more s"
  by (simp_all add: set_inflight_def advance_local_def clean_local_def insert_subscription_def)

lemma cleanup_local_kept [simp]: "session_env.more (cleanup_local_finished_items pf s) = session_env.more s"
  by (simp add: cleanup_local_finished_items_def Let_def fold_kept run_op_kept keeps_on_store split: prod.split)

lemma remote_kept:
  "advance_remote pf pid s = (r, s') \<Longrightarrow> session_env.more s' = session_env.more s"
  "clean_remote pf s = (r', s') \<Longrightarrow> session_env.more s' = session_env.more s"
  unfolding advance_remote_def clean_remote_def
  by (erule keepsD [OF keeps_frames, rotated], intro frame_intro)+

lemma clean_remote_run_kept [simp]: "session_env.more (run_op (clean_remote pf) s) = session_env.more s"
  unfolding run_op_def by (metis remote_kept(2) prod.collapse)

lemma handle_pubrel_kept: "session_env.more (handle_pubrel pf now a s) = session_env.more s"
proof -
  let ?w = "write_packet pf (Pubcomp (success_ack (ack_packet_identifier a))) s"
  obtain r s1 where w: "(?w :: (conn_answer, session_actor_error) result \<times> _) = (r, s1)" by fastforce
  have s1: "session_env.more s1 = session_env.more s"
    by (rule keepsD [OF keeps_steps(1) w])
  obtain r2 s2 where a: "advance_remote pf (ack_packet_identifier a) s1 = (r2, s2)" by fastforce
  have s2: "session_env.more s2 = session_env.more s"
    using remote_kept(1) [OF a] s1 by simp
  show ?thesis
    using w s1 a s2 by (auto simp: handle_pubrel_def Let_def split: result.splits conn_answer.splits)
qed

lemma handle_pubrec_step_kept:
  assumes "handle_pubrec_step pf now pid s = (b, s')"
  shows "session_env.more s' = session_env.more s"
proof -
  let ?w = "write_packet pf (Pubrel (success_ack pid)) s"
  obtain r s1 where w: "(?w :: (conn_answer, session_actor_error) result \<times> _) = (r, s1)" by fastforce
  have s1: "session_env.more s1 = session_env.more s"
    by (rule keepsD [OF keeps_steps(1) w])
  obtain r2 s2 where a: "advance_remote pf pid s1 = (r2, s2)" by fastforce
  have s2: "session_env.more s2 = session_env.more s"
    using remote_kept(1) [OF a] s1 by simp
  show ?thesis
    using assms w s1 a s2 by (auto simp: handle_pubrec_step_def Let_def split: result.splits conn_answer.splits if_splits)
qed

lemma finish_exchange_kept:
  assumes "finish_exchange pf now pid s = (b, s')"
  shows "session_env.more s' = session_env.more s"
proof -
  obtain r1 s1 where a: "advance_remote pf pid s = (r1, s1)" by fastforce
  obtain r2 s2 where c: "clean_remote pf (advance_local now pid s1) = (r2, s2)" by fastforce
  show ?thesis
    using assms a c remote_kept(1) [OF a] remote_kept(2) [OF c]
    by (auto simp: finish_exchange_def split: if_splits result.splits)
qed

lemma ack_quota:
  "quota_step s (handle_pubrel pf now a s)" "quota_step s (handle_pubrec pf now a s)"
  "quota_step s (handle_puback pf now a s)" "quota_step s (handle_pubcomp pf now a s)"
proof -
  show "quota_step s (handle_pubrel pf now a s)"
    by (rule quota_step_kept [OF handle_pubrel_kept])
  obtain b s1 where 1: "handle_pubrec_step pf now (ack_packet_identifier a) s = (b, s1)" by fastforce
  note k1 = quota_step_kept [OF handle_pubrec_step_kept [OF 1]]
  show "quota_step s (handle_pubrec pf now a s)"
    using 1 k1 quota_step_trans [OF k1 release_drain_quota [of s1 pf now]] by (simp add: handle_pubrec_def)
  obtain b s2 where 2: "finish_exchange pf now (ack_packet_identifier a) s = (b, s2)" by fastforce
  note k2 = quota_step_kept [OF finish_exchange_kept [OF 2]]
  show "quota_step s (handle_puback pf now a s)"
    using 2 k2 quota_step_trans [OF k2 release_drain_quota [of s2 pf now]] by (simp add: handle_puback_def Let_def)
  show "quota_step s (handle_pubcomp pf now a s)"
    using 2 k2 by (simp add: handle_pubcomp_def)
qed

lemma keeps_store_inbound [keep_intro]: "keeps (store_inbound pf now clean tenant client pid p)"
  unfolding store_inbound_def by (auto intro!: keep_intro)

lemma keeps_register_inbound:
  assumes "register_inbound pf now p s = (r, s')"
  shows "session_env.more s' = session_env.more s"
  using assms by (auto simp: register_inbound_def split: option.splits if_splits dest: keepsD [OF keeps_store_inbound])

lemma route_publish_kept:
  assumes "route_publish pf p answer s = (r, s')"
  shows "session_env.more s' = session_env.more s"
proof -
  have "session_env.more (update_retained pf p s) = session_env.more s"
    by (simp add: update_retained_def run_op_kept keeps_service(6))
  moreover have "keeps (bind_op (map_err_op RouteError (on_world m)) (\<lambda>_. pure_op answer))" for m
    by (intro keep_intro)
  from keepsD [OF this] assms have "session_env.more s' = session_env.more (update_retained pf p s)"
    unfolding route_publish_def by blast
  ultimately show ?thesis by simp
qed

lemma accept_publish_kept:
  assumes "accept_publish pf now p s = (r, s')"
  shows "session_env.more s' = session_env.more s"
proof -
  obtain r1 s1 where h: "on_world (call_on_message_publish pf
      (mqtt_message_from_publish p (sa_tenant_id s) (sa_client_id s))) s = (r1, s1)" by fastforce
  have s1: "session_env.more s1 = session_env.more s"
    by (rule keepsD [OF keeps_service(6) h])
  have reg: "session_env.more t' = session_env.more t"
    if "bind_op (register_inbound pf now q) (\<lambda>answer. case answer of None \<Rightarrow> pure_op None | Some _ \<Rightarrow> route_publish pf q answer) t = (x, t')"
    for q x t t'
  proof -
    obtain ri ti where i: "register_inbound pf now q t = (ri, ti)" by fastforce
    note ki = keeps_register_inbound [OF i]
    show ?thesis
    proof (cases ri)
      case (Ok answer)
      then show ?thesis
        using that i ki by (cases answer) (auto simp: bind_op_def pure_op_def dest: route_publish_kept)
    next
      case (Err e)
      then show ?thesis using that i ki by (simp add: bind_op_def)
    qed
  qed
  show ?thesis
    using assms h s1
    by (auto simp: accept_publish_def Let_def split: result.splits bool.splits if_splits prod.splits
        dest!: reg route_publish_kept)
qed

lemma do_handle_publish_kept:
  assumes "do_handle_publish pf now p s = (r, s')"
  shows "session_env.more s' = session_env.more s"
proof -
  obtain ra sa where a: "authorize_publish pf p s = (ra, sa)" by fastforce
  have "session_env.more sa = session_env.more s"
    using a unfolding authorize_publish_def by (rule keepsD [OF keeps_service(6)])
  with assms a accept_publish_kept [of pf now p sa r s'] show ?thesis
    by (auto simp: do_handle_publish_def run_op_kept keeps_service(6) split: result.splits bool.splits if_splits)
qed

lemma handle_publish_quota: "quota_step s (handle_publish pf now p s)"
proof -
  obtain r s1 where d: "do_handle_publish pf now (stamp_publish_expiry p now) s = (r, s1)" by fastforce
  note k = do_handle_publish_kept [OF d]
  have e: "quota_step s (add_effect SendForceDisconnect s1)"
    by (rule quota_step_trans [OF quota_step_kept [OF k] effect_quota]) simp
  show ?thesis
  proof (cases r)
    case (Ok answer)
    then show ?thesis
      using d k by (auto simp: handle_publish_def Let_def intro!: quota_step_kept split: option.split packet.split)
  next
    case (Err err)
    then show ?thesis
      using d e quota_step_kept [OF k] by (cases err) (simp_all add: handle_publish_def)
  qed
qed

lemma subscribe_granted_kept:
  assumes "subscribe_granted pf existing t q sp s = (sp', s')"
  shows "session_env.more s' = session_env.more s"
proof -
  obtain r s1 where 1: "on_world (topic_subscribe pf (sa_tenant_id s) (sa_client_id s) (topic_filter t) q (no_local t)
      (retain_as_published t)) s = (r, s1)" by fastforce
  obtain r2 s2 where 2: "on_world (topic_retained pf (sa_tenant_id s1) (retained_filter (topic_filter t))) s1 = (r2, s2)"
    by fastforce
  have "session_env.more s1 = session_env.more s" "session_env.more s2 = session_env.more s1"
    by (rule keepsD [OF keeps_service(6) 1], rule keepsD [OF keeps_service(6) 2])
  with assms 1 2 show ?thesis
    by (auto simp: subscribe_granted_def Let_def split: result.splits if_splits)
qed

lemma subscribe_one_kept:
  assumes "subscribe_one pf props existing t (sp, s) = (sp', s')"
  shows "session_env.more s' = session_env.more s"
proof -
  obtain r1 s1 where 1: "authorize_subscribe pf t props s = (r1, s1)" by fastforce
  have k1: "session_env.more s1 = session_env.more s"
    using 1 unfolding authorize_subscribe_def by (rule keepsD [OF keeps_service(6)])
  obtain r2 s2 where 2: "on_world (call_on_message_subscribe pf (sa_client_id s1) t props) s1 = (r2, s2)" by fastforce
  have k2: "session_env.more s2 = session_env.more s1"
    by (rule keepsD [OF keeps_service(6) 2])
  show ?thesis
  proof (cases "subscribe_precheck_reason (topic_filter t) = None \<and> r1 = Ok True")
    case True
    obtain g where p: "subscribe_policy pf t props s1 = (Ok g, s2)"
      using 2 by (cases r2) (auto simp: subscribe_policy_def)
    show ?thesis
    proof (cases g)
      case None
      with True assms 1 p k1 k2 show ?thesis by (simp add: subscribe_one_def)
    next
      case (Some granted)
      with True assms 1 p have "subscribe_granted pf existing t (min (min granted (topic_qos t)) 2) sp s2 = (sp', s')"
        by (simp add: subscribe_one_def)
      from subscribe_granted_kept [OF this] k1 k2 show ?thesis by simp
    qed
  next
    case False
    with assms 1 k1 show ?thesis
      by (auto simp: subscribe_one_def split: option.splits result.splits bool.splits)
  qed
qed

lemma subscribe_fold_kept:
  "fold (subscribe_one pf props existing) ts (sp, s) = (sp', s') \<Longrightarrow> session_env.more s' = session_env.more s"
proof (induction ts arbitrary: sp s)
  case (Cons t ts)
  obtain sp1 s1 where 1: "subscribe_one pf props existing t (sp, s) = (sp1, s1)" by fastforce
  show ?case
    using Cons.IH [of sp1 s1] Cons.prems 1 subscribe_one_kept [OF 1] by simp
qed simp

lemma record_subscription_kept: "session_env.more (record_subscription pf x s) = session_env.more s"
proof (cases x)
  case (Pair topic st)
  obtain r s1 where 1: "service_subscribe_topic_with_options pf (sa_tenant_id s) (sa_client_id s) topic
      (qos_as_u8 (state_qos st)) (state_no_local st) (state_retain_as_published st) s = (r, s1)" by fastforce
  have "session_env.more s1 = session_env.more s"
    by (rule keepsD [OF keeps_frames [OF frames_service(7)] 1])
  with Pair 1 show ?thesis
    by (auto simp: record_subscription_def split: result.split)
qed

lemma handle_subscribe_kept: "session_env.more (handle_subscribe pf now sub s) = session_env.more s"
proof -
  obtain sp s1 where d: "do_handle_subscribe pf sub (map fst (session_subscriptions (sess_state s))) s = (sp, s1)"
    by fastforce
  have "session_env.more s1 = session_env.more s"
    using d by (auto simp: do_handle_subscribe_def split: if_splits dest: subscribe_fold_kept)
  with d show ?thesis
    by (simp add: handle_subscribe_def Let_def fold_kept record_subscription_kept)
qed

lemma unsubscribe_one_kept [simp]: "session_env.more (unsubscribe_one pf topic s) = session_env.more s"
  by (simp add: unsubscribe_one_def Let_def run_op_kept keeps_frames frames_service(8))

lemma handle_unsubscribe_kept: "session_env.more (handle_unsubscribe pf u s) = session_env.more s"
  by (simp add: handle_unsubscribe_def Let_def fold_kept run_op_kept keeps_service(6))

lemma retry_write_kept: "session_env.more (write_inflight_retry_packets pf packets s) = session_env.more s"
  by (induction packets arbitrary: s) (simp_all add: write_packet_def Let_def)

lemma retry_quota: "quota_step s (inflight_retry pf now s)"
proof -
  let ?s0 = "add_effect RegisterInflightTimer s"
  obtain removed s1 where c: "cleanup_expired_unsent pf now (outbound_delivery_context ?s0) ?s0 = (removed, s1)" by fastforce
  obtain keys i where g: "get_all_expired_packet_keys_and_refresh_expired_time now (env_inflight s1) = (keys, i)" by fastforce
  have s1: "quota_step s s1"
    by (rule quota_step_trans [OF effect_quota quota_step_kept [OF keeps_cleanup [OF c]]]) simp
  let ?held = "List.map_filter (publish_packet_identifier \<circ> deferred_publish) (filter deferred_registered (sa_deferred s))"
  let ?packets = "collect_inflight_retry_packets pf now (inflight_entries i (filter (\<lambda>(pid, key). pid \<notin> set ?held) keys))
    (sa_has_store (set_inflight i s1)) (env_payloads (set_inflight i s1))"
  let ?s2 = "if sa_connected (set_inflight i s1) then write_inflight_retry_packets pf ?packets (set_inflight i s1) else set_inflight i s1"
  have "session_env.more ?s2 = session_env.more s1"
    by (simp add: retry_write_kept)
  from quota_step_trans [OF s1 quota_step_kept [OF this]] have "quota_step s ?s2" .
  from quota_step_trans [OF quota_step_trans [OF this deferred_quota] drain_quota]
  show ?thesis
    unfolding inflight_retry_def Let_def c g prod.case .
qed

lemma all_retry_quota: "quota_step s (all_inflight_retry_immediate pf now s)"
proof -
  obtain removed s1 where c: "cleanup_expired_unsent pf now (outbound_delivery_context s) s = (removed, s1)" by fastforce
  obtain keys i where g: "get_all_packet_keys_and_refresh_expired_time now (env_inflight s1) = (keys, i)" by fastforce
  have s1: "quota_step s s1"
    by (rule quota_step_kept [OF keeps_cleanup [OF c]])
  have one: "quota_step t (queue_retry_packet pf packet t)" for packet t
    by (cases packet) (simp_all add: queue_retry_packet_def deferred_quota quota_step_kept)
  have many: "quota_step t (fold (queue_retry_packet pf) packets t)" for packets t
  proof (induction packets arbitrary: t)
    case (Cons packet packets)
    from quota_step_trans [OF one Cons.IH] show ?case by simp
  qed simp
  have "quota_step s1 (set_inflight i s1)"
    by (rule quota_step_kept) simp
  from quota_step_trans [OF quota_step_trans [OF quota_step_trans [OF s1 this] many] drain_quota]
  show ?thesis
    unfolding all_inflight_retry_immediate_def Let_def c g prod.case .
qed

lemma inbound_quota:
  assumes "\<And>d. packet \<noteq> Disconnect d"
  shows "quota_step s (handle_inbound pf now packet s)"
proof -
  let ?s = "add_effect RefreshKeepAliveTimer (s\<lparr>sa_keep_alive_expired := False\<rparr>)"
  have "quota_step s (s\<lparr>sa_keep_alive_expired := False\<rparr>)"
    by (rule quota_step_fewer) simp_all
  then have s: "quota_step s ?s"
    by (rule quota_step_trans [OF _ effect_quota]) simp
  have "quota_step ?s (handle_inbound pf now packet s)"
    by (cases packet) (use assms in \<open>auto simp: handle_inbound_def Let_def ack_quota handle_publish_quota quota_step_kept
        handle_subscribe_kept handle_unsubscribe_kept\<close>)
  with s show ?thesis by (rule quota_step_trans)
qed

section \<open>Runs\<close>

text \<open>A step of the actor's life: the quota and the will stay as they are.\<close>

definition life_step :: "('w, 'ps, 'z) session_actor_scheme \<Rightarrow> ('w, 'ps, 'z) session_actor_scheme \<Rightarrow> bool" where
  "life_step s s' \<longleftrightarrow> sa_slots_in_use s' = sa_slots_in_use s \<and> sa_receive_maximum s' = sa_receive_maximum s \<and>
     wills_routed s' = wills_routed s \<and> sa_will_message s' = sa_will_message s"

lemma life_step_kept:
  assumes "session_env.more s' = session_env.more s"
  shows "life_step s s'"
  using actor_fields [OF assms] by (simp add: life_step_def wills_routed_def)

lemma life_step_trans: "life_step a b \<Longrightarrow> life_step b c \<Longrightarrow> life_step a c"
  by (simp add: life_step_def)

lemma life_step_effect: "\<not> is_will e \<Longrightarrow> life_step s (add_effect e s)"
  by (simp add: life_step_def add_effect_def wills_routed_def)

lemma life_step_refl [simp]: "life_step s s"
  by (simp add: life_step_def)

lemma set_state_life: "life_step s (set_state pf now activity s)"
  for s :: "('w, 'ps, 'z) session_actor_scheme"
proof -
  let ?s1 = "if activity = Inactive then add_effect RemoveTimers s else s"
  let ?s2 = "if sa_clean_session ?s1 then ?s1
     else run_op (update_session_connection_state pf (sa_tenant_id ?s1) (sa_client_id ?s1)
       (if activity = Inactive then Some now else None)
       (if sa_protocol_version s = V5_0 then sa_session_expiry_interval s else None)) ?s1"
  have a: "life_step s ?s1"
    by (simp add: life_step_effect)
  have b: "life_step ?s1 ?s2"
    by (rule life_step_kept) (simp add: run_op_kept keeps_frames frames_service(5))
  have c: "life_step t (add_effect (ToManager SessionDeactivate) (t\<lparr>sa_activity_state := activity\<rparr>))"
    for t :: "('w, 'ps, 'z) session_actor_scheme"
    by (simp add: life_step_def add_effect_def wills_routed_def)
  from life_step_trans [OF life_step_trans [OF a b] c] show ?thesis
    unfolding set_state_def Let_def .
qed

lemma force_stop_life: "life_step s (force_stop s)"
  by (simp add: force_stop_def Let_def life_step_def add_effect_def wills_routed_def)

lemma finish_disconnect_life: "life_step s (finish_connection_disconnect pf now s)"
proof -
  have "life_step s (run_op (service_delete_session_state pf (sa_tenant_id s) (sa_client_id s) None) s)"
    by (rule life_step_kept) (simp add: run_op_kept keeps_frames frames_service(6))
  from life_step_trans [OF this force_stop_life] show ?thesis
    by (simp add: finish_connection_disconnect_def delete_session_state_and_force_stop_def set_state_life force_stop_life)
qed

definition will_budget :: "('w, 'ps, 'z) session_actor_scheme \<Rightarrow> nat" where
  "will_budget s = wills_routed s + (if sa_will_message s = None then 0 else 1)"

text \<open>What every message but a reconnection keeps.\<close>

definition run_step :: "('w, 'ps, 'z) session_actor_scheme \<Rightarrow> ('w, 'ps, 'z) session_actor_scheme \<Rightarrow> bool" where
  "run_step s s' \<longleftrightarrow> (within_quota s \<longrightarrow> within_quota s') \<and> will_budget s' \<le> will_budget s \<and>
     (sa_will_message s = None \<longrightarrow> sa_will_message s' = None)"

lemma run_step_trans: "run_step a b \<Longrightarrow> run_step b c \<Longrightarrow> run_step a c"
  unfolding run_step_def by (meson le_trans)

lemma run_step_quota:
  assumes "quota_step s s'"
  shows "run_step s s'"
proof -
  have c: "same_core s s'" using assms by (simp add: quota_step_def)
  show ?thesis
    using assms same_coreD(6,10) [OF c] by (simp add: quota_step_def run_step_def will_budget_def)
qed

lemma run_step_life: "life_step s s' \<Longrightarrow> run_step s s'"
  by (simp add: life_step_def run_step_def will_budget_def within_quota_def receive_maximum_limit_def)

lemma send_will_run: "run_step s (send_will_message now s)"
  by (auto simp: send_will_message_def run_step_def will_budget_def within_quota_def receive_maximum_limit_def
      add_effect_def wills_routed_def split: option.split)

lemma handle_disconnect_run:
  "run_step s (handle_disconnect pf now d s) \<and> sa_will_message (handle_disconnect pf now d s) = None \<and>
   wills_routed (handle_disconnect pf now d s) = wills_routed s"
proof -
  let ?s = "s\<lparr>sa_will_message := None\<rparr>"
  have 0: "run_step s ?s"
    by (simp add: run_step_def will_budget_def within_quota_def receive_maximum_limit_def wills_routed_def)
  have fin: "run_step s (finish_connection_disconnect pf now t) \<and> sa_will_message (finish_connection_disconnect pf now t) = None \<and>
      wills_routed (finish_connection_disconnect pf now t) = wills_routed s"
    if "life_step ?s t" for t
    using run_step_trans [OF 0 run_step_life [OF life_step_trans [OF that finish_disconnect_life]]]
      finish_disconnect_life [of t pf now] that
    by (simp add: life_step_def wills_routed_def)
  have w: "life_step ?s (write_if_connected pf packet ?s)" for packet
    by (rule life_step_kept) simp
  let ?t = "\<lambda>interval. ?s\<lparr>sa_session_expiry_interval := interval\<rparr>"
  have e: "life_step ?s (add_effect ClientDisconnectedHook
      (if sa_connected (?t interval) then add_effect (ToConnection NormalReason) (?t interval) else ?t interval))" for interval
    by (simp add: life_step_def add_effect_def wills_routed_def)
  show ?thesis
    unfolding handle_disconnect_def Let_def
    by (cases "if disconnect_protocol_version d = V5_0
             then updated_session_expiry_interval (sa_session_expiry_interval ?s)
               (case disconnect_session_expiry_interval d of
                  Some i \<Rightarrow> Some i | None \<Rightarrow> session_expiry_interval (disconnect_properties d))
             else Ok (sa_session_expiry_interval ?s)")
      (simp_all only: result.case fin [OF w] fin [OF e])
qed

fun is_reconnect :: "session_message \<Rightarrow> bool" where
  "is_reconnect (Reconnect r) \<longleftrightarrow> True"
| "is_reconnect _ \<longleftrightarrow> False"

lemma message_run:
  assumes "\<not> is_reconnect m"
  shows "run_step s (snd (handle_message pf now m s))"
proof (cases m)
  case (InboundPacket packet)
  show ?thesis
  proof (cases "\<exists>d. packet = Disconnect d")
    case True
    then obtain d where d: "packet = Disconnect d" by blast
    let ?s = "add_effect RefreshKeepAliveTimer (s\<lparr>sa_keep_alive_expired := False\<rparr>)"
    have "run_step s ?s"
      by (simp add: run_step_def will_budget_def within_quota_def receive_maximum_limit_def wills_routed_def add_effect_def)
    from run_step_trans [OF this conjunct1 [OF handle_disconnect_run]] show ?thesis
      by (simp add: InboundPacket d handle_message_def handle_inbound_def Let_def)
  next
    case False
    then show ?thesis
      using run_step_quota [OF inbound_quota [of packet s pf now]] by (simp add: InboundPacket handle_message_def)
  qed
next
  case (OutboundMessage packet)
  then show ?thesis
    by (cases packet) (simp_all add: handle_message_def outbound_message_def run_step_quota start_quota)
next
  case KeepAliveExpired
  have "run_step (send_will_message now s)
      (finish_connection_disconnect pf now (add_effect (ToConnection KeepAliveReason) (send_will_message now s)))"
    by (rule run_step_life, rule life_step_trans [OF life_step_effect finish_disconnect_life]) simp
  from run_step_trans [OF send_will_run this] send_will_run [of s now] show ?thesis
    by (simp add: KeepAliveExpired handle_message_def Let_def)
next
  case (ForceDisconnect stopped)
  have l: "life_step s (add_effect (ToConnection NormalReason) s)"
    by (simp add: life_step_effect)
  have "life_step s (set_state pf now Inactive (add_effect (ToConnection NormalReason) s))"
    "life_step s (force_stop (add_effect (ToConnection NormalReason) s))"
    by (rule life_step_trans [OF l set_state_life], rule life_step_trans [OF l force_stop_life])
  with l show ?thesis
    by (cases stopped) (auto simp: ForceDisconnect handle_message_def force_disconnect_def Let_def intro!: run_step_life)
next
  case (AcceptRoutedPublish packet)
  then show ?thesis
    by (cases packet) (simp_all add: handle_message_def accept_routed_publish_def run_step_quota start_quota)
next
  case UnexpectClientDisconnected
  from run_step_trans [OF send_will_run run_step_life [OF finish_disconnect_life]] show ?thesis
    by (simp add: UnexpectClientDisconnected handle_message_def)
next
  case (Reconnect r)
  with assms show ?thesis by simp
qed (simp_all add: handle_message_def run_step_quota retry_quota all_retry_quota run_step_life finish_disconnect_life force_stop_life)

text \<open>The messages of a session in the order in which they are handled, each with the time.\<close>

definition run_messages ::
  "('w, 'ps, 'y) handler_platform_scheme \<Rightarrow> (u64 \<times> session_message) list \<Rightarrow>
   ('w, 'ps, 'z) session_actor_scheme \<Rightarrow> ('w, 'ps, 'z) session_actor_scheme" where
  "run_messages pf = fold (\<lambda>(now, m) s. snd (handle_message pf now m s))"

lemma messages_run: "list_all (\<lambda>(now, m). \<not> is_reconnect m) ms \<Longrightarrow> run_step s (run_messages pf ms s)"
proof (induction ms arbitrary: s)
  case (Cons x ms)
  obtain now m where x: "x = (now, m)" by fastforce
  with Cons.prems have "run_step s (snd (handle_message pf now m s))"
    by (simp add: message_run)
  from run_step_trans [OF this Cons.IH] Cons.prems x show ?case
    by (simp add: run_messages_def)
qed (simp add: run_messages_def run_step_def)

text \<open>
  C6: Over any messages of one connection the number of packets counted as sent and unacknowledged never
  goes beyond the receive maximum the client announced (at least one).
\<close>

theorem receive_maximum_respected:
  assumes "sa_slots_in_use s \<le> unat (max (sa_receive_maximum s) 1)" and "list_all (\<lambda>(now, m). \<not> is_reconnect m) ms"
  shows "sa_slots_in_use (run_messages pf ms s) \<le> receive_maximum_limit (run_messages pf ms s)"
  using assms messages_run [OF assms(2), of s pf]
  by (simp add: run_step_def within_quota_def receive_maximum_limit_def [of s])

text \<open>
  C13: The will of a connection is sent to the routers at most once, whatever messages arrive and however
  often the connection is reported lost; once the client has said DISCONNECT it is never sent.
\<close>

theorem will_at_most_once:
  assumes "list_all (\<lambda>(now, m). \<not> is_reconnect m) ms"
  shows "wills_routed (run_messages pf ms s) \<le> wills_routed s + 1 \<and>
    wills_routed (run_messages pf ms (handle_disconnect pf now d s)) \<le> wills_routed s"
proof -
  let ?t = "handle_disconnect pf now d s"
  note s = messages_run [OF assms, of s pf] and t = messages_run [OF assms, of ?t pf]
    and d = handle_disconnect_run [of s pf now d]
  have "wills_routed (run_messages pf ms s) \<le> wills_routed s + 1"
    using s by (auto simp: run_step_def will_budget_def split: if_splits)
  moreover have "wills_routed (run_messages pf ms ?t) \<le> wills_routed ?t"
    using t d by (simp add: run_step_def will_budget_def)
  moreover have "wills_routed ?t = wills_routed s"
    using d by simp
  ultimately show ?thesis by simp
qed

section \<open>Acknowledged exchanges\<close>

lemma set_inflight_state [simp]:
  "sess_state (set_inflight i s) = (sess_state s)\<lparr>session_inflight := i\<rparr>"
  by (simp add: set_inflight_def)


lemma next_state_get:
  "hm_get (inflight_inner (snd (next_state now pid i))) j =
     (if j = pid then map_option (to_next now) (hm_get (inflight_inner i) pid) else hm_get (inflight_inner i) j)"
  by (auto simp: next_state_def Let_def split: option.split)


text \<open>
  C36: On a PUBREC the slot of a QoS 2 message is given back while its exchange still waits for PUBCOMP, so
  the packets a client has not completed may exceed its receive maximum by those in that state.
\<close>

theorem pubrec_frees_quota_early:
  assumes "sa_connected s" and "sa_clean_session s" and "sa_deferred s = []"
    and "get_inflight_current_state (ack_packet_identifier a) (env_inflight s) = Some WaitPubrec"
    and "conn_answer pf (conn_sent s) (Pubrel (success_ack (ack_packet_identifier a))) = Written"
  shows "sa_slots_in_use (handle_pubrec pf now a s) = sa_slots_in_use s - 1 \<and>
    get_inflight_current_state (ack_packet_identifier a) (env_inflight (handle_pubrec pf now a s)) = Some WaitPubcomp"
proof -
  let ?pid = "ack_packet_identifier a"
  let ?t = "advance_local now ?pid (s\<lparr>conn_sent := conn_sent s @ [Pubrel (success_ack ?pid)]\<rparr>)"
  have step: "handle_pubrec_step pf now ?pid s = (True, ?t)"
    using assms(2,4,5) by (simp add: handle_pubrec_step_def write_packet_def Let_def)
  have kept: "session_env.more ?t = session_env.more s" by simp
  obtain item where item: "hm_get (inflight_inner (env_inflight s)) ?pid = Some item" "item_state item = WaitPubrec"
    using assms(4) by (auto simp: get_inflight_current_state_def)
  have "get_inflight_current_state ?pid (env_inflight ?t) = Some WaitPubcomp"
    unfolding get_inflight_current_state_def advance_local_def env_inflight_simps next_state_get
    using item by (simp add: to_next_def)
  moreover have "env_inflight (release_receive_maximum_slot_and_drain pf now ?t) = env_inflight ?t"
    "sa_slots_in_use (release_receive_maximum_slot_and_drain pf now ?t) = sa_slots_in_use s - 1"
    using actor_fields(7,8) [OF kept] assms(3)
    by (simp_all add: release_receive_maximum_slot_and_drain_def drain_deferred_outbound_publishes_def release_slot_def
        env_inflight_def)
  ultimately show ?thesis
    using step assms(1) by (simp add: handle_pubrec_def)
qed

lemma store_inbound_state:
  fixes env :: "('w, 'ps, 'z) session_env_scheme"
  assumes "store_inbound pf now clean tenant client pid p env = (Ok answer, env')"
    and "publish_qos p = 1 \<or> publish_qos p = 2"
  shows "get_inflight_current_state pid (env_inflight env') \<in> {Some Finish, Some WaitPubrel}"
proof -
  from assms(1) obtain key env1 env2 u r where
    i: "on_inflight (register_with_rx_packet now pid (publish_qos p) key) env1 =
      (Ok u :: (_, handle_publish_error) result, env2)"
    and m: "(if clean then pure_op (Ok ())
        else try_op (register_inflight_rx_packet pf tenant client pid (publish_qos p) key)) env2 =
      (Ok r :: (_, handle_publish_error) result, env')"
    unfolding store_inbound_def bind_op_eq_Ok pure_op_def prod.inject by blast
  have "get_inflight_current_state pid (env_inflight env2) \<in> {Some Finish, Some WaitPubrel}"
    using i assms(2)
    by (auto simp: on_inflight_def register_with_rx_packet_def insert_item_def get_inflight_current_state_def)
  moreover have "sess_state env' = sess_state env2"
  proof (cases clean)
    case False
    have fr: "frames (try_op (register_inflight_rx_packet pf tenant client pid (publish_qos p) key))"
      by (intro frame_intro)
    from False m show ?thesis
      using frames_session(1) [OF fr, of env2] by simp
  qed (use m in simp)
  ultimately show ?thesis
    by (simp add: env_inflight_def)
qed

text \<open>
  C37: Both directions share the table of identifiers: once an incoming publish above QoS 0 is registered, an
  outgoing exchange under the same identifier is forgotten, and its PUBACK or PUBREC is ignored, so that
  its slot stays in use.
\<close>

theorem inbound_publish_ends_outbound_exchange:
  assumes "register_inbound pf now p s = (Ok answer, s')" and "publish_packet_identifier p = Some pid"
    and "publish_qos p = 1 \<or> publish_qos p = 2" and "ack_packet_identifier a = pid"
  shows "handle_puback pf later a s' = s' \<and> handle_pubrec pf later a s' = s' \<and> sa_slots_in_use s' = sa_slots_in_use s"
proof -
  have "get_inflight_current_state pid (env_inflight s') \<in> {Some Finish, Some WaitPubrel}"
  proof (rule store_inbound_state [OF _ assms(3)])
    show "store_inbound pf now (sa_clean_session s) (sa_tenant_id s) (sa_client_id s) pid p s = (Ok answer, s')"
      using assms(1,2) by (simp add: register_inbound_def split: if_splits)
  qed
  then show ?thesis
    using assms(4) actor_fields(7) [OF keeps_register_inbound [OF assms(1)]]
    by (auto simp: handle_puback_def handle_pubrec_def handle_pubrec_step_def)
qed

section \<open>Held back by the quota\<close>

text \<open>Operations that write nothing to the connection; their results are as given.\<close>

definition quiet :: "('a \<Rightarrow> bool) \<Rightarrow> ('a, 'e, ('w, 'ps, 'z) session_env_scheme) op \<Rightarrow> bool" where
  "quiet Q m \<longleftrightarrow> (\<forall>env r env'. m env = (r, env') \<longrightarrow> conn_sent env' = conn_sent env \<and> (\<forall>a. r = Ok a \<longrightarrow> Q a))"

abbreviation silent :: "('a, 'e, ('w, 'ps, 'z) session_env_scheme) op \<Rightarrow> bool" where
  "silent \<equiv> quiet (\<lambda>_. True)"

lemma quietD:
  "quiet Q m \<Longrightarrow> m env = (r, env') \<Longrightarrow> conn_sent env' = conn_sent env \<and> (\<forall>a. r = Ok a \<longrightarrow> Q a)"
  by (auto simp: quiet_def)

named_theorems quiet_intro \<open>operations that write nothing\<close>

lemma quiet_pure [quiet_intro]: "Q a \<Longrightarrow> quiet Q (pure_op a)"
  by (simp add: quiet_def op_defs)

lemma quiet_fail [quiet_intro]: "quiet Q (fail_op e)"
  by (simp add: quiet_def op_defs)

lemma quiet_bind [quiet_intro]: "quiet Q m \<Longrightarrow> (\<And>a. Q a \<Longrightarrow> quiet R (f a)) \<Longrightarrow> quiet R (bind_op m f)"
  unfolding quiet_def bind_op_def by (fastforce split: prod.splits result.splits)

lemma silent_map_err [quiet_intro]: "silent m \<Longrightarrow> silent (map_err_op g m)"
  by (fastforce simp: quiet_def map_err_op_def split: prod.splits)

lemma silent_try [quiet_intro]: "silent m \<Longrightarrow> silent (try_op m)"
  by (fastforce simp: quiet_def try_op_def split: prod.splits)

lemma silent_frames: "frames m \<Longrightarrow> silent m"
  unfolding quiet_def using frames_session(2) by blast

lemma silent_steps [quiet_intro]:
  "silent (register_inflight_tx_packet pf tenant client pid q key d)" "silent (lift_op r)" "silent (on_store put)"
  "silent (draw_uuid pf)" "silent (on_inflight f)" "silent allocate_id" "silent (register_local now pid q key)"
  by (intro silent_frames frame_intro)
    (auto simp: quiet_def on_store_def draw_uuid_def on_inflight_def allocate_id_def register_local_def set_inflight_def op_defs
      split: prod.splits option.splits result.splits)

lemma silent_store_packet [quiet_intro]: "silent (store_packet pf key packet)"
  unfolding store_packet_def by (rule quiet_intro)+

lemma silent_mirror [quiet_intro]: "silent (mirror_local now key pid q)"
  using quietD [OF silent_map_err [OF silent_steps(7)]] unfolding quiet_def mirror_local_def by (auto split: if_splits)

definition same_content :: "publish \<Rightarrow> publish \<Rightarrow> bool" where
  "same_content p q \<longleftrightarrow> topic_name q = topic_name p \<and> payload q = payload p"

lemma same_content_simps [simp]:
  "same_content p p" "same_content p (q\<lparr>publish_packet_identifier := i\<rparr>) \<longleftrightarrow> same_content p q"
  by (simp_all add: same_content_def)

lemma quiet_identify [quiet_intro]: "quiet (\<lambda>q. same_content p q) (identify p)"
  unfolding identify_def by (auto intro!: quiet_intro split: option.split)

lemma quiet_register [quiet_intro]:
  assumes "same_content p0 p"
  shows "quiet (\<lambda>(q, _). same_content p0 q) (register_publish pf now c key p)"
proof -
  have remote: "quiet (\<lambda>q. same_content p0 q) (register_remote pf c key p)"
    unfolding register_remote_def using assms
    by (auto intro!: quiet_intro split: result.split inflight_error.split session_raft_error.split)
  have clean: "quiet (\<lambda>(q, _). same_content p0 q) (register_clean now key p)"
    unfolding register_clean_def using assms
    by (auto intro!: quiet_intro split: result.split inflight_error.split)
  have "quiet (\<lambda>q. same_content p0 q) (register_persistent pf now c key p)"
    unfolding register_persistent_def by (rule quiet_bind [OF remote], rule quiet_bind [OF silent_mirror], rule quiet_pure)
  note persistent = quiet_bind [OF this]
  show ?thesis
    unfolding register_publish_def by (simp add: clean) (intro impI persistent quiet_pure, simp)
qed

lemma quiet_transmit:
  assumes "ctx_defer_delivery c" and "same_content p (fst x)"
  shows "quiet (\<lambda>st. \<exists>q. st = Deferred q \<and> same_content p q) (transmit pf c key x)"
  using assms unfolding transmit_def by (cases x) (auto intro!: quiet_intro)

lemma held_back:
  assumes "ctx_defer_delivery c" and "publish_qos p \<noteq> 0"
  shows "quiet (\<lambda>st. \<exists>q. st = Deferred q \<and> same_content p q) (deliver_active pf now c p)"
  unfolding deliver_active_def using assms
  by (auto intro!: quiet_bind [OF quiet_identify] quiet_bind [OF quiet_register] quiet_transmit quiet_intro)

text \<open>
  C21: A message above QoS 0 for a client whose quota is full is held back: nothing is written, no slot is
  taken, and the message, its content unchanged, is put at the end of the queue of postponed ones. In a
  persistent session it is registered first.
\<close>

theorem full_quota_defers:
  assumes "outbound_publish_uses_receive_slot s p" and "sa_slots_in_use s \<ge> receive_maximum_limit s"
    and "\<not> is_publish_expired p now" and "start_outbound_publish_delivery pf now p s = (Ok (), s')"
  shows "conn_sent s' = conn_sent s \<and> sa_slots_in_use s' = sa_slots_in_use s \<and>
    (\<exists>q. topic_name q = topic_name p \<and> payload q = payload p \<and>
       sa_deferred s' = sa_deferred s @ [\<lparr>deferred_publish = q, deferred_registered = (\<not> sa_clean_session s)\<rparr>])"
proof (cases "sa_clean_session s")
  case True
  with assms show ?thesis
    by (auto simp: start_outbound_publish_delivery_def can_reserve_receive_slot_def)
next
  case False
  let ?c = "(outbound_delivery_context s)\<lparr>ctx_defer_delivery := True\<rparr>"
  obtain r s1 where d: "deliver_outbound_publish pf now p ?c s = (r, s1)" by fastforce
  obtain p' where p': "snd (prepare_publish_for_delivery p (sa_protocol_version s) now) = p'" by simp
  have same: "publish_qos p' = publish_qos p" "topic_name p' = topic_name p" "payload p' = payload p"
    using p' by (auto simp: prepare_publish_for_delivery_def split: option.splits if_splits)
  have "deliver_active pf now ?c p' s = (r, s1)"
    using d assms(1,3) p' by (simp add: deliver_active_eq outbound_delivery_context_def outbound_publish_uses_receive_slot_def)
  from quietD [OF held_back this] assms(1) have
    sent: "conn_sent s1 = conn_sent s" and st: "\<And>st. r = Ok st \<Longrightarrow> \<exists>q. st = Deferred q \<and> same_content p' q"
    by (auto simp: same outbound_publish_uses_receive_slot_def)
  have kept: "session_env.more s1 = session_env.more s"
    by (rule keepsD [OF keeps_deliver d])
  from assms(1,2,4) False d have "finish_delivery pf now False (r, s1) = (Ok (), s')"
    by (simp add: start_outbound_publish_delivery_def can_reserve_receive_slot_def)
  with st same obtain q where "topic_name q = topic_name p" "payload q = payload p"
    "s' = s1\<lparr>sa_deferred := sa_deferred s1 @ [\<lparr>deferred_publish = q, deferred_registered = True\<rparr>]\<rparr>"
    by (cases r) (auto simp: finish_delivery_def same_content_def)
  with sent False actor_fields(7,8) [OF kept] show ?thesis by auto
qed

section \<open>Subscriptions are answered\<close>

text \<open>What a reason code of SUBACK says of a filter: the subscription it grants, if it grants one.\<close>

definition granted_entry :: "subscribe_topic \<Rightarrow> reason_code \<Rightarrow> (string \<times> subscription_state) option" where
  "granted_entry t c =
     map_option (\<lambda>q. (topic_filter t, \<lparr>state_qos = q, state_no_local = no_local t,
         state_retain_as_published = retain_as_published t\<rparr>))
       (if c = RC_GrantedQos0 then Some AtMostOnce else if c = RC_GrantedQos1 then Some AtLeastOnce
        else if c = RC_GrantedQos2 then Some ExactlyOnce else None)"

definition proper_answer :: "subscribe_topic \<Rightarrow> reason_code \<Rightarrow> bool" where
  "proper_answer t c \<longleftrightarrow>
     c = RC_GrantedQos0 \<or> c = RC_GrantedQos1 \<and> 1 \<le> topic_qos t \<or> c = RC_GrantedQos2 \<and> 2 \<le> topic_qos t \<or>
     c \<in> {RC_NotAuthorized, RC_UnspecifiedError, RC_TopicFilterInvalid, RC_SubscriptionIdentifiersNotSupported}"

definition granted_entries :: "subscribe_topic list \<Rightarrow> reason_code list \<Rightarrow> (string \<times> subscription_state) list" where
  "granted_entries ts cs = List.map_filter (\<lambda>(t, c). granted_entry t c) (zip ts cs)"

definition progress_ok :: "subscribe_topic list \<Rightarrow> subscribe_progress \<Rightarrow> bool" where
  "progress_ok ts sp \<longleftrightarrow> list_all2 proper_answer ts (sp_codes sp) \<and> sp_succeeded sp = granted_entries ts (sp_codes sp)"




lemma progress_retained [simp]: "progress_ok ts (sp\<lparr>sp_retained := rs\<rparr>) = progress_ok ts sp"
  by (simp add: progress_ok_def)









section \<open>Recovery of offline messages\<close>



section \<open>Examples\<close>

text \<open>A node without plugins: the hooks allow everything, and the topic service and the routers accept.\<close>

definition example_handler :: "(session_state_storage, mem_db) handler_platform" where
  "example_handler = actor_platform.extend open_platform (handler_platform.fields
     (\<lambda>_ w. (Ok True, w)) (\<lambda>_ w. (Ok (True, None), w)) (\<lambda>_ w. w)
     (\<lambda>_ t _ w. (Ok [\<lparr>si_topic = topic_filter t, si_allowed = True, si_granted_qos = 1\<rparr>], w))
     (\<lambda>_ _ _ _ _ _ w. (Ok (), w)) (\<lambda>_ _ _ w. (Ok (), w)) (\<lambda>_ _ w. (Ok [], w))
     (\<lambda>_ _ _ w. (Ok (), w)) (\<lambda>_ _ w. (Ok (), w)) (\<lambda>_ _ _ w. (Ok (), w)))"

text \<open>A connected clean session with a receive maximum of one and a will.\<close>

definition example_actor :: "nat \<Rightarrow> (session_state_storage, mem_db) session_actor" where
  "example_actor slots = session_env.extend node_env (session_actor.fields ''t'' ''c'' True V5_0 None 1 slots [] None
     (Some \<lparr>wm_topic = ''w'', wm_payload = [], wm_qos = 0, wm_retain = False, wm_protocol_version = V5_0,
        wm_properties = default_properties\<rparr>) Active True 60 False True [])"

lemmas example_defs = example_handler_def example_actor_def open_platform_def node_defs
  handler_platform.defs session_actor.defs

lemma example_simps [simp]:
  "payload_ops example_handler = mem_store" "conn_answer example_handler sent p = Written"
  "sa_slots_in_use (example_actor n) = n" "sa_receive_maximum (example_actor n) = 1" "sa_deferred (example_actor n) = []"
  "sa_connected (example_actor n)" "sa_clean_session (example_actor n)" "sa_has_store (example_actor n)"
  "sa_protocol_version (example_actor n) = V5_0" "sa_activity_state (example_actor n) = Active"
  "sa_effects (example_actor n) = []" "conn_sent (example_actor n) = []"
  "inflight_inner (env_inflight (example_actor n)) = []" "env_payloads (example_actor n) = env_payloads node_env"
  "session_subscriptions (sess_state (example_actor n)) = []"
  by (simp_all add: example_defs env_inflight_def new_with_options_def inflight_new_def)

theorem receive_maximum_respected_witness:
  "sa_slots_in_use (run_messages example_handler
     [(0, OutboundMessage (Publish example_update)), (1, InflightRetry)] (example_actor 1)) \<le>
   receive_maximum_limit (run_messages example_handler
     [(0, OutboundMessage (Publish example_update)), (1, InflightRetry)] (example_actor 1))"
  by (rule receive_maximum_respected) simp_all

theorem will_at_most_once_witness:
  "wills_routed (run_messages example_handler [(5, KeepAliveExpired), (6, UnexpectClientDisconnected)] (example_actor 0)) \<le> 1"
  using will_at_most_once [of "[(5, KeepAliveExpired), (6, UnexpectClientDisconnected)]" example_handler "example_actor 0"]
  by (simp add: wills_routed_def)

text \<open>The session with one message of the given QoS on its way.\<close>

definition example_waiting :: "u8 \<Rightarrow> (session_state_storage, mem_db) session_actor" where
  "example_waiting q = set_inflight ((env_inflight (example_actor 1))\<lparr>inflight_inner := [(7, awaiting 0 7 q ''k'')]\<rparr>) (example_actor 1)"

lemma example_waiting_simps [simp]:
  "sa_slots_in_use (example_waiting q) = 1" "sa_deferred (example_waiting q) = []" "sa_connected (example_waiting q)"
  "sa_clean_session (example_waiting q)" "sa_has_store (example_waiting q)"
  "inflight_inner (env_inflight (example_waiting q)) = [(7, awaiting 0 7 q ''k'')]"
  by (simp_all add: example_waiting_def set_inflight_def env_inflight_def)



theorem pubrec_frees_quota_early_witness:
  "sa_slots_in_use (handle_pubrec example_handler 9 (success_ack 7) (example_waiting 2)) = 0 \<and>
   get_inflight_current_state 7 (env_inflight (handle_pubrec example_handler 9 (success_ack 7) (example_waiting 2))) = Some WaitPubcomp"
  using pubrec_frees_quota_early [of "example_waiting 2" "success_ack 7" example_handler 9]
  by (simp add: success_ack_def ack_with_reason_def get_inflight_current_state_def awaiting_def)

text \<open>The client itself publishes under the identifier of a message on its way to it.\<close>

definition colliding_publish :: publish where
  "colliding_publish = example_update\<lparr>publish_packet_identifier := Some 7\<rparr>"

theorem inbound_publish_ends_outbound_exchange_witness:
  "\<exists>s'. register_inbound example_handler 3 colliding_publish (example_waiting 1) = (Ok (Some (Puback (success_ack 7))), s') \<and>
     handle_puback example_handler 9 (success_ack 7) s' = s' \<and> sa_slots_in_use s' = 1"
proof -
  obtain ps where "ps_put mem_store ''k'' [1] (env_payloads node_env) = (Ok (), ps)" using mem_put by blast
  then have "\<exists>s'. register_inbound example_handler 3 colliding_publish (example_waiting 1) = (Ok (Some (Puback (success_ack 7))), s')"
    by (simp add: register_inbound_def colliding_publish_def example_update_def store_inbound_def bind_op_def op_defs
        draw_uuid_def serialize_stored_packet_def on_store_def example_waiting_def set_inflight_def on_inflight_def example_defs
        split: prod.split)
  then obtain s' where r: "register_inbound example_handler 3 colliding_publish (example_waiting 1) = (Ok (Some (Puback (success_ack 7))), s')"
    by blast
  from inbound_publish_ends_outbound_exchange [OF r, of 7 "success_ack 7" 9] r show ?thesis
    by (simp add: colliding_publish_def example_update_def success_ack_def ack_with_reason_def)
qed

theorem full_quota_defers_witness:
  "\<exists>s' q. start_outbound_publish_delivery example_handler 0 example_update (example_actor 1) = (Ok (), s') \<and>
     conn_sent s' = [] \<and> sa_deferred s' = [\<lparr>deferred_publish = q, deferred_registered = False\<rparr>] \<and> payload q = [1]"
proof -
  have u: "outbound_publish_uses_receive_slot (example_actor 1) example_update"
    by (simp add: outbound_publish_uses_receive_slot_def example_update_def)
  obtain s' where d: "start_outbound_publish_delivery example_handler 0 example_update (example_actor 1) = (Ok (), s')"
    using u by (simp add: start_outbound_publish_delivery_def can_reserve_receive_slot_def receive_maximum_limit_def)
  have "payload example_update = [1]" by (simp add: example_update_def)
  with full_quota_defers [OF u _ _ d] d show ?thesis
    by (auto simp: receive_maximum_limit_def is_publish_expired_def example_update_def)
qed



text \<open>The replicated queue of the session in the example.\<close>

definition example_queue :: "session_state_storage \<Rightarrow> string list" where
  "example_queue st = (case get_session_state ''t'' ''c'' st of Some s \<Rightarrow> pending_messages s | None \<Rightarrow> [])"



definition example_offline :: "(session_state_storage, mem_db) session_actor" where
  "example_offline = (example_actor 0)\<lparr>env_world := append_to_pending_queue ''t'' ''c'' ''k2''
     (append_to_pending_queue ''t'' ''c'' ''k1'' (env_world leader_env))\<rparr>"

lemma example_offline_simps [simp]:
  "sa_tenant_id example_offline = ''t''" "sa_client_id example_offline = ''c''" "raft_mailbox example_offline = Ok ()"
  "raft_actor_state example_offline = Running" "raft_instance example_offline"
  "example_queue (env_world example_offline) = [''k1'', ''k2'']"
  by (simp_all add: example_offline_def example_defs example_queue_def append_to_pending_queue_def create_session_state_def
      session_storage_new_def ensure_tenant_def put_session_def get_session_state_def hm_modify_def hm_or_insert_def
      inc_ref_def new_with_options_def)


end
