(* ===== verification/Router.thy ===== *)
theory Router
  imports Session_Delivery Topic_Storage
begin

text \<open>
  The router, \<open>broker/src/router_actor.rs\<close>, and the store of routes it keeps, \<open>route_store.rs\<close>: to which
  sessions a publish goes, which member of a shared subscription gets it, and how a publish above
  QoS 0 travels to another node, through an outbox here and an inbox there that are worked off until
  the other side has taken it. Futures that are spawned run to their end in place; what overlapping
  runs over the inbox can do is treated in a section of its own. Counters are not modelled.
\<close>

section \<open>The store of routes\<close>

datatype route_store_error = RouteIo string | RouteStorage string | RouteSerialization string

text \<open>The JSON codec of the rows is an argument.\<close>

record 'a row_codec =
  row_to_vec :: "'a \<Rightarrow> (bytes, string) result"
  row_from_slice :: "bytes \<Rightarrow> ('a, string) result"

definition route_put :: "'db kv_store \<Rightarrow> 'a row_codec \<Rightarrow> string \<Rightarrow> 'a \<Rightarrow> (unit, route_store_error, 'db) op" where
  "route_put kv codec key v =
     bind_op (lift_op (map_err RouteSerialization (row_to_vec codec v))) (\<lambda>data.
     map_err_op RouteStorage (kv_put kv ''default'' (as_bytes key) data))"

definition route_get :: "'db kv_store \<Rightarrow> 'a row_codec \<Rightarrow> string \<Rightarrow> ('a option, route_store_error, 'db) op" where
  "route_get kv codec key =
     bind_op (read_op (\<lambda>db. map_err RouteStorage (kv_get kv ''default'' (as_bytes key) db))) (\<lambda>value.
     case value of
       None \<Rightarrow> pure_op None
     | Some raw \<Rightarrow>
         bind_op (lift_op (map_err RouteSerialization (row_from_slice codec raw))) (\<lambda>v. pure_op (Some v)))"

definition route_delete :: "'db kv_store \<Rightarrow> string \<Rightarrow> (unit, route_store_error, 'db) op" where
  "route_delete kv key = map_err_op RouteStorage (kv_delete kv ''default'' (as_bytes key))"

fun collect_rows ::
  "'a row_codec \<Rightarrow> (bytes \<times> bytes, string) result list \<Rightarrow> ((string \<times> 'a) list, route_store_error) result" where
  "collect_rows codec [] = Ok []"
| "collect_rows codec (item # items) =
     and_then (map_err RouteStorage item) (\<lambda>(key, raw).
     and_then (case from_utf8 key of Some k \<Rightarrow> Ok k | None \<Rightarrow> Err (RouteSerialization ''invalid utf-8 sequence'')) (\<lambda>key.
     and_then (map_err RouteSerialization (row_from_slice codec raw)) (\<lambda>v.
     and_then (collect_rows codec items) (\<lambda>rows. Ok ((key, v) # rows)))))"

definition route_scan :: "'db kv_store \<Rightarrow> 'a row_codec \<Rightarrow> ((string \<times> 'a) list, route_store_error, 'db) op" where
  "route_scan kv codec = read_op (\<lambda>db. collect_rows codec (kv_scan kv ''default'' [] db))"

definition display_route_store_error :: "route_store_error \<Rightarrow> string" where
  "display_route_store_error e =
     (case e of
        RouteIo s \<Rightarrow> ''io error: '' @ s
      | RouteStorage s \<Rightarrow> ''storage error: '' @ s
      | RouteSerialization s \<Rightarrow> ''serialization error: '' @ s)"

section \<open>State\<close>

datatype router_error =
    RouterGrpc string
  | RouterActorStopped string
  | RouterTopicRaft string
  | RouterSessionMap string
  | GetSubscribersError topic_storage_error
  | TopicServiceError string
  | RouterSerialization string
  | RouterPayloadStore string
  | RouterStore string
  | RoutedDelivery string

definition max_retry_count :: u32 where "max_retry_count = 120"

definition retry_interval_seconds :: u64 where "retry_interval_seconds = 1"

definition message_ttl_seconds :: u64 where "message_ttl_seconds = 86400"

datatype inbox_status = InboxPending | InboxCompleted

record outbox_item =
  out_route_id :: string
  out_tenant_id :: string
  out_source_node_id :: u64
  out_dest_node_id :: u64
  out_target_client_id :: string
  out_target_qos :: u8
  out_packet_key :: string
  out_retry_at :: u64
  out_attempts :: u32
  out_expiry_at :: u64

record inbox_item =
  in_route_id :: string
  in_tenant_id :: string
  in_target_client_id :: string
  in_packet_key :: string
  in_retry_at :: u64
  in_attempts :: u32
  in_expiry_at :: u64
  in_status :: inbox_status
  in_completed_at :: "u64 option"

type_synonym shared_route_key = "string \<times> string \<times> string"

record route_request =
  rq_tenant_id :: string
  rq_packet :: packet
  rq_route_id :: string
  rq_source_node_id :: u64
  rq_target_client_id :: string
  rq_target_qos :: u8
  rq_expiry_at :: u64

text \<open>
  What a router calls: the topic service, the registry of sessions of the cluster, the resolver of
  nodes, the other node's cluster service, and the mailbox of a session that is waited for. A request
  to another node carries its packet as JSON text; it is given here as the packet that text stands
  for, where it can be written at all.
\<close>

record ('w, 'ps, 'db) router_platform = "('w, 'ps) actor_platform" +
  packet_text_ok :: "packet \<Rightarrow> (unit, string) result"
  subscriptions_linearizable :: "string \<Rightarrow> string \<Rightarrow> (subscription list, string, 'w) op"
  subscriptions_of_actor :: "string \<Rightarrow> string \<Rightarrow> (subscription list, router_error, 'w) op"
  session_node_linearizable :: "string \<Rightarrow> string \<Rightarrow> (u64 option, string, 'w) op"
  get_node :: "u64 \<Rightarrow> 'w \<Rightarrow> cluster_node option \<times> 'w"
  rpc_route :: "string \<Rightarrow> route_request \<Rightarrow> (unit, string, 'w) op"
  session_accepts :: "string \<Rightarrow> string \<Rightarrow> packet \<Rightarrow> (unit, router_error, 'w) op"
  tenant_ids :: "(string list, string, 'w) op"
  route_kv :: "'db kv_store"
  outbox_codec :: "outbox_item row_codec"
  inbox_codec :: "inbox_item row_codec"

text \<open>
  The router with what it shares: the local topic store, the node each session is registered on, the
  sessions with an actor on this node, the cursors of the shared subscriptions, outbox, inbox, payload
  store, and the messages handed to sessions, both those sent without waiting and those the session
  has accepted.
\<close>

record ('w, 'ps, 'db) router =
  current_node_id :: u64
  local_topics :: topic_storage
  session_nodes :: "(string, (string, u64) hash_map) hash_map"
  session_registry :: "(string \<times> string) list"
  shared_cursors :: "(shared_route_key, nat) hash_map"
  route_outbox :: 'db
  route_inbox :: 'db
  route_payloads :: 'ps
  route_world :: 'w
  outbound_messages :: "(string \<times> string \<times> packet) list"
  route_uuids :: nat

definition with_world :: "('a, 'e, 'w) op \<Rightarrow> ('a, 'e, ('w, 'ps, 'db, 'z) router_scheme) op" where
  "with_world m r = (case m (route_world r) of (a, w) \<Rightarrow> (a, r\<lparr>route_world := w\<rparr>))"

definition with_payloads :: "('a, 'e, 'ps) op \<Rightarrow> ('a, 'e, ('w, 'ps, 'db, 'z) router_scheme) op" where
  "with_payloads m r = (case m (route_payloads r) of (a, ps) \<Rightarrow> (a, r\<lparr>route_payloads := ps\<rparr>))"

definition with_outbox :: "('a, 'e, 'db) op \<Rightarrow> ('a, 'e, ('w, 'ps, 'db, 'z) router_scheme) op" where
  "with_outbox m r = (case m (route_outbox r) of (a, db) \<Rightarrow> (a, r\<lparr>route_outbox := db\<rparr>))"

definition with_inbox :: "('a, 'e, 'db) op \<Rightarrow> ('a, 'e, ('w, 'ps, 'db, 'z) router_scheme) op" where
  "with_inbox m r = (case m (route_inbox r) of (a, db) \<Rightarrow> (a, r\<lparr>route_inbox := db\<rparr>))"

section \<open>One subscriber\<close>

definition build_packet_key :: "string \<Rightarrow> string \<Rightarrow> string" where
  "build_packet_key prefix route_id = prefix @ '':'' @ route_id"

definition should_route_durably :: "packet \<Rightarrow> bool" where
  "should_route_durably packet = (case packet of Publish p \<Rightarrow> publish_qos p \<ge> 1 | _ \<Rightarrow> False)"

definition adjust_publish_for_subscriber :: "publish \<Rightarrow> u8 \<Rightarrow> bool \<Rightarrow> publish" where
  "adjust_publish_for_subscriber p subscriber_qos rap =
     (let p = (if publish_qos p \<ge> subscriber_qos
               then if subscriber_qos = 0 \<and> publish_qos p > 0
                    then p\<lparr>publish_qos := 0, publish_packet_identifier := None\<rparr>
                    else p\<lparr>publish_qos := subscriber_qos\<rparr>
               else p) in
      if \<not> rap then p\<lparr>retain := False\<rparr> else p)"

definition serialize_packet :: "('w, 'ps, 'y) actor_platform_scheme \<Rightarrow> packet \<Rightarrow> (bytes, router_error) result" where
  "serialize_packet pf packet = map_err RouterSerialization (serialize_stored_packet pf packet)"

definition deserialize_packet :: "('w, 'ps, 'y) actor_platform_scheme \<Rightarrow> bytes \<Rightarrow> (packet, router_error) result" where
  "deserialize_packet pf data = map_err RouterSerialization (deserialize_stored_packet pf data)"

definition route_to_other_node ::
  "('w, 'ps, 'db, 'y) router_platform_scheme \<Rightarrow> string \<Rightarrow> route_request \<Rightarrow> (unit, router_error, ('w, 'ps, 'db, 'z) router_scheme) op" where
  "route_to_other_node pf dest_addr request = map_err_op RouterGrpc (with_world (rpc_route pf dest_addr request))"

definition route_to_local_session ::
  "string \<Rightarrow> string \<Rightarrow> packet \<Rightarrow> (bool, router_error, ('w, 'ps, 'db, 'z) router_scheme) op" where
  "route_to_local_session tenant client packet r =
     (if (tenant, client) \<in> set (session_registry r)
      then (Ok True, r\<lparr>outbound_messages := outbound_messages r @ [(tenant, client, packet)]\<rparr>)
      else (Ok False, r))"

definition route_to_local_session_durable ::
  "('w, 'ps, 'db, 'y) router_platform_scheme \<Rightarrow> string \<Rightarrow> string \<Rightarrow> packet \<Rightarrow> (unit, router_error, ('w, 'ps, 'db, 'z) router_scheme) op" where
  "route_to_local_session_durable pf tenant client packet r =
     (if (tenant, client) \<in> set (session_registry r)
      then (case with_world (session_accepts pf tenant client packet) r of
              (Ok _, r) \<Rightarrow> (Ok (), r\<lparr>outbound_messages := outbound_messages r @ [(tenant, client, packet)]\<rparr>)
            | (Err e, r) \<Rightarrow> (Err e, r))
      else (Err (RoutedDelivery (''session '' @ client @ '' not found locally'')), r))"

definition payload_failed :: "payload_error \<Rightarrow> router_error" where
  "payload_failed e = RouterPayloadStore (display_payload_error e)"

definition store_failed :: "route_store_error \<Rightarrow> router_error" where
  "store_failed e = RouterStore (display_route_store_error e)"

definition node_missing :: "u64 \<Rightarrow> router_error" where
  "node_missing node = RouterGrpc (''node '' @ decimal (unat node) @ '' not found'')"

section \<open>The outbox\<close>

definition drop_outbox_item ::
  "('w, 'ps, 'db, 'y) router_platform_scheme \<Rightarrow> outbox_item \<Rightarrow> (unit, router_error, ('w, 'ps, 'db, 'z) router_scheme) op" where
  "drop_outbox_item pf item =
     bind_op (try_op (with_outbox (route_delete (route_kv pf) (out_route_id item)))) (\<lambda>_.
     bind_op (try_op (with_payloads (ps_delete (payload_ops pf) (out_packet_key item)))) (\<lambda>_.
     pure_op ()))"

definition postpone_outbox_item ::
  "('w, 'ps, 'db, 'y) router_platform_scheme \<Rightarrow> u64 \<Rightarrow> outbox_item \<Rightarrow> (unit, router_error, ('w, 'ps, 'db, 'z) router_scheme) op" where
  "postpone_outbox_item pf now item =
     map_err_op store_failed (with_outbox (route_put (route_kv pf) (outbox_codec pf) (out_route_id item)
       (item\<lparr>out_attempts := out_attempts item + 1, out_retry_at := now + retry_interval_seconds\<rparr>)))"

definition load_route_packet ::
  "('w, 'ps, 'db, 'y) router_platform_scheme \<Rightarrow> string \<Rightarrow> (packet, router_error, ('w, 'ps, 'db, 'z) router_scheme) op" where
  "load_route_packet pf key =
     bind_op (with_payloads (read_op (\<lambda>ps. map_err payload_failed (ps_get (payload_ops pf) key ps)))) (\<lambda>data.
     case data of
       None \<Rightarrow> fail_op (RouterPayloadStore (''route payload '' @ key @ '' not found''))
     | Some data \<Rightarrow> lift_op (deserialize_packet pf data))"

definition request_of :: "outbox_item \<Rightarrow> packet \<Rightarrow> route_request" where
  "request_of item packet =
     \<lparr>rq_tenant_id = out_tenant_id item, rq_packet = packet, rq_route_id = out_route_id item,
      rq_source_node_id = out_source_node_id item, rq_target_client_id = out_target_client_id item,
      rq_target_qos = out_target_qos item, rq_expiry_at = out_expiry_at item\<rparr>"

definition send_outbox_item ::
  "('w, 'ps, 'db, 'y) router_platform_scheme \<Rightarrow> u64 \<Rightarrow> outbox_item \<Rightarrow> cluster_node \<Rightarrow> packet \<Rightarrow>
   (unit, router_error, ('w, 'ps, 'db, 'z) router_scheme) op" where
  "send_outbox_item pf now item dest packet =
     bind_op (lift_op (map_err RouterSerialization (packet_text_ok pf packet))) (\<lambda>_.
     bind_op (try_op (route_to_other_node pf (rpc_addr dest) (request_of item packet))) (\<lambda>res. case res of
        Ok _ \<Rightarrow>
          bind_op (map_err_op store_failed (with_outbox (route_delete (route_kv pf) (out_route_id item)))) (\<lambda>_.
          bind_op (try_op (with_payloads (ps_delete (payload_ops pf) (out_packet_key item)))) (\<lambda>_.
          pure_op ()))
      | Err e \<Rightarrow> bind_op (postpone_outbox_item pf now item) (\<lambda>_. fail_op e)))"

definition dispatch_outbox_item ::
  "('w, 'ps, 'db, 'y) router_platform_scheme \<Rightarrow> u64 \<Rightarrow> outbox_item \<Rightarrow> (unit, router_error, ('w, 'ps, 'db, 'z) router_scheme) op" where
  "dispatch_outbox_item pf now item =
     (if out_expiry_at item \<le> now \<or> out_attempts item \<ge> max_retry_count then drop_outbox_item pf item
      else if out_retry_at item > now then pure_op ()
      else
        bind_op (with_world (\<lambda>w. case get_node pf (out_dest_node_id item) w of (n, w) \<Rightarrow> (Ok n, w))) (\<lambda>dest. case dest of
           None \<Rightarrow> bind_op (postpone_outbox_item pf now item) (\<lambda>_. fail_op (node_missing (out_dest_node_id item)))
         | Some dest \<Rightarrow>
             bind_op (load_route_packet pf (out_packet_key item)) (\<lambda>packet.
             if is_packet_expired packet now then drop_outbox_item pf item
             else send_outbox_item pf now item dest packet)))"

definition enqueue_durable_remote_route ::
  "('w, 'ps, 'db, 'y) router_platform_scheme \<Rightarrow> u64 \<Rightarrow> string \<Rightarrow> u64 \<Rightarrow> string \<Rightarrow> u8 \<Rightarrow> packet \<Rightarrow>
   (unit, router_error, ('w, 'ps, 'db, 'z) router_scheme) op" where
  "enqueue_durable_remote_route pf now tenant dest client q packet r =
     (let route_id = new_uuid pf (route_uuids r);
          r = r\<lparr>route_uuids := route_uuids r + 1\<rparr>;
          packet_key = build_packet_key ''route-outbox'' route_id;
          expiry_at = route_expiry_at packet message_ttl_seconds now;
          item = \<lparr>out_route_id = route_id, out_tenant_id = tenant, out_source_node_id = current_node_id r,
             out_dest_node_id = dest, out_target_client_id = client, out_target_qos = q,
             out_packet_key = packet_key, out_retry_at = now, out_attempts = 0, out_expiry_at = expiry_at\<rparr> in
      if expiry_at \<le> now then (Ok (), r)
      else
        bind_op (lift_op (serialize_packet pf packet)) (\<lambda>data.
        bind_op (map_err_op payload_failed (with_payloads (ps_put (payload_ops pf) packet_key data))) (\<lambda>_.
        bind_op (try_op (with_outbox (route_put (route_kv pf) (outbox_codec pf) route_id item))) (\<lambda>stored. case stored of
           Err e \<Rightarrow>
             bind_op (try_op (with_payloads (ps_delete (payload_ops pf) packet_key))) (\<lambda>_. fail_op (store_failed e))
         | Ok _ \<Rightarrow> bind_op (try_op (dispatch_outbox_item pf now item)) (\<lambda>_. pure_op ())))) r)"

definition dispatch_best_effort_remote_route ::
  "('w, 'ps, 'db, 'y) router_platform_scheme \<Rightarrow> string \<Rightarrow> u64 \<Rightarrow> string \<Rightarrow> u8 \<Rightarrow> packet \<Rightarrow>
   (unit, router_error, ('w, 'ps, 'db, 'z) router_scheme) op" where
  "dispatch_best_effort_remote_route pf tenant dest client q packet =
     bind_op (with_world (\<lambda>w. case get_node pf dest w of (n, w) \<Rightarrow> (Ok n, w))) (\<lambda>node. case node of
        None \<Rightarrow> pure_op ()
      | Some node \<Rightarrow>
          (case packet_text_ok pf packet of
             Err _ \<Rightarrow> pure_op ()
           | Ok _ \<Rightarrow>
               bind_op (try_op (route_to_other_node pf (rpc_addr node)
                 \<lparr>rq_tenant_id = tenant, rq_packet = packet, rq_route_id = [], rq_source_node_id = 0,
                  rq_target_client_id = client, rq_target_qos = q, rq_expiry_at = 0\<rparr>)) (\<lambda>_. pure_op ())))"

section \<open>Routing\<close>

text \<open>
  The node of a session comes from the local copy of the registry or, failing that, from a
  linearizable read.
\<close>

definition node_of_session ::
  "('w, 'ps, 'db, 'y) router_platform_scheme \<Rightarrow> string \<Rightarrow> string \<Rightarrow> (u64 option, router_error, ('w, 'ps, 'db, 'z) router_scheme) op" where
  "node_of_session pf tenant client r =
     (case Option.bind (hm_get (session_nodes r) tenant) (\<lambda>m. hm_get m client) of
        Some node \<Rightarrow> (Ok (Some node), r)
      | None \<Rightarrow> map_err_op RouterSessionMap (with_world (session_node_linearizable pf tenant client)) r)"

definition deliver_to_subscriber ::
  "('w, 'ps, 'db, 'y) router_platform_scheme \<Rightarrow> u64 \<Rightarrow> string \<Rightarrow> publish \<Rightarrow> subscription \<Rightarrow>
   (bool, router_error, ('w, 'ps, 'db, 'z) router_scheme) op" where
  "deliver_to_subscriber pf now tenant p item r =
     bind_op (node_of_session pf tenant (client_identifier item)) (\<lambda>node. case node of
        None \<Rightarrow> pure_op False
      | Some node \<Rightarrow>
          let packet = Publish (adjust_publish_for_subscriber p (sub_qos item) (sub_retain_as_published item)) in
          if node \<noteq> current_node_id r
          then bind_op (if should_route_durably packet
                 then enqueue_durable_remote_route pf now tenant node (client_identifier item) (sub_qos item) packet
                 else dispatch_best_effort_remote_route pf tenant node (client_identifier item) (sub_qos item) packet)
               (\<lambda>_. pure_op True)
          else route_to_local_session tenant (client_identifier item) packet) r"

definition group_key :: "string \<Rightarrow> subscription \<Rightarrow> shared_route_key" where
  "group_key tenant s = (tenant, (case shared_group s of Some share \<Rightarrow> share | None \<Rightarrow> ''''), sub_topic_filter s)"

text \<open>\<open>entry(key).or_default().push(sub)\<close> for the shared subscriptions.\<close>

definition add_to_group ::
  "string \<Rightarrow> subscription \<Rightarrow> (shared_route_key, subscription list) hash_map \<Rightarrow> (shared_route_key, subscription list) hash_map" where
  "add_to_group tenant s groups =
     (if is_shared s
      then hm_insert (group_key tenant s)
             ((case hm_get groups (group_key tenant s) of Some ss \<Rightarrow> ss | None \<Rightarrow> []) @ [s]) groups
      else groups)"

definition shared_groups :: "string \<Rightarrow> subscription list \<Rightarrow> (shared_route_key, subscription list) hash_map" where
  "shared_groups tenant subs = fold (add_to_group tenant) subs []"

definition no_local_source :: "string option \<Rightarrow> subscription \<Rightarrow> bool" where
  "no_local_source source s \<longleftrightarrow> sub_no_local s \<and> source = Some (client_identifier s)"

definition by_client :: "subscription list \<Rightarrow> subscription list" where
  "by_client = sort_key (\<lambda>s. as_bytes (client_identifier s))"

text \<open>The member to start from, and the cursor moved on.\<close>

definition next_member :: "shared_route_key \<Rightarrow> nat \<Rightarrow> (nat, router_error, ('w, 'ps, 'db, 'z) router_scheme) op" where
  "next_member key n r =
     (let cursor = (case hm_get (shared_cursors r) key of Some c \<Rightarrow> c | None \<Rightarrow> 0); idx = cursor mod n in
      (Ok idx, r\<lparr>shared_cursors := hm_insert key (idx + 1) (shared_cursors r)\<rparr>))"

text \<open>The members in turn, until one has taken the message.\<close>

fun first_delivered :: "('a \<Rightarrow> (bool, 'e, 's) op) \<Rightarrow> 'a list \<Rightarrow> (bool, 'e, 's) op" where
  "first_delivered f [] = pure_op False"
| "first_delivered f (x # xs) = bind_op (f x) (\<lambda>done. if done then pure_op True else first_delivered f xs)"

definition deliver_to_group ::
  "(subscription \<Rightarrow> (bool, router_error, ('w, 'ps, 'db, 'z) router_scheme) op) \<Rightarrow> (subscription \<Rightarrow> bool) \<Rightarrow>
   shared_route_key \<times> subscription list \<Rightarrow> (unit, router_error, ('w, 'ps, 'db, 'z) router_scheme) op" where
  "deliver_to_group deliver allowed =
     (\<lambda>(key, candidates).
        let sorted_members = by_client (filter allowed candidates) in
        if sorted_members = [] then pure_op ()
        else
          bind_op (next_member key (length sorted_members)) (\<lambda>start.
          bind_op (first_delivered deliver (rotate start sorted_members)) (\<lambda>_. pure_op ())))"

definition matching_subscriptions ::
  "('w, 'ps, 'db, 'y) router_platform_scheme \<Rightarrow> string \<Rightarrow> string \<Rightarrow>
   (subscription list, router_error, ('w, 'ps, 'db, 'z) router_scheme) op" where
  "matching_subscriptions pf tenant topic r =
     bind_op (lift_op (map_err GetSubscribersError (get_subscriptions (local_topics r) tenant topic))) (\<lambda>subs.
     if subs = [] then map_err_op TopicServiceError (with_world (subscriptions_linearizable pf tenant topic))
     else pure_op subs) r"

definition route ::
  "('w, 'ps, 'db, 'y) router_platform_scheme \<Rightarrow> u64 \<Rightarrow> string \<Rightarrow> packet \<Rightarrow> string option \<Rightarrow>
   (unit, router_error, ('w, 'ps, 'db, 'z) router_scheme) op" where
  "route pf now tenant packet source =
     (case packet of
        Publish p \<Rightarrow>
          if is_publish_expired p now then pure_op ()
          else
            bind_op (matching_subscriptions pf tenant (topic_name p)) (\<lambda>subs.
            bind_op (for_op (\<lambda>item. if no_local_source source item then pure_op ()
                 else bind_op (deliver_to_subscriber pf now tenant p item) (\<lambda>_. pure_op ()))
              (filter (\<lambda>s. \<not> is_shared s) subs)) (\<lambda>_.
            for_op (deliver_to_group (deliver_to_subscriber pf now tenant p) (\<lambda>s. \<not> no_local_source source s))
              (shared_groups tenant subs)))
      | _ \<Rightarrow> pure_op ())"

text \<open>A publish for the sessions of this node only.\<close>

definition deliver_here ::
  "string \<Rightarrow> publish \<Rightarrow> subscription \<Rightarrow> (bool, router_error, ('w, 'ps, 'db, 'z) router_scheme) op" where
  "deliver_here tenant p item =
     route_to_local_session tenant (client_identifier item)
       (Publish (adjust_publish_for_subscriber p (sub_qos item) (sub_retain_as_published item)))"

definition publish_to_local_subscribers ::
  "('w, 'ps, 'db, 'y) router_platform_scheme \<Rightarrow> u64 \<Rightarrow> string \<Rightarrow> packet \<Rightarrow>
   (unit, router_error, ('w, 'ps, 'db, 'z) router_scheme) op" where
  "publish_to_local_subscribers pf now tenant packet =
     (case packet of
        Publish p \<Rightarrow>
          if is_publish_expired p now then pure_op ()
          else
            bind_op (with_world (subscriptions_of_actor pf tenant (topic_name p))) (\<lambda>subs.
            bind_op (for_op (\<lambda>item. bind_op (deliver_here tenant p item) (\<lambda>_. pure_op ()))
              (filter (\<lambda>s. \<not> is_shared s) subs)) (\<lambda>_.
            for_op (deliver_to_group (deliver_here tenant p) (\<lambda>_. True)) (shared_groups tenant subs)))
      | _ \<Rightarrow> pure_op ())"

section \<open>The inbox\<close>

definition complete_inbox_item ::
  "('w, 'ps, 'db, 'y) router_platform_scheme \<Rightarrow> u64 \<Rightarrow> inbox_item \<Rightarrow> (unit, router_error, ('w, 'ps, 'db, 'z) router_scheme) op" where
  "complete_inbox_item pf now item =
     bind_op (map_err_op store_failed (with_inbox (route_put (route_kv pf) (inbox_codec pf) (in_route_id item)
       (item\<lparr>in_status := InboxCompleted, in_completed_at := Some now\<rparr>)))) (\<lambda>_.
     bind_op (try_op (with_payloads (ps_delete (payload_ops pf) (in_packet_key item)))) (\<lambda>_.
     pure_op ()))"

text \<open>
  Up to the point where the packet goes to the session: the packet, or nothing where the item is
  finished or not due.
\<close>

definition begin_inbox_item ::
  "('w, 'ps, 'db, 'y) router_platform_scheme \<Rightarrow> u64 \<Rightarrow> inbox_item \<Rightarrow> (packet option, router_error, ('w, 'ps, 'db, 'z) router_scheme) op" where
  "begin_inbox_item pf now item =
     (if in_status item = InboxCompleted then pure_op None
      else if in_expiry_at item \<le> now \<or> in_attempts item \<ge> max_retry_count
      then bind_op (complete_inbox_item pf now item) (\<lambda>_. pure_op None)
      else if in_retry_at item > now then pure_op None
      else
        bind_op (load_route_packet pf (in_packet_key item)) (\<lambda>packet.
        if is_packet_expired packet now then bind_op (complete_inbox_item pf now item) (\<lambda>_. pure_op None)
        else pure_op (Some packet)))"

text \<open>What follows the answer of the session.\<close>

definition finish_inbox_item ::
  "('w, 'ps, 'db, 'y) router_platform_scheme \<Rightarrow> u64 \<Rightarrow> inbox_item \<Rightarrow> (unit, router_error) result \<Rightarrow>
   (unit, router_error, ('w, 'ps, 'db, 'z) router_scheme) op" where
  "finish_inbox_item pf now item res =
     (case res of
        Ok _ \<Rightarrow> complete_inbox_item pf now item
      | Err e \<Rightarrow>
          bind_op (map_err_op store_failed (with_inbox (route_put (route_kv pf) (inbox_codec pf) (in_route_id item)
            (item\<lparr>in_attempts := in_attempts item + 1, in_retry_at := now + retry_interval_seconds\<rparr>)))) (\<lambda>_.
          fail_op e))"

definition process_inbox_item ::
  "('w, 'ps, 'db, 'y) router_platform_scheme \<Rightarrow> u64 \<Rightarrow> inbox_item \<Rightarrow> (unit, router_error, ('w, 'ps, 'db, 'z) router_scheme) op" where
  "process_inbox_item pf now item =
     bind_op (begin_inbox_item pf now item) (\<lambda>packet. case packet of
        None \<Rightarrow> pure_op ()
      | Some packet \<Rightarrow>
          bind_op (try_op (route_to_local_session_durable pf (in_tenant_id item) (in_target_client_id item) packet)) (\<lambda>res.
          finish_inbox_item pf now item res))"

definition new_inbox_item :: "u64 \<Rightarrow> route_request \<Rightarrow> inbox_item" where
  "new_inbox_item now m =
     \<lparr>in_route_id = rq_route_id m, in_tenant_id = rq_tenant_id m, in_target_client_id = rq_target_client_id m,
      in_packet_key = build_packet_key ''route-inbox'' (rq_route_id m), in_retry_at = now, in_attempts = 0,
      in_expiry_at = (if rq_expiry_at m > 0 then rq_expiry_at m else now + message_ttl_seconds),
      in_status = InboxPending, in_completed_at = None\<rparr>"

definition store_new_route ::
  "('w, 'ps, 'db, 'y) router_platform_scheme \<Rightarrow> u64 \<Rightarrow> route_request \<Rightarrow> (unit, router_error, ('w, 'ps, 'db, 'z) router_scheme) op" where
  "store_new_route pf now m =
     bind_op (lift_op (serialize_packet pf (rq_packet m))) (\<lambda>data.
     bind_op (map_err_op payload_failed
       (with_payloads (ps_put (payload_ops pf) (in_packet_key (new_inbox_item now m)) data))) (\<lambda>_.
     bind_op (map_err_op store_failed
       (with_inbox (route_put (route_kv pf) (inbox_codec pf) (rq_route_id m) (new_inbox_item now m)))) (\<lambda>_.
     bind_op (try_op (process_inbox_item pf now (new_inbox_item now m))) (\<lambda>_. pure_op ()))))"

definition accept_route_from_other_node ::
  "('w, 'ps, 'db, 'y) router_platform_scheme \<Rightarrow> u64 \<Rightarrow> route_request \<Rightarrow> (unit, router_error, ('w, 'ps, 'db, 'z) router_scheme) op" where
  "accept_route_from_other_node pf now m =
     (if is_packet_expired (rq_packet m) now then pure_op ()
      else if rq_route_id m = []
      then route_to_local_session_durable pf (rq_tenant_id m) (rq_target_client_id m) (rq_packet m)
      else
        bind_op (map_err_op store_failed (with_inbox (route_get (route_kv pf) (inbox_codec pf) (rq_route_id m)))) (\<lambda>known.
        case known of Some _ \<Rightarrow> pure_op () | None \<Rightarrow> store_new_route pf now m))"

section \<open>Timers and messages\<close>

definition process_route_outbox ::
  "('w, 'ps, 'db, 'y) router_platform_scheme \<Rightarrow> u64 \<Rightarrow> ('w, 'ps, 'db, 'z) router_scheme \<Rightarrow> ('w, 'ps, 'db, 'z) router_scheme" where
  "process_route_outbox pf now r =
     (case with_outbox (route_scan (route_kv pf) (outbox_codec pf)) r of
        (Err _, r) \<Rightarrow> r
      | (Ok rows, r) \<Rightarrow> fold (\<lambda>(_, item) r. snd (dispatch_outbox_item pf now item r)) rows r)"

definition process_route_inbox ::
  "('w, 'ps, 'db, 'y) router_platform_scheme \<Rightarrow> u64 \<Rightarrow> ('w, 'ps, 'db, 'z) router_scheme \<Rightarrow> ('w, 'ps, 'db, 'z) router_scheme" where
  "process_route_inbox pf now r =
     (case with_inbox (route_scan (route_kv pf) (inbox_codec pf)) r of
        (Err _, r) \<Rightarrow> r
      | (Ok rows, r) \<Rightarrow> fold (\<lambda>(_, item) r. snd (process_inbox_item pf now item r)) rows r)"

definition inbox_item_outdated :: "u64 \<Rightarrow> inbox_item \<Rightarrow> bool" where
  "inbox_item_outdated now item \<longleftrightarrow>
     in_status item = InboxCompleted \<and>
     (case in_completed_at item of
        Some completed_at \<Rightarrow> (if completed_at \<le> now then now - completed_at else 0) \<ge> message_ttl_seconds
      | None \<Rightarrow> False)"

definition cleanup_completed_inbox_items ::
  "('w, 'ps, 'db, 'y) router_platform_scheme \<Rightarrow> u64 \<Rightarrow> ('w, 'ps, 'db, 'z) router_scheme \<Rightarrow> ('w, 'ps, 'db, 'z) router_scheme" where
  "cleanup_completed_inbox_items pf now r =
     (case with_inbox (route_scan (route_kv pf) (inbox_codec pf)) r of
        (Err _, r) \<Rightarrow> r
      | (Ok rows, r) \<Rightarrow>
          fold (\<lambda>(_, item) r. if inbox_item_outdated now item
             then snd (with_inbox (route_delete (route_kv pf) (in_route_id item)) r) else r) rows r)"

text \<open>What the retry timer does, every second, and the start of the actor, before its timers run.\<close>

definition retry_tick ::
  "('w, 'ps, 'db, 'y) router_platform_scheme \<Rightarrow> u64 \<Rightarrow> ('w, 'ps, 'db, 'z) router_scheme \<Rightarrow> ('w, 'ps, 'db, 'z) router_scheme" where
  "retry_tick pf now r = process_route_inbox pf now (process_route_outbox pf now r)"

definition router_started ::
  "('w, 'ps, 'db, 'y) router_platform_scheme \<Rightarrow> u64 \<Rightarrow> ('w, 'ps, 'db, 'z) router_scheme \<Rightarrow> ('w, 'ps, 'db, 'z) router_scheme" where
  "router_started pf now r =
     cleanup_completed_inbox_items pf now (process_route_inbox pf now (process_route_outbox pf now r))"

definition route_from_other_node ::
  "('w, 'ps, 'db, 'y) router_platform_scheme \<Rightarrow> u64 \<Rightarrow> route_request \<Rightarrow> (unit, router_error, ('w, 'ps, 'db, 'z) router_scheme) op" where
  "route_from_other_node pf now m =
     (if rq_target_client_id m = [] then publish_to_local_subscribers pf now (rq_tenant_id m) (rq_packet m)
      else accept_route_from_other_node pf now m)"

definition route_packet_to_all_tenants ::
  "('w, 'ps, 'db, 'y) router_platform_scheme \<Rightarrow> u64 \<Rightarrow> packet \<Rightarrow> (unit, router_error, ('w, 'ps, 'db, 'z) router_scheme) op" where
  "route_packet_to_all_tenants pf now packet =
     bind_op (map_err_op RouterActorStopped (with_world (tenant_ids pf))) (\<lambda>tenants.
     for_op (\<lambda>tenant. publish_to_local_subscribers pf now tenant packet) tenants)"

section \<open>Who gets a publish\<close>

definition message_for :: "string \<Rightarrow> publish \<Rightarrow> subscription \<Rightarrow> string \<times> string \<times> packet" where
  "message_for tenant p s = (tenant, client_identifier s,
     Publish (adjust_publish_for_subscriber p (sub_qos s) (sub_retain_as_published s)))"

definition here :: "('w, 'ps, 'db, 'z) router_scheme \<Rightarrow> string \<Rightarrow> subscription \<Rightarrow> bool" where
  "here r tenant s \<longleftrightarrow> (tenant, client_identifier s) \<in> set (session_registry r)"

text \<open>The sessions of the subscribers are registered on this node.\<close>

definition homed :: "('w, 'ps, 'db, 'z) router_scheme \<Rightarrow> string \<Rightarrow> subscription \<Rightarrow> bool" where
  "homed r tenant s \<longleftrightarrow>
     Option.bind (hm_get (session_nodes r) tenant) (\<lambda>m. hm_get m (client_identifier s)) = Some (current_node_id r)"

lemma here_simps [simp]:
  "here (r\<lparr>outbound_messages := ms\<rparr>) tenant = here r tenant" "here (r\<lparr>shared_cursors := cs\<rparr>) tenant = here r tenant"
  "homed (r\<lparr>outbound_messages := ms\<rparr>) tenant = homed r tenant" "homed (r\<lparr>shared_cursors := cs\<rparr>) tenant = homed r tenant"
  by (simp_all add: fun_eq_iff here_def homed_def)

lemma deliver_here_eq:
  "deliver_here tenant p s r =
     (Ok (here r tenant s), if here r tenant s
        then r\<lparr>outbound_messages := outbound_messages r @ [message_for tenant p s]\<rparr> else r)"
  by (simp add: deliver_here_def route_to_local_session_def here_def message_for_def)

lemma deliver_homed: "homed r tenant s \<Longrightarrow> deliver_to_subscriber pf now tenant p s r = deliver_here tenant p s r"
  by (simp add: deliver_to_subscriber_def node_of_session_def homed_def deliver_here_def bind_op_def Let_def)

lemma fan_out:
  assumes "\<forall>s\<in>set xs. homed r tenant s"
  shows "for_op (\<lambda>item. if no_local_source source item then pure_op ()
           else bind_op (deliver_to_subscriber pf now tenant p item) (\<lambda>_. pure_op ())) xs r =
    (Ok (), r\<lparr>outbound_messages := outbound_messages r @
       map (message_for tenant p) (filter (\<lambda>s. \<not> no_local_source source s \<and> here r tenant s) xs)\<rparr>)"
  using assms
proof (induction xs arbitrary: r)
  case (Cons s xs)
  then show ?case
    by (cases "no_local_source source s"; cases "here r tenant s")
      (simp_all add: bind_op_def deliver_homed deliver_here_eq pure_op_def)
qed (simp add: pure_op_def)

definition found :: "'a option \<Rightarrow> 'a list" where
  "found x = (case x of Some a \<Rightarrow> [a] | None \<Rightarrow> [])"

lemma first_homed:
  assumes "\<forall>s\<in>set xs. homed r tenant s"
  shows "first_delivered (deliver_to_subscriber pf now tenant p) xs r =
    (Ok (find (here r tenant) xs \<noteq> None), r\<lparr>outbound_messages := outbound_messages r @
       map (message_for tenant p) (found (find (here r tenant) xs))\<rparr>)"
  using assms
  by (induction xs) (simp_all add: bind_op_def deliver_homed deliver_here_eq pure_op_def found_def)

text \<open>The member of a group that gets the message, and the cursor afterwards.\<close>

definition chosen_member ::
  "('w, 'ps, 'db, 'z) router_scheme \<Rightarrow> string \<Rightarrow> shared_route_key \<Rightarrow> subscription list \<Rightarrow> subscription option" where
  "chosen_member r tenant key members =
     find (here r tenant) (rotate ((case hm_get (shared_cursors r) key of Some c \<Rightarrow> c | None \<Rightarrow> 0) mod length members) members)"

lemma group_homed:
  assumes "\<forall>s\<in>set cs. homed r tenant s"
  shows "\<exists>cursors. deliver_to_group (deliver_to_subscriber pf now tenant p) allowed (key, cs) r =
    (Ok (), r\<lparr>shared_cursors := cursors, outbound_messages := outbound_messages r @
       map (message_for tenant p) (found (chosen_member r tenant key (by_client (filter allowed cs))))\<rparr>) \<and>
    (\<forall>k. k \<noteq> key \<longrightarrow> hm_get cursors k = hm_get (shared_cursors r) k)"
proof (cases "by_client (filter allowed cs) = []")
  case True
  then show ?thesis
    by (intro exI [of _ "shared_cursors r"]) (simp add: deliver_to_group_def pure_op_def chosen_member_def found_def Let_def)
next
  case False
  let ?m = "by_client (filter allowed cs)"
  let ?i = "(case hm_get (shared_cursors r) key of Some c \<Rightarrow> c | None \<Rightarrow> 0) mod length ?m"
  let ?r = "r\<lparr>shared_cursors := hm_insert key (?i + 1) (shared_cursors r)\<rparr>"
  have "\<forall>s\<in>set (rotate ?i ?m). homed ?r tenant s"
    using assms by (simp add: by_client_def)
  note first = first_homed [OF this, of pf now p]
  have n: "next_member key (length ?m) r = (Ok ?i, ?r)"
    by (simp add: next_member_def Let_def)
  have "deliver_to_group (deliver_to_subscriber pf now tenant p) allowed (key, cs) r =
      bind_op (first_delivered (deliver_to_subscriber pf now tenant p) (rotate ?i ?m)) (\<lambda>_. pure_op ()) ?r"
    using False n by (simp only: deliver_to_group_def prod.case Let_def if_False bind_op_def result.case)
  also have "\<dots> = (Ok (), r\<lparr>shared_cursors := hm_insert key (?i + 1) (shared_cursors r),
      outbound_messages := outbound_messages r @ map (message_for tenant p) (found (chosen_member r tenant key ?m))\<rparr>)"
    unfolding bind_op_def first by (simp add: pure_op_def chosen_member_def)
  finally show ?thesis
    by (intro exI [of _ "hm_insert key (?i + 1) (shared_cursors r)"]) (simp add: hm.get_put)
qed

lemma find_SomeD: "find P xs = Some x \<Longrightarrow> P x \<and> x \<in> set xs"
  by (induction xs) (auto split: if_splits)

lemma chosen_found:
  "set (found (chosen_member r tenant key m)) \<subseteq> {s \<in> set m. here r tenant s}"
  "found (chosen_member r tenant key m) = [] \<longleftrightarrow> (\<forall>s\<in>set m. \<not> here r tenant s)"
  "length (found (chosen_member r tenant key m)) \<le> 1"
  by (auto simp: chosen_member_def found_def find_None_iff dest!: find_SomeD [OF sym] find_SomeD split: option.splits)

lemma groups_homed:
  assumes "\<forall>(key, cs)\<in>set groups. \<forall>s\<in>set cs. homed r tenant s \<and> group_key tenant s = key"
  shows "\<exists>cursors chosen.
    for_op (deliver_to_group (deliver_to_subscriber pf now tenant p) allowed) groups r =
      (Ok (), r\<lparr>shared_cursors := cursors, outbound_messages := outbound_messages r @ map (message_for tenant p) chosen\<rparr>) \<and>
    map (group_key tenant) chosen =
      map fst (filter (\<lambda>(key, cs). \<exists>s\<in>set cs. allowed s \<and> here r tenant s) groups) \<and>
    set chosen \<subseteq> {s. \<exists>(key, cs)\<in>set groups. s \<in> set cs \<and> allowed s \<and> here r tenant s}"
  using assms
proof (induction groups arbitrary: r)
  case Nil
  then show ?case
    by (intro exI [of _ "shared_cursors r"] exI [of _ "[]"]) (simp add: pure_op_def)
next
  case (Cons g groups)
  obtain key cs where g: "g = (key, cs)" by fastforce
  have h: "\<forall>s\<in>set cs. homed r tenant s" using Cons.prems g by auto
  let ?f = "found (chosen_member r tenant key (by_client (filter allowed cs)))"
  obtain cursors where one: "deliver_to_group (deliver_to_subscriber pf now tenant p) allowed (key, cs) r =
      (Ok (), r\<lparr>shared_cursors := cursors, outbound_messages := outbound_messages r @ map (message_for tenant p) ?f\<rparr>)"
    using group_homed [OF h] by blast
  let ?r = "r\<lparr>shared_cursors := cursors, outbound_messages := outbound_messages r @ map (message_for tenant p) ?f\<rparr>"
  have "\<forall>(key, cs)\<in>set groups. \<forall>s\<in>set cs. homed ?r tenant s \<and> group_key tenant s = key"
    using Cons.prems by auto
  from Cons.IH [OF this] obtain cursors' chosen where
    rest: "for_op (deliver_to_group (deliver_to_subscriber pf now tenant p) allowed) groups ?r =
      (Ok (), ?r\<lparr>shared_cursors := cursors', outbound_messages := outbound_messages ?r @ map (message_for tenant p) chosen\<rparr>)"
    and keys: "map (group_key tenant) chosen =
      map fst (filter (\<lambda>(key, cs). \<exists>s\<in>set cs. allowed s \<and> here r tenant s) groups)"
    and sub: "set chosen \<subseteq> {s. \<exists>(key, cs)\<in>set groups. s \<in> set cs \<and> allowed s \<and> here r tenant s}"
    by auto
  have f: "set ?f \<subseteq> {s \<in> set cs. allowed s \<and> here r tenant s}"
    using chosen_found(1) [of r tenant key "by_client (filter allowed cs)"] by (auto simp: by_client_def)
  have "map (group_key tenant) ?f = (if \<exists>s\<in>set cs. allowed s \<and> here r tenant s then [key] else [])"
    using chosen_found(2,3) [of r tenant key "by_client (filter allowed cs)"] f Cons.prems g
    by (cases ?f) (auto simp: by_client_def)
  with one rest keys sub f g show ?case
    by (intro exI [of _ cursors'] exI [of _ "?f @ chosen"]) (auto simp: bind_op_def)
qed

lemma shared_groups_snoc: "shared_groups tenant (subs @ [s]) = add_to_group tenant s (shared_groups tenant subs)"
  by (simp add: shared_groups_def)

lemma shared_groups_ok:
  "hm_ok (shared_groups tenant subs) \<and>
   hm_get (shared_groups tenant subs) key =
     (let cs = filter (\<lambda>s. is_shared s \<and> group_key tenant s = key) subs in if cs = [] then None else Some cs)"
proof (induction subs rule: rev_induct)
  case (snoc s subs)
  then show ?case
    by (auto simp: shared_groups_snoc add_to_group_def hm.ok_put hm.get_put Let_def split: option.splits if_splits)
qed (simp add: shared_groups_def hm_ok_def)

lemma shared_groups_mem:
  "(key, cs) \<in> set (shared_groups tenant subs) \<longleftrightarrow>
     cs = filter (\<lambda>s. is_shared s \<and> group_key tenant s = key) subs \<and> cs \<noteq> []"
  using shared_groups_ok [of tenant subs key] hm.entries_get [of "shared_groups tenant subs" key cs]
  by (auto simp: Let_def split: if_splits)

lemma group_keys:
  "set (map fst (filter (\<lambda>(key, cs). \<exists>s\<in>set cs. P s) (shared_groups tenant subs))) =
     group_key tenant ` {s \<in> set subs. is_shared s \<and> P s}"
  by (force simp: shared_groups_mem filter_empty_conv image_iff)

lemma group_keys_distinct: "distinct (map fst (filter P (shared_groups tenant subs)))"
  using shared_groups_ok [of tenant subs] by (auto simp: hm_ok_def intro: distinct_map_filter)

definition takes :: "('w, 'ps, 'db, 'z) router_scheme \<Rightarrow> string \<Rightarrow> string option \<Rightarrow> subscription \<Rightarrow> bool" where
  "takes r tenant source s \<longleftrightarrow> \<not> no_local_source source s \<and> here r tenant s"

text \<open>
  C8: A publish whose subscribers all have their sessions on this node goes to every ordinary subscriber
  with a running session (its own sender excepted where it asked for that), and to exactly one member
  of every shared subscription that has such a member; nothing else is sent.
\<close>

theorem route_reaches_subscribers:
  assumes "\<not> is_publish_expired p now" and "get_subscriptions (local_topics r) tenant (topic_name p) = Ok subs"
    and "subs \<noteq> []" and "\<forall>s\<in>set subs. homed r tenant s"
  shows "\<exists>r' chosen. route pf now tenant (Publish p) source r = (Ok (), r') \<and>
    outbound_messages r' = outbound_messages r @
      map (message_for tenant p) (filter (\<lambda>s. \<not> is_shared s \<and> takes r tenant source s) subs @ chosen) \<and>
    set chosen \<subseteq> {s \<in> set subs. is_shared s \<and> takes r tenant source s} \<and>
    distinct (map (group_key tenant) chosen) \<and>
    set (map (group_key tenant) chosen) = group_key tenant ` {s \<in> set subs. is_shared s \<and> takes r tenant source s}"
proof -
  let ?r = "r\<lparr>outbound_messages := outbound_messages r @
    map (message_for tenant p) (filter (takes r tenant source) (filter (\<lambda>s. \<not> is_shared s) subs))\<rparr>"
  have m: "matching_subscriptions pf tenant (topic_name p) r = (Ok subs, r)"
    using assms(2,3) by (simp add: matching_subscriptions_def bind_op_def op_defs)
  have f: "for_op (\<lambda>item. if no_local_source source item then pure_op ()
      else bind_op (deliver_to_subscriber pf now tenant p item) (\<lambda>_. pure_op ())) (filter (\<lambda>s. \<not> is_shared s) subs) r = (Ok (), ?r)"
    using fan_out [of "filter (\<lambda>s. \<not> is_shared s) subs" r tenant source pf now p] assms(4) by (simp add: takes_def)
  have "\<forall>(key, cs)\<in>set (shared_groups tenant subs). \<forall>s\<in>set cs. homed ?r tenant s \<and> group_key tenant s = key"
    using assms(4) by (auto simp: shared_groups_mem)
  from groups_homed [OF this, of pf now p "\<lambda>s. \<not> no_local_source source s"] obtain cursors chosen where
    g: "for_op (deliver_to_group (deliver_to_subscriber pf now tenant p) (\<lambda>s. \<not> no_local_source source s))
        (shared_groups tenant subs) ?r =
      (Ok (), ?r\<lparr>shared_cursors := cursors, outbound_messages := outbound_messages ?r @ map (message_for tenant p) chosen\<rparr>)"
    and k: "map (group_key tenant) chosen = map fst (filter (\<lambda>(key, cs). \<exists>s\<in>set cs. takes r tenant source s) (shared_groups tenant subs))"
    and c: "set chosen \<subseteq> {s. \<exists>(key, cs)\<in>set (shared_groups tenant subs). s \<in> set cs \<and> takes r tenant source s}"
    by (auto simp: takes_def)
  have "route pf now tenant (Publish p) source r =
      (Ok (), ?r\<lparr>shared_cursors := cursors, outbound_messages := outbound_messages ?r @ map (message_for tenant p) chosen\<rparr>)"
    using assms(1) m f g by (simp add: route_def bind_op_def)
  moreover have "set chosen \<subseteq> {s \<in> set subs. is_shared s \<and> takes r tenant source s}"
    using c by (auto simp: shared_groups_mem)
  moreover have "distinct (map (group_key tenant) chosen)"
    by (simp only: k group_keys_distinct)
  moreover have "set (map (group_key tenant) chosen) = group_key tenant ` {s \<in> set subs. is_shared s \<and> takes r tenant source s}"
    by (simp only: k group_keys)
  ultimately show ?thesis
    by (intro exI conjI) (assumption | simp add: conj_commute)+
qed

section \<open>Shared subscriptions in turn\<close>






section \<open>Rows of a store\<close>

definition row_codec_ok :: "'a row_codec \<Rightarrow> bool" where
  "row_codec_ok codec \<longleftrightarrow> (\<forall>v d. row_to_vec codec v = Ok d \<longrightarrow> row_from_slice codec d = Ok v)"

definition row_of :: "('db \<Rightarrow> string \<Rightarrow> bytes \<Rightarrow> bytes option) \<Rightarrow> 'a row_codec \<Rightarrow> 'db \<Rightarrow> string \<Rightarrow> 'a option" where
  "row_of view codec db key =
     (case view db ''default'' (as_bytes key) of
        Some raw \<Rightarrow> (case row_from_slice codec raw of Ok v \<Rightarrow> Some v | Err _ \<Rightarrow> None)
      | None \<Rightarrow> None)"

lemma route_put_row:
  assumes "kv_laws kv view" and "row_codec_ok codec" and "route_put kv codec key v db = (res, db')"
  shows "row_of view codec db' = (case res of Ok _ \<Rightarrow> (row_of view codec db)(key \<mapsto> v) | Err _ \<Rightarrow> row_of view codec db)"
proof (cases "row_to_vec codec v")
  case (Ok d)
  with assms(3) obtain r where "kv_put kv ''default'' (as_bytes key) d db = (r, db')" "res = map_err RouteStorage r"
    by (auto simp: route_put_def bind_op_def op_defs split: prod.splits)
  with kv_writesD [OF kv_lawsD(2) [OF assms(1)]] assms(2) Ok show ?thesis
    by (cases r) (auto simp: row_of_def row_codec_ok_def fun_eq_iff)
next
  case (Err e)
  with assms(3) show ?thesis
    by (auto simp: route_put_def bind_op_def op_defs)
qed

lemma route_delete_row:
  assumes "kv_laws kv view" and "route_delete kv key db = (res, db')"
  shows "row_of view codec db' = (case res of Ok _ \<Rightarrow> (row_of view codec db)(key := None) | Err _ \<Rightarrow> row_of view codec db)"
proof -
  from assms(2) obtain r where "kv_delete kv ''default'' (as_bytes key) db = (r, db')" "res = map_err RouteStorage r"
    by (auto simp: route_delete_def map_err_op_def split: prod.splits)
  with kv_writesD [OF kv_lawsD(3) [OF assms(1)]] show ?thesis
    by (cases r) (auto simp: row_of_def fun_eq_iff)
qed


section \<open>Durable routes\<close>

definition route_laws ::
  "('w, 'ps, 'db, 'y) router_platform_scheme \<Rightarrow> ('db \<Rightarrow> string \<Rightarrow> bytes \<Rightarrow> bytes option) \<Rightarrow> ('ps \<Rightarrow> string \<Rightarrow> bytes option) \<Rightarrow> bool" where
  "route_laws pf view held \<longleftrightarrow>
     kv_laws (route_kv pf) view \<and> row_codec_ok (outbox_codec pf) \<and> row_codec_ok (inbox_codec pf) \<and>
     payload_laws (payload_ops pf) held"

lemma route_lawsD:
  assumes "route_laws pf view held"
  shows "kv_laws (route_kv pf) view" and "row_codec_ok (outbox_codec pf)" and "row_codec_ok (inbox_codec pf)"
    and "payload_laws (payload_ops pf) held"
  using assms by (simp_all add: route_laws_def)

text \<open>A route waits in the outbox: its row and its packet are there.\<close>

definition waiting ::
  "('w, 'ps, 'db, 'y) router_platform_scheme \<Rightarrow> ('db \<Rightarrow> string \<Rightarrow> bytes \<Rightarrow> bytes option) \<Rightarrow> ('ps \<Rightarrow> string \<Rightarrow> bytes option) \<Rightarrow>
   string \<Rightarrow> string \<Rightarrow> packet \<Rightarrow> ('w, 'ps, 'db, 'z) router_scheme \<Rightarrow> bool" where
  "waiting pf view held route_id key packet r \<longleftrightarrow>
     row_of view (outbox_codec pf) (route_outbox r) route_id \<noteq> None \<and>
     (\<exists>data. held (route_payloads r) key = Some data \<and> deserialize_packet pf data = Ok packet)"

lemma waiting_world [simp]: "waiting pf view held i k packet (r\<lparr>route_world := w\<rparr>) = waiting pf view held i k packet r"
  by (simp add: waiting_def)

lemma postpone_waiting:
  assumes "route_laws pf view held" and "postpone_outbox_item pf now item r = (res, r')"
    and "waiting pf view held (out_route_id item) key packet r"
  shows "waiting pf view held (out_route_id item) key packet r'"
proof -
  obtain x db where p: "route_put (route_kv pf) (outbox_codec pf) (out_route_id item)
      (item\<lparr>out_attempts := out_attempts item + 1, out_retry_at := now + retry_interval_seconds\<rparr>) (route_outbox r) = (x, db)"
    by fastforce
  with assms(2) have "r' = r\<lparr>route_outbox := db\<rparr>"
    by (auto simp: postpone_outbox_item_def with_outbox_def map_err_op_def)
  with route_put_row [OF route_lawsD(1,2) [OF assms(1)] p] assms(3) show ?thesis
    by (cases x) (auto simp: waiting_def)
qed

lemma load_route_packet_eq:
  assumes "payload_laws (payload_ops pf) held" and "held (route_payloads r) key = Some data"
    and "deserialize_packet pf data = Ok packet"
  shows "load_route_packet pf key r = (Ok packet, r) \<or> (\<exists>e. load_route_packet pf key r = (Err e, r))"
proof (cases "ps_get (payload_ops pf) key (route_payloads r)")
  case (Ok x)
  then have "x = Some data"
    using payload_lawsD(3) [OF assms(1) Ok] assms(2) by simp
  with Ok assms(3) show ?thesis
    by (simp add: load_route_packet_def with_payloads_def bind_op_def op_defs)
qed (simp add: load_route_packet_def with_payloads_def bind_op_def op_defs)

text \<open>
  C9: A route in the outbox that has neither expired nor used up its attempts is not lost by an attempt to
  send it: unless the destination has accepted the request, its row and its packet are still there.
\<close>

theorem outbox_keeps_until_accepted:
  assumes "route_laws pf view held" and "waiting pf view held (out_route_id item) (out_packet_key item) packet r"
    and "\<not> is_packet_expired packet now" and "now < out_expiry_at item" and "out_attempts item < max_retry_count"
    and "dispatch_outbox_item pf now item r = (res, r')"
  shows "waiting pf view held (out_route_id item) (out_packet_key item) packet r' \<or>
    (\<exists>dest w w'. get_node pf (out_dest_node_id item) (route_world r) = (Some dest, w) \<and>
       rpc_route pf (rpc_addr dest) (request_of item packet) w = (Ok (), w'))"
proof -
  let ?w = "waiting pf view held (out_route_id item) (out_packet_key item) packet"
  note postponed = postpone_waiting [OF assms(1)]
  obtain data where data: "held (route_payloads r) (out_packet_key item) = Some data" "deserialize_packet pf data = Ok packet"
    using assms(2) by (auto simp: waiting_def)
  obtain node w where n: "get_node pf (out_dest_node_id item) (route_world r) = (node, w)" by fastforce
  let ?r = "r\<lparr>route_world := w\<rparr>"
  have sent: "?w r' \<or> (\<exists>w'. rpc_route pf (rpc_addr dest) (request_of item packet) w = (Ok (), w'))"
    if s: "send_outbox_item pf now item dest packet ?r = (res, r')" for dest
  proof (cases "packet_text_ok pf packet")
    case (Ok u)
    obtain x w' where rpc: "rpc_route pf (rpc_addr dest) (request_of item packet) w = (x, w')" by fastforce
    show ?thesis
    proof (cases x)
      case (Err e)
      with s Ok rpc have "\<exists>res. postpone_outbox_item pf now item (?r\<lparr>route_world := w'\<rparr>) = (res, r')"
        by (auto simp: send_outbox_item_def bind_op_def op_defs route_to_other_node_def with_world_def split: prod.splits result.splits)
      with postponed assms(2) show ?thesis by (metis waiting_world)
    qed (use rpc in auto)
  qed (use s assms(2) in \<open>auto simp: send_outbox_item_def bind_op_def op_defs\<close>)
  have l: "load_route_packet pf (out_packet_key item) ?r = (Ok packet, ?r) \<or>
      (\<exists>e. load_route_packet pf (out_packet_key item) ?r = (Err e, ?r))"
    by (rule load_route_packet_eq [OF route_lawsD(4) [OF assms(1)]]) (use data in simp_all)
  have now: "\<not> (out_expiry_at item \<le> now \<or> out_attempts item \<ge> max_retry_count)"
    using assms(4,5) by (simp add: not_le)
  show ?thesis
  proof (cases "out_retry_at item > now")
    case True
    with assms(2,6) now show ?thesis by (simp add: dispatch_outbox_item_def pure_op_def)
  next
    case False
    with assms(6) now n have d: "(case node of
           None \<Rightarrow> bind_op (postpone_outbox_item pf now item) (\<lambda>_. fail_op (node_missing (out_dest_node_id item)))
         | Some dest \<Rightarrow> bind_op (load_route_packet pf (out_packet_key item)) (\<lambda>packet.
             if is_packet_expired packet now then drop_outbox_item pf item
             else send_outbox_item pf now item dest packet)) ?r = (res, r')"
      by (simp add: dispatch_outbox_item_def bind_op_def with_world_def)
    show ?thesis
    proof (cases node)
      case None
      with d have "\<exists>res. postpone_outbox_item pf now item ?r = (res, r')"
        by (auto simp: bind_op_def fail_op_def split: prod.splits result.splits)
      with postponed assms(2) show ?thesis by (metis waiting_world)
    next
      case (Some dest)
      with d l assms(2,3) sent [of dest] n show ?thesis
        by (auto simp: bind_op_def)
    qed
  qed
qed

section \<open>Copies of a route\<close>

text \<open>
  Operations that relate the state before to the state after in a given way. The contract of such a
  relation, that it holds of no step and of steps in sequence, is enough for the rules.
\<close>

definition relates :: "('s \<Rightarrow> 's \<Rightarrow> bool) \<Rightarrow> ('a, 'e, 's) op \<Rightarrow> bool" where
  "relates R m \<longleftrightarrow> (\<forall>s x s'. m s = (x, s') \<longrightarrow> R s s')"

lemma relatesD: "relates R m \<Longrightarrow> m s = (x, s') \<Longrightarrow> R s s'"
  by (auto simp: relates_def)

locale kept_relation =
  fixes kept :: "'s \<Rightarrow> 's \<Rightarrow> bool"
  assumes kept_refl: "kept s s"
    and kept_trans: "kept s t \<Longrightarrow> kept t u \<Longrightarrow> kept s u"
begin

lemma relates_basic:
  "relates kept (pure_op a)" "relates kept (fail_op e)" "relates kept (lift_op x)"
  by (auto simp: relates_def op_defs kept_refl)

lemma relates_bind: "relates kept m \<Longrightarrow> (\<And>a. relates kept (f a)) \<Longrightarrow> relates kept (bind_op m f)"
  unfolding relates_def bind_op_def by (auto split: prod.splits result.splits) (meson kept_trans)

lemma relates_map_err: "relates kept m \<Longrightarrow> relates kept (map_err_op g m)"
  unfolding relates_def map_err_op_def by (auto split: prod.splits)

lemma relates_try: "relates kept m \<Longrightarrow> relates kept (try_op m)"
  unfolding relates_def try_op_def by (auto split: prod.splits)

lemmas relates_rules = relates_basic relates_bind relates_map_err relates_try

end

text \<open>Every row of the inbox stays.\<close>

definition rows_kept ::
  "('db \<Rightarrow> string \<Rightarrow> bytes \<Rightarrow> bytes option) \<Rightarrow> inbox_item row_codec \<Rightarrow> ('w, 'ps, 'db, 'z) router_scheme \<Rightarrow>
   ('w, 'ps, 'db, 'z) router_scheme \<Rightarrow> bool" where
  "rows_kept view codec r r' \<longleftrightarrow>
     (\<forall>i. row_of view codec (route_inbox r) i \<noteq> None \<longrightarrow> row_of view codec (route_inbox r') i \<noteq> None)"

text \<open>No message is handed to a session.\<close>

definition same_messages :: "('w, 'ps, 'db, 'z) router_scheme \<Rightarrow> ('w, 'ps, 'db, 'z) router_scheme \<Rightarrow> bool" where
  "same_messages r r' \<longleftrightarrow> outbound_messages r' = outbound_messages r"

interpretation rows: kept_relation "rows_kept view codec" for view codec
  by unfold_locales (auto simp: rows_kept_def)

interpretation msgs: kept_relation same_messages
  by unfold_locales (auto simp: same_messages_def)

abbreviation keeps_rows ::
  "('w, 'ps, 'db, 'y) router_platform_scheme \<Rightarrow> ('db \<Rightarrow> string \<Rightarrow> bytes \<Rightarrow> bytes option) \<Rightarrow>
   ('a, 'e, ('w, 'ps, 'db, 'z) router_scheme) op \<Rightarrow> bool" where
  "keeps_rows pf view \<equiv> relates (rows_kept view (inbox_codec pf))"


lemma keeps_with:
  "keeps_rows pf view (with_payloads m)" "keeps_rows pf view (with_world m2)"
  "relates same_messages (with_payloads m4)" "relates same_messages (with_inbox m3)"
  by (auto simp: relates_def rows_kept_def same_messages_def with_payloads_def with_world_def with_inbox_def split: prod.splits)

lemmas message_intro = msgs.relates_rules keeps_with(3,4)













section \<open>Overlapping runs over the inbox\<close>

text \<open>
  The processing of a row waits for the session. Meanwhile the timer may start on the same row, which is
  still pending: the one started when the route arrived and those of the timer are tasks that take
  their steps in any order.
\<close>

datatype inbox_task =
    Ready inbox_item
  | Handing inbox_item packet
  | Answered inbox_item "(unit, router_error) result"
  | Ended

inductive inbox_step ::
  "('w, 'ps, 'db, 'y) router_platform_scheme \<Rightarrow> u64 \<Rightarrow> inbox_task list \<times> ('w, 'ps, 'db, 'z) router_scheme \<Rightarrow>
   inbox_task list \<times> ('w, 'ps, 'db, 'z) router_scheme \<Rightarrow> bool"
  for pf now where
  Loads: "i < length ts \<Longrightarrow> ts ! i = Ready item \<Longrightarrow> begin_inbox_item pf now item r = (Ok (Some packet), r') \<Longrightarrow>
    inbox_step pf now (ts, r) (ts[i := Handing item packet], r')"
| Leaves: "i < length ts \<Longrightarrow> ts ! i = Ready item \<Longrightarrow> begin_inbox_item pf now item r = (res, r') \<Longrightarrow>
    \<forall>packet. res \<noteq> Ok (Some packet) \<Longrightarrow> inbox_step pf now (ts, r) (ts[i := Ended], r')"
| Hands: "i < length ts \<Longrightarrow> ts ! i = Handing item packet \<Longrightarrow>
    route_to_local_session_durable pf (in_tenant_id item) (in_target_client_id item) packet r = (res, r') \<Longrightarrow>
    inbox_step pf now (ts, r) (ts[i := Answered item res], r')"
| Records: "i < length ts \<Longrightarrow> ts ! i = Answered item res \<Longrightarrow> finish_inbox_item pf now item res r = (x, r') \<Longrightarrow>
    inbox_step pf now (ts, r) (ts[i := Ended], r')"

inductive_cases inbox_stepE: "inbox_step pf now (ts, r) (ts', r')"

text \<open>How many more messages the tasks may hand over.\<close>

fun task_budget :: "inbox_task \<Rightarrow> nat" where
  "task_budget (Ready _) = 1"
| "task_budget (Handing _ _) = 1"
| "task_budget (Answered _ _) = 0"
| "task_budget Ended = 0"

definition handed :: "inbox_task list \<times> ('w, 'ps, 'db, 'z) router_scheme \<Rightarrow> nat" where
  "handed = (\<lambda>(ts, r). sum_list (map task_budget ts) + length (outbound_messages r))"

lemma mute_steps:
  "relates same_messages (begin_inbox_item pf now item)" "relates same_messages (finish_inbox_item pf now item x)"
  unfolding begin_inbox_item_def finish_inbox_item_def complete_inbox_item_def load_route_packet_def
  by (auto intro!: message_intro split: option.split result.split)

lemma begin_messages:
  "begin_inbox_item pf now item r = (res, r') \<Longrightarrow> outbound_messages r' = outbound_messages r"
  using relatesD [OF mute_steps(1)] by (auto simp: same_messages_def)

lemma finish_messages:
  "finish_inbox_item pf now item x r = (res, r') \<Longrightarrow> outbound_messages r' = outbound_messages r"
  using relatesD [OF mute_steps(2)] by (auto simp: same_messages_def)

lemma durable_messages:
  "route_to_local_session_durable pf tenant client packet r = (res, r') \<Longrightarrow>
   length (outbound_messages r') \<le> length (outbound_messages r) + 1"
  by (auto simp: route_to_local_session_durable_def with_world_def split: if_splits prod.splits result.splits)

lemma budget_update:
  "i < length ts \<Longrightarrow> sum_list (map task_budget (ts[i := t])) + task_budget (ts ! i) = sum_list (map task_budget ts) + task_budget t"
proof (induction ts arbitrary: i)
  case (Cons a ts)
  then show ?case by (cases i) auto
qed simp

lemma step_handed: "inbox_step pf now c c' \<Longrightarrow> handed c' \<le> handed c"
proof (induction rule: inbox_step.induct)
  case (Loads i ts item r packet r')
  then show ?case using budget_update [of i ts "Handing item packet"] by (simp add: handed_def begin_messages)
next
  case (Leaves i ts item r res r')
  then show ?case using budget_update [of i ts Ended] by (simp add: handed_def begin_messages)
next
  case (Hands i ts item packet r res r')
  then show ?case using budget_update [of i ts "Answered item res"] durable_messages [OF Hands(3)] by (simp add: handed_def)
next
  case (Records i ts item res r x r')
  then show ?case using budget_update [of i ts Ended] by (simp add: handed_def finish_messages)
qed

lemma steps_handed: "(inbox_step pf now)\<^sup>*\<^sup>* c c' \<Longrightarrow> handed c' \<le> handed c"
  by (induction rule: rtranclp_induct) (auto dest: step_handed)

text \<open>
  Tasks over the inbox hand over at most one message each, so that a row worked on by one task is
  delivered at most once.
\<close>

lemma each_task_delivers_once:
  assumes "(inbox_step pf now)\<^sup>*\<^sup>* (map Ready items, r) (ts, r')"
  shows "length (outbound_messages r') \<le> length (outbound_messages r) + length items"
proof -
  have "sum_list (map task_budget (map Ready items)) = length items"
    by (induction items) auto
  with steps_handed [OF assms] show ?thesis
    by (simp add: handed_def)
qed



section \<open>Examples\<close>

text \<open>A codec that knows one row, and a node that reaches no other node and whose sessions accept.\<close>

definition one_row :: "'a \<Rightarrow> 'a row_codec" where
  "one_row v = \<lparr>row_to_vec = \<lambda>x. if x = v then Ok [1] else Err '''',
     row_from_slice = \<lambda>d. if d = [1] then Ok v else Err ''''\<rparr>"

lemma one_row_ok: "row_codec_ok (one_row v)"
  by (simp add: row_codec_ok_def one_row_def)

definition example_request :: route_request where
  "example_request = \<lparr>rq_tenant_id = ''t'', rq_packet = Publish example_update, rq_route_id = ''r'',
     rq_source_node_id = 2, rq_target_client_id = ''c'', rq_target_qos = 1, rq_expiry_at = 1000\<rparr>"

definition example_outgoing :: outbox_item where
  "example_outgoing = \<lparr>out_route_id = ''r'', out_tenant_id = ''t'', out_source_node_id = 1, out_dest_node_id = 2,
     out_target_client_id = ''c'', out_target_qos = 1, out_packet_key = ''p'', out_retry_at = 0, out_attempts = 0,
     out_expiry_at = 1000\<rparr>"

definition route_platform :: "(session_state_storage, mem_db, mem_db) router_platform" where
  "route_platform = actor_platform.extend open_platform (router_platform.fields
     (\<lambda>_. Ok ()) (\<lambda>_ _ w. (Ok [], w)) (\<lambda>_ _ w. (Ok [], w)) (\<lambda>_ _ w. (Ok None, w)) (\<lambda>_ w. (None, w))
     (\<lambda>_ _ w. (Err ''unreachable'', w)) (\<lambda>_ _ _ w. (Ok (), w)) (\<lambda>w. (Ok [], w)) mem_kv
     (one_row example_outgoing) (one_row (new_inbox_item 5 example_request)))"

lemma route_platform_simps [simp]:
  "payload_ops route_platform = mem_store" "route_kv route_platform = mem_kv"
  "outbox_codec route_platform = one_row example_outgoing"
  "inbox_codec route_platform = one_row (new_inbox_item 5 example_request)"
  "session_accepts route_platform tenant client packet w = (Ok (), w)"
  "rpc_route route_platform addr m w = (Err ''unreachable'', w)"
  "packet_to_json route_platform packet = Ok [1]" "packet_of_json route_platform [1] = Ok (Publish example_update)"
  by (simp_all add: route_platform_def open_platform_def node_defs router_platform.defs)

lemma route_platform_laws: "route_laws route_platform mem_view mem_held"
  by (simp add: route_laws_def mem_kv_laws one_row_ok mem_store_laws)

text \<open>One tenant whose subscribers all have the filter \<open>#\<close>.\<close>

definition example_router :: "subscription list \<Rightarrow> (session_state_storage, mem_db, mem_db) router" where
  "example_router subs =
     \<lparr>current_node_id = 1,
      local_topics = \<lparr>retain_message_recorder = [], topic_info_recorder = [],
        topic_tree = [(''t'', TopicStorageNode ''/'' [] None
          [(''#'', TopicStorageNode ''#'' (map (\<lambda>s. (client_identifier s, s)) subs) None [])])]\<rparr>,
      session_nodes = [(''t'', map (\<lambda>s. (client_identifier s, 1)) subs)],
      session_registry = map (\<lambda>s. (''t'', client_identifier s)) subs, shared_cursors = [],
      route_outbox = (\<lambda>_. RBT.insert (as_bytes ''r'') [1] RBT.empty), route_inbox = (\<lambda>_. RBT.empty),
      route_payloads = (\<lambda>_. RBT.insert (as_bytes ''p'') [1] RBT.empty), route_world = env_world leader_env,
      outbound_messages = [], route_uuids = 0\<rparr>"

lemma example_router_subs:
  "get_subscriptions (local_topics (example_router subs)) ''t'' ''a/b'' = Ok subs"
  "s \<in> set subs \<Longrightarrow> here (example_router subs) ''t'' s"
  by (auto simp: example_router_def get_subscriptions_def get_leaf_def node_get_subscriptions_def here_def o_def)

definition plain_sub :: subscription where
  "plain_sub = \<lparr>client_identifier = ''c'', sub_qos = 1, sub_no_local = False, sub_retain_as_published = False,
     shared_group = None, sub_topic_filter = ''#''\<rparr>"

definition shared_sub :: "string \<Rightarrow> subscription" where
  "shared_sub client = \<lparr>client_identifier = client, sub_qos = 1, sub_no_local = False, sub_retain_as_published = False,
     shared_group = Some ''g'', sub_topic_filter = ''#''\<rparr>"

lemma example_homed:
  "homed (example_router [plain_sub, shared_sub ''x'', shared_sub ''y'']) ''t'' plain_sub"
  "homed (example_router [plain_sub, shared_sub ''x'', shared_sub ''y'']) ''t'' (shared_sub ''x'')"
  "homed (example_router [plain_sub, shared_sub ''x'', shared_sub ''y'']) ''t'' (shared_sub ''y'')"
  "homed (example_router [shared_sub ''y'', shared_sub ''x'']) ''t'' (shared_sub ''x'')"
  "homed (example_router [shared_sub ''y'', shared_sub ''x'']) ''t'' (shared_sub ''y'')"
  by (simp_all add: homed_def example_router_def plain_sub_def shared_sub_def)

lemma example_update_simps [simp]:
  "topic_name example_update = ''a/b''" "\<not> is_publish_expired example_update now"
  by (simp_all add: example_update_def is_publish_expired_def)

theorem route_reaches_subscribers_witness:
  "\<exists>r' chosen. route route_platform 0 ''t'' (Publish example_update) None
       (example_router [plain_sub, shared_sub ''x'', shared_sub ''y'']) = (Ok (), r') \<and>
     set chosen \<subseteq> {shared_sub ''x'', shared_sub ''y''} \<and>
     outbound_messages r' = map (message_for ''t'' example_update) (plain_sub # chosen)"
proof -
  let ?subs = "[plain_sub, shared_sub ''x'', shared_sub ''y'']"
  have s: "\<not> is_shared plain_sub" "is_shared (shared_sub c)" "\<not> no_local_source None u" for c u
    by (simp_all add: is_shared_def plain_sub_def shared_sub_def no_local_source_def)
  have h: "here (example_router ?subs) ''t'' plain_sub"
    by (rule example_router_subs(2)) simp
  have "\<forall>s\<in>set ?subs. homed (example_router ?subs) ''t'' s"
    by (simp add: example_homed)
  from route_reaches_subscribers [of example_update 0 "example_router ?subs" "''t''" ?subs route_platform None, OF _ _ _ this]
  obtain r' chosen where "route route_platform 0 ''t'' (Publish example_update) None (example_router ?subs) = (Ok (), r')"
    "outbound_messages r' = outbound_messages (example_router ?subs) @ map (message_for ''t'' example_update)
      (filter (\<lambda>s. \<not> is_shared s \<and> takes (example_router ?subs) ''t'' None s) ?subs @ chosen)"
    "set chosen \<subseteq> {s \<in> set ?subs. is_shared s \<and> takes (example_router ?subs) ''t'' None s}"
    by (auto simp: example_router_subs(1))
  moreover have "outbound_messages (example_router ?subs) = []"
    by (simp add: example_router_def)
  ultimately show ?thesis
    using s h by (intro exI [of _ r'] exI [of _ chosen]) (auto simp: takes_def)
qed



lemma example_route_waits:
  "waiting route_platform mem_view mem_held ''r'' ''p'' (Publish example_update) (example_router subs)"
  by (simp add: waiting_def row_of_def example_router_def mem_view_def one_row_def rocks_view_def deserialize_packet_def
      deserialize_stored_packet_def)

theorem outbox_keeps_until_accepted_witness:
  "waiting route_platform mem_view mem_held ''r'' ''p'' (Publish example_update)
     (snd (dispatch_outbox_item route_platform 5 example_outgoing (example_router [])))"
proof -
  obtain res r' where d: "dispatch_outbox_item route_platform 5 example_outgoing (example_router []) = (res, r')" by fastforce
  have "waiting route_platform mem_view mem_held (out_route_id example_outgoing) (out_packet_key example_outgoing)
      (Publish example_update) (example_router [])"
    using example_route_waits by (simp add: example_outgoing_def)
  from outbox_keeps_until_accepted [OF route_platform_laws this _ _ _ d] d show ?thesis
    by (simp add: example_outgoing_def max_retry_count_def is_packet_expired_def)
qed







end
