(* ===== verification/Spec2Isabelle.thy ===== *)
theory Spec2Isabelle
  imports Connection Topic_State_Machine Session_Store Session_Actor_Correct Router
begin

text \<open>
  Verification of YedMQ, a clustered MQTT broker written in Rust. Sources are named relative to \<open>src/\<close>.

  \<^bold>\<open>The program.\<close> A connection reads bytes from a client, cuts them into MQTT packets
  (\<open>mqtt/src/v5\<close>, \<open>broker/src/connection.rs\<close>) and hands them to the client's session. The session
  exchanges acknowledgements (\<open>inflight.rs\<close>), keeps what it must not lose in a replicated session
  state (\<open>raft/session_state\<close>) and its message bodies in a payload store (\<open>raft/payload\<close>), and
  publishes through the topic store (\<open>topic\<close>, \<open>raft/topic\<close>), which knows the subscriptions and the
  retained messages. The stores are raft groups: a write on any node goes to the leader, enters the
  log on every node and is applied there.

  \<^bold>\<open>Conventions.\<close> Machine integers are words of their width; strings are the lists of their UTF-8
  bytes; a \<open>HashMap\<close> is an association list with distinct keys (\<open>Hash_Map\<close>), and no property depends
  on its order. Results are values of \<open>result\<close>, and a stateful fallible operation is an \<open>op\<close>
  (\<open>Effects\<close>): a function from the state to a result and a state, also on the error path. Panics are
  errors. Clocks, random identifiers and libraries (\<open>openraft\<close>, \<open>rocksdb\<close>, \<open>tonic\<close>, \<open>prost\<close>,
  \<open>serde_json\<close>, \<open>base64\<close>) are arguments; what is relied on of them are the named predicates
  \<open>kv_laws\<close>, \<open>payload_laws\<close>, \<open>codec_ok\<close>, \<open>metadata_laws\<close> and the locales below, each shown to be
  satisfiable by the instance the witnesses use.

  \<^bold>\<open>Shared theories.\<close>
  \<^item> \<open>Broker_Prelude\<close>: integers, results, byte order, UTF-8, and the locales of decoders and codecs
    (what a parser consumes, extension by further input, injectivity of an encoder).
  \<^item> \<open>Effects\<close>: operations with state and errors. \<open>Hash_Map\<close>: maps, with the locale \<open>keyed_map\<close>.

  \<^bold>\<open>Wire format\<close> (\<open>mqtt/src/packet.rs\<close>, \<open>mqtt/src/v5\<close>). \<open>Mqtt_Packet\<close> has the packets, \<open>V5_Common\<close>
  the primitive fields, \<open>V5_Fixed_Header\<close>, \<open>V5_Reason_Code\<close> and \<open>V5_Properties\<close> what the packets
  share, \<open>V5_Replies\<close> and \<open>V5_Requests\<close> a parser and an encoder per packet type, \<open>V5_Codec\<close> the
  dispatch. Shown: encoding then parsing gives the packet back, whatever follows it; the parser stays
  inside the frame; a strict prefix is incomplete and never malformed; parsed packets are well formed.
  The loop over a variable byte integer ends because at most four bytes are read. \<open>Mqtt3_Packet\<close>
  (\<open>mqtt/src/lib.rs\<close>, \<open>mqtt/src/v3\<close>) has the packets of MQTT 3.1.1, their builders and encoders and the
  conversions from and to the packets of the broker: which packets can be converted, that nothing
  3.1.1 can carry is lost, the lengths written, and the flag bits that are wrong. \<open>Utf8_Lossy\<close> is
  \<open>String::from_utf8_lossy\<close>.

  \<^bold>\<open>Connection\<close> (\<open>connection.rs\<close>): the read loop over a list of reads and what is taken from CONNECT.
  Shown: however the stream is cut into reads, the packets sent are delivered in order; one
  consequence of the parser's treatment of overlong fields is shown as a fault.

  \<^bold>\<open>Topics.\<close> \<open>Topic_Filter\<close> (\<open>topic/shared_subscription.rs\<close>) has the filter syntax, \<open>Topic_Storage\<close> the
  trees of \<open>topic/topic_storage.rs\<close> and what a walk through them finds, \<open>Topic_Store\<close> the operations of
  the store and their refinement of maps from filters to subscriptions and from topics to retained
  packets. \<open>Topic_State_Machine\<close> (\<open>raft/topic\<close>) applies the log: invariant along every log, snapshots,
  restart.

  \<^bold>\<open>Sessions.\<close> \<open>Message_Expiry\<close> (\<open>mqtt_message_expiry.rs\<close>); \<open>Inflight\<close> (\<open>inflight.rs\<close>), the exchanges per
  packet identifier; \<open>Session_State\<close> (\<open>session/session_state_storage.rs\<close>) with the reference counts of
  payload keys, proved once in the locale \<open>ref_discipline\<close> and used for the bound that always holds
  and for the equality that holds on well-behaved logs; \<open>Session_State_Machine\<close> and \<open>Session_Store\<close>
  (\<open>raft/session_state\<close>) apply the log, append behind the payload barrier, purge, restart and install
  snapshots. Shown: a payload in use is not removed, an entry does not enter the log before its
  payload is there, a snapshot brings its payloads or leaves the node unready.

  \<^bold>\<open>Replication.\<close> \<open>Raft_Common\<close> and \<open>Raft_Log\<close> (the log of \<open>raft/*/store.rs\<close> on the database),
  \<open>Payload_Store\<close> (\<open>raft/payload/store.rs\<close>, \<open>rocksdb.rs\<close>), \<open>Payload_Transfer\<close> (\<open>transfer.rs\<close>,
  \<open>service.rs\<close>, \<open>client.rs\<close>: chunks, uploads, bulk fetches within the message size limit),
  \<open>Grpc_Status\<close> (\<open>rpc/grpc_status.rs\<close>) and \<open>Session_Service\<close> (\<open>session_state_raft_actor.rs\<close>,
  \<open>rpc/raft_service.rs\<close>, \<open>session_state_service.rs\<close>): a write on a follower is the leader's write,
  payload first, and the errors callers act on survive the way back.

  \<^bold>\<open>The session actor\<close> (\<open>session/session_actor.rs\<close>, \<open>stored_packet.rs\<close>). \<open>Session_Delivery\<close> is the way of a
  publish to its client: identifier, payload store, registration with the exchanges and with the
  replicated session, then the connection or the queue of offline messages; and the retries. Shown: what
  is reported as sent can be sent again, what comes for an absent client is queued. \<open>Session_Actor\<close> has
  the actor's state as an extension of that of \<open>Session_Delivery\<close> and one function per handler, from
  the packets of the client to reconnection, timers, wills and the start of the actor.
  \<open>Session_Actor_Correct\<close> shows which handlers leave what alone (the predicates \<open>keeps\<close> and \<open>quiet\<close> with
  their rules), that every run of messages stays within the receive maximum and sends a will at most
  once, how a full quota, an acknowledgement and SUBSCRIBE are handled, and that the start recovers
  the offline messages. Two departures from the protocol are shown as such.

  \<^bold>\<open>The router\<close> (\<open>router_actor.rs\<close>, \<open>route_store.rs\<close>). \<open>Router\<close> has the routing of a publish to the sessions of
  this node and, through the outbox and the other node's inbox, to those of others. Topic service,
  session registry, resolver, remote service and the JSON of the rows are arguments; the laws of the
  key-value store and of the payload store are hypotheses. Shown: who gets a publish, the turns of a
  shared subscription, that a route stays in the outbox until it is accepted and that copies of an
  accepted one are ignored. The locale \<open>kept_relation\<close> carries what the steps over the inbox leave alone.
  Tasks over the inbox that overlap are a step relation of their own, in which a message can be
  delivered twice.

  \<^bold>\<open>Bounds.\<close> Loops are recursions on their data or have a termination proof (the search for a packet
  identifier ends at 65535, chunks at the length of the payload). One loop has fuel, \<open>recover_offline\<close>,
  which asks another node until the queue is empty; one round more than there are messages is shown to
  be enough. The waits of the payload barrier are the retries of the
  source, given as the list of what the store holds at each.

  \<^bold>\<open>Not modelled.\<close> The parsers of MQTT 3.1.1, which are combinators of the \<open>nom\<close> library; the
  raft group of the session registry and the topic raft actor, which repeat the structure of the
  modelled ones; the messages of the consensus protocol itself, which are handed to \<open>openraft\<close>;
  listeners, timers, the REST interface, the plugin host and its plugins, configuration and startup,
  which are I/O around libraries. Actors handle one message at a time, so an operation is a
  function on its actor's state; the futures a handler starts run to their end before the next message, and interleavings
  of spawned ones are modelled for the inbox of the router only.
\<close>

text \<open>
  Every variable byte integer the encoder accepts is read back by the parser, whatever bytes
  follow it, and nothing beyond its own bytes is consumed.
\<close>

theorem variable_byte_integer_roundtrip:
  assumes "encode_variable_byte_integer v [] = Ok bs"
  shows "parse_variable_byte_integer (bs @ rest) = Ok (rest, v)"
  using vbi.enc_dec [OF TrueI assms] by auto

theorem variable_byte_integer_roundtrip_witness:
  "parse_variable_byte_integer ([0x80, 0x01] @ [7]) = Ok ([7], 128)"
  by (rule variable_byte_integer_roundtrip)
    (simp add: encode_variable_byte_integer_def MAX_VARIABLE_BYTE_INTEGER_def
      encode_variable_byte_integer_loop.simps)

end
